(* ===== verification/Prelude.thy ===== *)
theory Prelude
  imports Main "HOL-Library.Char_ord" "HOL-Library.List_Lexorder" "HOL-Library.Product_Lexorder"
    "HOL-Library.Sublist"
begin

text \<open>
  Shared vocabulary of the development: the types that the components exchange, the
  collections of rewrite rules their proofs use, and list functions that several modules of
  the program define for themselves (order-preserving duplicate removal, first match,
  longest prefix of valid items).

  A Python \<open>str\<close> is a HOL \<^typ>\<open>string\<close> with one \<^typ>\<open>char\<close> per code point, so the texts of
  the model range over the code points 0 to 255 (Latin-1). An \<open>int\<close> of the program is an
  \<^typ>\<open>int\<close>; a length or a position, never negative, is a \<^typ>\<open>nat\<close>. A function that returns
  \<open>str | None\<close> returns a \<^typ>\<open>string option\<close>, and one that raises returns a sum whose left
  side is the exception.
\<close>

section \<open>Types shared by the components\<close>

type_synonym pystr = string
type_synonym path = "string list"

text \<open>The exceptions that the modelled code raises or catches, each with its message.\<close>

datatype exn =
    ValueError pystr
  | RuntimeError pystr
  | OSError pystr
  | UnicodeError pystr
  | TimeoutExpired pystr
  | TypeError pystr

primrec exn_message :: "exn \<Rightarrow> pystr" where
  "exn_message (ValueError m) = m"
| "exn_message (RuntimeError m) = m"
| "exn_message (OSError m) = m"
| "exn_message (UnicodeError m) = m"
| "exn_message (TimeoutExpired m) = m"
| "exn_message (TypeError m) = m"

named_theorems early_return "unfolding rules for chains of guards with early returns"
named_theorems frame "fields of a state that an operation leaves unchanged"

section \<open>Duplicate removal in first-occurrence order\<close>

text \<open>
  \<open>list(dict.fromkeys(xs))\<close> and the \<open>_dedupe\<close> loops of the program keep the first
  occurrence of every item.
\<close>

fun dedupe_onto :: "'a list \<Rightarrow> 'a list \<Rightarrow> 'a list" where
  "dedupe_onto acc [] = acc"
| "dedupe_onto acc (x # xs) = dedupe_onto (if x \<in> set acc then acc else acc @ [x]) xs"

definition dedupe :: "'a list \<Rightarrow> 'a list" where
  "dedupe xs = dedupe_onto [] xs"

lemma set_dedupe_onto: "set (dedupe_onto acc xs) = set acc \<union> set xs"
  by (induction acc xs rule: dedupe_onto.induct) auto

lemma distinct_dedupe_onto: "distinct acc \<Longrightarrow> distinct (dedupe_onto acc xs)"
  by (induction acc xs rule: dedupe_onto.induct) auto

lemma dedupe_onto_distinct:
  "distinct (acc @ xs) \<Longrightarrow> dedupe_onto acc xs = acc @ xs"
  by (induction acc xs rule: dedupe_onto.induct) auto

lemma set_dedupe [simp]: "set (dedupe xs) = set xs"
  by (simp add: dedupe_def set_dedupe_onto)

lemma distinct_dedupe [simp]: "distinct (dedupe xs)"
  by (simp add: dedupe_def distinct_dedupe_onto)

lemma dedupe_id: "distinct xs \<Longrightarrow> dedupe xs = xs"
  by (simp add: dedupe_def dedupe_onto_distinct)

lemma dedupe_idem [simp]: "dedupe (dedupe xs) = dedupe xs"
  by (simp add: dedupe_id)

lemma dedupe_Nil [simp]: "dedupe [] = []"
  by (simp add: dedupe_def)

lemma dedupe_eq_Nil [simp]: "dedupe xs = [] \<longleftrightarrow> xs = []"
  by (metis dedupe_Nil set_dedupe set_empty)

lemma dedupe_onto_extends: "\<exists>zs. dedupe_onto acc xs = acc @ zs \<and> subseq zs xs"
proof (induction acc xs rule: dedupe_onto.induct)
  case (1 acc)
  then show ?case by simp
next
  case (2 acc x xs)
  then show ?case by (cases "x \<in> set acc") auto
qed

lemma subseq_dedupe: "subseq (dedupe xs) xs"
  using dedupe_onto_extends [of "[]" xs] by (auto simp: dedupe_def)

lemma length_dedupe_le: "length (dedupe xs) \<le> length xs"
  using subseq_dedupe list_emb_length by blast

section \<open>Guards with early return\<close>

text \<open>
  A loop that returns at the first offending item is the first \<open>Some\<close> of a check over the
  items.
\<close>

fun first_error :: "('a \<Rightarrow> 'e option) \<Rightarrow> 'a list \<Rightarrow> 'e option" where
  "first_error f [] = None"
| "first_error f (x # xs) = (case f x of Some e \<Rightarrow> Some e | None \<Rightarrow> first_error f xs)"

lemma first_error_None [simp]: "first_error f xs = None \<longleftrightarrow> (\<forall>x\<in>set xs. f x = None)"
  by (induction xs) (auto split: option.splits)

lemma first_error_Some: "first_error f xs = Some e \<Longrightarrow> \<exists>x\<in>set xs. f x = Some e"
  by (induction xs) (auto split: option.splits)

lemma first_error_append:
  "first_error f (xs @ ys) = (case first_error f xs of Some e \<Rightarrow> Some e | None \<Rightarrow> first_error f ys)"
proof (induction xs)
  case (Cons x xs)
  then show ?case by (cases "f x") simp_all
qed simp

lemma first_error_cong [fundef_cong]:
  "xs = ys \<Longrightarrow> (\<And>x. x \<in> set ys \<Longrightarrow> f x = g x) \<Longrightarrow> first_error f xs = first_error g ys"
  by (induction ys arbitrary: xs) (auto split: option.splits)

section \<open>Lists\<close>

lemma dropWhile_append_all: "\<forall>x\<in>set xs. P x \<Longrightarrow> dropWhile P (xs @ ys) = dropWhile P ys"
  by (induction xs) auto

lemma dropWhile_idem [simp]: "dropWhile P (dropWhile P xs) = dropWhile P xs"
  by (induction xs) auto

lemma dropWhile_hd_id: "xs = [] \<or> \<not> P (hd xs) \<Longrightarrow> dropWhile P xs = xs"
  by (cases xs) auto

lemma singleton_list: "length xs = 1 \<Longrightarrow> hd xs = m \<Longrightarrow> xs = [m]"
  by (cases xs) auto

lemma hd_dropWhile_not: "dropWhile P xs \<noteq> [] \<Longrightarrow> \<not> P (hd (dropWhile P xs))"
  by (rule hd_dropWhile)

lemma set_dropWhile_subset: "set (dropWhile P xs) \<subseteq> set xs"
  by (auto dest: set_dropWhileD)

lemma sum_list_take_le:
  fixes xs :: "nat list"
  shows "sum_list (take n xs) \<le> sum_list xs"
  by (metis append_take_drop_id le_add1 sum_list_append)

lemma map_filter_map_option:
  "List.map_filter (\<lambda>x. map_option f (g x)) xs = map f (List.map_filter g xs)"
  by (induction xs) (auto simp: List.map_filter_simps split: option.split)

end
