(* ===== verification/PyStr.thy ===== *)
theory PyStr
  imports Prelude
begin

text \<open>
  The methods of Python's \<open>str\<close> that the program calls, over Latin-1 texts: white space,
  line splitting, stripping, searching, replacing, joining and case mapping. They are
  library code of the language; the theories of the components use them by the names of
  the methods they stand for.
\<close>

section \<open>Character classes\<close>

text \<open>\<open>str.isspace\<close> and the class \<open>\\s\<close> of a \<open>str\<close> pattern agree on these code points.\<close>

definition is_space :: "char \<Rightarrow> bool" where
  "is_space c \<longleftrightarrow> c \<in> set [CHR '' '', CHR 0x09, CHR 0x0A, CHR 0x0B, CHR 0x0C, CHR 0x0D,
     CHR 0x1C, CHR 0x1D, CHR 0x1E, CHR 0x1F, CHR 0x85, CHR 0xA0]"

text \<open>The line boundaries of \<open>str.splitlines\<close>.\<close>

definition is_linebreak :: "char \<Rightarrow> bool" where
  "is_linebreak c \<longleftrightarrow> c \<in> set [CHR 0x0A, CHR 0x0B, CHR 0x0C, CHR 0x0D,
     CHR 0x1C, CHR 0x1D, CHR 0x1E, CHR 0x85]"

definition nl :: char where "nl = CHR 0x0A"

definition is_digit :: "char \<Rightarrow> bool" where
  "is_digit c \<longleftrightarrow> c \<in> set ''0123456789''"

definition code :: "char \<Rightarrow> nat" where
  "code c = of_char c"

definition is_ascii_letter :: "char \<Rightarrow> bool" where
  "is_ascii_letter c \<longleftrightarrow> (65 \<le> code c \<and> code c \<le> 90) \<or> (97 \<le> code c \<and> code c \<le> 122)"

text \<open>\<open>str.isalnum\<close> on Latin-1: letters, decimal digits, superscript digits and fractions.\<close>

definition is_alnum :: "char \<Rightarrow> bool" where
  "is_alnum c \<longleftrightarrow> is_ascii_letter c \<or> is_digit c
     \<or> code c \<in> {170, 178, 179, 181, 185, 186, 188, 189, 190}
     \<or> (192 \<le> code c \<and> code c \<noteq> 215 \<and> code c \<noteq> 247)"

definition is_word :: "char \<Rightarrow> bool" where
  "is_word c \<longleftrightarrow> is_alnum c \<or> c = CHR ''_''"

lemma linebreak_is_space: "is_linebreak c \<Longrightarrow> is_space c"
  by (auto simp: is_linebreak_def is_space_def)

lemma nl_linebreak [simp]: "is_linebreak nl" and nl_space [simp]: "is_space nl"
  by (auto simp: is_linebreak_def is_space_def nl_def)

section \<open>Case\<close>

definition lower_char :: "char \<Rightarrow> char" where
  "lower_char c = (if (65 \<le> code c \<and> code c \<le> 90) \<or> (192 \<le> code c \<and> code c \<le> 222 \<and> code c \<noteq> 215)
     then char_of (code c + 32) else c)"

definition lower :: "pystr \<Rightarrow> pystr" where
  "lower s = map lower_char s"

lemma code_char_of: "n < 256 \<Longrightarrow> code (char_of n) = n"
  by (simp add: code_def)

lemma lower_char_idem [simp]: "lower_char (lower_char c) = lower_char c"
  by (auto simp: lower_char_def code_char_of)

lemma lower_idem [simp]: "lower (lower s) = lower s"
  by (simp add: lower_def)

lemma length_lower [simp]: "length (lower s) = length s"
  by (simp add: lower_def)

section \<open>Stripping\<close>

definition lstrip_by :: "(char \<Rightarrow> bool) \<Rightarrow> pystr \<Rightarrow> pystr" where
  "lstrip_by P s = dropWhile P s"

definition rstrip_by :: "(char \<Rightarrow> bool) \<Rightarrow> pystr \<Rightarrow> pystr" where
  "rstrip_by P s = rev (dropWhile P (rev s))"

definition strip_by :: "(char \<Rightarrow> bool) \<Rightarrow> pystr \<Rightarrow> pystr" where
  "strip_by P s = rstrip_by P (lstrip_by P s)"

definition lstrip :: "pystr \<Rightarrow> pystr" where "lstrip = lstrip_by is_space"
definition rstrip :: "pystr \<Rightarrow> pystr" where "rstrip = rstrip_by is_space"
definition strip :: "pystr \<Rightarrow> pystr" where "strip = strip_by is_space"

text \<open>A text is stripped when neither end is in the class.\<close>

definition stripped_by :: "(char \<Rightarrow> bool) \<Rightarrow> pystr \<Rightarrow> bool" where
  "stripped_by P s \<longleftrightarrow> s = [] \<or> (\<not> P (hd s) \<and> \<not> P (last s))"

lemma lstrip_by_hd: "lstrip_by P s \<noteq> [] \<Longrightarrow> \<not> P (hd (lstrip_by P s))"
  by (simp add: lstrip_by_def hd_dropWhile)

lemma rstrip_by_last: "rstrip_by P s \<noteq> [] \<Longrightarrow> \<not> P (last (rstrip_by P s))"
  by (simp add: rstrip_by_def last_rev hd_dropWhile)

lemma rstrip_by_Nil_iff: "rstrip_by P s = [] \<longleftrightarrow> (\<forall>c\<in>set s. P c)"
  by (simp add: rstrip_by_def)

lemma rstrip_by_hd: "rstrip_by P s \<noteq> [] \<Longrightarrow> hd (rstrip_by P s) = hd s"
proof -
  assume ne: "rstrip_by P s \<noteq> []"
  have "rev s = takeWhile P (rev s) @ dropWhile P (rev s)" by simp
  then have "s = rev (dropWhile P (rev s)) @ rev (takeWhile P (rev s))"
    by (metis rev_append rev_rev_ident)
  then have "s = rstrip_by P s @ rev (takeWhile P (rev s))" by (simp add: rstrip_by_def)
  then show ?thesis using ne by (metis hd_append2)
qed

lemma stripped_strip_by: "stripped_by P (strip_by P s)"
proof (cases "strip_by P s = []")
  case False
  then have "lstrip_by P s \<noteq> []"
    by (cases "lstrip_by P s") (simp_all add: strip_by_def rstrip_by_def)
  with False show ?thesis
    by (metis lstrip_by_hd rstrip_by_hd rstrip_by_last strip_by_def stripped_by_def)
qed (simp add: stripped_by_def)

lemma strip_by_id: "stripped_by P s \<Longrightarrow> strip_by P s = s"
proof (cases "s = []")
  case False
  assume "stripped_by P s"
  with False have h: "\<not> P (hd s)" and l: "\<not> P (last s)" by (auto simp: stripped_by_def)
  from h have "lstrip_by P s = s" by (simp add: lstrip_by_def dropWhile_hd_id)
  moreover from l False have "rstrip_by P s = s"
    by (simp add: rstrip_by_def dropWhile_hd_id hd_rev)
  ultimately show ?thesis by (simp add: strip_by_def)
qed (simp add: strip_by_def lstrip_by_def rstrip_by_def)

lemma strip_by_idem [simp]: "strip_by P (strip_by P s) = strip_by P s"
  by (simp add: strip_by_id stripped_strip_by)

lemma strip_idem [simp]: "strip (strip s) = strip s"
  by (simp add: strip_def)

lemma strip_by_Nil_iff: "strip_by P s = [] \<longleftrightarrow> (\<forall>c\<in>set s. P c)"
  unfolding strip_by_def rstrip_by_Nil_iff lstrip_by_def
  by (metis (no_types, lifting) dropWhile_eq_Nil_conv hd_dropWhile list.set_sel(1) set_dropWhileD)

lemma strip_Nil [simp]: "strip [] = []" and lstrip_Nil [simp]: "lstrip [] = []"
  and rstrip_Nil [simp]: "rstrip [] = []"
  by (simp_all add: strip_def strip_by_def lstrip_by_def rstrip_by_def lstrip_def rstrip_def)

lemma set_strip_by: "set (strip_by P s) \<subseteq> set s"
  unfolding strip_by_def rstrip_by_def lstrip_by_def
  by (metis set_dropWhile_subset set_rev subset_trans)

section \<open>Prefixes, suffixes and substrings\<close>

definition startswith :: "pystr \<Rightarrow> pystr \<Rightarrow> bool" where
  "startswith s p \<longleftrightarrow> take (length p) s = p"

definition startswith_any :: "pystr \<Rightarrow> pystr list \<Rightarrow> bool" where
  "startswith_any s ps \<longleftrightarrow> list_ex (startswith s) ps"

definition endswith :: "pystr \<Rightarrow> pystr \<Rightarrow> bool" where
  "endswith s p \<longleftrightarrow> startswith (rev s) (rev p)"

definition removeprefix :: "pystr \<Rightarrow> pystr \<Rightarrow> pystr" where
  "removeprefix s p = (if startswith s p then drop (length p) s else s)"

definition removesuffix :: "pystr \<Rightarrow> pystr \<Rightarrow> pystr" where
  "removesuffix s p = (if p \<noteq> [] \<and> endswith s p then take (length s - length p) s else s)"

text \<open>\<open>s.find(p)\<close> with \<^const>\<open>None\<close> for -1, and \<open>p in s\<close>.\<close>

fun find_sub :: "pystr \<Rightarrow> pystr \<Rightarrow> nat option" where
  "find_sub [] p = (if p = [] then Some 0 else None)"
| "find_sub (c # s) p = (if startswith (c # s) p then Some 0 else map_option Suc (find_sub s p))"

definition contains :: "pystr \<Rightarrow> pystr \<Rightarrow> bool" where
  "contains s p \<longleftrightarrow> find_sub s p \<noteq> None"

lemma startswith_iff: "startswith s p \<longleftrightarrow> (\<exists>r. s = p @ r)"
  by (metis append_eq_conv_conj append_take_drop_id startswith_def)

lemma startswith_append [simp]: "startswith (p @ r) p"
  by (simp add: startswith_iff)

lemma startswith_Nil [simp]: "startswith s []"
  by (simp add: startswith_def)

lemma startswith_Nil_left [simp]: "startswith [] p \<longleftrightarrow> p = []"
  by (auto simp: startswith_iff)

lemma startswith_Cons [simp]: "startswith (c # s) (d # p) \<longleftrightarrow> c = d \<and> startswith s p"
  by (auto simp: startswith_def)

lemma startswith_any_simps [simp]:
  "startswith_any s [] = False"
  "startswith_any s (p # ps) = (startswith s p \<or> startswith_any s ps)"
  by (simp_all add: startswith_any_def)

lemma find_sub_Some:
  "find_sub s p = Some i \<Longrightarrow> \<exists>r. s = take i s @ p @ r \<and> i + length p \<le> length s"
proof (induction s arbitrary: i)
  case Nil
  then show ?case by (auto split: if_splits)
next
  case (Cons c s)
  show ?case
  proof (cases "startswith (c # s) p")
    case True
    with Cons.prems have "i = 0" by simp
    moreover from True obtain r where "c # s = p @ r" unfolding startswith_iff by blast
    ultimately show ?thesis
      by (metis append_Nil length_append le_add1 plus_nat.add_0 take0)
  next
    case False
    with Cons.prems obtain j where j: "find_sub s p = Some j" "i = Suc j" by auto
    from Cons.IH [OF j(1)] j(2) show ?thesis by auto
  qed
qed

lemma find_sub_occurs: "find_sub s p = Some i \<Longrightarrow> startswith (drop i s) p"
proof (induction s arbitrary: i)
  case (Cons c s)
  then show ?case by (auto split: if_splits)
qed (auto split: if_splits)

lemma find_sub_first: "find_sub s p = Some i \<Longrightarrow> j < i \<Longrightarrow> \<not> startswith (drop j s) p"
proof (induction s arbitrary: i j)
  case (Cons c s)
  show ?case
  proof (cases j)
    case 0
    with Cons.prems show ?thesis by (auto split: if_splits)
  next
    case (Suc k)
    with Cons.prems obtain m where "find_sub s p = Some m" "i = Suc m" by (auto split: if_splits)
    with Cons Suc show ?thesis by auto
  qed
qed (auto split: if_splits)

lemma find_sub_None: "find_sub s p = None \<longleftrightarrow> (\<forall>i\<le>length s. \<not> startswith (drop i s) p)"
proof (induction s)
  case (Cons c s)
  have "(\<forall>i\<le>length (c # s). \<not> startswith (drop i (c # s)) p) \<longleftrightarrow>
    \<not> startswith (c # s) p \<and> (\<forall>i\<le>length s. \<not> startswith (drop i s) p)"
    by (metis Suc_le_mono drop0 drop_Suc_Cons le0 length_Cons not0_implies_Suc)
  then show ?case using Cons.IH by auto
qed auto

lemma contains_iff: "contains s p \<longleftrightarrow> (\<exists>a b. s = a @ p @ b)"
proof
  assume "contains s p"
  then show "\<exists>a b. s = a @ p @ b"
    using find_sub_Some unfolding contains_def by blast
next
  assume "\<exists>a b. s = a @ p @ b"
  then obtain a b where "s = a @ p @ b" by blast
  then have "startswith (drop (length a) s) p" and "length a \<le> length s" by auto
  then show "contains s p" by (metis contains_def find_sub_None)
qed

section \<open>Lines\<close>

text \<open>\<open>str.splitlines\<close>: a carriage return followed by a line feed is one boundary.\<close>

fun splitlines_aux :: "pystr \<Rightarrow> pystr \<Rightarrow> pystr list" where
  "splitlines_aux cur [] = (if cur = [] then [] else [rev cur])"
| "splitlines_aux cur (c # d # cs) =
     (if c = CHR 0x0D \<and> d = CHR 0x0A then rev cur # splitlines_aux [] cs
      else if is_linebreak c then rev cur # splitlines_aux [] (d # cs)
      else splitlines_aux (c # cur) (d # cs))"
| "splitlines_aux cur [c] = (if is_linebreak c then [rev cur] else [rev (c # cur)])"

definition splitlines :: "pystr \<Rightarrow> pystr list" where
  "splitlines s = splitlines_aux [] s"

fun join :: "pystr \<Rightarrow> pystr list \<Rightarrow> pystr" where
  "join sep [] = []"
| "join sep [x] = x"
| "join sep (x # y # ys) = x @ sep @ join sep (y # ys)"

definition joinlines :: "pystr list \<Rightarrow> pystr" where
  "joinlines ls = join [nl] ls"

definition no_break :: "pystr \<Rightarrow> bool" where
  "no_break s \<longleftrightarrow> (\<forall>c\<in>set s. \<not> is_linebreak c)"

lemma splitlines_no_break_aux:
  "no_break cur \<Longrightarrow> l \<in> set (splitlines_aux cur s) \<Longrightarrow> no_break l"
proof (induction cur s rule: splitlines_aux.induct)
  case (1 cur)
  then show ?case by (simp add: no_break_def split: if_splits)
next
  case (2 cur c d cs)
  show ?case
  proof (cases "c = CHR 0x0D \<and> d = CHR 0x0A")
    case True
    with 2 show ?thesis by (auto simp: no_break_def)
  next
    case False
    with 2 show ?thesis by (cases "is_linebreak c") (auto simp: no_break_def)
  qed
next
  case (3 cur c)
  then show ?case by (cases "is_linebreak c") (auto simp: no_break_def)
qed

lemma splitlines_no_break: "l \<in> set (splitlines s) \<Longrightarrow> no_break l"
  using splitlines_no_break_aux [of "[]"] by (simp add: splitlines_def no_break_def)

lemma splitlines_aux_chars:
  "l \<in> set (splitlines_aux cur s) \<Longrightarrow> set l \<subseteq> set cur \<union> set s"
  by (induction cur s rule: splitlines_aux.induct) (auto split: if_splits)

lemma splitlines_chars: "l \<in> set (splitlines s) \<Longrightarrow> set l \<subseteq> set s"
  using splitlines_aux_chars [of l "[]" s] by (simp add: splitlines_def)

lemma splitlines_aux_line:
  assumes "no_break l"
  shows "splitlines_aux cur (l @ nl # s) = (rev cur @ l) # splitlines_aux [] s"
  using assms
proof (induction l arbitrary: cur)
  case Nil
  then show ?case by (cases s) (auto simp: nl_def is_linebreak_def)
next
  case (Cons c l)
  from Cons.prems have c: "\<not> is_linebreak c" and l: "no_break l" by (auto simp: no_break_def)
  then have "c \<noteq> CHR 0x0D" by (auto simp: is_linebreak_def)
  obtain d ds where d: "l @ nl # s = d # ds" by (cases l) auto
  have "splitlines_aux cur ((c # l) @ nl # s) = splitlines_aux (c # cur) (l @ nl # s)"
    using c \<open>c \<noteq> CHR 0x0D\<close> by (simp add: d)
  with Cons.IH [OF l, of "c # cur"] show ?case by simp
qed

lemma splitlines_aux_last:
  assumes "no_break l"
  shows "splitlines_aux cur l = (if cur = [] \<and> l = [] then [] else [rev cur @ l])"
  using assms
proof (induction cur l rule: splitlines_aux.induct)
  case (2 cur c d cs)
  then show ?case by (auto simp: no_break_def is_linebreak_def)
qed (auto simp: no_break_def)

text \<open>
  Joining lines with a line feed and splitting again gives the lines back, when the last
  of them is not empty.
\<close>

lemma splitlines_joinlines:
  assumes "\<forall>l\<in>set ls. no_break l" and "ls \<noteq> [] \<Longrightarrow> last ls \<noteq> []"
  shows "splitlines (joinlines ls) = ls"
  using assms
proof (induction ls)
  case Nil
  then show ?case by (simp add: splitlines_def joinlines_def)
next
  case (Cons l ls)
  show ?case
  proof (cases ls)
    case Nil
    with Cons.prems show ?thesis
      by (simp add: splitlines_def joinlines_def splitlines_aux_last)
  next
    case (Cons m ms)
    with Cons.prems Cons.IH have "splitlines (joinlines ls) = ls" by auto
    with Cons Cons.prems show ?thesis
      by (simp add: splitlines_def joinlines_def splitlines_aux_line)
  qed
qed

lemma splitlines_Nil [simp]: "splitlines [] = []"
  by (simp add: splitlines_def)

lemma splitlines_aux_Nil_iff [simp]: "splitlines_aux cur s = [] \<longleftrightarrow> cur = [] \<and> s = []"
  by (induction cur s rule: splitlines_aux.induct) auto

lemma splitlines_Nil_iff [simp]: "splitlines s = [] \<longleftrightarrow> s = []"
  by (simp add: splitlines_def)

lemma hd_splitlines_aux:
  "cur \<noteq> [] \<Longrightarrow> hd (splitlines_aux cur s) \<noteq> [] \<and> hd (hd (splitlines_aux cur s)) = last cur"
proof (induction cur s rule: splitlines_aux.induct)
  case (2 cur c d cs)
  then show ?case by (cases "is_linebreak c") (auto simp: hd_rev is_linebreak_def)
qed (auto simp: hd_rev)

lemma hd_splitlines:
  assumes "s \<noteq> []" and "\<not> is_linebreak (hd s)"
  shows "hd (splitlines s) \<noteq> [] \<and> hd (hd (splitlines s)) = hd s"
proof -
  obtain c cs where s: "s = c # cs" using assms by (cases s) auto
  with assms have c: "\<not> is_linebreak c" "c \<noteq> CHR 0x0D" by (auto simp: is_linebreak_def)
  have "splitlines s = splitlines_aux [c] cs"
    using c by (cases cs) (simp_all add: s splitlines_def)
  then show ?thesis using hd_splitlines_aux [of "[c]" cs] s by simp
qed

lemma last_splitlines_aux:
  assumes "s \<noteq> []" and "\<not> is_linebreak (last s)"
  shows "last (splitlines_aux cur s) \<noteq> [] \<and> last (last (splitlines_aux cur s)) = last s"
  using assms
proof (induction cur s rule: splitlines_aux.induct)
  case (2 cur c d cs)
  show ?case
  proof (cases "c = CHR 0x0D \<and> d = CHR 0x0A")
    case True
    then have "cs \<noteq> []" using "2.prems" by (auto simp: is_linebreak_def)
    with True 2 show ?thesis by simp
  next
    case False
    then have step: "splitlines_aux cur (c # d # cs) =
      (if is_linebreak c then rev cur # splitlines_aux [] (d # cs) else splitlines_aux (c # cur) (d # cs))"
      by auto
    from 2 False show ?thesis unfolding step by (cases "is_linebreak c") simp_all
  qed
qed auto

lemma last_splitlines:
  "s \<noteq> [] \<Longrightarrow> \<not> is_linebreak (last s) \<Longrightarrow>
   last (splitlines s) \<noteq> [] \<and> last (last (splitlines s)) = last s"
  by (simp add: splitlines_def last_splitlines_aux)

lemma joinlines_Nil_iff: "joinlines ls = [] \<longleftrightarrow> ls = [] \<or> ls = [[]]"
  by (cases ls; cases "tl ls") (auto simp: joinlines_def)

lemma hd_joinlines: "ls \<noteq> [] \<Longrightarrow> hd ls \<noteq> [] \<Longrightarrow> hd (joinlines ls) = hd (hd ls)"
  by (cases ls; cases "tl ls") (auto simp: joinlines_def)

lemma join_not_Nil: "ls \<noteq> [] \<Longrightarrow> last ls \<noteq> [] \<Longrightarrow> join sep ls \<noteq> []"
  by (induction sep ls rule: join.induct) auto

lemma last_joinlines: "ls \<noteq> [] \<Longrightarrow> last ls \<noteq> [] \<Longrightarrow> last (joinlines ls) = last (last ls)"
  unfolding joinlines_def
proof (induction ls)
  case (Cons l ls)
  then show ?case by (cases ls) (auto simp: join_not_Nil)
qed simp

text \<open>A text that neither begins nor ends with white space is made of lines with content at both ends.\<close>

lemma stripped_lines:
  assumes "stripped_by is_space s" and "s \<noteq> []"
  shows "splitlines s \<noteq> []" and "hd (splitlines s) \<noteq> []" and "hd (hd (splitlines s)) = hd s"
    and "last (splitlines s) \<noteq> []" and "last (last (splitlines s)) = last s"
proof -
  from assms have "\<not> is_linebreak (hd s)" "\<not> is_linebreak (last s)"
    by (auto simp: stripped_by_def dest: linebreak_is_space)
  with assms(2) hd_splitlines last_splitlines
  show "splitlines s \<noteq> []" and "hd (splitlines s) \<noteq> []" and "hd (hd (splitlines s)) = hd s"
    and "last (splitlines s) \<noteq> []" and "last (last (splitlines s)) = last s" by auto
qed

lemma strip_joinlines:
  assumes "ls \<noteq> []" "hd ls \<noteq> []" "\<not> is_space (hd (hd ls))" "last ls \<noteq> []" "\<not> is_space (last (last ls))"
  shows "strip (joinlines ls) = joinlines ls"
  using assms unfolding strip_def
  by (intro strip_by_id) (simp add: stripped_by_def hd_joinlines last_joinlines)

section \<open>Replacement, splitting and counting\<close>

text \<open>\<open>s.replace(a, b)\<close> for single characters.\<close>

definition replace_char :: "char \<Rightarrow> char \<Rightarrow> pystr \<Rightarrow> pystr" where
  "replace_char a b s = map (\<lambda>c. if c = a then b else c) s"

definition slashes :: "pystr \<Rightarrow> pystr" where
  "slashes s = replace_char (CHR 0x5C) (CHR ''/'') s"

text \<open>\<open>s.split(c)\<close> for a single character: empty pieces are kept.\<close>

fun split_char :: "char \<Rightarrow> pystr \<Rightarrow> pystr list" where
  "split_char d [] = [[]]"
| "split_char d (c # s) =
     (if c = d then [] # split_char d s
      else (case split_char d s of [] \<Rightarrow> [[c]] | x # xs \<Rightarrow> (c # x) # xs))"

text \<open>\<open>s.split()\<close>: maximal runs of characters that are not white space.\<close>

fun split_space_aux :: "pystr \<Rightarrow> pystr \<Rightarrow> pystr list" where
  "split_space_aux cur [] = (if cur = [] then [] else [rev cur])"
| "split_space_aux cur (c # s) =
     (if is_space c then (if cur = [] then split_space_aux [] s else rev cur # split_space_aux [] s)
      else split_space_aux (c # cur) s)"

definition split_space :: "pystr \<Rightarrow> pystr list" where
  "split_space s = split_space_aux [] s"

lemma split_char_not_Nil [simp]: "split_char d s \<noteq> []"
  by (induction s) (auto split: list.splits)

lemma split_char_pieces: "p \<in> set (split_char d s) \<Longrightarrow> d \<notin> set p"
  by (induction s arbitrary: p) (auto split: list.splits if_splits)

lemma join_split_char: "join [d] (split_char d s) = s"
proof (induction s)
  case (Cons c s)
  obtain x xs where x: "split_char d s = x # xs" by (cases "split_char d s") auto
  with Cons.IH show ?case by (cases xs) auto
qed simp

lemma slashes_idem [simp]: "slashes (slashes s) = slashes s"
  by (simp add: slashes_def replace_char_def)

lemma slashes_no_backslash: "CHR 0x5C \<notin> set (slashes s)"
  by (auto simp: slashes_def replace_char_def)

section \<open>Decimal numerals\<close>

definition digit_char :: "nat \<Rightarrow> char" where
  "digit_char n = (''0123456789'' ! (n mod 10))"

fun str_nat :: "nat \<Rightarrow> pystr" where
  "str_nat n = (if n < 10 then [digit_char n] else str_nat (n div 10) @ [digit_char n])"

declare str_nat.simps [simp del]

definition str_int :: "int \<Rightarrow> pystr" where
  "str_int i = (if i < 0 then ''-'' @ str_nat (nat (- i)) else str_nat (nat i))"

definition digit_val :: "char \<Rightarrow> nat" where
  "digit_val c = code c - 48"

definition int_of_digits :: "pystr \<Rightarrow> nat" where
  "int_of_digits s = foldl (\<lambda>n c. 10 * n + digit_val c) 0 s"

lemma all_digits: "n < 10 \<Longrightarrow> n \<in> {0, 1, 2, 3, 4, 5, 6, 7, 8, 9::nat}"
  by auto

lemma digit_char_is_digit: "is_digit (digit_char n)"
  using all_digits [of "n mod 10"] by (auto simp: digit_char_def is_digit_def)

lemma digit_val_digit_char: "digit_val (digit_char n) = n mod 10"
  using all_digits [of "n mod 10"] by (auto simp: digit_char_def digit_val_def code_def)

lemma str_nat_digits: "c \<in> set (str_nat n) \<Longrightarrow> is_digit c"
proof (induction n rule: str_nat.induct)
  case (1 n)
  then show ?case
    by (subst (asm) str_nat.simps) (auto simp: digit_char_is_digit split: if_splits)
qed

lemma str_nat_not_Nil [simp]: "str_nat n \<noteq> []"
  by (subst str_nat.simps) simp

lemma int_of_digits_snoc: "int_of_digits (s @ [c]) = 10 * int_of_digits s + digit_val c"
  by (simp add: int_of_digits_def)

lemma int_of_digits_str_nat [simp]: "int_of_digits (str_nat n) = n"
proof (induction n rule: str_nat.induct)
  case (1 n)
  show ?case
  proof (cases "n < 10")
    case True
    then show ?thesis
      by (subst str_nat.simps) (simp add: int_of_digits_def digit_val_digit_char)
  next
    case False
    with 1 have "int_of_digits (str_nat (n div 10)) = n div 10" by simp
    with False show ?thesis
      by (subst str_nat.simps) (simp add: int_of_digits_snoc digit_val_digit_char)
  qed
qed

end
