(* ===== verification/PyPath.thy ===== *)
theory PyPath
  imports PyStr
begin

text \<open>
  The part of \<open>pathlib.PurePosixPath\<close> (and of \<open>Path\<close> on a POSIX system) that the program
  uses: the parts of a path, absoluteness, name, suffix and stem, containment
  (\<open>relative_to\<close>), and lexical resolution of dot components.
\<close>

section \<open>Parsing\<close>

text \<open>
  A leading \<open>/\<close> is the root; exactly two leading slashes are a root of their own. Empty and
  single-dot components disappear; double-dot components stay.
\<close>

definition path_root :: "pystr \<Rightarrow> pystr" where
  "path_root s =
     (if startswith s ''/'' then
        (if length s - length (lstrip_by (\<lambda>c. c = CHR ''/'') s) = 2 then ''//'' else ''/'')
      else [])"

definition path_names :: "pystr \<Rightarrow> path" where
  "path_names s = filter (\<lambda>p. p \<noteq> [] \<and> p \<noteq> ''.'') (split_char (CHR ''/'') s)"

definition path_parts :: "pystr \<Rightarrow> path" where
  "path_parts s = (if path_root s = [] then [] else [path_root s]) @ path_names s"

definition path_is_absolute :: "pystr \<Rightarrow> bool" where
  "path_is_absolute s \<longleftrightarrow> path_root s \<noteq> []"

definition path_name :: "pystr \<Rightarrow> pystr" where
  "path_name s = (case rev (path_names s) of [] \<Rightarrow> [] | n # _ \<Rightarrow> n)"

text \<open>\<open>name.rfind('.')\<close>: the position of the last dot.\<close>

definition last_dot :: "pystr \<Rightarrow> nat option" where
  "last_dot n = (if CHR ''.'' \<in> set n
     then Some (length n - 1 - length (takeWhile (\<lambda>c. c \<noteq> CHR ''.'') (rev n))) else None)"

definition name_suffix :: "pystr \<Rightarrow> pystr" where
  "name_suffix n = (case last_dot n of
     Some i \<Rightarrow> (if 0 < i \<and> i < length n - 1 then drop i n else []) | None \<Rightarrow> [])"

definition path_suffix :: "pystr \<Rightarrow> pystr" where
  "path_suffix s = name_suffix (path_name s)"

definition path_stem :: "pystr \<Rightarrow> pystr" where
  "path_stem s = (let n = path_name s in take (length n - length (name_suffix n)) n)"

definition as_posix :: "path \<Rightarrow> pystr" where
  "as_posix p = join ''/'' p"

section \<open>Containment and resolution\<close>

text \<open>\<open>target.relative_to(base)\<close> raises \<open>ValueError\<close> unless \<open>base\<close> is a prefix.\<close>

definition relative_to :: "path \<Rightarrow> path \<Rightarrow> path option" where
  "relative_to base p =
     (if take (length base) p = base then Some (drop (length base) p) else None)"

text \<open>
  Joining absolute part lists and removing dot-dot components: what \<open>Path.resolve\<close> does
  where no component is a symbolic link. A dot-dot at the root stays at the root.
\<close>

fun normalize_onto :: "path \<Rightarrow> path \<Rightarrow> path" where
  "normalize_onto acc [] = rev acc"
| "normalize_onto acc (p # ps) = normalize_onto (if p = ''..'' then tl acc else p # acc) ps"

definition resolve_lexical :: "path \<Rightarrow> path \<Rightarrow> path" where
  "resolve_lexical base rel = normalize_onto (rev base) rel"

lemma relative_to_Some: "relative_to base p = Some r \<longleftrightarrow> p = base @ r"
  by (auto simp: relative_to_def append_eq_conv_conj) (metis append_take_drop_id)

lemma relative_to_append [simp]: "relative_to base (base @ r) = Some r"
  by (simp add: relative_to_Some)

lemma normalize_onto_no_dotdot:
  "''..'' \<notin> set ps \<Longrightarrow> normalize_onto acc ps = rev acc @ ps"
  by (induction acc ps rule: normalize_onto.induct) auto

lemma resolve_lexical_no_dotdot:
  "''..'' \<notin> set rel \<Longrightarrow> resolve_lexical base rel = base @ rel"
  by (simp add: resolve_lexical_def normalize_onto_no_dotdot)

lemma resolve_lexical_inside:
  "''..'' \<notin> set rel \<Longrightarrow> relative_to base (resolve_lexical base rel) = Some rel"
  by (simp add: resolve_lexical_no_dotdot)

lemma path_names_clean: "p \<in> set (path_names s) \<Longrightarrow> p \<noteq> [] \<and> p \<noteq> ''.'' \<and> CHR ''/'' \<notin> set p"
  by (auto simp: path_names_def dest: split_char_pieces)

lemma path_parts_relative: "\<not> path_is_absolute s \<Longrightarrow> path_parts s = path_names s"
  by (simp add: path_parts_def path_is_absolute_def)

lemma path_is_absolute_iff: "path_is_absolute s \<longleftrightarrow> startswith s ''/''"
  by (simp add: path_is_absolute_def path_root_def)

end
