(* ===== verification/FileSystem.thy ===== *)
theory FileSystem
  imports PyPath PyStr
begin

text \<open>
  The files that the program reads and writes itself, as an explicit store. A path is the
  list of its components below the root. \<open>resolve\<close> is what \<open>Path.resolve\<close> answers on this
  file system, symbolic links included; \<open>listing\<close> is the order in which a directory names
  its entries; a refused write or unlink carries the message of its \<open>OSError\<close>.
\<close>

datatype file_data = TextFile pystr | BinaryFile

record fs =
  contents :: "path \<Rightarrow> file_data option"
  resolve :: "path \<Rightarrow> path"
  listing :: "path \<Rightarrow> pystr list"
  refuse_write :: "path \<Rightarrow> pystr option"
  read_failure :: "path \<Rightarrow> pystr"

text \<open>
  \<open>read_text\<close> opens the file in text mode: a carriage return, alone or before a line feed,
  is read as a line feed.
\<close>

fun universal_newlines :: "pystr \<Rightarrow> pystr" where
  "universal_newlines [] = []"
| "universal_newlines [c] = (if c = CHR 0x0D then [nl] else [c])"
| "universal_newlines (c # d # s) =
     (if c = CHR 0x0D then nl # universal_newlines (if d = nl then s else d # s)
      else c # universal_newlines (d # s))"

definition fs_read :: "fs \<Rightarrow> path \<Rightarrow> pystr + pystr" where
  "fs_read F p = (case contents F p of
     Some (TextFile t) \<Rightarrow> Inr (universal_newlines t)
   | _ \<Rightarrow> Inl (read_failure F p))"

text \<open>\<open>write_text(content, newline="\\n")\<close> writes the text as it is.\<close>

definition fs_write :: "fs \<Rightarrow> path \<Rightarrow> pystr \<Rightarrow> pystr option \<times> fs" where
  "fs_write F p t = (case refuse_write F p of
     Some m \<Rightarrow> (Some m, F)
   | None \<Rightarrow> (None, F\<lparr>contents := (contents F)(p \<mapsto> TextFile t)\<rparr>))"

definition fs_unlink :: "fs \<Rightarrow> path \<Rightarrow> pystr option \<times> fs" where
  "fs_unlink F p = (case refuse_write F p of
     Some m \<Rightarrow> (Some m, F)
   | None \<Rightarrow> (None, F\<lparr>contents := (contents F)(p := None)\<rparr>))"

lemma universal_newlines_id: "CHR 0x0D \<notin> set s \<Longrightarrow> universal_newlines s = s"
  by (induction s rule: universal_newlines.induct) auto

lemma universal_newlines_no_cr: "CHR 0x0D \<notin> set (universal_newlines s)"
  by (induction s rule: universal_newlines.induct) (auto simp: nl_def)

lemma fs_write_frame [simp]:
  "resolve (snd (fs_write F p t)) = resolve F" "listing (snd (fs_write F p t)) = listing F"
  "refuse_write (snd (fs_write F p t)) = refuse_write F"
  by (auto simp: fs_write_def split: option.split)

lemma fs_unlink_frame [simp]:
  "resolve (snd (fs_unlink F p)) = resolve F" "listing (snd (fs_unlink F p)) = listing F"
  "refuse_write (snd (fs_unlink F p)) = refuse_write F"
  by (auto simp: fs_unlink_def split: option.split)

lemma fs_write_other: "q \<noteq> p \<Longrightarrow> contents (snd (fs_write F p t)) q = contents F q"
  by (auto simp: fs_write_def split: option.split)

lemma fs_unlink_other: "q \<noteq> p \<Longrightarrow> contents (snd (fs_unlink F p)) q = contents F q"
  by (auto simp: fs_unlink_def split: option.split)

text \<open>The text a file reads as, when it can be read.\<close>

definition fs_text :: "fs \<Rightarrow> path \<Rightarrow> pystr option" where
  "fs_text F p = (case fs_read F p of Inr t \<Rightarrow> Some t | Inl _ \<Rightarrow> None)"

lemma universal_newlines_idem [simp]:
  "universal_newlines (universal_newlines s) = universal_newlines s"
  by (simp add: universal_newlines_id universal_newlines_no_cr)

lemma fs_text_contents:
  "fs_text F p = (case contents F p of Some (TextFile t) \<Rightarrow> Some (universal_newlines t) | _ \<Rightarrow> None)"
  by (simp add: fs_text_def fs_read_def split: option.split file_data.split)

lemma fs_text_newlines: "map_option universal_newlines (fs_text F p) = fs_text F p"
  by (simp add: fs_text_contents split: option.split file_data.split)

end
