(* ===== verification/World.thy ===== *)
theory World
  imports Prelude FileSystem
begin

text \<open>
  The outside of the program. Git, the file system and the clock are not under \<open>src/\<close>; the
  components reach them through the operations of the record \<open>os\<close>, over an abstract type
  of worlds \<open>'w\<close> that every operation returns updated. A law that a component needs of
  them is a named hypothesis of the theorem that needs it.
\<close>

text \<open>\<open>subprocess.run\<close>: a finished process, a \<open>TimeoutExpired\<close>, or a failure to start.\<close>

datatype proc =
    Completed int pystr pystr
  | TimedOut pystr
  | Unstarted pystr

text \<open>
  A command run with \<open>text=True\<close> and a timeout. What was captured before the timeout is
  \<open>bytes\<close> even so, as the documentation of \<open>TimeoutExpired\<close> says, or \<^const>\<open>None\<close>.
\<close>

datatype command_process =
    Ran int pystr pystr
  | RanOut "pystr option" "pystr option"
  | NotRun pystr

text \<open>
  \<open>git\<close> takes the working directory, the arguments after \<open>git\<close> and the standard input.
  A file operation returns the message of the \<open>OSError\<close> it raises, if it raises one.
  \<open>resolve_path\<close> is \<open>str(Path(p).resolve())\<close>, \<open>walk\<close> the sorted \<open>rglob("*")\<close> of a directory, each
  entry with its parts relative to the directory and whether it is one itself; \<open>now\<close> formats
  the clock; \<open>files\<close> and \<open>set_files\<close> give access to the file store of the replacement edits.
\<close>

record 'w os =
  git :: "'w \<Rightarrow> pystr \<Rightarrow> pystr list \<Rightarrow> pystr \<Rightarrow> proc \<times> 'w"
  write_text :: "'w \<Rightarrow> pystr \<Rightarrow> pystr \<Rightarrow> pystr option \<times> 'w"
  read_text :: "'w \<Rightarrow> pystr \<Rightarrow> exn + pystr"
  resolve_path :: "'w \<Rightarrow> pystr \<Rightarrow> pystr"
  path_exists :: "'w \<Rightarrow> pystr \<Rightarrow> bool"
  is_file :: "'w \<Rightarrow> pystr \<Rightarrow> bool"
  is_dir :: "'w \<Rightarrow> pystr \<Rightarrow> bool"
  walk :: "'w \<Rightarrow> pystr \<Rightarrow> exn + (path \<times> bool) list"
  mkdtemp :: "'w \<Rightarrow> pystr \<Rightarrow> (exn + pystr) \<times> 'w"
  spawn :: "'w \<Rightarrow> pystr \<Rightarrow> pystr list \<Rightarrow> int \<Rightarrow> command_process \<times> 'w"
  rmtree :: "'w \<Rightarrow> pystr \<Rightarrow> pystr option \<times> 'w"
  gettempdir :: pystr
  now :: "'w \<Rightarrow> pystr"
  files :: "'w \<Rightarrow> fs"
  set_files :: "fs \<Rightarrow> 'w \<Rightarrow> 'w"

section \<open>Operations that change the state and may raise\<close>

text \<open>
  An operation returns its value or the exception it raises, and in both cases the state it
  leaves behind: what was written before a \<open>raise\<close> stays written.
\<close>

type_synonym ('s, 'a) io = "'s \<Rightarrow> (exn + 'a) \<times> 's"

definition ret :: "'a \<Rightarrow> ('s, 'a) io" where
  "ret x = (\<lambda>s. (Inr x, s))"

definition throw :: "exn \<Rightarrow> ('s, 'a) io" where
  "throw e = (\<lambda>s. (Inl e, s))"

definition bind_io :: "('s, 'a) io \<Rightarrow> ('a \<Rightarrow> ('s, 'b) io) \<Rightarrow> ('s, 'b) io" where
  "bind_io m k = (\<lambda>s. case m s of (Inl e, s') \<Rightarrow> (Inl e, s') | (Inr x, s') \<Rightarrow> k x s')"

definition then_io :: "('s, 'a) io \<Rightarrow> ('s, 'b) io \<Rightarrow> ('s, 'b) io" where
  "then_io m n = bind_io m (\<lambda>_. n)"

definition when_io :: "bool \<Rightarrow> ('s, unit) io \<Rightarrow> ('s, unit) io" where
  "when_io b m = (if b then m else ret ())"

definition gets :: "('s \<Rightarrow> 'a) \<Rightarrow> ('s, 'a) io" where
  "gets f = (\<lambda>s. (Inr (f s), s))"

definition modify :: "('s \<Rightarrow> 's) \<Rightarrow> ('s, unit) io" where
  "modify f = (\<lambda>s. (Inr (), f s))"

text \<open>\<open>subprocess.run(["git", ...], check=False)\<close> without a handler.\<close>

definition run_git :: "'w os \<Rightarrow> pystr \<Rightarrow> pystr list \<Rightarrow> ('w, int \<times> pystr \<times> pystr) io" where
  "run_git os cwd args = (\<lambda>w. case git os w cwd args [] of
     (Completed rc out err, w') \<Rightarrow> (Inr (rc, out, err), w')
   | (TimedOut m, w') \<Rightarrow> (Inl (TimeoutExpired m), w')
   | (Unstarted m, w') \<Rightarrow> (Inl (OSError m), w'))"

lemmas io_defs = ret_def throw_def bind_io_def then_io_def when_io_def gets_def modify_def

lemma bind_io_Inr: "bind_io m k s = (Inr y, s') \<longleftrightarrow> (\<exists>x s1. m s = (Inr x, s1) \<and> k x s1 = (Inr y, s'))"
  by (auto simp: bind_io_def split: prod.splits sum.splits)

lemma throw_not_Inr [simp]: "throw e s \<noteq> (Inr x, s')" and ret_Inr [simp]: "ret y s = (Inr x, s') \<longleftrightarrow> x = y \<and> s' = s"
  by (auto simp: throw_def ret_def)

lemma bind_io_ret [simp]: "bind_io (ret x) k = k x"
  by (simp add: bind_io_def ret_def)

lemma bind_io_throw [simp]: "bind_io (throw e) k = throw e"
  by (simp add: bind_io_def throw_def)

lemma bind_io_assoc: "bind_io (bind_io m k) h = bind_io m (\<lambda>x. bind_io (k x) h)"
  by (auto simp: bind_io_def fun_eq_iff split: prod.split sum.split)

text \<open>
  The weakest precondition of an operation: it returns with \<open>Q\<close> or raises with \<open>E\<close>. The
  equations compute it along the structure of a program.
\<close>

definition wp :: "('s, 'a) io \<Rightarrow> ('a \<Rightarrow> 's \<Rightarrow> bool) \<Rightarrow> (exn \<Rightarrow> 's \<Rightarrow> bool) \<Rightarrow> 's \<Rightarrow> bool" where
  "wp m Q E s = (case m s of (Inr x, s') \<Rightarrow> Q x s' | (Inl e, s') \<Rightarrow> E e s')"

named_theorems wp_simps "weakest preconditions of the constructs of a program"

lemma wp_ret [wp_simps]: "wp (ret x) Q E s = Q x s"
  by (simp add: wp_def io_defs)

lemma wp_throw [wp_simps]: "wp (throw e) Q E s = E e s"
  by (simp add: wp_def io_defs)

lemma wp_gets [wp_simps]: "wp (gets f) Q E s = Q (f s) s"
  by (simp add: wp_def io_defs)

lemma wp_modify [wp_simps]: "wp (modify f) Q E s = Q () (f s)"
  by (simp add: wp_def io_defs)

lemma wp_bind [wp_simps]: "wp (bind_io m k) Q E = wp m (\<lambda>x. wp (k x) Q E) E"
  by (auto simp: fun_eq_iff wp_def bind_io_def split: prod.split sum.split)

lemma wp_then [wp_simps]: "wp (then_io m n) Q E = wp m (\<lambda>_. wp n Q E) E"
  by (simp add: then_io_def wp_bind)

lemma wp_when [wp_simps]: "wp (when_io b m) Q E s = (if b then wp m Q E s else Q () s)"
  by (simp add: when_io_def wp_ret)

lemma wp_if [wp_simps]: "wp (if b then m else n) Q E s = (if b then wp m Q E s else wp n Q E s)"
  by simp

lemma wp_prod [wp_simps]: "wp (case p of (a, b) \<Rightarrow> k a b) Q E s = (case p of (a, b) \<Rightarrow> wp (k a b) Q E s)"
  by (cases p) simp

lemma wp_option [wp_simps]:
  "wp (case x of None \<Rightarrow> m | Some y \<Rightarrow> k y) Q E s = (case x of None \<Rightarrow> wp m Q E s | Some y \<Rightarrow> wp (k y) Q E s)"
  by (cases x) simp_all

lemma wp_sum [wp_simps]:
  "wp (case x of Inl e \<Rightarrow> m e | Inr y \<Rightarrow> k y) Q E s = (case x of Inl e \<Rightarrow> wp (m e) Q E s | Inr y \<Rightarrow> wp (k y) Q E s)"
  by (cases x) simp_all

lemma wp_mono:
  "wp m Q E s \<Longrightarrow> (\<And>x s. Q x s \<Longrightarrow> Q' x s) \<Longrightarrow> (\<And>e s. E e s \<Longrightarrow> E' e s) \<Longrightarrow> wp m Q' E' s"
  by (auto simp: wp_def split: prod.splits sum.splits)

lemma wp_conj: "wp m Q E s \<Longrightarrow> wp m Q' E' s \<Longrightarrow> wp m (\<lambda>x s. Q x s \<and> Q' x s) (\<lambda>e s. E e s \<and> E' e s) s"
  by (auto simp: wp_def split: prod.splits sum.splits)

lemma wpD:
  "wp m Q E s \<Longrightarrow> m s = (Inr x, s') \<Longrightarrow> Q x s'"
  "wp m Q E s \<Longrightarrow> m s = (Inl e, s') \<Longrightarrow> E e s'"
  by (auto simp: wp_def)

text \<open>Every value that an operation returns satisfies \<open>P\<close>, whatever the states.\<close>

definition returns :: "('s, 'a) io \<Rightarrow> ('a \<Rightarrow> bool) \<Rightarrow> bool" where
  "returns m P \<longleftrightarrow> (\<forall>s x s'. m s = (Inr x, s') \<longrightarrow> P x)"

named_theorems returns_intros "the values that a program can return"

lemma returnsD: "returns m P \<Longrightarrow> m s = (Inr x, s') \<Longrightarrow> P x"
  by (auto simp: returns_def)

lemma returns_ret [returns_intros]: "P x \<Longrightarrow> returns (ret x) P"
  by (simp add: returns_def)

lemma returns_throw [returns_intros]: "returns (throw e) P"
  by (simp add: returns_def)

lemma returns_bind [returns_intros]: "(\<And>x. returns (k x) P) \<Longrightarrow> returns (bind_io m k) P"
  unfolding returns_def bind_io_Inr by blast

lemma returns_then [returns_intros]: "returns n P \<Longrightarrow> returns (then_io m n) P"
  unfolding then_io_def by (rule returns_bind)

lemma returns_if [returns_intros]: "(b \<Longrightarrow> returns m P) \<Longrightarrow> (\<not> b \<Longrightarrow> returns n P) \<Longrightarrow> returns (if b then m else n) P"
  by simp

section \<open>Python truth of texts\<close>

text \<open>\<open>x or y\<close> on texts: an empty text is false.\<close>

definition or_text :: "pystr \<Rightarrow> pystr \<Rightarrow> pystr" where
  "or_text x y = (if x = [] then y else x)"

text \<open>\<open>x or y\<close> where \<open>x\<close> is \<open>str | None\<close>.\<close>

definition or_else :: "pystr option \<Rightarrow> pystr \<Rightarrow> pystr" where
  "or_else x y = (case x of None \<Rightarrow> y | Some s \<Rightarrow> or_text s y)"

text \<open>The text of an optional value inside an f-string.\<close>

definition str_opt :: "pystr option \<Rightarrow> pystr" where
  "str_opt x = (case x of None \<Rightarrow> ''None'' | Some s \<Rightarrow> s)"

definition truthy :: "pystr option \<Rightarrow> bool" where
  "truthy x \<longleftrightarrow> (case x of None \<Rightarrow> False | Some s \<Rightarrow> s \<noteq> [])"

lemma or_text_simps [simp]: "or_text [] y = y" "or_text (c # x) y = c # x"
  by (simp_all add: or_text_def)

lemma or_else_simps [simp]: "or_else None y = y" "or_else (Some x) y = or_text x y"
  by (simp_all add: or_else_def)

lemma truthy_simps [simp]: "\<not> truthy None" "truthy (Some s) \<longleftrightarrow> s \<noteq> []"
  by (simp_all add: truthy_def)

end
