(* ===== verification/Workspace.thy ===== *)
theory Workspace
  imports World PyPath
begin

text \<open>
  \<open>pyfixagent/workspace.py\<close>, \<open>tools/file_tools.py\<close>, \<open>execution/workspace_transaction.py\<close> and
  \<open>execution/workspace_session.py\<close>: the state of the Git working tree before a run, the
  temporary worktree in which a run edits, its checkpoints and rollbacks, and the export of
  the final diff. Git itself is the parameter \<^const>\<open>git\<close>.
\<close>

section \<open>Inspection of a workspace\<close>

record workspace_state =
  ws_git_root :: "pystr option"
  ws_revision :: "pystr option"
  ws_dirty :: bool
  ws_changed_paths :: "pystr list"
  ws_error :: "pystr option"

definition ws_failed :: "pystr \<Rightarrow> workspace_state" where
  "ws_failed e = \<lparr>ws_git_root = None, ws_revision = None, ws_dirty = False, ws_changed_paths = [],
     ws_error = Some e\<rparr>"

definition changed_path_of :: "pystr \<Rightarrow> pystr option" where
  "changed_path_of line = (if length line \<ge> 4 then Some (slashes (strip (drop 3 line))) else None)"

definition inspect_workspace :: "'w os \<Rightarrow> pystr \<Rightarrow> ('w, workspace_state) io" where
  "inspect_workspace os workspace =
     bind_io (gets (\<lambda>w. (resolve_path os w workspace, path_exists os w (resolve_path os w workspace))))
     (\<lambda>(p, there).
      if \<not> there then ret (ws_failed (''workspace does not exist: '' @ p))
      else bind_io (run_git os p [''rev-parse'', ''--show-toplevel'']) (\<lambda>(rc, out, err).
        if rc \<noteq> 0 then ret (ws_failed ''workspace is not inside a Git working tree'')
        else bind_io (run_git os p [''rev-parse'', ''HEAD'']) (\<lambda>(rc2, out2, err2).
          let root = strip out; revision = (if rc2 = 0 then Some (strip out2) else None) in
          bind_io (run_git os p [''status'', ''--porcelain'', ''--untracked-files=all'', ''--'', ''.''])
          (\<lambda>(rc3, out3, err3).
             if rc3 \<noteq> 0
             then ret \<lparr>ws_git_root = Some root, ws_revision = revision, ws_dirty = False,
               ws_changed_paths = [], ws_error = Some (or_text (strip err3) ''git status failed'')\<rparr>
             else (let changed = List.map_filter changed_path_of (splitlines out3)
               in ret \<lparr>ws_git_root = Some root, ws_revision = revision, ws_dirty = (changed \<noteq> []),
                    ws_changed_paths = changed, ws_error = None\<rparr>)))))"

definition clean_workspace_error :: "workspace_state \<Rightarrow> pystr option" where
  "clean_workspace_error st =
     (if truthy (ws_error st) then ws_error st
      else if ws_revision st = None then Some ''workspace Git repository has no HEAD commit''
      else if ws_dirty st
      then Some (''workspace has uncommitted changes: '' @ join '', '' (take 5 (ws_changed_paths st))
        @ (if length (ws_changed_paths st) > 5 then ''...'' else []))
      else None)"

section \<open>The list of files\<close>

definition ignored_dirs :: "pystr list" where
  "ignored_dirs = [''__pycache__'', ''.pytest_cache'', ''.git'', ''outputs'', ''.mypy_cache'', ''.ruff_cache'']"

definition is_ignored :: "path \<Rightarrow> bool" where
  "is_ignored parts \<longleftrightarrow> list_ex (\<lambda>p. p \<in> set ignored_dirs) parts"

definition list_files :: "'w os \<Rightarrow> pystr \<Rightarrow> ('w, pystr) io" where
  "list_files os workspace = bind_io (gets (\<lambda>w. (path_exists os w workspace, walk os w workspace)))
     (\<lambda>(there, entries).
       let failed = (\<lambda>m. RuntimeError (''failed to list files in '' @ workspace @ '': '' @ m)) in
       if \<not> there then throw (failed (''workspace does not exist: '' @ workspace))
       else (case entries of
          Inr es \<Rightarrow> ret (joinlines (map (\<lambda>(parts, d). as_posix parts @ (if d then ''/'' else []))
            (filter (\<lambda>(parts, d). \<not> is_ignored parts) es)))
        | Inl (RuntimeError m) \<Rightarrow> throw (RuntimeError m)
        | Inl (TimeoutExpired m) \<Rightarrow> throw (TimeoutExpired m)
        | Inl (TypeError m) \<Rightarrow> throw (TypeError m)
        | Inl e \<Rightarrow> throw (failed (exn_message e))))"

section \<open>Transactions\<close>

record active_workspace =
  aw_original :: pystr
  aw_workspace :: pystr
  aw_git_root :: pystr
  aw_revision :: pystr
  aw_isolated :: bool

record transaction =
  tx_original :: pystr
  tx_isolate :: bool
  tx_active :: "active_workspace option"
  tx_temporary_root :: "pystr option"

definition path_join :: "pystr \<Rightarrow> path \<Rightarrow> pystr" where
  "path_join p parts = (if parts = [] then p else p @ ''/'' @ as_posix parts)"

text \<open>\<open>_safe_remove\<close> deletes below the system's temporary directory only.\<close>

definition safe_remove :: "'w os \<Rightarrow> pystr \<Rightarrow> ('w, unit) io" where
  "safe_remove os p = bind_io (gets (\<lambda>w. (resolve_path os w p, resolve_path os w (gettempdir os))))
     (\<lambda>(resolved, tmp).
       if relative_to (path_parts tmp) (path_parts resolved) = None
       then throw (RuntimeError (''refusing to remove path outside temporary directory: '' @ resolved))
       else bind_io (gets (\<lambda>w. path_exists os w resolved)) (\<lambda>there.
         if there then (\<lambda>w. case rmtree os w resolved of
             (Some m, w') \<Rightarrow> (Inl (OSError m), w') | (None, w') \<Rightarrow> (Inr (), w'))
         else ret ()))"

definition remove_worktree :: "'w os \<Rightarrow> pystr \<Rightarrow> pystr \<Rightarrow> ('w, pystr option) io" where
  "remove_worktree os cwd worktree_root =
     bind_io (run_git os cwd [''rev-parse'', ''--show-toplevel'']) (\<lambda>(rc, out, err).
       let git_root = (if rc = 0 then strip out else cwd) in
       bind_io (run_git os git_root [''worktree'', ''remove'', ''--force'', worktree_root])
       (\<lambda>(rc2, out2, err2).
         then_io (run_git os git_root [''worktree'', ''prune''])
         (bind_io (gets (\<lambda>w. path_exists os w worktree_root)) (\<lambda>there.
           ret (if rc2 \<noteq> 0 \<and> there
             then Some (or_text (strip err2) ''failed to remove temporary worktree'') else None)))))"

definition tx_begin :: "'w os \<Rightarrow> transaction \<Rightarrow> workspace_state \<Rightarrow> ('w, active_workspace \<times> transaction) io" where
  "tx_begin os tx st =
     (if tx_active tx \<noteq> None then throw (RuntimeError ''workspace transaction has already started'')
      else (case ws_git_root st of
        None \<Rightarrow> throw (RuntimeError (or_else (ws_error st) ''workspace is not inside a Git working tree''))
      | Some root \<Rightarrow>
        bind_io (gets (\<lambda>w. resolve_path os w root)) (\<lambda>git_root.
        if \<not> tx_isolate tx then
          (let a = \<lparr>aw_original = tx_original tx, aw_workspace = tx_original tx, aw_git_root = git_root,
                aw_revision = or_else (ws_revision st) [], aw_isolated = False\<rparr>
           in ret (a, tx\<lparr>tx_active := Some a\<rparr>))
        else (case ws_revision st of
          None \<Rightarrow> throw (RuntimeError ''workspace Git repository has no HEAD commit'')
        | Some revision \<Rightarrow>
          (case relative_to (path_parts git_root) (path_parts (tx_original tx)) of
             None \<Rightarrow> throw (RuntimeError ''workspace is outside its reported Git root'')
           | Some rel \<Rightarrow>
             bind_io (\<lambda>w. mkdtemp os w ''pyfixagent-worktree-'') (\<lambda>dir.
             bind_io (gets (\<lambda>w. resolve_path os w dir)) (\<lambda>temporary_root.
             let worktree_root = path_join temporary_root [''repo''] in
             bind_io (run_git os git_root [''worktree'', ''add'', ''--detach'', worktree_root, revision])
             (\<lambda>(rc, out, err).
               if rc \<noteq> 0
               then then_io (safe_remove os temporary_root)
                 (throw (RuntimeError (or_text (strip err) (or_text (strip out) ''git worktree add failed''))))
               else bind_io (gets (\<lambda>w. let p = resolve_path os w (path_join worktree_root rel)
                    in (p, is_dir os w p)))
               (\<lambda>(active, ok).
                 if \<not> ok
                 then then_io (remove_worktree os git_root worktree_root)
                   (then_io (safe_remove os temporary_root)
                   (throw (RuntimeError (''workspace path is missing from temporary worktree: ''
                     @ (if rel = [] then ''.'' else as_posix rel)))))
                 else (let a = \<lparr>aw_original = tx_original tx, aw_workspace = active,
                        aw_git_root = worktree_root, aw_revision = revision, aw_isolated = True\<rparr>
                   in ret (a, tx\<lparr>tx_active := Some a, tx_temporary_root := Some temporary_root\<rparr>))))))))))) "

definition require_active :: "transaction \<Rightarrow> ('w, active_workspace) io" where
  "require_active tx = (case tx_active tx of
     None \<Rightarrow> throw (RuntimeError ''workspace transaction has not started'') | Some a \<Rightarrow> ret a)"

definition tx_head :: "'w os \<Rightarrow> pystr \<Rightarrow> ('w, pystr option) io" where
  "tx_head os workspace = bind_io (run_git os workspace [''rev-parse'', ''HEAD''])
     (\<lambda>(rc, out, err). ret (if rc = 0 then Some (strip out) else None))"

definition commit_args :: "nat \<Rightarrow> pystr \<Rightarrow> pystr list" where
  "commit_args iteration kind = [''-c'', ''user.name=PyFixAgent'', ''-c'', ''user.email=pyfixagent@local.invalid'',
     ''commit'', ''--no-verify'', ''--no-gpg-sign'', ''-m'',
     ''pyfixagent: checkpoint '' @ kind @ '' '' @ str_nat iteration]"

definition tx_checkpoint :: "'w os \<Rightarrow> transaction \<Rightarrow> nat \<Rightarrow> pystr \<Rightarrow> ('w, pystr option) io" where
  "tx_checkpoint os tx iteration kind = bind_io (require_active tx) (\<lambda>a.
     if \<not> aw_isolated a then ret None
     else bind_io (run_git os (aw_workspace a) [''add'', ''-A'', ''--'', ''.'']) (\<lambda>(rc, out, err).
       if rc \<noteq> 0 then throw (RuntimeError (or_text (strip err) ''failed to stage worktree checkpoint''))
       else bind_io (run_git os (aw_workspace a) [''diff'', ''--cached'', ''--quiet'', ''--'', ''.''])
       (\<lambda>(rc2, out2, err2).
         if rc2 = 0 then tx_head os (aw_workspace a)
         else if rc2 \<noteq> 1
         then throw (RuntimeError (or_text (strip err2) ''failed to inspect worktree checkpoint''))
         else bind_io (run_git os (aw_workspace a) (commit_args iteration kind)) (\<lambda>(rc3, out3, err3).
           if rc3 \<noteq> 0
           then throw (RuntimeError (or_text (strip err3) ''failed to create worktree checkpoint''))
           else tx_head os (aw_workspace a)))))"

definition tx_rollback :: "'w os \<Rightarrow> transaction \<Rightarrow> ('w, unit) io" where
  "tx_rollback os tx = bind_io (require_active tx) (\<lambda>a.
     if \<not> aw_isolated a then ret ()
     else bind_io (run_git os (aw_workspace a) [''reset'', ''--hard'', ''HEAD'']) (\<lambda>(rc, out, err).
       if rc \<noteq> 0 then throw (RuntimeError (or_text (strip err) ''failed to roll back worktree''))
       else bind_io (run_git os (aw_workspace a) [''clean'', ''-fd'', ''--'', ''.'']) (\<lambda>(rc2, out2, err2).
         if rc2 \<noteq> 0 then throw (RuntimeError (or_text (strip err2) ''failed to clean rolled-back worktree''))
         else ret ())))"

definition tx_final_diff :: "'w os \<Rightarrow> transaction \<Rightarrow> ('w, pystr) io" where
  "tx_final_diff os tx = bind_io (require_active tx) (\<lambda>a.
     bind_io (if aw_isolated a
       then run_git os (aw_git_root a) [''diff'', ''--binary'', aw_revision a, ''HEAD'', ''--'', ''.'']
       else run_git os (aw_workspace a) [''diff'', ''--binary'', ''--'', ''.''])
     (\<lambda>(rc, out, err).
       if rc \<noteq> 0 then throw (RuntimeError (or_text (strip err) ''failed to export final patch''))
       else ret out))"

text \<open>\<open>close\<close> forgets the active workspace first; its cleaning may raise after that.\<close>

definition tx_closed :: "transaction \<Rightarrow> transaction" where
  "tx_closed tx = tx\<lparr>tx_active := None, tx_temporary_root := None\<rparr>"

definition tx_close :: "'w os \<Rightarrow> transaction \<Rightarrow> ('w, unit) io" where
  "tx_close os tx = (case tx_active tx of
     None \<Rightarrow> ret ()
   | Some a \<Rightarrow>
      if \<not> aw_isolated a then ret ()
      else bind_io (gets (\<lambda>w. resolve_path os w (aw_original a))) (\<lambda>origin.
        bind_io (remove_worktree os origin (aw_git_root a)) (\<lambda>error.
        then_io (case tx_temporary_root tx of None \<Rightarrow> ret () | Some root \<Rightarrow> safe_remove os root)
        (if truthy error then throw (RuntimeError (the error)) else ret ()))))"

section \<open>Sessions\<close>

record prepared =
  pw_workspace :: pystr
  pw_file_tree :: pystr
  pw_state :: workspace_state
  pw_active :: "(pystr \<times> bool) option"
  pw_strategy :: pystr
  pw_error :: "pystr option"

record session =
  se_workspace :: pystr
  se_patch_output_dir :: pystr
  se_require_clean :: bool
  se_tx :: transaction

definition session_init :: "'w os \<Rightarrow> 'w \<Rightarrow> pystr \<Rightarrow> pystr \<Rightarrow> bool \<Rightarrow> bool \<Rightarrow> session" where
  "session_init os w workspace dir require_clean isolate =
     \<lparr>se_workspace = workspace, se_patch_output_dir = dir, se_require_clean = require_clean,
      se_tx = \<lparr>tx_original = resolve_path os w workspace, tx_isolate = isolate, tx_active = None,
        tx_temporary_root = None\<rparr>\<rparr>"

definition worktree_strategy :: pystr where "worktree_strategy = ''temporary_git_worktree''"

definition strategy_of :: "session \<Rightarrow> pystr" where
  "strategy_of se = (if tx_isolate (se_tx se) then worktree_strategy
     else if se_require_clean se then ''in_place_clean_guard'' else ''incremental_repair'')"

definition not_prepared :: "session \<Rightarrow> workspace_state \<Rightarrow> pystr \<Rightarrow> prepared" where
  "not_prepared se st e = \<lparr>pw_workspace = se_workspace se, pw_file_tree = [], pw_state = st,
     pw_active = None, pw_strategy = strategy_of se, pw_error = Some e\<rparr>"

text \<open>
  \<open>prepare\<close> updates the session when the transaction has begun, also if the listing of the
  files raises afterwards; an \<open>OSError\<close> or a \<open>RuntimeError\<close> of the beginning is a result.
\<close>

definition prepare :: "'w os \<Rightarrow> ('w \<times> session, prepared) io" where
  "prepare os = (\<lambda>(w, se).
     case inspect_workspace os (se_workspace se) w of
       (Inl e, w1) \<Rightarrow> (Inl e, (w1, se))
     | (Inr st, w1) \<Rightarrow>
         (let error = (if se_require_clean se then clean_workspace_error st else None) in
          if truthy error then (Inr (not_prepared se st (the error)), (w1, se))
          else (case tx_begin os (se_tx se) st w1 of
             (Inl (OSError m), w2) \<Rightarrow> (Inr (not_prepared se st m), (w2, se))
           | (Inl (RuntimeError m), w2) \<Rightarrow> (Inr (not_prepared se st m), (w2, se))
           | (Inl e, w2) \<Rightarrow> (Inl e, (w2, se))
           | (Inr (a, tx), w2) \<Rightarrow>
               (let se' = se\<lparr>se_tx := tx\<rparr> in
                case list_files os (aw_workspace a) w2 of
                  (Inl e, w3) \<Rightarrow> (Inl e, (w3, se'))
                | (Inr tree, w3) \<Rightarrow>
                    (Inr \<lparr>pw_workspace = aw_workspace a, pw_file_tree = tree, pw_state = st,
                       pw_active = Some (aw_workspace a, aw_isolated a), pw_strategy = strategy_of se,
                       pw_error = None\<rparr>, (w3, se'))))))"

definition patch_path :: "'w os \<Rightarrow> session \<Rightarrow> nat \<Rightarrow> 'w \<Rightarrow> pystr" where
  "patch_path os se iteration w = path_join (se_patch_output_dir se)
     [''patch_'' @ now os w @ ''_attempt_'' @ str_nat iteration @ ''.patch'']"

definition export_final_patch :: "'w os \<Rightarrow> session \<Rightarrow> ('w, pystr \<times> pystr option) io" where
  "export_final_patch os se = bind_io (tx_final_diff os (se_tx se)) (\<lambda>patch.
     if patch = [] then ret ([], None)
     else (\<lambda>w. let p = path_join (se_patch_output_dir se) [''final_'' @ now os w @ ''.patch''] in
       case write_text os w p patch of
         (Some m, w') \<Rightarrow> (Inl (OSError m), w') | (None, w') \<Rightarrow> (Inr (patch, Some p), w')))"

section \<open>What Git is assumed to do\<close>

text \<open>
  A view of a world as Git sees the directory of a workspace: the tree of \<open>HEAD\<close>, the tree of
  the index, the tree of the files on disk that are not ignored, and whether the tracked
  files agree with the index. The laws are those of the Git manual for the commands that a
  transaction issues, each for a command that exits with status 0 (or 1, for \<open>--quiet\<close>);
  \<open>diff_text\<close> is the text that \<open>git diff\<close> prints between two trees.
\<close>

record ('w, 'tree) git_view =
  head_tree :: "'w \<Rightarrow> 'tree"
  index_tree :: "'w \<Rightarrow> 'tree"
  disk_tree :: "'w \<Rightarrow> 'tree"
  tracked_clean :: "'w \<Rightarrow> bool"
  diff_text :: "pystr \<Rightarrow> 'tree \<Rightarrow> pystr"

definition same_trees :: "('w, 'tree) git_view \<Rightarrow> 'w \<Rightarrow> 'w \<Rightarrow> bool" where
  "same_trees v w w' \<longleftrightarrow> head_tree v w' = head_tree v w \<and> index_tree v w' = index_tree v w
     \<and> disk_tree v w' = disk_tree v w"

definition git_lawful :: "'w os \<Rightarrow> transaction \<Rightarrow> ('w, 'tree) git_view \<Rightarrow> bool" where
  "git_lawful os tx v \<longleftrightarrow> (\<exists>a. tx_active tx = Some a \<and> aw_isolated a \<and>
     (\<forall>w w' rc out err. let call = (\<lambda>args. run_git os (aw_workspace a) args w = (Inr (rc, out, err), w')) in
        (call [''add'', ''-A'', ''--'', ''.''] \<and> rc = 0 \<longrightarrow> index_tree v w' = disk_tree v w
           \<and> head_tree v w' = head_tree v w \<and> disk_tree v w' = disk_tree v w)
      \<and> (call [''diff'', ''--cached'', ''--quiet'', ''--'', ''.''] \<longrightarrow> same_trees v w w'
           \<and> (rc = 0 \<longrightarrow> index_tree v w = head_tree v w))
      \<and> (\<forall>n k. call (commit_args n k) \<and> rc = 0 \<longrightarrow> head_tree v w' = index_tree v w
           \<and> disk_tree v w' = disk_tree v w)
      \<and> (call [''rev-parse'', ''HEAD''] \<longrightarrow> same_trees v w w')
      \<and> (call [''reset'', ''--hard'', ''HEAD''] \<and> rc = 0 \<longrightarrow> head_tree v w' = head_tree v w
           \<and> index_tree v w' = head_tree v w \<and> tracked_clean v w')
      \<and> (call [''clean'', ''-fd'', ''--'', ''.''] \<and> rc = 0 \<and> tracked_clean v w \<longrightarrow>
           head_tree v w' = head_tree v w \<and> index_tree v w' = index_tree v w \<and> disk_tree v w' = index_tree v w)
      \<and> (run_git os (aw_git_root a) [''diff'', ''--binary'', aw_revision a, ''HEAD'', ''--'', ''.''] w
             = (Inr (rc, out, err), w') \<longrightarrow> same_trees v w w' \<and> (rc = 0 \<longrightarrow> out = diff_text v (aw_revision a) (head_tree v w)))))"

text \<open>The text that \<open>final_diff\<close> exports for a tree.\<close>

definition exported :: "transaction \<Rightarrow> ('w, 'tree) git_view \<Rightarrow> 'tree \<Rightarrow> pystr" where
  "exported tx v t = diff_text v (case tx_active tx of None \<Rightarrow> [] | Some a \<Rightarrow> aw_revision a) t"

section \<open>The interface of a checkpoint store\<close>

text \<open>
  What the repair engine relies on: a checkpoint commits the files as they are, a rollback
  puts the files back to the last checkpoint, an export describes the last checkpoint.
\<close>

locale checkpoint_store =
  fixes lawful :: "'o \<Rightarrow> 't \<Rightarrow> 'v \<Rightarrow> bool"
    and checkpoint :: "'o \<Rightarrow> 't \<Rightarrow> nat \<Rightarrow> pystr \<Rightarrow> ('w, pystr option) io"
    and rollback :: "'o \<Rightarrow> 't \<Rightarrow> ('w, unit) io"
    and export_diff :: "'o \<Rightarrow> 't \<Rightarrow> ('w, pystr) io"
    and committed :: "'v \<Rightarrow> 'w \<Rightarrow> 'tree"
    and current :: "'v \<Rightarrow> 'w \<Rightarrow> 'tree"
    and text_of :: "'t \<Rightarrow> 'v \<Rightarrow> 'tree \<Rightarrow> pystr"
  assumes checkpoint_commits:
      "lawful os tx v \<Longrightarrow> checkpoint os tx n k w = (Inr c, w') \<Longrightarrow>
         committed v w' = current v w \<and> current v w' = current v w"
    and rollback_restores:
      "lawful os tx v \<Longrightarrow> rollback os tx w = (Inr u, w') \<Longrightarrow>
         committed v w' = committed v w \<and> current v w' = committed v w"
    and export_reads:
      "lawful os tx v \<Longrightarrow> export_diff os tx w = (Inr d, w') \<Longrightarrow>
         d = text_of tx v (committed v w) \<and> committed v w' = committed v w \<and> current v w' = current v w"
begin

text \<open>An edit between a checkpoint and a rollback leaves no trace.\<close>

lemma discarded_edit:
  assumes "lawful os tx v" and "checkpoint os tx n k w0 = (Inr c, w1)"
    and "committed v w2 = committed v w1" and "rollback os tx w2 = (Inr u, w3)"
  shows "current v w3 = current v w0" and "committed v w3 = current v w0"
  using checkpoint_commits [OF assms(1,2)] rollback_restores [OF assms(1,4)] assms(3) by simp_all

text \<open>What is exported after a checkpoint describes the files as they were checkpointed.\<close>

lemma exported_checkpoint:
  assumes "lawful os tx v" and "checkpoint os tx n k w0 = (Inr c, w1)"
    and "committed v w2 = committed v w1" and "export_diff os tx w2 = (Inr d, w3)"
  shows "d = text_of tx v (current v w0)"
  using checkpoint_commits [OF assms(1,2)] export_reads [OF assms(1,4)] assms(3) by simp

end

lemma git_lawfulD:
  assumes "git_lawful os tx v"
  obtains a where "tx_active tx = Some a" "aw_isolated a"
    and "\<And>w w' out err. run_git os (aw_workspace a) [''add'', ''-A'', ''--'', ''.''] w = (Inr (0, out, err), w') \<Longrightarrow>
       index_tree v w' = disk_tree v w \<and> head_tree v w' = head_tree v w \<and> disk_tree v w' = disk_tree v w"
    and "\<And>w w' rc out err. run_git os (aw_workspace a) [''diff'', ''--cached'', ''--quiet'', ''--'', ''.''] w
         = (Inr (rc, out, err), w') \<Longrightarrow> same_trees v w w' \<and> (rc = 0 \<longrightarrow> index_tree v w = head_tree v w)"
    and "\<And>w w' out err n k. run_git os (aw_workspace a) (commit_args n k) w = (Inr (0, out, err), w') \<Longrightarrow>
       head_tree v w' = index_tree v w \<and> disk_tree v w' = disk_tree v w"
    and "\<And>w w' rc out err. run_git os (aw_workspace a) [''rev-parse'', ''HEAD''] w = (Inr (rc, out, err), w') \<Longrightarrow>
       same_trees v w w'"
    and "\<And>w w' out err. run_git os (aw_workspace a) [''reset'', ''--hard'', ''HEAD''] w = (Inr (0, out, err), w') \<Longrightarrow>
       head_tree v w' = head_tree v w \<and> index_tree v w' = head_tree v w \<and> tracked_clean v w'"
    and "\<And>w w' out err. run_git os (aw_workspace a) [''clean'', ''-fd'', ''--'', ''.''] w = (Inr (0, out, err), w') \<Longrightarrow>
       tracked_clean v w \<Longrightarrow>
       head_tree v w' = head_tree v w \<and> index_tree v w' = index_tree v w \<and> disk_tree v w' = index_tree v w"
    and "\<And>w w' rc out err. run_git os (aw_git_root a) [''diff'', ''--binary'', aw_revision a, ''HEAD'', ''--'', ''.''] w
         = (Inr (rc, out, err), w') \<Longrightarrow>
       same_trees v w w' \<and> (rc = 0 \<longrightarrow> out = diff_text v (aw_revision a) (head_tree v w))"
  using assms unfolding git_lawful_def Let_def by (elim exE conjE) (rule that; blast)

lemma require_active_Some: "tx_active tx = Some a \<Longrightarrow> require_active tx = ret a"
  by (simp add: require_active_def)

lemma tx_head_trees:
  assumes "\<And>w w' rc out err. run_git os ws [''rev-parse'', ''HEAD''] w = (Inr (rc, out, err), w') \<Longrightarrow> same_trees v w w'"
    and "tx_head os ws w = (Inr c, w')"
  shows "same_trees v w w'"
  using assms(2) unfolding tx_head_def bind_io_Inr by (auto dest: assms(1))

lemma tx_checkpoint_commits:
  assumes "git_lawful os tx v" and "tx_checkpoint os tx n k w = (Inr c, w')"
  shows "head_tree v w' = disk_tree v w \<and> disk_tree v w' = disk_tree v w"
proof -
  from assms(1) show ?thesis
  proof (rule git_lawfulD)
    fix a assume a: "tx_active tx = Some a" "aw_isolated a"
    assume add: "\<And>w w' out err. run_git os (aw_workspace a) [''add'', ''-A'', ''--'', ''.''] w = (Inr (0, out, err), w') \<Longrightarrow>
       index_tree v w' = disk_tree v w \<and> head_tree v w' = head_tree v w \<and> disk_tree v w' = disk_tree v w"
    assume diff: "\<And>w w' rc out err. run_git os (aw_workspace a) [''diff'', ''--cached'', ''--quiet'', ''--'', ''.''] w
         = (Inr (rc, out, err), w') \<Longrightarrow> same_trees v w w' \<and> (rc = 0 \<longrightarrow> index_tree v w = head_tree v w)"
    assume commit: "\<And>w w' out err n k. run_git os (aw_workspace a) (commit_args n k) w = (Inr (0, out, err), w') \<Longrightarrow>
       head_tree v w' = index_tree v w \<and> disk_tree v w' = disk_tree v w"
    assume head: "\<And>w w' rc out err. run_git os (aw_workspace a) [''rev-parse'', ''HEAD''] w = (Inr (rc, out, err), w') \<Longrightarrow>
       same_trees v w w'"
    from assms(2) obtain out err w1 where w1: "run_git os (aw_workspace a) [''add'', ''-A'', ''--'', ''.''] w = (Inr (0, out, err), w1)"
      and "bind_io (run_git os (aw_workspace a) [''diff'', ''--cached'', ''--quiet'', ''--'', ''.''])
         (\<lambda>(rc2, out2, err2). if rc2 = 0 then tx_head os (aw_workspace a)
         else if rc2 \<noteq> 1 then throw (RuntimeError (or_text (strip err2) ''failed to inspect worktree checkpoint''))
         else bind_io (run_git os (aw_workspace a) (commit_args n k)) (\<lambda>(rc3, out3, err3).
           if rc3 \<noteq> 0 then throw (RuntimeError (or_text (strip err3) ''failed to create worktree checkpoint''))
           else tx_head os (aw_workspace a))) w1 = (Inr c, w')" (is "bind_io ?d ?k w1 = _")
      by (auto simp: tx_checkpoint_def require_active_Some [OF a(1)] a(2) bind_io_Inr [of "run_git _ _ _"] split: if_splits)
    then obtain rc2 out2 err2 w2 where w2: "run_git os (aw_workspace a) [''diff'', ''--cached'', ''--quiet'', ''--'', ''.''] w1
        = (Inr (rc2, out2, err2), w2)" and rest: "?k (rc2, out2, err2) w2 = (Inr c, w')"
      unfolding bind_io_Inr by auto
    note t1 = add [OF w1] and t2 = diff [OF w2]
    show ?thesis
    proof (cases "rc2 = 0")
      case True
      with rest have "tx_head os (aw_workspace a) w2 = (Inr c, w')" by simp
      from tx_head_trees [OF head this] t1 t2 True show ?thesis by (simp add: same_trees_def)
    next
      case False
      with rest obtain out3 err3 w3 where w3: "run_git os (aw_workspace a) (commit_args n k) w2 = (Inr (0, out3, err3), w3)"
        and h: "tx_head os (aw_workspace a) w3 = (Inr c, w')"
        by (auto simp: bind_io_Inr split: if_splits)
      from tx_head_trees [OF head h] commit [OF w3] t1 t2 show ?thesis by (simp add: same_trees_def)
    qed
  qed
qed

lemma tx_rollback_restores:
  assumes "git_lawful os tx v" and "tx_rollback os tx w = (Inr u, w')"
  shows "head_tree v w' = head_tree v w \<and> disk_tree v w' = head_tree v w"
proof -
  from assms(1) show ?thesis
  proof (rule git_lawfulD)
    fix a assume a: "tx_active tx = Some a" "aw_isolated a"
    assume reset: "\<And>w w' out err. run_git os (aw_workspace a) [''reset'', ''--hard'', ''HEAD''] w = (Inr (0, out, err), w') \<Longrightarrow>
       head_tree v w' = head_tree v w \<and> index_tree v w' = head_tree v w \<and> tracked_clean v w'"
    assume clean: "\<And>w w' out err. run_git os (aw_workspace a) [''clean'', ''-fd'', ''--'', ''.''] w = (Inr (0, out, err), w') \<Longrightarrow>
       tracked_clean v w \<Longrightarrow>
       head_tree v w' = head_tree v w \<and> index_tree v w' = index_tree v w \<and> disk_tree v w' = index_tree v w"
    from assms(2) obtain out err w1 out2 err2 where
        w1: "run_git os (aw_workspace a) [''reset'', ''--hard'', ''HEAD''] w = (Inr (0, out, err), w1)"
        and w2: "run_git os (aw_workspace a) [''clean'', ''-fd'', ''--'', ''.''] w1 = (Inr (0, out2, err2), w')"
      by (auto simp: tx_rollback_def require_active_Some [OF a(1)] a(2) bind_io_Inr split: if_splits)
    from reset [OF w1] clean [OF w2] show ?thesis by simp
  qed
qed

lemma tx_final_diff_reads:
  assumes "git_lawful os tx v" and "tx_final_diff os tx w = (Inr d, w')"
  shows "d = exported tx v (head_tree v w) \<and> head_tree v w' = head_tree v w \<and> disk_tree v w' = disk_tree v w"
proof -
  from assms(1) show ?thesis
  proof (rule git_lawfulD)
    fix a assume a: "tx_active tx = Some a" "aw_isolated a"
    assume diff: "\<And>w w' rc out err. run_git os (aw_git_root a) [''diff'', ''--binary'', aw_revision a, ''HEAD'', ''--'', ''.''] w
         = (Inr (rc, out, err), w') \<Longrightarrow>
       same_trees v w w' \<and> (rc = 0 \<longrightarrow> out = diff_text v (aw_revision a) (head_tree v w))"
    from assms(2) obtain out err where
        w1: "run_git os (aw_git_root a) [''diff'', ''--binary'', aw_revision a, ''HEAD'', ''--'', ''.''] w = (Inr (0, out, err), w')"
        and d: "d = out"
      by (auto simp: tx_final_diff_def require_active_Some [OF a(1)] a(2) bind_io_Inr split: if_splits)
    from diff [OF w1] d a show ?thesis by (simp add: same_trees_def exported_def)
  qed
qed

interpretation worktree: checkpoint_store git_lawful tx_checkpoint tx_rollback tx_final_diff
    head_tree disk_tree exported
  by unfold_locales (simp_all add: tx_checkpoint_commits tx_rollback_restores tx_final_diff_reads)

section \<open>Properties\<close>

text \<open>
  A repository small enough to compute with: its trees are texts; \<open>head\<close>, \<open>index\<close>, \<open>disk\<close> and
  whether the tracked files are clean. It obeys the laws, so they are consistent.
\<close>

record demo_world =
  d_head :: pystr
  d_index :: pystr
  d_disk :: pystr
  d_clean :: bool

definition demo_git :: "demo_world \<Rightarrow> pystr \<Rightarrow> pystr list \<Rightarrow> pystr \<Rightarrow> proc \<times> demo_world" where
  "demo_git w cwd args stdin =
     (if args = [''add'', ''-A'', ''--'', ''.''] then (Completed 0 [] [], w\<lparr>d_index := d_disk w\<rparr>)
      else if args = [''diff'', ''--cached'', ''--quiet'', ''--'', ''.'']
      then (Completed (if d_index w = d_head w then 0 else 1) [] [], w)
      else if args = [''rev-parse'', ''HEAD''] then (Completed 0 ''c0ffee'' [], w)
      else if args = [''rev-parse'', ''--show-toplevel''] then (Completed 0 ''/r'' [], w)
      else if args = [''reset'', ''--hard'', ''HEAD'']
      then (Completed 0 [] [], w\<lparr>d_index := d_head w, d_disk := d_head w, d_clean := True\<rparr>)
      else if args = [''clean'', ''-fd'', ''--'', ''.''] then (Completed 0 [] [], w\<lparr>d_disk := d_index w\<rparr>)
      else if args = [''diff'', ''--binary'', ''c0ffee'', ''HEAD'', ''--'', ''.''] then (Completed 0 (d_head w) [], w)
      else if take 5 args = take 5 (commit_args 0 []) then (Completed 0 [] [], w\<lparr>d_head := d_index w\<rparr>)
      else (Completed 0 [] [], w))"

definition demo_os :: "demo_world os" where
  "demo_os = \<lparr>git = demo_git, write_text = \<lambda>w p t. (None, w), read_text = \<lambda>w p. Inr [],
     resolve_path = \<lambda>w p. p, path_exists = \<lambda>w p. True, is_file = \<lambda>w p. True, is_dir = \<lambda>w p. True,
     walk = \<lambda>w p. Inr [([''m.py''], False)], mkdtemp = \<lambda>w p. (Inr ''/tmp/x'', w), spawn = \<lambda>w d c t. (Ran 0 [] [], w),
     rmtree = \<lambda>w p. (None, w\<lparr>d_disk := []\<rparr>), gettempdir = ''/tmp'', now = \<lambda>w. ''t'',
     files = \<lambda>w. undefined, set_files = \<lambda>F w. w\<rparr>"

definition demo_tx :: transaction where
  "demo_tx = \<lparr>tx_original = ''/r'', tx_isolate = True,
     tx_active = Some \<lparr>aw_original = ''/r'', aw_workspace = ''/tmp/x/repo'', aw_git_root = ''/tmp/x/repo'',
       aw_revision = ''c0ffee'', aw_isolated = True\<rparr>,
     tx_temporary_root = Some ''/tmp/x''\<rparr>"

definition demo_view :: "(demo_world, pystr) git_view" where
  "demo_view = \<lparr>head_tree = d_head, index_tree = d_index, disk_tree = d_disk, tracked_clean = d_clean,
     diff_text = \<lambda>rev t. t\<rparr>"

definition demo_state :: demo_world where
  "demo_state = \<lparr>d_head = ''old'', d_index = ''old'', d_disk = ''new'', d_clean = False\<rparr>"

lemma demo_run_git: "run_git demo_os cwd args w = (Inr (rc, out, err), w')
    \<longleftrightarrow> demo_git w cwd args [] = (Completed rc out err, w')"
  by (auto simp: run_git_def demo_os_def demo_git_def)

lemma demo_lawful: "git_lawful demo_os demo_tx demo_view"
  unfolding git_lawful_def Let_def
  by (rule exI [of _ "the (tx_active demo_tx)"])
    (simp add: demo_run_git, simp add: demo_git_def demo_tx_def demo_view_def same_trees_def
      commit_args_def; auto)

text \<open>
  C11 A rollback restores the last checkpoint: whatever an attempt wrote to the worktree after
  it, the files are again those that were checkpointed, and the exported patch describes
  them, given that Git does what its manual says.
\<close>

theorem rollback_restores_checkpoint:
  assumes "git_lawful os tx v" and "tx_checkpoint os tx n k w0 = (Inr c, w1)"
    and "head_tree v w2 = head_tree v w1" and "tx_rollback os tx w2 = (Inr (), w3)"
  shows "disk_tree v w3 = disk_tree v w0
    \<and> (\<forall>d w4. tx_final_diff os tx w3 = (Inr d, w4) \<longrightarrow> d = exported tx v (disk_tree v w0))"
  using worktree.discarded_edit [OF assms]
    worktree.exported_checkpoint [OF assms(1,2), of w3] worktree.rollback_restores [OF assms(1,4)] assms(3)
  by simp

theorem rollback_restores_checkpoint_witness:
  "disk_tree demo_view (snd (tx_rollback demo_os demo_tx
      ((snd (tx_checkpoint demo_os demo_tx 1 ''iteration'' demo_state))\<lparr>d_disk := ''broken''\<rparr>)))
    = disk_tree demo_view demo_state"
  by (rule rollback_restores_checkpoint [where n = 1 and k = "''iteration''"
        and c = "Some ''c0ffee''" and ?w1.0 = "demo_state\<lparr>d_head := ''new'', d_index := ''new''\<rparr>"
        and ?w2.0 = "demo_state\<lparr>d_head := ''new'', d_index := ''new'', d_disk := ''broken''\<rparr>",
        THEN conjunct1, OF demo_lawful]) code_simp+

text \<open>
  The recursive deletion that cleans up a transaction happens only below the system's
  temporary directory: if it changes anything, the resolved target extends the resolved
  temporary directory.
\<close>

theorem safe_remove_confined:
  assumes "snd (safe_remove os p w) \<noteq> w"
  shows "\<exists>r. path_parts (resolve_path os w p) = path_parts (resolve_path os w (gettempdir os)) @ r"
  using assms
  by (cases "relative_to (path_parts (resolve_path os w (gettempdir os))) (path_parts (resolve_path os w p))")
    (auto simp: safe_remove_def io_defs relative_to_Some)

theorem safe_remove_confined_witness:
  "\<exists>r. path_parts (resolve_path demo_os demo_state ''/tmp/x'')
      = path_parts (resolve_path demo_os demo_state (gettempdir demo_os)) @ r"
  by (rule safe_remove_confined) code_simp

lemma inspect_dirty:
  "inspect_workspace os ws w = (Inr st, w') \<Longrightarrow> ws_dirty st \<longleftrightarrow> ws_changed_paths st \<noteq> []"
  by (auto simp: inspect_workspace_def bind_io_Inr ws_failed_def gets_def Let_def split: if_splits)

text \<open>
  A run that demands a clean workspace starts only from one: if the preparation reports no
  error, the repository has a commit and \<open>git status\<close> named no changed path.
\<close>

theorem prepare_requires_clean:
  assumes "prepare os (w, se) = (Inr p, s)" and "se_require_clean se" and "pw_error p = None"
  shows "ws_revision (pw_state p) \<noteq> None \<and> ws_changed_paths (pw_state p) = []
    \<and> pw_active p \<noteq> None"
proof -
  obtain r w1 where insp: "inspect_workspace os (se_workspace se) w = (r, w1)" by fastforce
  with assms(1) obtain st where r: "r = Inr st" by (cases r) (auto simp: prepare_def)
  have ok: "\<not> truthy (clean_workspace_error st)"
    using assms insp r by (auto simp: prepare_def not_prepared_def)
  obtain t w2 where t: "tx_begin os (se_tx se) st w1 = (t, w2)" by fastforce
  have "pw_state p = st \<and> pw_active p \<noteq> None"
    using assms insp r ok t
    by (cases t) (auto simp: prepare_def not_prepared_def Let_def split: exn.splits prod.splits sum.splits)
  moreover have "ws_revision st \<noteq> None" "\<not> ws_dirty st"
    using ok by (auto simp: clean_workspace_error_def split: if_splits)
  ultimately show ?thesis using inspect_dirty [of os "se_workspace se" w st w1] insp r by simp
qed

theorem prepare_requires_clean_witness:
  "ws_changed_paths (pw_state (projr (fst (prepare demo_os (demo_state,
     session_init demo_os demo_state ''/r'' ''/o'' True True))))) = []"
proof -
  let ?s = "prepare demo_os (demo_state, session_init demo_os demo_state ''/r'' ''/o'' True True)"
  have "?s = (Inr (projr (fst ?s)), snd ?s)" by code_simp
  moreover have "pw_error (projr (fst ?s)) = None" by code_simp
  ultimately show ?thesis
    using prepare_requires_clean [of demo_os demo_state "session_init demo_os demo_state ''/r'' ''/o'' True True"]
    by (simp add: session_init_def)
qed

end
