(* ===== verification/PyJson.thy ===== *)
theory PyJson
  imports PyStr
begin

text \<open>
  \<open>json.loads\<close> and \<open>JSONDecoder().raw_decode\<close> of the Python standard library: the decoder
  that the program applies to model output. A JSON value is a \<open>json\<close>; an object keeps its
  keys in insertion order, a repeated key keeps its first position and its last value, as a
  \<open>dict\<close> built from pairs does. \<^const>\<open>None\<close> is \<open>JSONDecodeError\<close>; an escape above U+00FF is
  outside the Latin-1 texts of the model and is treated as an error too. A number with a
  fraction or an exponent keeps its spelling.
\<close>

datatype json =
    JNull
  | JBool bool
  | JInt int
  | JFloat pystr
  | JStr pystr
  | JArr "json list"
  | JObj "(pystr \<times> json) list"

section \<open>Dictionaries in insertion order\<close>

fun dict_set :: "'k \<Rightarrow> 'v \<Rightarrow> ('k \<times> 'v) list \<Rightarrow> ('k \<times> 'v) list" where
  "dict_set k v [] = [(k, v)]"
| "dict_set k v ((k', v') # d) = (if k = k' then (k, v) # d else (k', v') # dict_set k v d)"

abbreviation dict_get :: "('k \<times> 'v) list \<Rightarrow> 'k \<Rightarrow> 'v option" where
  "dict_get d k \<equiv> map_of d k"

definition dict_of_pairs :: "('k \<times> 'v) list \<Rightarrow> ('k \<times> 'v) list" where
  "dict_of_pairs ps = fold (\<lambda>(k, v) d. dict_set k v d) ps []"

lemma dict_get_set: "dict_get (dict_set k v d) k' = (if k' = k then Some v else dict_get d k')"
  by (induction k v d rule: dict_set.induct) auto

lemma keys_dict_set: "set (map fst (dict_set k v d)) = insert k (set (map fst d))"
  by (induction k v d rule: dict_set.induct) auto

lemma distinct_dict_set: "distinct (map fst d) \<Longrightarrow> distinct (map fst (dict_set k v d))"
proof (induction k v d rule: dict_set.induct)
  case (2 k v k' v' d)
  then show ?case using keys_dict_set [of k v d] by (auto simp: image_image)
qed simp

section \<open>Lexical elements\<close>

definition json_space :: "char \<Rightarrow> bool" where
  "json_space c \<longleftrightarrow> c \<in> set [CHR '' '', CHR 0x09, CHR 0x0A, CHR 0x0D]"

definition skip_ws :: "pystr \<Rightarrow> pystr" where
  "skip_ws s = dropWhile json_space s"

definition hex_val :: "char \<Rightarrow> nat option" where
  "hex_val c = (if is_digit c then Some (code c - 48)
     else if 97 \<le> code c \<and> code c \<le> 102 then Some (code c - 87)
     else if 65 \<le> code c \<and> code c \<le> 70 then Some (code c - 55) else None)"

fun hex_number :: "nat \<Rightarrow> pystr \<Rightarrow> nat option" where
  "hex_number n [] = Some n"
| "hex_number n (c # cs) = (case hex_val c of None \<Rightarrow> None | Some d \<Rightarrow> hex_number (16 * n + d) cs)"

definition json_escape :: "char \<Rightarrow> char option" where
  "json_escape c = map_of [(CHR 0x22, CHR 0x22), (CHR 0x5C, CHR 0x5C), (CHR ''/'', CHR ''/''),
     (CHR ''b'', CHR 0x08), (CHR ''f'', CHR 0x0C), (CHR ''n'', CHR 0x0A),
     (CHR ''r'', CHR 0x0D), (CHR ''t'', CHR 0x09)] c"

text \<open>The text of a string after its opening quote.\<close>

function string_body :: "pystr \<Rightarrow> pystr \<Rightarrow> (pystr \<times> pystr) option" where
  "string_body acc [] = None"
| "string_body acc (c # cs) =
     (if c = CHR 0x22 then Some (rev acc, cs)
      else if c = CHR 0x5C then
        (case cs of
           [] \<Rightarrow> None
         | e # es \<Rightarrow>
             (if e = CHR ''u'' then
                (if length es < 4 then None
                 else (case hex_number 0 (take 4 es) of
                    None \<Rightarrow> None
                  | Some n \<Rightarrow> (if n < 256 then string_body (char_of n # acc) (drop 4 es) else None)))
              else (case json_escape e of
                 None \<Rightarrow> None | Some x \<Rightarrow> string_body (x # acc) es)))
      else if code c < 32 then None
      else string_body (c # acc) cs)"
  by pat_completeness auto
termination
  by (relation "measure (\<lambda>(acc, s). length s)") auto

text \<open>
  A number: an optional minus, \<open>0\<close> or a digit run without a leading zero, then a fraction and
  an exponent where they are complete.
\<close>

definition digit_run :: "pystr \<Rightarrow> pystr" where
  "digit_run s = takeWhile is_digit s"

definition scan_int :: "pystr \<Rightarrow> (pystr \<times> pystr) option" where
  "scan_int s = (case s of
     [] \<Rightarrow> None
   | c # cs \<Rightarrow> (if c = CHR ''0'' then Some ([c], cs)
       else if is_digit c then Some (digit_run s, dropWhile is_digit s) else None))"

definition scan_fraction :: "pystr \<Rightarrow> pystr \<times> pystr" where
  "scan_fraction s = (case s of
     c # cs \<Rightarrow> (if c = CHR ''.'' \<and> digit_run cs \<noteq> [] then (c # digit_run cs, dropWhile is_digit cs)
        else ([], s))
   | [] \<Rightarrow> ([], s))"

definition scan_exponent :: "pystr \<Rightarrow> pystr \<times> pystr" where
  "scan_exponent s = (case s of
     c # cs \<Rightarrow>
       (if c = CHR ''e'' \<or> c = CHR ''E'' then
          (let sgn = (if startswith_any cs [''+'', ''-''] then take 1 cs else []);
               ds = drop (length sgn) cs
           in if digit_run ds \<noteq> [] then (c # sgn @ digit_run ds, dropWhile is_digit ds) else ([], s))
        else ([], s))
   | [] \<Rightarrow> ([], s))"

definition scan_number :: "pystr \<Rightarrow> (json \<times> pystr) option" where
  "scan_number s =
     (let neg = startswith s ''-''; body = (if neg then drop 1 s else s) in
      case scan_int body of
        None \<Rightarrow> None
      | Some (i, r1) \<Rightarrow>
          (let (f, r2) = scan_fraction r1; (e, r3) = scan_exponent r2 in
           if f = [] \<and> e = []
           then Some (JInt (if neg then - int (int_of_digits i) else int (int_of_digits i)), r3)
           else Some (JFloat ((if neg then ''-'' else []) @ i @ f @ e), r3)))"

definition json_word :: "pystr \<Rightarrow> (json \<times> pystr) option" where
  "json_word s =
     (if startswith s ''null'' then Some (JNull, drop 4 s)
      else if startswith s ''true'' then Some (JBool True, drop 4 s)
      else if startswith s ''false'' then Some (JBool False, drop 5 s)
      else if startswith s ''NaN'' then Some (JFloat ''NaN'', drop 3 s)
      else if startswith s ''Infinity'' then Some (JFloat ''Infinity'', drop 8 s)
      else if startswith s ''-Infinity'' then Some (JFloat ''-Infinity'', drop 9 s)
      else scan_number s)"

section \<open>Values\<close>

text \<open>
  The recursive decoder, with fuel. Two calls at most start at the same position (an array
  element is a value), so twice the length of the text and two more are enough.
\<close>

fun json_value :: "nat \<Rightarrow> pystr \<Rightarrow> (json \<times> pystr) option"
and json_members :: "nat \<Rightarrow> (pystr \<times> json) list \<Rightarrow> pystr \<Rightarrow> (json \<times> pystr) option"
and json_elements :: "nat \<Rightarrow> json list \<Rightarrow> pystr \<Rightarrow> (json \<times> pystr) option" where
  "json_value 0 s = None"
| "json_value (Suc n) s =
     (case s of
        [] \<Rightarrow> None
      | c # cs \<Rightarrow>
          (if c = CHR 0x22 then map_option (\<lambda>(t, r). (JStr t, r)) (string_body [] cs)
           else if c = CHR 0x7B then
             (let r = skip_ws cs in
              if startswith r [CHR 0x7D] then Some (JObj [], drop 1 r) else json_members n [] r)
           else if c = CHR 0x5B then
             (let r = skip_ws cs in
              if startswith r [CHR 0x5D] then Some (JArr [], drop 1 r) else json_elements n [] r)
           else json_word s))"
| "json_members 0 acc s = None"
| "json_members (Suc n) acc s =
     (case s of
        [] \<Rightarrow> None
      | c # cs \<Rightarrow>
          (if c \<noteq> CHR 0x22 then None
           else (case string_body [] cs of
              None \<Rightarrow> None
            | Some (k, r1) \<Rightarrow>
                (case skip_ws r1 of
                   [] \<Rightarrow> None
                 | c2 # r2 \<Rightarrow>
                     (if c2 \<noteq> CHR '':'' then None
                      else (case json_value n (skip_ws r2) of
                         None \<Rightarrow> None
                       | Some (v, r3) \<Rightarrow>
                           (case skip_ws r3 of
                              [] \<Rightarrow> None
                            | c4 # r4 \<Rightarrow>
                                (if c4 = CHR 0x7D then Some (JObj (dict_of_pairs (rev ((k, v) # acc))), r4)
                                 else if c4 = CHR '','' then json_members n ((k, v) # acc) (skip_ws r4)
                                 else None)))))))) "
| "json_elements 0 acc s = None"
| "json_elements (Suc n) acc s =
     (case json_value n s of
        None \<Rightarrow> None
      | Some (v, r1) \<Rightarrow>
          (case skip_ws r1 of
             [] \<Rightarrow> None
           | c # r2 \<Rightarrow>
               (if c = CHR 0x5D then Some (JArr (rev (v # acc)), r2)
                else if c = CHR '','' then json_elements n (v # acc) (skip_ws r2)
                else None)))"

definition json_fuel :: "pystr \<Rightarrow> nat" where
  "json_fuel s = 2 * length s + 2"

definition raw_decode :: "pystr \<Rightarrow> (json \<times> pystr) option" where
  "raw_decode s = json_value (json_fuel s) s"

definition json_loads :: "pystr \<Rightarrow> json option" where
  "json_loads s =
     (case raw_decode (skip_ws s) of
        None \<Rightarrow> None
      | Some (v, r) \<Rightarrow> (if skip_ws r = [] then Some v else None))"

section \<open>Consumption and enough fuel\<close>

lemma length_skip_ws: "length (skip_ws s) \<le> length s"
  by (simp add: skip_ws_def length_dropWhile_le)

lemma skip_ws_Cons: "skip_ws s = c # r \<Longrightarrow> length r < length s"
  using length_skip_ws [of s] by simp

lemma string_body_shorter: "string_body acc s = Some (t, r) \<Longrightarrow> length r < length s"
proof (induction acc s rule: string_body.induct)
  case (2 acc c cs)
  then show ?case by (force split: if_splits list.splits option.splits)
qed simp

lemma scan_int_shorter: "scan_int s = Some (t, r) \<Longrightarrow> length r < length s"
  by (auto simp: scan_int_def less_Suc_eq_le length_dropWhile_le split: list.splits if_splits)

lemma scan_fraction_shorter: "scan_fraction s = (t, r) \<Longrightarrow> length r \<le> length s"
  by (auto simp: scan_fraction_def le_SucI length_dropWhile_le split: list.splits if_splits)

lemma scan_exponent_shorter: "scan_exponent s = (t, r) \<Longrightarrow> length r \<le> length s"
proof -
  have d: "length (dropWhile is_digit (drop n cs)) \<le> Suc (length cs)" for n cs
    using length_dropWhile_le [of is_digit "drop n cs"] by simp
  show "scan_exponent s = (t, r) \<Longrightarrow> length r \<le> length s"
    using d [of 0] by (auto simp: scan_exponent_def d Let_def split: list.splits if_splits)
qed

lemma scan_number_shorter: "scan_number s = Some (v, r) \<Longrightarrow> length r < length s"
  using scan_int_shorter scan_fraction_shorter scan_exponent_shorter
  by (fastforce simp: scan_number_def Let_def startswith_def
      split: if_splits option.splits prod.splits)

lemma json_word_shorter: "json_word s = Some (v, r) \<Longrightarrow> length r < length s"
  by (auto simp: json_word_def startswith_iff dest: scan_number_shorter split: if_splits)

lemma json_shorter:
  "(json_value n s = Some (v, r) \<longrightarrow> length r < length s)
   \<and> (json_members n acc s = Some (v, r) \<longrightarrow> length r < length s)
   \<and> (json_elements n vs s = Some (v, r) \<longrightarrow> length r < length s)"
proof (induction n arbitrary: s acc vs v r)
  case (Suc n)
  have val: "json_value n s = Some (v, r) \<Longrightarrow> length r < length s" for s v r
    using Suc.IH by blast
  have mem: "json_members n acc s = Some (v, r) \<Longrightarrow> length r < length s" for s acc v r
    using Suc.IH by blast
  have els: "json_elements n vs s = Some (v, r) \<Longrightarrow> length r < length s" for s vs v r
    using Suc.IH by blast
  have ws: "length r < length (skip_ws t) \<Longrightarrow> length r < length t" for r t :: pystr
    using length_skip_ws [of t] by simp
  have dr: "length (drop 1 (skip_ws t)) \<le> length t" for t
    using length_skip_ws [of t] by simp
  have "json_value (Suc n) s = Some (v, r) \<longrightarrow> length r < length s"
    using dr by (auto simp: Let_def less_Suc_eq_le
        dest!: string_body_shorter mem els ws dest: json_word_shorter split: list.splits if_splits)
  moreover have "json_members (Suc n) acc s = Some (v, r) \<longrightarrow> length r < length s"
    by (auto dest!: string_body_shorter mem val skip_ws_Cons ws split: list.splits if_splits option.splits)
  moreover have "json_elements (Suc n) vs s = Some (v, r) \<longrightarrow> length r < length s"
    by (auto dest!: els val skip_ws_Cons ws split: list.splits if_splits option.splits)
  ultimately show ?case by blast
qed simp

lemma json_value_shorter: "json_value n s = Some (v, r) \<Longrightarrow> length r < length s"
  using json_shorter by blast

text \<open>From the bound on, more fuel changes nothing: the decoder never stops for lack of it.\<close>

lemma json_fuel_mono:
  "(2 * length s + 1 \<le> n \<longrightarrow> n \<le> m \<longrightarrow> json_value n s = json_value m s)
   \<and> (2 * length s + 1 \<le> n \<longrightarrow> n \<le> m \<longrightarrow> json_members n acc s = json_members m acc s)
   \<and> (2 * length s + 2 \<le> n \<longrightarrow> n \<le> m \<longrightarrow> json_elements n vs s = json_elements m vs s)"
proof (induction n arbitrary: s acc vs m)
  case (Suc n)
  show ?case
  proof (cases m)
    case 0
    then show ?thesis by simp
  next
    case (Suc k)
    have val: "2 * length s + 1 \<le> n \<Longrightarrow> n \<le> k \<Longrightarrow> json_value n s = json_value k s" for s
      using Suc.IH by blast
    have mem: "2 * length s + 1 \<le> n \<Longrightarrow> n \<le> k \<Longrightarrow> json_members n acc s = json_members k acc s" for s acc
      using Suc.IH by blast
    have els: "2 * length s + 2 \<le> n \<Longrightarrow> n \<le> k \<Longrightarrow> json_elements n vs s = json_elements k vs s" for s vs
      using Suc.IH by blast
    have "json_value (Suc n) s = json_value (Suc k) s"
      if b: "2 * length s + 1 \<le> Suc n" and k: "n \<le> k"
    proof (cases s)
      case (Cons c cs)
      have l: "length (skip_ws cs) \<le> length cs" by (rule length_skip_ws)
      have m: "json_members n [] (skip_ws cs) = json_members k [] (skip_ws cs)"
        by (rule mem) (use b k l Cons in auto)
      have e: "json_elements n [] (skip_ws cs) = json_elements k [] (skip_ws cs)"
        by (rule els) (use b k l Cons in auto)
      show ?thesis by (simp add: Cons Let_def m e)
    qed simp
    moreover have "json_members (Suc n) acc s = json_members (Suc k) acc s"
      if b: "2 * length s + 1 \<le> Suc n" and k: "n \<le> k"
    proof -
      have v: "json_value n (skip_ws r2) = json_value k (skip_ws r2)"
        if "s = c # cs" "string_body [] cs = Some (kk, r1)" "skip_ws r1 = c2 # r2" for c cs kk r1 c2 r2
        by (rule val)
          (use that b k string_body_shorter [OF that(2)] skip_ws_Cons [OF that(3)] length_skip_ws [of r2] in auto)
      have mm: "json_members n a (skip_ws r4) = json_members k a (skip_ws r4)"
        if "s = c # cs" "string_body [] cs = Some (kk, r1)" "skip_ws r1 = c2 # r2"
          "json_value k (skip_ws r2) = Some (vv, r3)" "skip_ws r3 = c4 # r4"
        for c cs kk r1 c2 r2 vv r3 c4 r4 a
        by (rule mem)
          (use that b k string_body_shorter [OF that(2)] skip_ws_Cons [OF that(3)] length_skip_ws [of r2]
            json_value_shorter [OF that(4)] skip_ws_Cons [OF that(5)] length_skip_ws [of r4] in auto)
      show ?thesis by (auto simp: v mm split: list.split option.split)
    qed
    moreover have "json_elements (Suc n) vs s = json_elements (Suc k) vs s"
      if b: "2 * length s + 2 \<le> Suc n" and k: "n \<le> k"
    proof -
      have v: "json_value n s = json_value k s" by (rule val) (use b k in auto)
      have e: "json_elements n a (skip_ws r2) = json_elements k a (skip_ws r2)"
        if "json_value k s = Some (vv, r1)" "skip_ws r1 = c # r2" for vv r1 c r2 a
        by (rule els)
          (use that b k json_value_shorter [OF that(1)] skip_ws_Cons [OF that(2)] length_skip_ws [of r2] in auto)
      show ?thesis by (auto simp: v e split: list.split option.split)
    qed
    ultimately show ?thesis by (simp add: Suc)
  qed
qed simp

lemma raw_decode_enough_fuel: "json_fuel s \<le> n \<Longrightarrow> json_value n s = raw_decode s"
  using json_fuel_mono [of s "json_fuel s" n] by (simp add: raw_decode_def json_fuel_def)

lemma raw_decode_shorter: "raw_decode s = Some (v, r) \<Longrightarrow> length r < length s"
  by (simp add: raw_decode_def json_value_shorter)

end
