(* ===== verification/Review.thy ===== *)
theory Review
  imports PyJson PyPath World
begin

text \<open>
  \<open>pyfixagent/review\<close>: the contract of a semantic review (\<open>contracts.py\<close>), the parser of the
  reviewer's JSON answer (\<open>parser.py\<close>), the check of its evidence (\<open>context.py\<close>), the calls
  of the reviewer with their retries (\<open>reviewer.py\<close>), the decision that follows
  (\<open>policy.py\<close>) and the feedback of a revision (\<open>feedback.py\<close>).
\<close>

section \<open>Contracts\<close>

datatype verdict = Accept | Revise | Abstain

record evidence =
  ev_path :: pystr
  ev_line :: "int option"

record counterexample =
  ce_input_shape :: pystr
  ce_expected_property :: pystr

record review_risk =
  rr_id :: pystr
  rr_category :: pystr
  rr_severity :: pystr
  rr_reason :: pystr
  rr_contract_id :: "pystr option"
  rr_evidence :: "evidence list"
  rr_counterexamples :: "counterexample list"

record review_contract =
  rc_id :: pystr
  rc_statement :: pystr
  rc_evidence :: "evidence list"
  rc_confidence :: json

record review_outcome =
  ro_verdict :: verdict
  ro_summary :: pystr
  ro_contracts :: "review_contract list"
  ro_risks :: "review_risk list"
  ro_repair_feedback :: pystr

definition blocking_risks :: "review_outcome \<Rightarrow> review_risk list" where
  "blocking_risks o' = filter (\<lambda>r. rr_severity r = ''blocking'') (ro_risks o')"

section \<open>Policy\<close>

datatype review_action = DoAccept | DoAcceptWithWarnings | DoRevise | NeedsReview

record review_decision =
  dec_action :: review_action
  dec_reason :: pystr
  dec_blocking_risk_ids :: "pystr list"

definition decide ::
    "int \<Rightarrow> review_outcome option \<Rightarrow> int \<Rightarrow> pystr option \<Rightarrow> pystr list \<Rightarrow> pystr list \<Rightarrow> review_decision" where
  "decide max_revisions outcome used error categories cue_ids =
     (let d = (\<lambda>a r ids. \<lparr>dec_action = a, dec_reason = r, dec_blocking_risk_ids = ids\<rparr>) in
      case outcome of
        None \<Rightarrow> d NeedsReview (or_else error ''semantic review did not produce an outcome'') []
      | Some oc \<Rightarrow>
          (let blockers = map rr_id (blocking_risks oc);
               promoted = map rr_id (filter (\<lambda>r. rr_severity r = ''warning'' \<and> rr_category r \<in> set categories
                  \<and> rr_evidence r \<noteq> [] \<and> rr_counterexamples r \<noteq> []) (ro_risks oc));
               actionable = (if blockers \<noteq> [] then blockers else promoted);
               cue_risks = map (\<lambda>c. ''cue:'' @ c) cue_ids in
           if actionable \<noteq> [] then
             (if used < max 0 max_revisions
              then d DoRevise (if blockers \<noteq> [] then ''validated blocking semantic risks''
                     else ''evidence-based warning matches a structural risk cue'') actionable
              else d NeedsReview ''semantic revision budget exhausted'' actionable)
           else if cue_risks \<noteq> [] then
             (if used < max 0 max_revisions
              then d DoRevise ''unmitigated deterministic structural risk cue'' cue_risks
              else d NeedsReview ''structural risk cue remains after revision'' cue_risks)
           else if ro_verdict oc = Abstain then d NeedsReview ''reviewer abstained'' []
           else if ro_verdict oc = Revise
           then d NeedsReview ''reviewer requested revision without blocking evidence'' []
           else if ro_risks oc \<noteq> [] then d DoAcceptWithWarnings ''no blocking semantic risks'' []
           else d DoAccept ''reviewer accepted candidate'' []))"

section \<open>Feedback\<close>

record structural_cue =
  cue_id :: pystr
  cue_category :: pystr
  cue_description :: pystr

definition feedback_risks :: "review_outcome \<Rightarrow> pystr list \<Rightarrow> review_risk list" where
  "feedback_risks oc ids =
     filter (\<lambda>r. rr_id r \<in> set ids \<or> (ids = [] \<and> rr_severity r = ''blocking'')) (ro_risks oc)"

definition feedback_cues :: "structural_cue list \<Rightarrow> pystr list \<Rightarrow> structural_cue list" where
  "feedback_cues cues ids = filter (\<lambda>c. ''cue:'' @ cue_id c \<in> set ids) cues"

definition risk_lines :: "review_risk \<Rightarrow> pystr list" where
  "risk_lines r = (''['' @ rr_id r @ ''] '' @ rr_category r @ '': '' @ rr_reason r)
     # map (\<lambda>c. ''Counterexample shape: '' @ ce_input_shape c @ ''; required property: ''
          @ ce_expected_property c) (rr_counterexamples r)"

definition build_review_feedback ::
    "review_outcome \<Rightarrow> int \<Rightarrow> pystr list \<Rightarrow> structural_cue list \<Rightarrow> pystr \<times> pystr list" where
  "build_review_feedback oc max_chars ids cues =
     (let risks = feedback_risks oc ids; selected_cues = feedback_cues cues ids;
          lines = [''Visible tests pass, but an independent semantic review found validated blocking risks.'',
                   ''Revise the current candidate without weakening behavior already covered by visible tests.'']
            @ concat (map risk_lines risks)
            @ map (\<lambda>c. ''[cue:'' @ cue_id c @ ''] '' @ cue_description c) selected_cues
      in (take (nat (max 200 max_chars)) (joinlines lines),
          map rr_id risks @ map (\<lambda>c. ''cue:'' @ cue_id c) selected_cues))"

section \<open>Parsing\<close>

text \<open>
  What the parser needs of Python's numbers: \<open>str\<close> of a value that is no text, whether a
  float spelling is zero, and whether \<open>float(value)\<close> lies in the unit interval (\<^const>\<open>None\<close>
  where it raises).
\<close>

record pyvals =
  str_value :: "json \<Rightarrow> pystr"
  float_is_zero :: "pystr \<Rightarrow> bool"
  float_in_unit :: "json \<Rightarrow> bool option"
  decode_message :: "pystr \<Rightarrow> pystr"

definition json_str :: "pyvals \<Rightarrow> json \<Rightarrow> pystr" where
  "json_str py v = (case v of JStr s \<Rightarrow> s | _ \<Rightarrow> str_value py v)"

definition json_truthy :: "pyvals \<Rightarrow> json \<Rightarrow> bool" where
  "json_truthy py v = (case v of
     JNull \<Rightarrow> False | JBool b \<Rightarrow> b | JInt n \<Rightarrow> n \<noteq> 0 | JFloat s \<Rightarrow> \<not> float_is_zero py s
   | JStr s \<Rightarrow> s \<noteq> [] | JArr xs \<Rightarrow> xs \<noteq> [] | JObj d \<Rightarrow> d \<noteq> [])"

text \<open>\<open>d.get(key)\<close>, and \<open>str(d.get(key) or default)\<close>.\<close>

definition jget :: "(pystr \<times> json) list \<Rightarrow> pystr \<Rightarrow> json" where
  "jget d k = (case dict_get d k of None \<Rightarrow> JNull | Some v \<Rightarrow> v)"

definition jget_or :: "(pystr \<times> json) list \<Rightarrow> pystr \<Rightarrow> json \<Rightarrow> json" where
  "jget_or d k v = (case dict_get d k of None \<Rightarrow> v | Some x \<Rightarrow> x)"

definition str_or :: "pyvals \<Rightarrow> json \<Rightarrow> pystr \<Rightarrow> pystr" where
  "str_or py v dflt = (if json_truthy py v then json_str py v else dflt)"

record parser =
  pa_max_risks :: int
  pa_max_text_chars :: int
  pa_max_contracts :: int

definition parser_init :: "int \<Rightarrow> int \<Rightarrow> int \<Rightarrow> parser" where
  "parser_init risks chars contracts = \<lparr>pa_max_risks = max 1 risks, pa_max_text_chars = max 200 chars,
     pa_max_contracts = max 1 contracts\<rparr>"

definition parse_text :: "parser \<Rightarrow> json \<Rightarrow> pystr \<Rightarrow> bool \<Rightarrow> pystr + pystr" where
  "parse_text pa v name required =
     (case (if v = JNull then JStr [] else v) of
        JStr s \<Rightarrow>
          (let t = strip s in
           if required \<and> t = [] then Inl (name @ '' is required'')
           else if int (length t) > pa_max_text_chars pa
           then Inl (name @ '' exceeds '' @ str_int (pa_max_text_chars pa) @ '' characters'')
           else Inr t)
      | _ \<Rightarrow> Inl (name @ '' must be a string''))"

definition parse_confidence :: "pyvals \<Rightarrow> json \<Rightarrow> pystr + json" where
  "parse_confidence py v =
     (if v = JNull then Inr JNull
      else (case float_in_unit py v of
         None \<Rightarrow> Inl ''confidence must be numeric''
       | Some False \<Rightarrow> Inl ''confidence must be between 0 and 1''
       | Some True \<Rightarrow> Inr v))"

text \<open>The results of a loop over items that may raise at any of them.\<close>

fun map_result :: "('a \<Rightarrow> 'e + 'b) \<Rightarrow> 'a list \<Rightarrow> 'e + 'b list" where
  "map_result f [] = Inr []"
| "map_result f (x # xs) = (case f x of Inl e \<Rightarrow> Inl e | Inr y \<Rightarrow>
     (case map_result f xs of Inl e \<Rightarrow> Inl e | Inr ys \<Rightarrow> Inr (y # ys)))"

definition int_value :: "json \<Rightarrow> int option" where
  "int_value v = (case v of JInt n \<Rightarrow> Some n | JBool b \<Rightarrow> Some (if b then 1 else 0) | _ \<Rightarrow> None)"

definition parse_evidence_item :: "pyvals \<Rightarrow> json \<Rightarrow> pystr + evidence" where
  "parse_evidence_item py item =
     (case item of
        JObj d \<Rightarrow>
          (if \<not> json_truthy py (jget d ''path'') then Inl ''evidence entries require path''
           else (let line = jget d ''line''; p = slashes (json_str py (jget d ''path'')) in
             if line = JNull then Inr \<lparr>ev_path = p, ev_line = None\<rparr>
             else (case int_value line of
                None \<Rightarrow> Inl ''evidence line must be a positive integer''
              | Some n \<Rightarrow> (if n < 1 then Inl ''evidence line must be a positive integer''
                  else Inr \<lparr>ev_path = p, ev_line = Some n\<rparr>))))
      | _ \<Rightarrow> Inl ''evidence entries require path'')"

definition parse_evidence :: "pyvals \<Rightarrow> json \<Rightarrow> pystr + evidence list" where
  "parse_evidence py v = (case v of
     JArr xs \<Rightarrow> map_result (parse_evidence_item py) (take 10 xs) | _ \<Rightarrow> Inl ''evidence must be an array'')"

definition parse_counterexample :: "parser \<Rightarrow> json \<Rightarrow> pystr + counterexample" where
  "parse_counterexample pa item =
     (case item of
        JObj d \<Rightarrow>
          (case parse_text pa (jget d ''input_shape'') ''counterexample.input_shape'' True of
             Inl e \<Rightarrow> Inl e
           | Inr shape \<Rightarrow>
               (case parse_text pa (jget d ''expected_property'') ''counterexample.expected_property'' True of
                  Inl e \<Rightarrow> Inl e
                | Inr p \<Rightarrow> Inr \<lparr>ce_input_shape = shape, ce_expected_property = p\<rparr>))
      | _ \<Rightarrow> Inl ''counterexamples must contain objects'')"

definition parse_counterexamples :: "parser \<Rightarrow> json \<Rightarrow> pystr + counterexample list" where
  "parse_counterexamples pa v = (case v of
     JArr xs \<Rightarrow> map_result (parse_counterexample pa) (take 5 xs)
   | _ \<Rightarrow> Inl ''counterexamples must be an array'')"

definition parse_contract :: "pyvals \<Rightarrow> parser \<Rightarrow> pystr list \<Rightarrow> json \<Rightarrow> pystr + review_contract" where
  "parse_contract py pa seen item =
     (case item of
        JObj d \<Rightarrow>
          (case parse_text pa (jget d ''id'') ''contract.id'' True of
             Inl e \<Rightarrow> Inl e
           | Inr i \<Rightarrow>
               (if i \<in> set seen then Inl (''duplicate contract id: '' @ i)
                else (case parse_text pa (jget d ''statement'') ''contract.statement'' True of
                  Inl e \<Rightarrow> Inl e
                | Inr st \<Rightarrow> (case parse_evidence py (jget_or d ''evidence'' (JArr [])) of
                    Inl e \<Rightarrow> Inl e
                  | Inr ev \<Rightarrow> (case parse_confidence py (jget d ''confidence'') of
                      Inl e \<Rightarrow> Inl e
                    | Inr c \<Rightarrow> Inr \<lparr>rc_id = i, rc_statement = st, rc_evidence = ev, rc_confidence = c\<rparr>)))))
      | _ \<Rightarrow> Inl ''each contract must be an object'')"

definition categories :: "pystr list" where
  "categories = [''boundary'', ''representation'', ''numeric_precision'', ''ordering'', ''state_transition'',
     ''error_handling'', ''compatibility'', ''other'']"

definition risk_category :: "pyvals \<Rightarrow> (pystr \<times> json) list \<Rightarrow> pystr" where
  "risk_category py d = (let c = str_or py (jget d ''category'') ''other''
     in if c \<in> set categories then c else ''other'')"

definition risk_contract_id :: "pyvals \<Rightarrow> (pystr \<times> json) list \<Rightarrow> pystr option" where
  "risk_contract_id py d = (let v = jget d ''contract_id''
     in if json_truthy py v then Some (json_str py v) else None)"

definition parse_risk :: "pyvals \<Rightarrow> parser \<Rightarrow> pystr list \<Rightarrow> json \<Rightarrow> pystr + review_risk" where
  "parse_risk py pa seen item =
     (case item of
        JObj d \<Rightarrow>
          (case parse_text pa (jget d ''id'') ''risk.id'' True of
             Inl e \<Rightarrow> Inl e
           | Inr i \<Rightarrow>
               (let severity = str_or py (jget d ''severity'') [] in
                if i \<in> set seen then Inl (''duplicate risk id: '' @ i)
                else if severity \<notin> {''blocking'', ''warning''}
                then Inl ''risk severity must be blocking or warning''
                else (case parse_evidence py (jget_or d ''evidence'' (JArr [])) of
                  Inl e \<Rightarrow> Inl e
                | Inr ev \<Rightarrow> (case parse_counterexamples pa (jget_or d ''counterexamples'' (JArr [])) of
                    Inl e \<Rightarrow> Inl e
                  | Inr ces \<Rightarrow>
                      (if severity = ''blocking'' \<and> (ev = [] \<or> ces = [])
                       then Inl (''blocking risk '' @ i @ '' requires evidence and at least one counterexample'')
                       else (case parse_text pa (jget d ''reason'') ''risk.reason'' True of
                         Inl e \<Rightarrow> Inl e
                       | Inr reason \<Rightarrow> Inr \<lparr>rr_id = i, rr_category = risk_category py d, rr_severity = severity,
                           rr_reason = reason,
                           rr_contract_id = risk_contract_id py d, rr_evidence = ev, rr_counterexamples = ces\<rparr>))))))
      | _ \<Rightarrow> Inl ''each risk must be an object'')"

text \<open>The loops that reject a repeated identifier.\<close>

fun parse_distinct :: "(pystr list \<Rightarrow> json \<Rightarrow> pystr + 'a) \<Rightarrow> ('a \<Rightarrow> pystr) \<Rightarrow> pystr list \<Rightarrow> json list \<Rightarrow> pystr + 'a list" where
  "parse_distinct f key seen [] = Inr []"
| "parse_distinct f key seen (x # xs) = (case f seen x of Inl e \<Rightarrow> Inl e | Inr y \<Rightarrow>
     (case parse_distinct f key (key y # seen) xs of Inl e \<Rightarrow> Inl e | Inr ys \<Rightarrow> Inr (y # ys)))"

definition parse_array ::
    "pystr \<Rightarrow> int \<Rightarrow> (pystr list \<Rightarrow> json \<Rightarrow> pystr + 'a) \<Rightarrow> ('a \<Rightarrow> pystr) \<Rightarrow> json \<Rightarrow> pystr + 'a list" where
  "parse_array name limit f key v = (case v of
     JArr xs \<Rightarrow>
       (if int (length xs) > limit then Inl (name @ '' exceeds configured maximum of '' @ str_int limit)
        else parse_distinct f key [] xs)
   | _ \<Rightarrow> Inl (name @ '' must be an array''))"

definition parse_verdict :: "pystr \<Rightarrow> verdict option" where
  "parse_verdict s = map_of [(''accept'', Accept), (''revise'', Revise), (''abstain'', Abstain)] s"

definition parse_review :: "pyvals \<Rightarrow> parser \<Rightarrow> pystr \<Rightarrow> pystr + review_outcome" where
  "parse_review py pa raw =
     (let t = strip raw in
      if t = [] \<or> startswith t ''```''
      then Inl ''review response must be a JSON object without Markdown fences''
      else (case json_loads t of
         None \<Rightarrow> Inl (''invalid review JSON: '' @ decode_message py t)
       | Some (JObj d) \<Rightarrow>
           (case parse_verdict (str_or py (jget d ''verdict'') []) of
              None \<Rightarrow> Inl ''verdict must be accept, revise, or abstain''
            | Some v \<Rightarrow> (case parse_text pa (jget d ''summary'') ''summary'' True of
                Inl e \<Rightarrow> Inl e
              | Inr summary \<Rightarrow>
                  (case parse_array ''contracts'' (pa_max_contracts pa) (parse_contract py pa) rc_id
                      (jget_or d ''contracts'' (JArr [])) of
                     Inl e \<Rightarrow> Inl e
                   | Inr contracts \<Rightarrow>
                       (case parse_array ''risks'' (pa_max_risks pa) (parse_risk py pa) rr_id
                           (jget_or d ''risks'' (JArr [])) of
                          Inl e \<Rightarrow> Inl e
                        | Inr risks \<Rightarrow>
                            (case parse_text pa (jget_or d ''repair_feedback'' (JStr [])) ''repair_feedback'' False of
                               Inl e \<Rightarrow> Inl e
                             | Inr feedback \<Rightarrow> Inr \<lparr>ro_verdict = v, ro_summary = summary,
                                 ro_contracts = contracts, ro_risks = risks,
                                 ro_repair_feedback = feedback\<rparr>)))))
       | Some _ \<Rightarrow> Inl ''review response must be a JSON object''))"

section \<open>Evidence\<close>

text \<open>\<open>root / p\<close> for a text \<open>p\<close>: an absolute one replaces the root.\<close>

definition path_div :: "pystr \<Rightarrow> pystr \<Rightarrow> pystr" where
  "path_div root p = (if path_is_absolute p then p else root @ ''/'' @ p)"

definition evidence_error :: "'w os \<Rightarrow> 'w \<Rightarrow> pystr \<Rightarrow> evidence \<Rightarrow> pystr option" where
  "evidence_error os w root ev =
     (let c = resolve_path os w (path_div root (ev_path ev)) in
      if relative_to (path_parts root) (path_parts c) = None
      then Some (''evidence path escapes workspace: '' @ ev_path ev)
      else if \<not> is_file os w c then Some (''evidence path is missing: '' @ ev_path ev)
      else (case ev_line ev of
         None \<Rightarrow> None
       | Some l \<Rightarrow> (case read_text os w c of
           Inl _ \<Rightarrow> Some (''evidence path could not be read: '' @ ev_path ev)
         | Inr t \<Rightarrow> (if l > max 1 (int (length (splitlines t)))
             then Some (''evidence line is outside file: '' @ ev_path ev @ '':'' @ str_int l) else None))))"

definition validate_review_evidence :: "'w os \<Rightarrow> 'w \<Rightarrow> pystr \<Rightarrow> review_outcome \<Rightarrow> pystr list" where
  "validate_review_evidence os w workspace oc =
     List.map_filter (evidence_error os w (resolve_path os w workspace))
       (concat (map rr_evidence (ro_risks oc)))"

section \<open>The calls of the reviewer\<close>

record review_execution =
  ex_prompt :: pystr
  ex_raw_output :: pystr
  ex_outcome :: "review_outcome option"
  ex_parse_error :: "pystr option"
  ex_model_error :: "pystr option"
  ex_model_calls :: "json list"
  ex_context :: json

text \<open>
  \<open>ModelClient.generate\<close>: the metadata of the call and the model's output, or the text of the
  \<open>ModelGenerationError\<close>.
\<close>

type_synonym 'w model = "'w \<Rightarrow> pystr \<Rightarrow> pystr \<Rightarrow> ((pystr \<times> json) + (pystr \<times> json)) \<times> 'w"

record 'w reviewer =
  rv_model :: "'w model"
  rv_parser :: parser
  rv_max_parse_retries :: int
  rv_max_model_retries :: int
  rv_system_prompt :: pystr
  rv_retry_prompt :: "pystr \<Rightarrow> pystr \<Rightarrow> pystr"
  rv_python :: pyvals

definition add_call :: "json \<Rightarrow> review_execution \<Rightarrow> review_execution" where
  "add_call m ex = ex\<lparr>ex_model_calls := ex_model_calls ex @ [m]\<rparr>"

fun generate_with_retry ::
    "'w reviewer \<Rightarrow> nat \<Rightarrow> pystr \<Rightarrow> review_execution \<Rightarrow> 'w \<Rightarrow> pystr option \<times> review_execution \<times> 'w" where
  "generate_with_retry rv n prompt ex w =
     (case rv_model rv w (rv_system_prompt rv) prompt of
        (Inr (raw, m), w') \<Rightarrow> (Some raw, add_call m ex, w')
      | (Inl (err, m), w') \<Rightarrow>
          (case n of
             0 \<Rightarrow> (None, (add_call m ex)\<lparr>ex_model_error := Some err\<rparr>, w')
           | Suc k \<Rightarrow> generate_with_retry rv k prompt (add_call m ex) w'))"

declare generate_with_retry.simps [simp del]

fun review_attempts ::
    "'w os \<Rightarrow> 'w reviewer \<Rightarrow> pystr \<Rightarrow> pystr \<Rightarrow> nat \<Rightarrow> pystr \<Rightarrow> review_execution \<Rightarrow> 'w \<Rightarrow> review_execution \<times> 'w" where
  "review_attempts os rv workspace base n prompt ex w =
     (case generate_with_retry rv (nat (max 0 (rv_max_model_retries rv))) prompt ex w of
        (None, ex', w') \<Rightarrow> (ex', w')
      | (Some raw, ex', w') \<Rightarrow>
          (let ex' = ex'\<lparr>ex_raw_output := raw\<rparr>;
               checked = (case parse_review (rv_python rv) (rv_parser rv) raw of
                  Inl e \<Rightarrow> Inl e
                | Inr oc \<Rightarrow> (let errors = validate_review_evidence os w' workspace oc in
                    if errors \<noteq> [] then Inl (join ''; '' errors) else Inr oc)) in
           case checked of
             Inr oc \<Rightarrow> (ex'\<lparr>ex_outcome := Some oc, ex_parse_error := None\<rparr>, w')
           | Inl e \<Rightarrow>
               (let ex' = ex'\<lparr>ex_parse_error := Some e\<rparr> in
                case n of
                  0 \<Rightarrow> (ex', w')
                | Suc k \<Rightarrow> review_attempts os rv workspace base k (rv_retry_prompt rv base e) ex' w')))"

declare review_attempts.simps [simp del]

definition review ::
    "'w os \<Rightarrow> 'w reviewer \<Rightarrow> pystr \<Rightarrow> json \<Rightarrow> pystr \<Rightarrow> 'w \<Rightarrow> review_execution \<times> 'w" where
  "review os rv prompt context workspace w =
     review_attempts os rv workspace prompt (nat (max 0 (rv_max_parse_retries rv))) prompt
       \<lparr>ex_prompt = prompt, ex_raw_output = [], ex_outcome = None, ex_parse_error = None,
        ex_model_error = None, ex_model_calls = [], ex_context = context\<rparr> w"

section \<open>What the parser guarantees\<close>

definition valid_risk :: "parser \<Rightarrow> review_risk \<Rightarrow> bool" where
  "valid_risk pa r \<longleftrightarrow>
     rr_severity r \<in> {''blocking'', ''warning''} \<and> rr_category r \<in> set categories
     \<and> (rr_severity r = ''blocking'' \<longrightarrow> rr_evidence r \<noteq> [] \<and> rr_counterexamples r \<noteq> [])
     \<and> length (rr_evidence r) \<le> 10 \<and> length (rr_counterexamples r) \<le> 5
     \<and> rr_id r \<noteq> [] \<and> rr_reason r \<noteq> []
     \<and> int (length (rr_id r)) \<le> pa_max_text_chars pa \<and> int (length (rr_reason r)) \<le> pa_max_text_chars pa"

lemma parse_text_Inr:
  "parse_text pa v name required = Inr t \<Longrightarrow>
     int (length t) \<le> pa_max_text_chars pa \<and> strip t = t \<and> (required \<longrightarrow> t \<noteq> [])"
  by (auto simp: parse_text_def Let_def split: if_splits json.splits)

lemma map_result_length: "map_result f xs = Inr ys \<Longrightarrow> length ys = length xs"
  by (induction xs arbitrary: ys) (auto split: sum.splits)

lemma parse_evidence_length: "parse_evidence py v = Inr ev \<Longrightarrow> length ev \<le> 10"
  by (auto simp: parse_evidence_def dest!: map_result_length split: json.splits)

lemma parse_counterexamples_length: "parse_counterexamples pa v = Inr ces \<Longrightarrow> length ces \<le> 5"
  by (auto simp: parse_counterexamples_def dest!: map_result_length split: json.splits)

lemma risk_category_known: "risk_category py d \<in> set categories"
  by (simp add: risk_category_def Let_def categories_def)

lemma parse_risk_valid:
  assumes "parse_risk py pa seen item = Inr r"
  shows "valid_risk pa r" and "rr_id r \<notin> set seen"
proof -
  obtain d where d: "item = JObj d" using assms by (auto simp: parse_risk_def split: json.splits)
  from assms obtain i ev ces reason where
      i: "parse_text pa (jget d ''id'') ''risk.id'' True = Inr i" "i \<notin> set seen"
      and sev: "str_or py (jget d ''severity'') [] \<in> {''blocking'', ''warning''}"
      and ev: "parse_evidence py (jget_or d ''evidence'' (JArr [])) = Inr ev"
      and ces: "parse_counterexamples pa (jget_or d ''counterexamples'' (JArr [])) = Inr ces"
      and blk: "\<not> (str_or py (jget d ''severity'') [] = ''blocking'' \<and> (ev = [] \<or> ces = []))"
      and reason: "parse_text pa (jget d ''reason'') ''risk.reason'' True = Inr reason"
      and r: "r = \<lparr>rr_id = i, rr_category = risk_category py d, rr_severity = str_or py (jget d ''severity'') [],
        rr_reason = reason, rr_contract_id = risk_contract_id py d, rr_evidence = ev,
        rr_counterexamples = ces\<rparr>"
    unfolding d parse_risk_def json.case Let_def
    by (simp only: split: sum.split_asm if_split_asm) simp_all
  show "valid_risk pa r" "rr_id r \<notin> set seen"
    unfolding r valid_risk_def
    using parse_text_Inr [OF i(1)] parse_text_Inr [OF reason] i(2) sev blk parse_evidence_length [OF ev]
      parse_counterexamples_length [OF ces] risk_category_known [of py d] by auto
qed

lemma parse_distinct_Inr:
  assumes "\<And>seen x y. f seen x = Inr y \<Longrightarrow> P y \<and> key y \<notin> set seen"
  shows "parse_distinct f key seen xs = Inr ys \<Longrightarrow>
     list_all P ys \<and> distinct (map key ys) \<and> set (map key ys) \<inter> set seen = {} \<and> length ys = length xs"
proof (induction xs arbitrary: seen ys)
  case (Cons x xs)
  then obtain y zs where y: "f seen x = Inr y" and zs: "parse_distinct f key (key y # seen) xs = Inr zs"
    and ys: "ys = y # zs" by (auto split: sum.splits)
  from Cons.IH [OF zs] assms [OF y] show ?case by (auto simp: ys)
qed simp

lemma parse_review_risks:
  assumes "parse_review py pa raw = Inr oc"
  shows "list_all (valid_risk pa) (ro_risks oc)" and "distinct (map rr_id (ro_risks oc))"
    and "int (length (ro_risks oc)) \<le> pa_max_risks pa"
proof -
  obtain v where v: "parse_array ''risks'' (pa_max_risks pa) (parse_risk py pa) rr_id v = Inr (ro_risks oc)"
    using assms by (auto simp: parse_review_def Let_def split: if_splits option.splits json.splits sum.splits)
  then obtain xs where xs: "parse_distinct (parse_risk py pa) rr_id [] xs = Inr (ro_risks oc)"
    and le: "int (length xs) \<le> pa_max_risks pa"
    by (auto simp: parse_array_def split: json.splits if_splits)
  have "\<And>seen x y. parse_risk py pa seen x = Inr y \<Longrightarrow> valid_risk pa y \<and> rr_id y \<notin> set seen"
    using parse_risk_valid by blast
  from parse_distinct_Inr [OF this xs] le
  show "list_all (valid_risk pa) (ro_risks oc)" "distinct (map rr_id (ro_risks oc))"
    "int (length (ro_risks oc)) \<le> pa_max_risks pa" by simp_all
qed

section \<open>What a decision means\<close>

definition promoted_risks :: "pystr list \<Rightarrow> review_outcome \<Rightarrow> review_risk list" where
  "promoted_risks cats oc = filter (\<lambda>r. rr_severity r = ''warning'' \<and> rr_category r \<in> set cats
     \<and> rr_evidence r \<noteq> [] \<and> rr_counterexamples r \<noteq> []) (ro_risks oc)"

definition actionable_ids :: "pystr list \<Rightarrow> pystr list \<Rightarrow> review_outcome \<Rightarrow> pystr list" where
  "actionable_ids cats cue_ids oc =
     (if blocking_risks oc \<noteq> [] then map rr_id (blocking_risks oc)
      else if promoted_risks cats oc \<noteq> [] then map rr_id (promoted_risks cats oc)
      else map (\<lambda>c. ''cue:'' @ c) cue_ids)"

lemma decide_action:
  "dec_action (decide b outcome used err cats cue_ids) =
     (case outcome of
        None \<Rightarrow> NeedsReview
      | Some oc \<Rightarrow>
          (if actionable_ids cats cue_ids oc \<noteq> [] then (if used < max 0 b then DoRevise else NeedsReview)
           else if ro_verdict oc \<noteq> Accept then NeedsReview
           else if ro_risks oc \<noteq> [] then DoAcceptWithWarnings else DoAccept))"
proof (cases outcome)
  case (Some oc)
  then show ?thesis
    by (cases "ro_verdict oc") (simp_all add: decide_def Let_def actionable_ids_def promoted_risks_def)
qed (simp add: decide_def Let_def)

lemma decide_ids:
  "dec_blocking_risk_ids (decide b (Some oc) used err cats cue_ids) = actionable_ids cats cue_ids oc"
  by (auto simp: decide_def Let_def actionable_ids_def promoted_risks_def)

lemma decide_revise:
  "dec_action (decide b outcome used err cats cue_ids) = DoRevise \<Longrightarrow> used < max 0 b \<and> outcome \<noteq> None"
  by (auto simp: decide_action split: option.splits if_splits)

lemma decide_None: "dec_action (decide b None used err cats cue_ids) = NeedsReview"
  by (simp add: decide_action)

section \<open>What an execution of the reviewer means\<close>

lemma generate_with_retry_frame:
  "generate_with_retry rv n prompt ex w = (raw, ex', w') \<Longrightarrow>
     ex_outcome ex' = ex_outcome ex \<and> ex_parse_error ex' = ex_parse_error ex
     \<and> (raw = None \<longrightarrow> ex_model_error ex' \<noteq> None)
     \<and> length (ex_model_calls ex') \<le> length (ex_model_calls ex) + Suc n"
proof (induction rv n prompt ex w rule: generate_with_retry.induct)
  case (1 rv n prompt ex w)
  obtain res w1 where res: "rv_model rv w (rv_system_prompt rv) prompt = (res, w1)" by fastforce
  show ?case
  proof (cases res)
    case (Inl p)
    then obtain err m where p: "res = Inl (err, m)" by (cases p) auto
    show ?thesis
    proof (cases n)
      case 0
      then show ?thesis using "1.prems" res p
        by (subst (asm) generate_with_retry.simps) (auto simp: add_call_def)
    next
      case (Suc k)
      then have "generate_with_retry rv k prompt (add_call m ex) w1 = (raw, ex', w')"
        using "1.prems" res p by (subst (asm) generate_with_retry.simps) simp
      from "1.IH" [OF res [symmetric] p _ Suc this] show ?thesis by (auto simp: add_call_def Suc)
    qed
  next
    case (Inr p)
    then show ?thesis using "1.prems" res
      by (subst (asm) generate_with_retry.simps) (auto simp: add_call_def split: prod.splits)
  qed
qed

text \<open>The result of a review: a validated outcome without error, or an error without outcome.\<close>

definition review_result :: "'w os \<Rightarrow> 'w reviewer \<Rightarrow> pystr \<Rightarrow> review_execution \<Rightarrow> 'w \<Rightarrow> bool" where
  "review_result os rv workspace ex w \<longleftrightarrow>
     (case ex_outcome ex of
        Some oc \<Rightarrow> ex_parse_error ex = None
          \<and> parse_review (rv_python rv) (rv_parser rv) (ex_raw_output ex) = Inr oc
          \<and> validate_review_evidence os w workspace oc = []
      | None \<Rightarrow> ex_parse_error ex \<noteq> None \<or> ex_model_error ex \<noteq> None)"

lemma review_attempts_result:
  "review_attempts os rv workspace base n prompt ex w = (ex', w') \<Longrightarrow> ex_outcome ex = None \<Longrightarrow>
     review_result os rv workspace ex' w'
     \<and> length (ex_model_calls ex')
         \<le> length (ex_model_calls ex) + Suc n * Suc (nat (max 0 (rv_max_model_retries rv)))"
proof (induction os rv workspace base n prompt ex w rule: review_attempts.induct)
  case (1 os rv workspace base n prompt ex w)
  let ?m = "nat (max 0 (rv_max_model_retries rv))"
  obtain raw ex1 w1 where g: "generate_with_retry rv ?m prompt ex w = (raw, ex1, w1)"
    by (metis prod_cases3)
  note f = generate_with_retry_frame [OF g]
  show ?case
  proof (cases raw)
    case None
    then have "ex' = ex1" "w' = w1" using "1.prems"(1) g by (subst (asm) review_attempts.simps, simp)+
    then show ?thesis using f None "1.prems"(2) by (auto simp: review_result_def)
  next
    case (Some r)
    let ?checked = "case parse_review (rv_python rv) (rv_parser rv) r of Inl e \<Rightarrow> Inl e
      | Inr oc \<Rightarrow> (let errors = validate_review_evidence os w1 workspace oc in
          if errors \<noteq> [] then Inl (join ''; '' errors) else Inr oc)"
    show ?thesis
    proof (cases ?checked)
      case (Inr oc)
      then have "ex' = (ex1\<lparr>ex_raw_output := r\<rparr>)\<lparr>ex_outcome := Some oc, ex_parse_error := None\<rparr>" "w' = w1"
        using "1.prems"(1) g Some by (subst (asm) review_attempts.simps, simp add: Let_def)+
      moreover have "parse_review (rv_python rv) (rv_parser rv) r = Inr oc"
          "validate_review_evidence os w1 workspace oc = []"
        using Inr by (auto simp: Let_def split: sum.splits if_splits)
      ultimately show ?thesis using f by (auto simp: review_result_def)
    next
      case err: (Inl e)
      let ?ex = "(ex1\<lparr>ex_raw_output := r\<rparr>)\<lparr>ex_parse_error := Some e\<rparr>"
      show ?thesis
      proof (cases n)
        case 0
        then have "ex' = ?ex"
          using "1.prems"(1) g Some err by (subst (asm) review_attempts.simps, simp add: Let_def)+
        then show ?thesis using f "1.prems"(2) 0 by (auto simp: review_result_def)
      next
        case (Suc k)
        then have "review_attempts os rv workspace base k (rv_retry_prompt rv base e) ?ex w1 = (ex', w')"
          using "1.prems"(1) g Some err by (subst (asm) review_attempts.simps, simp add: Let_def)
        from "1.IH" [OF g [symmetric] Some refl refl refl err refl Suc this] f "1.prems"(2)
        show ?thesis by (auto simp: Suc)
      qed
    qed
  qed
qed

section \<open>Properties\<close>

definition demo_risk :: review_risk where
  "demo_risk = \<lparr>rr_id = ''r1'', rr_category = ''boundary'', rr_severity = ''blocking'', rr_reason = ''x'',
     rr_contract_id = None, rr_evidence = [\<lparr>ev_path = ''m.py'', ev_line = Some 1\<rparr>],
     rr_counterexamples = [\<lparr>ce_input_shape = ''a'', ce_expected_property = ''b''\<rparr>]\<rparr>"

definition demo_outcome :: review_outcome where
  "demo_outcome = \<lparr>ro_verdict = Revise, ro_summary = ''s'', ro_contracts = [], ro_risks = [demo_risk],
     ro_repair_feedback = []\<rparr>"

text \<open>
  A candidate is accepted only on a validated outcome whose verdict is to accept, which has
  no blocking risk and no evidence-based warning that matches a structural cue, while no
  structural cue is open; and a revision is asked for only within the budget of revisions,
  with at least one identified risk.
\<close>

theorem decide_sound:
  "(dec_action (decide b outcome used err cats cue_ids) \<in> {DoAccept, DoAcceptWithWarnings} \<longleftrightarrow>
      (\<exists>oc. outcome = Some oc \<and> ro_verdict oc = Accept \<and> blocking_risks oc = [] \<and> cue_ids = []
        \<and> promoted_risks cats oc = []))
   \<and> (dec_action (decide b outcome used err cats cue_ids) = DoRevise \<longleftrightarrow>
      used < max 0 b \<and> (\<exists>oc. outcome = Some oc \<and> actionable_ids cats cue_ids oc \<noteq> []))"
  by (auto simp: decide_action actionable_ids_def split: option.split)

text \<open>
  The feedback of a revision names what the decision named: its identifiers are those of
  the risks and cues that made the decision, and the text stays within its limit.
\<close>

theorem feedback_matches_decision:
  assumes "dec_action (decide b (Some oc) used err cats (map cue_id cues)) = DoRevise"
  shows "set (snd (build_review_feedback oc m
        (dec_blocking_risk_ids (decide b (Some oc) used err cats (map cue_id cues))) cues))
      = set (dec_blocking_risk_ids (decide b (Some oc) used err cats (map cue_id cues)))
    \<and> int (length (fst (build_review_feedback oc m
        (dec_blocking_risk_ids (decide b (Some oc) used err cats (map cue_id cues))) cues))) \<le> max 200 m"
proof -
  let ?ids = "actionable_ids cats (map cue_id cues) oc"
  have ne: "?ids \<noteq> []" using assms by (simp add: decide_action split: if_splits)
  have sub: "set ?ids \<subseteq> rr_id ` set (ro_risks oc) \<union> (\<lambda>c. ''cue:'' @ cue_id c) ` set cues"
    by (auto simp: actionable_ids_def blocking_risks_def promoted_risks_def)
  have "set (map rr_id (feedback_risks oc ?ids) @ map (\<lambda>c. ''cue:'' @ cue_id c) (feedback_cues cues ?ids))
      = set ?ids"
    using ne sub by (auto simp: feedback_risks_def feedback_cues_def)
  then show ?thesis
    unfolding decide_ids by (simp add: build_review_feedback_def Let_def)
qed

theorem feedback_matches_decision_witness:
  "set (snd (build_review_feedback demo_outcome 300
        (dec_blocking_risk_ids (decide 1 (Some demo_outcome) 0 None [] (map cue_id ([] :: structural_cue list)))) []))
      = set (dec_blocking_risk_ids (decide 1 (Some demo_outcome) 0 None [] (map cue_id ([] :: structural_cue list))))"
proof -
  have "dec_action (decide 1 (Some demo_outcome) 0 None [] (map cue_id ([] :: structural_cue list))) = DoRevise" by code_simp
  from feedback_matches_decision [OF this] show ?thesis by blast
qed


definition demo_py :: pyvals where
  "demo_py = \<lparr>str_value = \<lambda>v. ''None'', float_is_zero = \<lambda>s. s = ''0.0'',
     float_in_unit = \<lambda>v. Some True, decode_message = \<lambda>s. ''Expecting value''\<rparr>"

definition quoted :: "pystr \<Rightarrow> pystr" where
  "quoted s = [CHR 0x22] @ s @ [CHR 0x22]"

definition demo_review_text :: pystr where
  "demo_review_text = ''{'' @ quoted ''verdict'' @ '':'' @ quoted ''accept'' @ '','' @ quoted ''summary'' @ '':''
     @ quoted ''fine'' @ '','' @ quoted ''risks'' @ '':[{'' @ quoted ''id'' @ '':'' @ quoted ''r1'' @ '',''
     @ quoted ''severity'' @ '':'' @ quoted ''warning'' @ '','' @ quoted ''reason'' @ '':'' @ quoted ''x'' @ ''}]}''"


text \<open>
  A review ends in a validated outcome without a parse error, or in an error without an
  outcome, after at most one call of the model for every permitted retry; the outcome is
  what the parser reads from the last output, with all its evidence found in the workspace.
\<close>

theorem review_outcome_or_error:
  "review_result os rv workspace (fst (review os rv prompt ctx workspace w)) (snd (review os rv prompt ctx workspace w))
    \<and> int (length (ex_model_calls (fst (review os rv prompt ctx workspace w))))
        \<le> (max 0 (rv_max_parse_retries rv) + 1) * (max 0 (rv_max_model_retries rv) + 1)"
proof -
  obtain ex' w' where r: "review os rv prompt ctx workspace w = (ex', w')" by fastforce
  let ?p = "nat (max 0 (rv_max_parse_retries rv))" and ?m = "nat (max 0 (rv_max_model_retries rv))"
  from review_attempts_result [OF r [unfolded review_def]]
  have "review_result os rv workspace ex' w'" and "length (ex_model_calls ex') \<le> Suc ?p * Suc ?m" by simp_all
  moreover from this(2) have "int (length (ex_model_calls ex')) \<le> int (Suc ?p * Suc ?m)" by (rule zle_int [THEN iffD2])
  then have "int (length (ex_model_calls ex')) \<le> int (Suc ?p) * int (Suc ?m)" by (simp only: of_nat_mult)
  moreover have "int (Suc ?p) = max 0 (rv_max_parse_retries rv) + 1" "int (Suc ?m) = max 0 (rv_max_model_retries rv) + 1"
    by simp_all
  ultimately show ?thesis using r by (simp add: add.commute)
qed

end
