(* ===== verification/Sandbox.thy ===== *)
theory Sandbox
  imports Workspace Review
begin

text \<open>
  \<open>pyfixagent/sandbox/policy.py\<close>, \<open>base.py\<close> and \<open>local_sandbox.py\<close>,
  \<open>execution/test_policy.py\<close> and \<open>test_runner.py\<close>: which commands may run, their execution on
  the host, and the run of the visible tests over any sandbox.
\<close>

section \<open>Command policies\<close>

definition dangerous_tokens :: "pystr list" where
  "dangerous_tokens = [''rm'', ''sudo'', ''shutdown'', ''reboot'', ''curl'', ''wget'', ''powershell'', ''cmd'',
     ''del'', ''erase'', ''format'']"

definition executable_name :: "pystr \<Rightarrow> pystr" where
  "executable_name v = removesuffix (lower (last (split_char (CHR ''/'') (slashes v)))) ''.exe''"

definition is_command_allowed :: "pystr list \<Rightarrow> bool \<times> pystr option" where
  "is_command_allowed command =
     (if command = [] then (False, Some ''empty command is not allowed'')
      else (let lowered = map lower command; exe = executable_name (hd command) in
        if contains (join '' '' lowered) ''rm -rf''
        then (False, Some ''dangerous command is not allowed: rm -rf'')
        else (case List.find (\<lambda>t. t \<in> set dangerous_tokens) (lowered @ map executable_name command) of
           Some t \<Rightarrow> (False, Some (''dangerous command is not allowed: '' @ t))
         | None \<Rightarrow>
             (if exe = ''pytest'' then (True, None)
              else if exe \<in> {''python'', ''python3''} then
                (if length lowered = 1 then (True, None)
                 else if length lowered \<ge> 3 \<and> lowered ! 1 = ''-m'' \<and> lowered ! 2 = ''pytest'' then (True, None)
                 else (True, None))
              else (False, Some (''command is not allowed: '' @ hd command))))))"

definition shell_tokens :: "pystr list" where
  "shell_tokens = [''&&'', ''||'', ''|'', '';'', ''>'', ''>>'', ''<'', ''<<'']"

definition validate_test_command :: "pystr list \<Rightarrow> exn + pystr list" where
  "validate_test_command command =
     (if command = [] \<or> list_ex (\<lambda>p. strip p = []) command
      then Inl (ValueError ''test command must be a non-empty argv list'')
      else if list_ex (\<lambda>p. p \<in> set shell_tokens \<or> nl \<in> set p \<or> CHR 0x0D \<in> set p) command
      then Inl (ValueError ''test command must not contain shell operators'')
      else (let exe = lower (path_name (hd command)) in
        if exe \<in> {''pytest'', ''pytest.exe''} then Inr command
        else if exe \<in> {''python'', ''python.exe'', ''python3'', ''python3.exe''}
          \<and> length command \<ge> 3 \<and> take 2 (drop 1 command) = [''-m'', ''pytest'']
        then Inr command
        else Inl (ValueError ''test command must invoke pytest directly or through python -m pytest'')))"

definition default_test_command :: "pystr list" where
  "default_test_command = [''python'', ''-m'', ''pytest'', ''-p'', ''no:cacheprovider'']"

definition normalize_test_command :: "pyvals \<Rightarrow> json \<Rightarrow> exn + pystr list" where
  "normalize_test_command py raw = (case raw of
     JArr parts \<Rightarrow> validate_test_command (map (json_str py) parts)
   | _ \<Rightarrow> Inl (ValueError ''each test command must be an argv list, not a shell string''))"

definition normalize_test_commands :: "pyvals \<Rightarrow> json \<Rightarrow> exn + pystr list list" where
  "normalize_test_commands py raw = (case raw of
     JNull \<Rightarrow> Inr [default_test_command]
   | JArr cmds \<Rightarrow>
       (if cmds = [] then Inl (ValueError ''test.commands must be a non-empty list of argv lists'')
        else map_result (normalize_test_command py) cmds)
   | _ \<Rightarrow> Inl (ValueError ''test.commands must be a non-empty list of argv lists''))"

section \<open>Results of commands\<close>

text \<open>A captured stream: text, or the bytes that a timeout leaves.\<close>

datatype stream_text = Str pystr | Bytes pystr

record command_result =
  cr_command :: "pystr list"
  cr_exit_code :: int
  cr_stdout :: stream_text
  cr_stderr :: stream_text
  cr_duration :: pystr
  cr_timeout :: bool
  cr_backend :: pystr
  cr_runtime_command :: "pystr list"
  cr_infrastructure_error :: bool
  cr_output_truncated :: bool
  cr_policy_violation :: "pystr option"

definition command_result_of :: "pystr \<Rightarrow> pystr list \<Rightarrow> int \<Rightarrow> stream_text \<Rightarrow> stream_text \<Rightarrow> command_result" where
  "command_result_of backend command rc out err =
     \<lparr>cr_command = command, cr_exit_code = rc, cr_stdout = out, cr_stderr = err, cr_duration = ''0.00'',
      cr_timeout = False, cr_backend = backend, cr_runtime_command = [], cr_infrastructure_error = False,
      cr_output_truncated = False, cr_policy_violation = None\<rparr>"

section \<open>The local sandbox\<close>

record local_sandbox =
  ls_workspace :: pystr
  ls_timeout_seconds :: int

definition is_python_command :: "pystr list \<Rightarrow> bool" where
  "is_python_command command \<longleftrightarrow> command \<noteq> [] \<and>
     (let exe = lower (path_name (hd command)) in exe = ''python'' \<or> startswith exe ''python.'')"

text \<open>Removal of the byte code caches below the workspace; entries that resolve elsewhere stay.\<close>

fun remove_caches :: "'w os \<Rightarrow> pystr \<Rightarrow> pystr list \<Rightarrow> ('w, unit) io" where
  "remove_caches os root [] = ret ()"
| "remove_caches os root (d # ds) =
     bind_io (gets (\<lambda>w. let r = resolve_path os w d in (r, is_dir os w r))) (\<lambda>(r, there).
       if relative_to (path_parts root) (path_parts r) = None \<or> \<not> there then remove_caches os root ds
       else then_io (\<lambda>w. case rmtree os w r of (Some m, w') \<Rightarrow> (Inl (OSError m), w') | (None, w') \<Rightarrow> (Inr (), w'))
         (remove_caches os root ds))"

definition clean_python_bytecode_cache :: "'w os \<Rightarrow> pystr \<Rightarrow> ('w, unit) io" where
  "clean_python_bytecode_cache os workspace =
     bind_io (gets (\<lambda>w. let r = resolve_path os w workspace in (r, path_exists os w r, walk os w r)))
     (\<lambda>(root, there, entries).
       if \<not> there then ret ()
       else (case entries of
          Inl e \<Rightarrow> throw e
        | Inr es \<Rightarrow> remove_caches os root (map (\<lambda>(parts, _). root @ ''/'' @ as_posix parts)
            (filter (\<lambda>(parts, _). parts \<noteq> [] \<and> last parts = ''__pycache__'') es))))"

definition bytes_or :: "pystr option \<Rightarrow> pystr \<Rightarrow> stream_text" where
  "bytes_or x d = (case x of None \<Rightarrow> Str d | Some b \<Rightarrow> (if b = [] then Str d else Bytes b))"

text \<open>\<open>timeout or self.timeout_seconds\<close>; the runner passes no timeout.\<close>

definition local_run :: "'w os \<Rightarrow> local_sandbox \<Rightarrow> pystr list \<Rightarrow> 'w \<Rightarrow> command_result \<times> 'w" where
  "local_run os ls command w =
     (let res = command_result_of ''local'' command; t = ls_timeout_seconds ls in
      case is_command_allowed command of
        (False, reason) \<Rightarrow>
          ((res 126 (Str []) (Str (or_else reason ''command is not allowed'')))\<lparr>cr_infrastructure_error := True\<rparr>, w)
      | (True, _) \<Rightarrow>
          (case (if is_python_command command then clean_python_bytecode_cache os (ls_workspace ls) else ret ()) w of
             (Inl e, w') \<Rightarrow>
               ((res 1 (Str []) (Str (''failed to run command: '' @ exn_message e)))
                  \<lparr>cr_infrastructure_error := True, cr_runtime_command := command\<rparr>, w')
           | (Inr _, w') \<Rightarrow>
               (case spawn os w' (ls_workspace ls) command t of
                  (Ran rc out err, w'') \<Rightarrow> ((res rc (Str out) (Str err))\<lparr>cr_runtime_command := command\<rparr>, w'')
                | (RanOut out err, w'') \<Rightarrow>
                    ((res 124 (bytes_or out []) (bytes_or err (''command timed out after '' @ str_int t @ ''s'')))
                       \<lparr>cr_timeout := True, cr_runtime_command := command\<rparr>, w'')
                | (NotRun m, w'') \<Rightarrow>
                    ((res 1 (Str []) (Str (''failed to run command: '' @ m)))
                       \<lparr>cr_infrastructure_error := True, cr_runtime_command := command\<rparr>, w''))))"

definition local_with_workspace :: "local_sandbox \<Rightarrow> pystr \<Rightarrow> local_sandbox" where
  "local_with_workspace ls ws = ls\<lparr>ls_workspace := ws\<rparr>"

definition local_basetemp :: "local_sandbox \<Rightarrow> pystr \<Rightarrow> nat \<Rightarrow> pystr" where
  "local_basetemp ls root i = root @ ''/command-'' @ str_nat i"

section \<open>The run of the visible tests\<close>

text \<open>A sandbox is an object: a command may change it, for what it learns of its runtime.\<close>

record ('s, 'w) sandbox_ops =
  sb_run :: "'s \<Rightarrow> pystr list \<Rightarrow> 'w \<Rightarrow> command_result \<times> 's \<times> 'w"
  sb_with_workspace :: "'s \<Rightarrow> pystr \<Rightarrow> 's"
  sb_workspace :: "'s \<Rightarrow> pystr"
  sb_basetemp :: "'s \<Rightarrow> pystr \<Rightarrow> nat \<Rightarrow> pystr"

record test_execution =
  te_exit_code :: int
  te_output :: pystr
  te_command_result :: command_result
  te_command_results :: "command_result list"

definition te_success :: "test_execution \<Rightarrow> bool" where
  "te_success t \<longleftrightarrow> te_exit_code t = 0"

definition te_infrastructure_error :: "test_execution \<Rightarrow> bool" where
  "te_infrastructure_error t \<longleftrightarrow>
     list_ex cr_infrastructure_error (te_command_results t) \<or> cr_infrastructure_error (te_command_result t)"

definition with_isolated_basetemp :: "pystr list \<Rightarrow> pystr \<Rightarrow> pystr list" where
  "with_isolated_basetemp command basetemp =
     (if list_ex (\<lambda>p. p = ''--basetemp'' \<or> startswith p ''--basetemp='') command then command
      else command @ [''--basetemp='' @ basetemp])"

definition str_bool :: "bool \<Rightarrow> pystr" where
  "str_bool b = (if b then ''True'' else ''False'')"

text \<open>\<open>"\\n".join(parts)\<close> raises a \<open>TypeError\<close> when one part is \<open>bytes\<close>.\<close>

definition format_output :: "command_result \<Rightarrow> exn + pystr" where
  "format_output r =
     (let head = [''command: '' @ join '' '' (cr_command r), ''backend: '' @ cr_backend r,
            ''exit_code: '' @ str_int (cr_exit_code r), ''duration: '' @ cr_duration r @ ''s'',
            ''timeout: '' @ str_bool (cr_timeout r),
            ''infrastructure_error: '' @ str_bool (cr_infrastructure_error r),
            ''output_truncated: '' @ str_bool (cr_output_truncated r),
            ''policy_violation: '' @ or_else (cr_policy_violation r) ''none'', ''stdout:'']
      in case (cr_stdout r, cr_stderr r) of
           (Str out, Str err) \<Rightarrow> Inr (joinlines (head @ [out, ''stderr:'', err]))
         | _ \<Rightarrow> Inl (TypeError ''sequence item: expected str instance, bytes found''))"

text \<open>The commands in order, up to the first that fails; \<open>index\<close> counts from 1.\<close>

fun run_commands ::
    "('s, 'w) sandbox_ops \<Rightarrow> 's \<Rightarrow> pystr \<Rightarrow> nat \<Rightarrow> pystr list list \<Rightarrow> 'w \<Rightarrow> command_result list \<times> 's \<times> 'w" where
  "run_commands ops sb root i [] w = ([], sb, w)"
| "run_commands ops sb root i (c # cs) w =
     (case sb_run ops sb (with_isolated_basetemp c (sb_basetemp ops sb root i)) w of
        (r, sb', w') \<Rightarrow>
          (if cr_exit_code r \<noteq> 0 then ([r], sb', w')
           else (case run_commands ops sb' root (Suc i) cs w' of (rs, sb'', w'') \<Rightarrow> (r # rs, sb'', w''))))"

record ('s, 'w) test_runner =
  tr_ops :: "('s, 'w) sandbox_ops"
  tr_sandbox :: 's
  tr_commands :: "pystr list list"
  tr_resolve :: "'w \<Rightarrow> pystr \<Rightarrow> pystr"
  tr_temporary_root :: "'w \<Rightarrow> pystr"

definition test_runner_init :: "pystr list list \<Rightarrow> exn + pystr list list" where
  "test_runner_init commands =
     map_result validate_test_command (if commands = [] then [default_test_command] else commands)"

text \<open>
  The sandbox is bound to the workspace of the run first, when it is another one; the runner
  keeps the sandbox that it used for the next run.
\<close>

definition bind_workspace :: "('s, 'w) test_runner \<Rightarrow> pystr \<Rightarrow> 'w \<Rightarrow> ('s, 'w) test_runner" where
  "bind_workspace tr ws w =
     (if tr_resolve tr w ws \<noteq> tr_resolve tr w (sb_workspace (tr_ops tr) (tr_sandbox tr))
      then tr\<lparr>tr_sandbox := sb_with_workspace (tr_ops tr) (tr_sandbox tr) ws\<rparr> else tr)"

definition run_tests :: "pystr \<Rightarrow> (('s, 'w) test_runner \<times> 'w, test_execution) io" where
  "run_tests ws = (\<lambda>(tr, w).
     let tr = bind_workspace tr ws w in
     case run_commands (tr_ops tr) (tr_sandbox tr) (tr_temporary_root tr w) 1 (tr_commands tr) w of
       (results, sb, w') \<Rightarrow>
         let tr = tr\<lparr>tr_sandbox := sb\<rparr> in
         (case map_result format_output results of
            Inl e \<Rightarrow> (Inl e, (tr, w'))
          | Inr outs \<Rightarrow>
              (Inr \<lparr>te_exit_code = cr_exit_code (last results), te_output = join [nl, nl] outs,
                 te_command_result = last results, te_command_results = results\<rparr>, (tr, w'))))"

section \<open>The sandbox protocol\<close>

text \<open>
  What the test runner relies on: a command that the policy forbids does not run at all, a
  command that reports success was neither cut short nor caught by a policy, and a sandbox
  can be bound to another workspace.
\<close>

definition clean_success :: "command_result \<Rightarrow> bool" where
  "clean_success r \<longleftrightarrow> \<not> cr_infrastructure_error r \<and> \<not> cr_timeout r \<and> cr_policy_violation r = None"

locale sandbox =
  fixes ops :: "('s, 'w) sandbox_ops"
  assumes forbidden: "\<not> fst (is_command_allowed c) \<Longrightarrow> sb_run ops s c w = (r, s', w') \<Longrightarrow>
      s' = s \<and> w' = w \<and> cr_exit_code r = 126 \<and> cr_infrastructure_error r"
    and success_clean: "sb_run ops s c w = (r, s', w') \<Longrightarrow> cr_exit_code r = 0 \<Longrightarrow> clean_success r"
    and run_workspace: "sb_run ops s c w = (r, s', w') \<Longrightarrow> sb_workspace ops s' = sb_workspace ops s"
    and bound_workspace: "sb_workspace ops (sb_with_workspace ops s p) = p"
begin

lemma run_commands_verdict:
  assumes "run_commands ops s root i cs w = (rs, s', w')"
  shows "length rs \<le> length cs"
    and "cs \<noteq> [] \<Longrightarrow> rs \<noteq> []"
    and "\<forall>r\<in>set (butlast rs). cr_exit_code r = 0"
    and "cs \<noteq> [] \<Longrightarrow> cr_exit_code (last rs) = 0 \<longleftrightarrow>
      length rs = length cs \<and> (\<forall>r\<in>set rs. cr_exit_code r = 0)"
    and "\<forall>r\<in>set rs. cr_exit_code r = 0 \<longrightarrow> clean_success r"
    and "sb_workspace ops s' = sb_workspace ops s"
proof -
  have "length rs \<le> length cs \<and> (cs \<noteq> [] \<longrightarrow> rs \<noteq> []) \<and> (\<forall>r\<in>set (butlast rs). cr_exit_code r = 0)
      \<and> (\<forall>r\<in>set rs. cr_exit_code r = 0 \<longrightarrow> clean_success r) \<and> sb_workspace ops s' = sb_workspace ops s
      \<and> (cs \<noteq> [] \<longrightarrow> cr_exit_code (last rs) = 0 \<longrightarrow> length rs = length cs)"
    using assms
  proof (induction cs arbitrary: s i w rs)
    case (Cons c cs)
    obtain r s1 w1 where r: "sb_run ops s (with_isolated_basetemp c (sb_basetemp ops s root i)) w = (r, s1, w1)"
      using prod_cases3 by blast
    show ?case
    proof (cases "cr_exit_code r = 0")
      case False
      with Cons.prems r run_workspace [OF r] show ?thesis by auto
    next
      case True
      then obtain rs' where rest: "run_commands ops s1 root (Suc i) cs w1 = (rs', s', w')" and rs: "rs = r # rs'"
        using Cons.prems r by (auto split: prod.splits)
      have nil: "rs' = [] \<longleftrightarrow> cs = []"
        using Cons.IH [OF rest] rest by (cases cs) auto
      from Cons.IH [OF rest] nil True success_clean [OF r True] run_workspace [OF r] show ?thesis by (auto simp: rs)
    qed
  qed simp
  then show "length rs \<le> length cs" "cs \<noteq> [] \<Longrightarrow> rs \<noteq> []" "\<forall>r\<in>set (butlast rs). cr_exit_code r = 0"
      "\<forall>r\<in>set rs. cr_exit_code r = 0 \<longrightarrow> clean_success r" "sb_workspace ops s' = sb_workspace ops s"
    and "cs \<noteq> [] \<Longrightarrow> cr_exit_code (last rs) = 0 \<longleftrightarrow> length rs = length cs \<and> (\<forall>r\<in>set rs. cr_exit_code r = 0)"
    by (auto intro: last_in_set) (metis append_butlast_last_id in_set_butlastD Un_iff set_append
        list.set_intros set_ConsD empty_iff list.set(1))+
qed

lemma run_tests_verdict:
  assumes "tr_ops tr = ops" and "tr_commands tr \<noteq> []" and "run_tests ws (tr, w) = (Inr t, (tr', w'))"
  shows "te_success t \<longleftrightarrow> length (te_command_results t) = length (tr_commands tr)
      \<and> (\<forall>r\<in>set (te_command_results t). cr_exit_code r = 0)"
    and "te_success t \<Longrightarrow> \<not> te_infrastructure_error t"
    and "tr_ops tr' = ops \<and> tr_commands tr' = tr_commands tr"
    and "tr_resolve tr w (sb_workspace ops (tr_sandbox tr')) = tr_resolve tr w ws"
proof -
  let ?tr = "bind_workspace tr ws w"
  have b: "tr_ops ?tr = ops" "tr_commands ?tr = tr_commands tr"
    "tr_resolve tr w (sb_workspace ops (tr_sandbox ?tr)) = tr_resolve tr w ws"
    using assms(1) bound_workspace by (auto simp: bind_workspace_def)
  obtain rs s1 w1 where rs: "run_commands ops (tr_sandbox ?tr) (tr_temporary_root ?tr w) 1 (tr_commands tr) w = (rs, s1, w1)"
    using prod_cases3 by blast
  have t: "te_command_results t = rs" "te_command_result t = last rs" "te_exit_code t = cr_exit_code (last rs)"
    and tr': "tr' = ?tr\<lparr>tr_sandbox := s1\<rparr>"
    using assms(3) rs b by (auto simp: run_tests_def Let_def split: sum.splits)
  note v = run_commands_verdict [OF rs]
  show s: "te_success t \<longleftrightarrow> length (te_command_results t) = length (tr_commands tr)
      \<and> (\<forall>r\<in>set (te_command_results t). cr_exit_code r = 0)"
    using v(4) assms(2) by (simp add: te_success_def t)
  show "\<not> te_infrastructure_error t" if "te_success t"
    using that s v(2,5) assms(2) last_in_set [of rs]
    by (auto simp: te_infrastructure_error_def t list_ex_iff clean_success_def)
  show "tr_ops tr' = ops \<and> tr_commands tr' = tr_commands tr" using b by (simp add: tr')
  show "tr_resolve tr w (sb_workspace ops (tr_sandbox tr')) = tr_resolve tr w ws" using b v(6) by (simp add: tr')
qed

end

definition local_ops :: "'w os \<Rightarrow> (local_sandbox, 'w) sandbox_ops" where
  "local_ops os = \<lparr>sb_run = \<lambda>ls c w. (case local_run os ls c w of (r, w') \<Rightarrow> (r, ls, w')), sb_with_workspace = local_with_workspace,
     sb_workspace = ls_workspace, sb_basetemp = local_basetemp\<rparr>"

lemma local_run_forbidden:
  "\<not> fst (is_command_allowed c) \<Longrightarrow> local_run os ls c w = (r, w') \<Longrightarrow>
     w' = w \<and> cr_exit_code r = 126 \<and> cr_infrastructure_error r"
  by (cases "is_command_allowed c") (auto simp: local_run_def Let_def command_result_of_def)

lemma local_run_success:
  "local_run os ls c w = (r, w') \<Longrightarrow> cr_exit_code r = 0 \<Longrightarrow> clean_success r"
  unfolding local_run_def Let_def
  by (auto simp: command_result_of_def clean_success_def
      split: prod.splits bool.splits sum.splits command_process.splits)

interpretation local_sandbox: sandbox "local_ops os" for os
  by unfold_locales
    (auto simp: local_ops_def local_with_workspace_def local_run_forbidden local_run_success split: prod.splits
      dest: local_run_forbidden local_run_success)

section \<open>Properties\<close>

lemma find_None: "List.find P xs = None \<longleftrightarrow> (\<forall>x\<in>set xs. \<not> P x)"
  by (auto simp: find_None_iff)

lemma find_Some: "List.find P xs = Some x \<Longrightarrow> P x \<and> x \<in> set xs"
  by (induction xs) (auto split: if_splits)

text \<open>
  The sandbox runs a command exactly when its executable is \<open>pytest\<close> or \<open>python\<close>, no
  argument is, or names, one of the dangerous programs, and the command line does not hold
  \<open>rm -rf\<close>; the arguments of \<open>python\<close> are not restricted further.
\<close>

theorem command_allowed_iff:
  "fst (is_command_allowed c) \<longleftrightarrow>
     c \<noteq> [] \<and> executable_name (hd c) \<in> {''pytest'', ''python'', ''python3''}
     \<and> \<not> contains (join '' '' (map lower c)) ''rm -rf''
     \<and> list_all (\<lambda>p. lower p \<notin> set dangerous_tokens \<and> executable_name p \<notin> set dangerous_tokens) c"
proof (cases "List.find (\<lambda>t. t \<in> set dangerous_tokens) (map lower c @ map executable_name c)")
  case None
  then have "\<forall>p\<in>set c. lower p \<notin> set dangerous_tokens \<and> executable_name p \<notin> set dangerous_tokens"
    unfolding find_None by auto
  with None show ?thesis by (auto simp: is_command_allowed_def Let_def list_all_iff)
next
  case (Some t)
  then have "t \<in> set dangerous_tokens" "t \<in> set (map lower c @ map executable_name c)"
    using find_Some by fast+
  then have "\<not> (\<forall>p\<in>set c. lower p \<notin> set dangerous_tokens \<and> executable_name p \<notin> set dangerous_tokens)"
    by auto
  with Some show ?thesis by (auto simp: is_command_allowed_def Let_def list_all_iff)
qed

text \<open>
  The two command policies disagree: the policy for test commands accepts a selection such
  as \<open>pytest -k format\<close>, which the sandbox then refuses as dangerous, so that the run ends in
  an infrastructure error; and the sandbox accepts \<open>python -c\<close> with any program.
\<close>

theorem policies_disagree:
  "validate_test_command [''pytest'', ''-k'', ''format''] = Inr [''pytest'', ''-k'', ''format'']
   \<and> is_command_allowed [''pytest'', ''-k'', ''format'']
       = (False, Some ''dangerous command is not allowed: format'')
   \<and> is_command_allowed [''python'', ''-c'', ''import shutil''] = (True, None)"
  by code_simp

text \<open>
  A test run on the host succeeds exactly when every configured command ran and exited with
  status 0, and then none of them timed out, broke a policy or hit an infrastructure error; the
  runner is then bound to the workspace of the run.
\<close>

theorem local_tests_verdict:
  assumes "tr_ops tr = local_ops os" and "tr_commands tr \<noteq> []" and "run_tests ws (tr, w) = (Inr t, (tr', w'))"
  shows "(te_success t \<longleftrightarrow> length (te_command_results t) = length (tr_commands tr)
        \<and> (\<forall>r\<in>set (te_command_results t). cr_exit_code r = 0))
    \<and> (te_success t \<longrightarrow> \<not> te_infrastructure_error t)
    \<and> tr_resolve tr w (ls_workspace (tr_sandbox tr')) = tr_resolve tr w ws"
  using local_sandbox.run_tests_verdict [OF assms] by (simp add: local_ops_def)

definition demo_runner :: "(demo_world \<Rightarrow> command_process) \<Rightarrow> (local_sandbox, demo_world) test_runner" where
  "demo_runner p = \<lparr>tr_ops = local_ops (demo_os\<lparr>spawn := \<lambda>w d c t. (p w, w)\<rparr>),
     tr_sandbox = \<lparr>ls_workspace = ''/r'', ls_timeout_seconds = 30\<rparr>,
     tr_commands = [[''pytest''], [''python'', ''-m'', ''pytest'']], tr_resolve = \<lambda>w p. p,
     tr_temporary_root = \<lambda>w. ''/tmp''\<rparr>"

theorem local_tests_verdict_witness:
  "te_success (projr (fst (run_tests ''/w'' (demo_runner (\<lambda>w. Ran 0 ''ok'' []), demo_state))))
    \<and> \<not> te_infrastructure_error (projr (fst (run_tests ''/w'' (demo_runner (\<lambda>w. Ran 0 ''ok'' []), demo_state))))"
proof -
  let ?r = "run_tests ''/w'' (demo_runner (\<lambda>w. Ran 0 ''ok'' []), demo_state)"
  have "\<not> isl (fst ?r)" and ok: "te_success (projr (fst ?r))" by code_simp+
  then have r: "?r = (Inr (projr (fst ?r)), (fst (snd ?r), snd (snd ?r)))"
    by (simp add: prod_eq_iff)
  have "tr_ops (demo_runner (\<lambda>w. Ran 0 ''ok'' [])) = local_ops (demo_os\<lparr>spawn := \<lambda>w d c t. (Ran 0 ''ok'' [], w)\<rparr>)"
    "tr_commands (demo_runner (\<lambda>w. Ran 0 ''ok'' [])) \<noteq> []"
    by (simp_all add: demo_runner_def)
  from local_tests_verdict [OF this r] ok show ?thesis by blast
qed

text \<open>
  A command that times out after it printed something leaves \<open>bytes\<close>, which the formatting
  of its result cannot join: the run of the tests raises a \<open>TypeError\<close> instead of reporting
  the timeout.
\<close>

theorem timeout_output_raises:
  "\<exists>m. fst (run_tests ''/w'' (demo_runner (\<lambda>w. RanOut (Some ''collected'') None), demo_state))
      = Inl (TypeError m)"
  by (rule exI [of _ "''sequence item: expected str instance, bytes found''"]) code_simp

end
