(* ===== verification/ContainerPolicy.thy ===== *)
theory ContainerPolicy
  imports Sandbox
begin

text \<open>
  \<open>pyfixagent/sandbox/container_sandbox.py\<close>, first part: the policy of a container, the sizes it
  names, the user it runs as, and the budget for the growth of the workspace. The command line
  and the execution are in \<open>Container\<close>.
\<close>

section \<open>The policy\<close>

text \<open>A float is its spelling \<open>str(x)\<close>; whether it is above zero is the parameter \<open>positive\<close>.\<close>

record container_policy =
  cp_engine :: pystr
  cp_image :: pystr
  cp_pull_policy :: pystr
  cp_network :: pystr
  cp_cpus :: pystr
  cp_memory :: pystr
  cp_pids_limit :: int
  cp_read_only_root :: bool
  cp_tmpfs_size :: pystr
  cp_output_limit :: pystr
  cp_workspace_write_limit :: pystr
  cp_file_size_limit :: pystr
  cp_open_files_limit :: int
  cp_user :: pystr
  cp_dependency_policy :: pystr

definition default_policy :: container_policy where
  "default_policy = \<lparr>cp_engine = ''docker'', cp_image = ''pyfixagent-runner:0.7.2'', cp_pull_policy = ''never'',
     cp_network = ''none'', cp_cpus = ''1.0'', cp_memory = ''1g'', cp_pids_limit = 128, cp_read_only_root = True,
     cp_tmpfs_size = ''128m'', cp_output_limit = ''4m'', cp_workspace_write_limit = ''256m'',
     cp_file_size_limit = ''64m'', cp_open_files_limit = 1024, cp_user = ''workspace_owner'',
     cp_dependency_policy = ''image_only''\<rparr>"

text \<open>
  The three patterns, as \<open>fullmatch\<close> decides them: their parts are runs of one character class
  that the next part cannot continue, so there is only one way to match.
\<close>

definition image_start :: "char \<Rightarrow> bool" where
  "image_start c \<longleftrightarrow> is_ascii_letter c \<or> is_digit c"

definition image_char :: "char \<Rightarrow> bool" where
  "image_char c \<longleftrightarrow> image_start c \<or> c \<in> set ''._/:@-''"

definition image_pattern :: "pystr \<Rightarrow> bool" where
  "image_pattern s \<longleftrightarrow> s \<noteq> [] \<and> image_start (hd s) \<and> list_all image_char (tl s)"

definition positive_number :: "pystr \<Rightarrow> bool" where
  "positive_number s \<longleftrightarrow> s \<noteq> [] \<and> list_all is_digit s \<and> hd s \<noteq> CHR ''0''"

definition size_units :: "pystr list" where
  "size_units = [u @ b. u \<leftarrow> [[], ''k'', ''K'', ''m'', ''M'', ''g'', ''G''], b \<leftarrow> [[], ''b'', ''B'']]"

definition size_pattern :: "pystr \<Rightarrow> bool" where
  "size_pattern s \<longleftrightarrow> positive_number (takeWhile is_digit s) \<and> dropWhile is_digit s \<in> set size_units"

definition user_pattern :: "pystr \<Rightarrow> bool" where
  "user_pattern s \<longleftrightarrow> (let parts = split_char (CHR '':'') s in length parts \<le> 2 \<and> list_all positive_number parts)"

text \<open>\<open>__post_init__\<close>: the error of the first check that fails.\<close>

definition policy_error :: "(pystr \<Rightarrow> bool) \<Rightarrow> container_policy \<Rightarrow> pystr option" where
  "policy_error positive p =
     (if cp_engine p \<notin> {''docker'', ''podman''} then Some ''container engine must be docker or podman''
      else if \<not> image_pattern (cp_image p) \<or> startswith (cp_image p) ''-''
      then Some (''invalid container image reference: '' @ cp_image p)
      else if cp_pull_policy p \<notin> {''never'', ''missing''} then Some ''container pull_policy must be never or missing''
      else if cp_network p \<notin> {''none'', ''bridge''} then Some ''container network must be none or bridge''
      else if \<not> positive (cp_cpus p) then Some ''container cpus must be positive''
      else if \<not> size_pattern (cp_memory p) then Some ''container memory must be a positive Docker size such as 1g''
      else if cp_pids_limit p < 1 then Some ''container pids_limit must be positive''
      else if \<not> size_pattern (cp_tmpfs_size p)
      then Some ''container tmpfs_size must be a positive Docker size such as 128m''
      else if \<not> size_pattern (cp_output_limit p)
      then Some ''container output_limit must be a positive size such as 4m''
      else if \<not> size_pattern (cp_workspace_write_limit p)
      then Some ''container workspace_write_limit must be a positive size such as 256m''
      else if \<not> size_pattern (cp_file_size_limit p)
      then Some ''container file_size_limit must be a positive size such as 64m''
      else if cp_open_files_limit p < 32 then Some ''container open_files_limit must be at least 32''
      else if cp_dependency_policy p \<noteq> ''image_only''
      then Some ''the configured runner supports only the image_only dependency policy''
      else if cp_user p \<noteq> ''workspace_owner'' \<and> \<not> user_pattern (cp_user p)
      then Some ''container user must be workspace_owner or an explicit non-root uid[:gid]''
      else None)"

section \<open>Sizes\<close>

text \<open>
  \<open>int(text)\<close>: surrounding white space, a sign, and digits with single underscores between them.
\<close>

definition digit_groups :: "pystr \<Rightarrow> bool" where
  "digit_groups s \<longleftrightarrow> list_all (\<lambda>g. g \<noteq> [] \<and> list_all is_digit g) (split_char (CHR ''_'') s)"

definition int_of_text :: "pystr \<Rightarrow> exn + int" where
  "int_of_text v =
     (let t = strip v;
          (sign, body) = (if startswith t ''-'' then (-1, drop 1 t) else if startswith t ''+'' then (1, drop 1 t) else (1, t))
      in if digit_groups body then Inr (sign * int (int_of_digits (filter is_digit body)))
         else Inl (ValueError (''invalid literal for int() with base 10: '' @ v)))"

definition unit_bytes :: "char \<Rightarrow> int option" where
  "unit_bytes c = (if c = CHR ''k'' then Some 1024 else if c = CHR ''m'' then Some (1024 ^ 2)
     else if c = CHR ''g'' then Some (1024 ^ 3) else None)"

definition parse_size_bytes :: "pystr \<Rightarrow> exn + int" where
  "parse_size_bytes v =
     (let n = lower (strip v); n = (if endswith n ''b'' then butlast n else n) in
      case (if n = [] then None else unit_bytes (last n)) of
        Some m \<Rightarrow> map_sum id (\<lambda>i. i * m) (int_of_text (butlast n))
      | None \<Rightarrow> int_of_text n)"

text \<open>The size of a field that the constructor of the policy has checked.\<close>

definition checked_size :: "pystr \<Rightarrow> int" where
  "checked_size v = (case parse_size_bytes v of Inr n \<Rightarrow> n | Inl e \<Rightarrow> 0)"

section \<open>The user\<close>

definition resolve_runtime_user :: "bool \<Rightarrow> int \<times> int \<Rightarrow> pystr \<Rightarrow> exn + pystr" where
  "resolve_runtime_user posix owner configured =
     (if configured \<noteq> ''workspace_owner'' then Inr configured
      else if \<not> posix then Inr ''65534:65534''
      else if fst owner \<le> 0 \<or> snd owner \<le> 0
      then Inl (ValueError (''container workspace owner resolves to root; configure an explicit non-root ''
             @ ''sandbox.container.user or change the workspace owner''))
      else Inr (str_int (fst owner) @ '':'' @ str_int (snd owner)))"

section \<open>The size of the workspace\<close>

text \<open>
  A directory as \<open>os.scandir\<close> shows it: links are skipped, an entry or a directory that cannot
  be read contributes nothing.
\<close>

datatype disk_entry =
    SymbolicLink
  | RegularFile nat
  | Directory "disk_entry list option"
  | UnreadableEntry
  | SpecialEntry

type_synonym directory = "disk_entry list option"

text \<open>
  One directory: the running total and the directories still to visit, or the total with which
  the function returns early. The stack is kept with its top first.
\<close>

fun scan_entries :: "int option \<Rightarrow> disk_entry list \<Rightarrow> nat \<Rightarrow> directory list \<Rightarrow> nat + nat \<times> directory list" where
  "scan_entries stop_after [] acc pending = Inr (acc, pending)"
| "scan_entries stop_after (e # es) acc pending =
     (case e of
        Directory d \<Rightarrow> scan_entries stop_after es acc (d # pending)
      | RegularFile n \<Rightarrow>
          (let acc = acc + n in
           case stop_after of
             Some s \<Rightarrow> (if int acc > s then Inl acc else scan_entries stop_after es acc pending)
           | None \<Rightarrow> scan_entries stop_after es acc pending)
      | _ \<Rightarrow> scan_entries stop_after es acc pending)"

definition directory_weight :: "directory \<Rightarrow> nat" where
  "directory_weight d = Suc (size_option (size_list size) d)"

lemma scan_entries_weight:
  "scan_entries stop_after es acc pending = Inr (acc', pending') \<Longrightarrow>
     sum_list (map directory_weight pending') \<le> sum_list (map directory_weight pending) + size_list size es"
proof (induction es arbitrary: acc pending)
  case (Cons e es)
  show ?case
  proof (cases e)
    case (Directory d)
    with Cons.IH [of acc "d # pending"] Cons.prems show ?thesis by (simp add: directory_weight_def)
  next
    case (RegularFile n)
    with Cons.IH [of "acc + n" pending] Cons.prems show ?thesis
      by (auto simp: Let_def split: option.splits if_splits)
  qed (use Cons.IH [of acc pending] Cons.prems in auto)
qed simp

function measure_pending :: "int option \<Rightarrow> nat \<Rightarrow> directory list \<Rightarrow> nat" where
  "measure_pending stop_after acc [] = acc"
| "measure_pending stop_after acc (None # pending) = measure_pending stop_after acc pending"
| "measure_pending stop_after acc (Some es # pending) =
     (case scan_entries stop_after es acc pending of
        Inl t \<Rightarrow> t
      | Inr (t, pending') \<Rightarrow> measure_pending stop_after t pending')"
  by pat_completeness auto

termination
  by (relation "measure (\<lambda>(s, t, p). sum_list (map directory_weight p))")
    (auto simp: directory_weight_def dest!: scan_entries_weight)

definition workspace_size :: "directory \<Rightarrow> int option \<Rightarrow> nat" where
  "workspace_size d stop_after = measure_pending stop_after 0 [d]"

section \<open>The budget\<close>

text \<open>Times are milliseconds.\<close>

record workspace_budget =
  wb_limit :: int
  wb_allowed_growth :: int
  wb_next_check_at :: int

definition budget_from_policy :: "directory \<Rightarrow> pystr \<Rightarrow> workspace_budget" where
  "budget_from_policy d write_limit =
     (let growth = checked_size write_limit in
      \<lparr>wb_limit = int (workspace_size d None) + growth, wb_allowed_growth = growth, wb_next_check_at = 0\<rparr>)"

definition budget_violation :: "directory \<Rightarrow> workspace_budget \<Rightarrow> pystr option" where
  "budget_violation d b =
     (if int (workspace_size d (Some (wb_limit b))) > wb_limit b
      then Some (''workspace growth exceeded '' @ str_int (wb_allowed_growth b) @ '' bytes'') else None)"

definition budget_check :: "int \<Rightarrow> directory \<Rightarrow> workspace_budget \<Rightarrow> pystr option \<times> workspace_budget" where
  "budget_check clock d b =
     (if clock < wb_next_check_at b then (None, b)
      else (budget_violation d b, b\<lparr>wb_next_check_at := clock + 500\<rparr>))"

section \<open>The early return does not change the verdict\<close>

text \<open>The specification: the sum of the sizes of all readable regular files below.\<close>

function entry_bytes :: "disk_entry \<Rightarrow> nat" where
  "entry_bytes (RegularFile n) = n"
| "entry_bytes (Directory (Some es)) = sum_list (map entry_bytes es)"
| "entry_bytes (Directory None) = 0"
| "entry_bytes SymbolicLink = 0"
| "entry_bytes UnreadableEntry = 0"
| "entry_bytes SpecialEntry = 0"
  by pat_completeness auto

termination
  by (relation "measure size") (auto dest!: size_list_estimation' [of _ _ _ size, OF _ order_refl])

definition directory_bytes :: "directory \<Rightarrow> nat" where
  "directory_bytes d = entry_bytes (Directory d)"

lemma directory_bytes_simps [simp]:
  "directory_bytes (Some es) = sum_list (map entry_bytes es)" "directory_bytes None = 0"
  "entry_bytes (Directory d) = directory_bytes d"
  by (simp_all add: directory_bytes_def)

lemmas entry_bytes_simps = entry_bytes.simps(1,4-6)

declare entry_bytes.simps [simp del] entry_bytes_simps [simp]

lemma scan_entries_sum:
  "case scan_entries stop_after es acc pending of
     Inr (acc', pending') \<Rightarrow> acc' + sum_list (map directory_bytes pending')
       = acc + sum_list (map directory_bytes pending) + sum_list (map entry_bytes es)
       \<and> acc \<le> acc' \<and> (\<forall>s. stop_after = Some s \<longrightarrow> int acc \<le> s \<longrightarrow> int acc' \<le> s)
   | Inl acc' \<Rightarrow> (\<exists>s. stop_after = Some s \<and> s < int acc')
       \<and> acc' \<le> acc + sum_list (map directory_bytes pending) + sum_list (map entry_bytes es)"
proof (induction es arbitrary: acc pending)
  case (Cons e es)
  show ?case
  proof (cases e)
    case (RegularFile n)
    with Cons.IH [where acc = "acc + n" and pending = pending] show ?thesis
      by (cases stop_after) (auto simp: Let_def split: sum.splits)
  next
    case (Directory d)
    with Cons.IH [where acc = acc and pending = "d # pending"] show ?thesis
      by (auto split: sum.splits)
  qed (use Cons.IH [where acc = acc and pending = pending] in \<open>auto split: sum.splits\<close>)
qed simp

lemma measure_pending_sum:
  "measure_pending stop_after acc pending \<le> acc + sum_list (map directory_bytes pending)
   \<and> (stop_after = None \<longrightarrow> measure_pending stop_after acc pending = acc + sum_list (map directory_bytes pending))
   \<and> (\<forall>s. stop_after = Some s \<longrightarrow> int acc \<le> s \<longrightarrow>
        (s < int (measure_pending stop_after acc pending) \<longleftrightarrow> s < int (acc + sum_list (map directory_bytes pending))))"
proof (induction stop_after acc pending rule: measure_pending.induct)
  case (2 stop_after acc pending)
  then show ?case by simp
next
  case (3 stop_after acc es pending)
  note sum = scan_entries_sum [where stop_after = stop_after and es = es and acc = acc and pending = pending]
  show ?case
  proof (cases "scan_entries stop_after es acc pending")
    case (Inl t)
    with sum show ?thesis by auto
  next
    case (Inr r)
    then obtain t p where r: "scan_entries stop_after es acc pending = Inr (t, p)" by (cases r) auto
    from 3 [OF r refl] r sum show ?thesis by auto
  qed
qed simp

lemma workspace_size_total: "workspace_size d None = directory_bytes d"
  using measure_pending_sum [of None 0 "[d]"] by (simp add: workspace_size_def)

lemma workspace_size_stop:
  "0 \<le> s \<Longrightarrow> s < int (workspace_size d (Some s)) \<longleftrightarrow> s < int (directory_bytes d)"
  using measure_pending_sum [of "Some s" 0 "[d]"] by (simp add: workspace_size_def)

section \<open>Checked sizes are positive\<close>

lemma digit_lower [simp]: "is_digit c \<Longrightarrow> lower_char c = c"
  by (auto simp: is_digit_def lower_char_def code_def)

lemma digit_not_space [simp]: "is_digit c \<Longrightarrow> \<not> is_space c"
  by (auto simp: is_digit_def is_space_def)

lemma digit_not_mark [simp]:
  "\<not> is_digit (CHR ''_'')" "\<not> is_digit (CHR ''-'')" "\<not> is_digit (CHR ''+'')" "\<not> is_digit (CHR ''b'')"
  "\<not> is_digit (CHR ''k'')" "\<not> is_digit (CHR ''m'')" "\<not> is_digit (CHR ''g'')" "\<not> is_digit (CHR '':'')"
  by (simp_all add: is_digit_def)

lemma split_char_absent: "c \<notin> set s \<Longrightarrow> split_char c s = [s]"
  by (induction s) auto

lemma int_of_digits_pos:
  assumes "positive_number s"
  shows "0 < int_of_digits s"
proof -
  have mono: "m \<le> foldl (\<lambda>n c. 10 * n + digit_val c) m t" for m t
  proof (induction t arbitrary: m)
    case (Cons c t)
    from Cons.IH [of "10 * m + digit_val c"] show ?case by simp
  qed simp
  obtain c t where s: "s = c # t" using assms by (cases s) (auto simp: positive_number_def)
  then have "is_digit c" "c \<noteq> CHR ''0''" using assms by (auto simp: positive_number_def)
  then have "0 < digit_val c" by (auto simp: is_digit_def digit_val_def code_def)
  with mono [of "digit_val c" t] show ?thesis by (simp add: s int_of_digits_def)
qed

lemma int_of_text_digits:
  assumes "positive_number s"
  shows "int_of_text s = Inr (int (int_of_digits s))"
proof -
  obtain c t where s: "s = c # t" using assms by (cases s) (auto simp: positive_number_def)
  have d: "list_all is_digit s" using assms by (simp add: positive_number_def)
  then have "stripped_by is_space s"
    using s by (auto simp: stripped_by_def list_all_iff)
  then have "strip s = s" by (simp add: strip_def strip_by_id)
  moreover have "CHR ''_'' \<notin> set s" "filter is_digit s = s" "c \<noteq> CHR ''-''" "c \<noteq> CHR ''+''"
    using d s by (auto simp: list_all_iff filter_id_conv)
  ultimately show ?thesis
    using d s by (auto simp: int_of_text_def startswith_def digit_groups_def split_char_absent)
qed

definition unit_factor :: "pystr \<Rightarrow> int" where
  "unit_factor u = (case u of c # _ \<Rightarrow> (case unit_bytes (lower_char c) of Some m \<Rightarrow> m | None \<Rightarrow> 1) | [] \<Rightarrow> 1)"

lemma size_units_eq: "size_units = [[], ''b'', ''B'', ''k'', ''kb'', ''kB'', ''K'', ''Kb'', ''KB'', ''m'', ''mb'', ''mB'',
    ''M'', ''Mb'', ''MB'', ''g'', ''gb'', ''gB'', ''G'', ''Gb'', ''GB'']"
  by (simp add: size_units_def)

lemma lower_units [simp]:
  "lower_char (CHR ''B'') = CHR ''b''" "lower_char (CHR ''K'') = CHR ''k''" "lower_char (CHR ''M'') = CHR ''m''"
  "lower_char (CHR ''G'') = CHR ''g''" "lower_char (CHR ''b'') = CHR ''b''" "lower_char (CHR ''k'') = CHR ''k''"
  "lower_char (CHR ''m'') = CHR ''m''" "lower_char (CHR ''g'') = CHR ''g''"
  by code_simp+

lemma size_units_cases:
  assumes "u \<in> set size_units"
  shows "lower u \<in> {[], ''b'', ''k'', ''kb'', ''m'', ''mb'', ''g'', ''gb''}" and "0 < unit_factor u"
    and "unit_factor u = unit_factor (lower u)" and "u = [] \<or> \<not> is_space (last u)"
proof -
  show "lower u \<in> {[], ''b'', ''k'', ''kb'', ''m'', ''mb'', ''g'', ''gb''}"
    using assms by (auto simp: size_units_eq lower_def)
  show "0 < unit_factor u"
    using assms by (auto simp: size_units_eq unit_factor_def unit_bytes_def)
  show "unit_factor u = unit_factor (lower u)"
    using assms by (auto simp: size_units_eq unit_factor_def lower_def)
  show "u = [] \<or> \<not> is_space (last u)"
    using assms by (auto simp: size_units_eq is_space_def)
qed

lemma endswith_one: "endswith s [c] \<longleftrightarrow> s \<noteq> [] \<and> last s = c"
  by (cases s rule: rev_cases) (auto simp: endswith_def startswith_def)

lemma parse_size_pattern:
  assumes "size_pattern s"
  shows "parse_size_bytes s = Inr (int (int_of_digits (takeWhile is_digit s)) * unit_factor (dropWhile is_digit s))"
proof -
  define ds u where "ds = takeWhile is_digit s" and "u = dropWhile is_digit s"
  then have s: "s = ds @ u" and u: "u \<in> set size_units" and ds: "positive_number ds"
    using assms by (simp_all add: size_pattern_def)
  note u = size_units_cases [OF u]
  from ds have ne: "ds \<noteq> []" and digit: "\<forall>c\<in>set ds. is_digit c" by (auto simp: positive_number_def list_all_iff)
  then have l: "is_digit (last ds)" "is_digit (hd ds)" by auto
  then have last: "last ds \<noteq> CHR ''b''" "unit_bytes (last ds) = None"
    by (auto simp: is_digit_def unit_bytes_def)
  have "stripped_by is_space s"
    using l u(4) ne by (cases "u = []") (auto simp: s stripped_by_def)
  moreover have "lower ds = ds" using digit by (simp add: lower_def map_idI)
  ultimately have low: "lower (strip s) = ds @ lower u"
    by (simp add: strip_def strip_by_id) (simp add: s lower_def)
  have digits: "int_of_text ds = Inr (int (int_of_digits ds))" using int_of_text_digits [OF ds] .
  have "parse_size_bytes s = Inr (int (int_of_digits ds) * unit_factor (lower u))"
    using u(1) ne last digits
    by (elim insertE emptyE)
      (simp_all add: parse_size_bytes_def low endswith_one butlast_append unit_factor_def unit_bytes_def Let_def)
  with u(3) show ?thesis by (simp add: ds_def u_def)
qed

lemma checked_size_pos: "size_pattern s \<Longrightarrow> \<exists>n>0. parse_size_bytes s = Inr n \<and> checked_size s = n"
proof -
  assume s: "size_pattern s"
  then have "0 < int_of_digits (takeWhile is_digit s)" "0 < unit_factor (dropWhile is_digit s)"
    using int_of_digits_pos size_units_cases(2) by (simp_all add: size_pattern_def)
  with parse_size_pattern [OF s] show ?thesis by (simp add: checked_size_def)
qed

lemma policy_checked:
  assumes "policy_error positive p = None"
  shows "cp_engine p \<in> {''docker'', ''podman''} \<and> image_pattern (cp_image p) \<and> cp_network p \<in> {''none'', ''bridge''}
    \<and> size_pattern (cp_memory p) \<and> size_pattern (cp_tmpfs_size p) \<and> size_pattern (cp_output_limit p)
    \<and> size_pattern (cp_workspace_write_limit p) \<and> size_pattern (cp_file_size_limit p)
    \<and> (cp_user p = ''workspace_owner'' \<or> user_pattern (cp_user p)) \<and> 0 < cp_pids_limit p"
  using assms unfolding policy_error_def by (simp split: if_split_asm)

section \<open>Properties\<close>

text \<open>
  C28 The budget of the workspace is exact: the scan that stops early reports a violation if and
  only if the readable regular files of the workspace sum up to more than the size at the start
  plus the permitted growth.
\<close>

theorem budget_violation_exact:
  assumes "size_pattern write_limit"
  shows "budget_violation d (budget_from_policy d0 write_limit) \<noteq> None
    \<longleftrightarrow> int (directory_bytes d0) + checked_size write_limit < int (directory_bytes d)"
  using checked_size_pos [OF assms]
  by (auto simp: budget_violation_def budget_from_policy_def Let_def workspace_size_total workspace_size_stop)

theorem budget_violation_exact_witness:
  "budget_violation (Some [Directory (Some [RegularFile 1500, SymbolicLink]), RegularFile 10])
     (budget_from_policy (Some [RegularFile 400]) ''1k'') \<noteq> None"
proof -
  have "size_pattern ''1k''" by code_simp
  moreover have "checked_size ''1k'' = 1024" by code_simp
  ultimately show ?thesis by (simp add: budget_violation_exact del: not_None_eq)
qed

text \<open>
  The sizes of an accepted policy are usable: each of them parses, without an exception, to a
  positive number of bytes, the number in front times its unit.
\<close>

theorem accepted_policy_sizes:
  assumes "policy_error positive p = None"
  shows "list_all (\<lambda>v. parse_size_bytes v = Inr (checked_size v) \<and> 0 < checked_size v
      \<and> checked_size v = int (int_of_digits (takeWhile is_digit v)) * unit_factor (dropWhile is_digit v))
    [cp_memory p, cp_tmpfs_size p, cp_output_limit p, cp_workspace_write_limit p, cp_file_size_limit p]"
proof -
  define Q where "Q v \<longleftrightarrow> parse_size_bytes v = Inr (checked_size v) \<and> 0 < checked_size v
      \<and> checked_size v = int (int_of_digits (takeWhile is_digit v)) * unit_factor (dropWhile is_digit v)" for v
  have "Q v" if "size_pattern v" for v
    using checked_size_pos [OF that] parse_size_pattern [OF that] by (auto simp: Q_def)
  then have "list_all Q [cp_memory p, cp_tmpfs_size p, cp_output_limit p, cp_workspace_write_limit p, cp_file_size_limit p]"
    using policy_checked [OF assms] by simp
  then show ?thesis by (simp only: Q_def [abs_def])
qed

theorem accepted_policy_sizes_witness:
  "checked_size (cp_output_limit default_policy) = 4 * 1024 ^ 2"
proof -
  have "policy_error (\<lambda>s. True) default_policy = None" by code_simp
  from accepted_policy_sizes [OF this] have "checked_size (cp_output_limit default_policy)
      = int (int_of_digits (takeWhile is_digit (cp_output_limit default_policy))) * unit_factor (dropWhile is_digit (cp_output_limit default_policy))"
    by simp
  also have "\<dots> = 4 * 1024 ^ 2" by code_simp
  finally show ?thesis .
qed

end
