(* ===== verification/SourceFiles.thy ===== *)
theory SourceFiles
  imports FileSystem
begin

text \<open>
  \<open>context/snippet.py\<close>: which Python files of a workspace the context may show, and the window of
  lines that is read from one. A workspace is its resolved root, the file system, and the paths
  that \<open>sorted(root.rglob("*.py"))\<close> lists.
\<close>

record source_tree =
  so_root :: path
  so_fs :: fs
  so_found :: "path list"

definition source_ignored_dirs :: "pystr list" where
  "source_ignored_dirs =
     [''__pycache__'', ''.pytest_cache'', ''.git'', ''outputs'', ''.mypy_cache'', ''.ruff_cache'']"

definition source_ignored :: "path \<Rightarrow> bool" where
  "source_ignored relative \<longleftrightarrow>
     list_ex (\<lambda>part. part \<in> set source_ignored_dirs \<or> startswith part ''.'') relative"

definition under_tests :: "path \<Rightarrow> bool" where
  "under_tests relative \<longleftrightarrow> take 1 relative = [''tests'']"

definition iter_python_files :: "source_tree \<Rightarrow> bool \<Rightarrow> path list" where
  "iter_python_files t include_tests = List.map_filter (\<lambda>p.
     case relative_to (so_root t) (resolve (so_fs t) p) of
       None \<Rightarrow> None
     | Some relative \<Rightarrow>
         (if source_ignored relative then None
          else if \<not> include_tests \<and> under_tests relative then None
          else Some relative)) (so_found t)"

definition last_suffix :: "path \<Rightarrow> pystr" where
  "last_suffix p = (if p = [] then [] else name_suffix (last p))"

text \<open>
  \<open>workspace / raw\<close> is \<open>raw\<close> itself where that is absolute; a back slash counts as a slash in a
  relative path. \<open>resolve\<close> follows the links of the file system.
\<close>

definition python_candidate :: "source_tree \<Rightarrow> pystr \<Rightarrow> path" where
  "python_candidate t raw =
     (if path_is_absolute raw then path_names raw
      else if path_is_absolute (slashes raw) then path_names (slashes raw)
      else so_root t @ path_names (slashes raw))"

definition resolve_python_path :: "source_tree \<Rightarrow> pystr \<Rightarrow> bool \<Rightarrow> path option" where
  "resolve_python_path t raw include_tests =
     (let resolved = resolve (so_fs t) (python_candidate t raw) in
      case relative_to (so_root t) resolved of
        None \<Rightarrow> None
      | Some relative \<Rightarrow>
          (if last_suffix resolved \<noteq> ''.py'' then None
           else if contents (so_fs t) resolved = None then None
           else if source_ignored relative then None
           else if \<not> include_tests \<and> under_tests relative then None
           else Some relative))"

text \<open>
  \<open>read_text(encoding="utf-8")\<close>: a missing file raises \<open>OSError\<close>, one that is not UTF-8 raises
  \<open>UnicodeDecodeError\<close>.
\<close>

definition read_source :: "source_tree \<Rightarrow> path \<Rightarrow> exn + pystr" where
  "read_source t relative =
     (let p = so_root t @ relative in
      case contents (so_fs t) p of
        Some (TextFile s) \<Rightarrow> Inr (universal_newlines s)
      | Some BinaryFile \<Rightarrow> Inl (UnicodeError (read_failure (so_fs t) p))
      | None \<Rightarrow> Inl (OSError (read_failure (so_fs t) p)))"

text \<open>\<open>xs[:n]\<close>, where a negative bound counts from the end.\<close>

definition slice_to :: "int \<Rightarrow> 'a list \<Rightarrow> 'a list" where
  "slice_to n xs = (if n < 0 then take (nat (int (length xs) + n)) xs else take (nat n) xs)"

definition code_lines :: "int \<Rightarrow> int \<Rightarrow> pystr list \<Rightarrow> pystr" where
  "code_lines start_line end_line ls =
     (let content = joinlines (drop (nat (start_line - 1)) (slice_to end_line ls)) in
      if content \<noteq> [] then content @ [nl] else content)"

definition read_code_window :: "source_tree \<Rightarrow> path \<Rightarrow> int list \<Rightarrow> int \<Rightarrow> exn + (int \<times> int \<times> pystr)" where
  "read_code_window t relative target_lines line_window =
     (case read_source t relative of
        Inl e \<Rightarrow> Inl e
      | Inr text \<Rightarrow>
          (let ls = splitlines text in
           if ls = [] then Inr (1, 1, [])
           else
             (let start_line = (if target_lines = [] then 1 else max 1 (Min (set target_lines) - line_window));
                  end_line = (if target_lines = [] then int (length ls)
                    else min (int (length ls)) (Max (set target_lines) + line_window))
              in Inr (start_line, end_line, code_lines start_line end_line ls))))"

lemma set_map_filter: "set (List.map_filter f xs) = {y. \<exists>x\<in>set xs. f x = Some y}"
  by (induction xs) (auto simp: List.map_filter_simps split: option.split)

lemma resolve_python_path_Some:
  "resolve_python_path t raw include_tests = Some r \<Longrightarrow>
     \<exists>p. p = so_root t @ r \<and> contents (so_fs t) p \<noteq> None \<and> \<not> source_ignored r \<and> (include_tests \<or> \<not> under_tests r)"
  by (auto simp: resolve_python_path_def Let_def relative_to_Some split: option.splits if_splits)

lemma iter_python_files_allowed:
  "r \<in> set (iter_python_files t include_tests) \<Longrightarrow> \<not> source_ignored r \<and> (include_tests \<or> \<not> under_tests r)"
  by (auto simp: iter_python_files_def List.map_filter_def split: option.splits if_splits)

end
