(* ===== verification/BoundedProcess.thy ===== *)
theory BoundedProcess
  imports World SourceFiles
begin

text \<open>
  \<open>pyfixagent/sandbox/bounded_process.py\<close>: a command runs while two reader threads drain its
  output into one capture of bounded size, and the main thread polls it for its end, the bound,
  a policy and a deadline. The readers append under a lock, so what they have done up to a
  state of the world is a sequence of chunks in the order of the lock; any interleaving is one
  such sequence. The first part relates the capture to the bytes that arrived, the second is
  the loop of the main thread.
\<close>

section \<open>The capture\<close>

type_synonym octets = "char list"

datatype stream = Stdout | Stderr

record output_capture =
  oc_max_bytes :: int
  oc_remaining :: int
  oc_stdout :: octets
  oc_stderr :: octets
  oc_truncated :: bool
  oc_limit_reached :: bool

definition capture_init :: "int \<Rightarrow> output_capture" where
  "capture_init n = \<lparr>oc_max_bytes = n, oc_remaining = n, oc_stdout = [], oc_stderr = [],
     oc_truncated = False, oc_limit_reached = False\<rparr>"

definition extend_stream :: "stream \<Rightarrow> octets \<Rightarrow> output_capture \<Rightarrow> output_capture" where
  "extend_stream s part c = (case s of
     Stdout \<Rightarrow> c\<lparr>oc_stdout := oc_stdout c @ part\<rparr>
   | Stderr \<Rightarrow> c\<lparr>oc_stderr := oc_stderr c @ part\<rparr>)"

definition capture_append :: "stream \<Rightarrow> octets \<Rightarrow> output_capture \<Rightarrow> output_capture" where
  "capture_append s chunk c =
     (if chunk = [] then c
      else (let accepted = min (oc_remaining c) (int (length chunk));
                c = (if accepted \<noteq> 0
                     then (extend_stream s (slice_to accepted chunk) c)\<lparr>oc_remaining := oc_remaining c - accepted\<rparr>
                     else c)
            in if accepted < int (length chunk) then c\<lparr>oc_truncated := True, oc_limit_reached := True\<rparr> else c))"

text \<open>What the readers have made of the chunks that they appended so far.\<close>

definition capture_chunks :: "(stream \<times> octets) list \<Rightarrow> int \<Rightarrow> output_capture" where
  "capture_chunks cs n = fold (\<lambda>(s, chunk). capture_append s chunk) cs (capture_init n)"

text \<open>\<open>decode("utf-8", errors="replace")\<close> is the parameter \<open>decode\<close>.\<close>

definition capture_text :: "(octets \<Rightarrow> pystr) \<Rightarrow> output_capture \<Rightarrow> pystr \<times> pystr" where
  "capture_text decode c = (decode (oc_stdout c), decode (oc_stderr c))"

text \<open>
  The specification: of all the bytes in the order of their arrival the first \<open>n\<close> are kept, each
  in its stream.
\<close>

definition arrivals :: "(stream \<times> octets) list \<Rightarrow> (stream \<times> char) list" where
  "arrivals cs = concat (map (\<lambda>(s, chunk). map (Pair s) chunk) cs)"

definition on_stream :: "stream \<Rightarrow> (stream \<times> char) list \<Rightarrow> octets" where
  "on_stream s bs = map snd (filter (\<lambda>b. fst b = s) bs)"

lemma on_stream_append [simp]: "on_stream s (xs @ ys) = on_stream s xs @ on_stream s ys"
  by (simp add: on_stream_def)

lemma on_stream_one: "on_stream s (map (Pair t) xs) = (if t = s then xs else [])"
  by (auto simp: on_stream_def filter_map o_def)

lemma arrivals_snoc: "arrivals (cs @ [(s, chunk)]) = arrivals cs @ map (Pair s) chunk"
  by (simp add: arrivals_def)

lemma capture_chunks_snoc: "capture_chunks (cs @ [(s, chunk)]) n = capture_append s chunk (capture_chunks cs n)"
  by (simp add: capture_chunks_def)

lemma capture_snoc_exact:
  assumes "length chunk \<le> m"
  shows "capture_append s chunk \<lparr>oc_max_bytes = n, oc_remaining = int m, oc_stdout = xs, oc_stderr = ys,
      oc_truncated = t, oc_limit_reached = l\<rparr>
    = \<lparr>oc_max_bytes = n, oc_remaining = int (m - length chunk), oc_stdout = xs @ (if s = Stdout then chunk else []),
       oc_stderr = ys @ (if s = Stderr then chunk else []), oc_truncated = t, oc_limit_reached = l\<rparr>"
  using assms by (cases s) (auto simp: capture_append_def extend_stream_def slice_to_def Let_def of_nat_diff)

lemma capture_snoc_cut:
  assumes "m < length chunk"
  shows "capture_append s chunk \<lparr>oc_max_bytes = n, oc_remaining = int m, oc_stdout = xs, oc_stderr = ys,
      oc_truncated = t, oc_limit_reached = l\<rparr>
    = \<lparr>oc_max_bytes = n, oc_remaining = 0, oc_stdout = xs @ (if s = Stdout then take m chunk else []),
       oc_stderr = ys @ (if s = Stderr then take m chunk else []), oc_truncated = True, oc_limit_reached = True\<rparr>"
  using assms by (cases s) (auto simp: capture_append_def extend_stream_def slice_to_def Let_def)

lemma capture_chunks_eq:
  "capture_chunks cs (int n) = \<lparr>oc_max_bytes = int n, oc_remaining = int (n - length (arrivals cs)),
     oc_stdout = on_stream Stdout (take n (arrivals cs)), oc_stderr = on_stream Stderr (take n (arrivals cs)),
     oc_truncated = (n < length (arrivals cs)), oc_limit_reached = (n < length (arrivals cs))\<rparr>"
proof (induction cs rule: rev_induct)
  case Nil
  show ?case by (simp add: capture_chunks_def capture_init_def arrivals_def on_stream_def)
next
  case (snoc c cs)
  obtain s chunk where c: "c = (s, chunk)" by (cases c)
  let ?m = "n - length (arrivals cs)"
  show ?case
  proof (cases "length chunk \<le> ?m")
    case True
    with snoc show ?thesis
      by (cases s) (auto simp: c arrivals_snoc capture_chunks_snoc capture_snoc_exact take_map on_stream_one)
  next
    case False
    then have "?m < length chunk" by simp
    with snoc show ?thesis
      by (cases s) (auto simp: c arrivals_snoc capture_chunks_snoc capture_snoc_cut take_map on_stream_one)
  qed
qed

section \<open>The operating system\<close>

text \<open>
  What the main thread asks of the system. \<open>ps_poll\<close> is \<open>Popen.poll\<close>; \<open>ps_wait\<close> waits at most the
  given time and returns the exit code if the process ended; \<open>ps_tick\<close> reads the monotonic clock
  and returns the milliseconds that passed since the last reading, apart from waits that ran
  into their timeout, which take at least that timeout; \<open>ps_join\<close> joins the reader threads for at
  most five seconds each; \<open>ps_chunks\<close> is what the readers have appended.
\<close>

record 'w process_system =
  ps_start :: "pystr list \<Rightarrow> 'w \<Rightarrow> pystr option \<times> 'w"
  ps_poll :: "'w \<Rightarrow> int option \<times> 'w"
  ps_wait :: "int \<Rightarrow> 'w \<Rightarrow> int option \<times> 'w"
  ps_tick :: "'w \<Rightarrow> nat \<times> 'w"
  ps_join :: "'w \<Rightarrow> 'w"
  ps_kill :: "'w \<Rightarrow> 'w"
  ps_chunks :: "'w \<Rightarrow> (stream \<times> octets) list"

text \<open>The callbacks of the caller; a policy check is told the reading of the clock.\<close>

type_synonym 'w policy_check = "(int \<Rightarrow> 'w \<Rightarrow> pystr option \<times> 'w) option"
type_synonym 'w terminate = "('w \<Rightarrow> 'w) option"

record bounded_result =
  br_exit_code :: int
  br_stdout :: pystr
  br_stderr :: pystr
  br_timed_out :: bool
  br_output_truncated :: bool
  br_policy_violation :: "pystr option"

definition limit_reached :: "'w process_system \<Rightarrow> int \<Rightarrow> 'w \<Rightarrow> bool" where
  "limit_reached ps n w \<longleftrightarrow> oc_limit_reached (capture_chunks (ps_chunks ps w) n)"

definition limit_message :: "int \<Rightarrow> pystr" where
  "limit_message n = ''combined stdout/stderr exceeded '' @ str_int n @ '' bytes''"

definition read_clock :: "'w process_system \<Rightarrow> int \<Rightarrow> 'w \<Rightarrow> int \<times> 'w" where
  "read_clock ps clock w = (case ps_tick ps w of (d, w') \<Rightarrow> (clock + int d, w'))"

text \<open>A check reads the clock; without one the last violation stays.\<close>

definition run_check ::
    "'w process_system \<Rightarrow> 'w policy_check \<Rightarrow> pystr option \<Rightarrow> int \<Rightarrow> 'w \<Rightarrow> pystr option \<times> int \<times> 'w" where
  "run_check ps check violation clock w = (case check of
     None \<Rightarrow> (violation, clock, w)
   | Some f \<Rightarrow> (case read_clock ps clock w of (clock', w') \<Rightarrow> (case f clock' w' of (v, w'') \<Rightarrow> (v, clock', w''))))"

text \<open>
  \<open>Popen\<close> remembers the exit code: once it is known, \<open>poll\<close> and \<open>wait\<close> return it at once.
\<close>

definition popen_poll :: "'w process_system \<Rightarrow> int option \<Rightarrow> 'w \<Rightarrow> int option \<times> 'w" where
  "popen_poll ps rc w = (case rc of Some c \<Rightarrow> (Some c, w) | None \<Rightarrow> ps_poll ps w)"

definition popen_wait :: "'w process_system \<Rightarrow> int option \<Rightarrow> int \<Rightarrow> 'w \<Rightarrow> int option \<times> 'w" where
  "popen_wait ps rc t w = (case rc of Some c \<Rightarrow> (Some c, w) | None \<Rightarrow> ps_wait ps t w)"

definition poll_wait :: "int \<Rightarrow> int \<Rightarrow> int" where
  "poll_wait interval remaining = min (max 10 interval) remaining"

lemma clock_forward: "read_clock ps clock w = (clock', w') \<Longrightarrow> clock \<le> clock'"
  by (auto simp: read_clock_def split: prod.splits)

lemma run_check_forward: "run_check ps check v0 clock w = (v, clock', w') \<Longrightarrow> clock \<le> clock'"
  by (auto simp: run_check_def split: option.splits prod.splits dest: clock_forward)

text \<open>
  The loop of the main thread, with the exit code as far as it is known; times are
  milliseconds. It returns whether the deadline ended it, the last violation, the exit code,
  the clock and the world. A wait that runs into its timeout moves the clock by it, so the time
  left shrinks and the loop ends.
\<close>

type_synonym 'w watched = "bool \<times> pystr option \<times> int option \<times> int \<times> 'w"

function watch ::
    "'w process_system \<Rightarrow> int \<Rightarrow> 'w policy_check \<Rightarrow> int \<Rightarrow> int \<Rightarrow> int option \<Rightarrow> pystr option \<Rightarrow> int \<Rightarrow> 'w
      \<Rightarrow> 'w watched" where
  "watch ps n check interval deadline rc violation clock w =
     (case popen_poll ps rc w of
        (Some c, w1) \<Rightarrow> (False, violation, Some c, clock, w1)
      | (None, w1) \<Rightarrow>
          (if limit_reached ps n w1 then (False, Some (limit_message n), None, clock, w1)
           else (case run_check ps check violation clock w1 of (v, clock1, w2) \<Rightarrow>
             (if check \<noteq> None \<and> truthy v then (False, v, None, clock1, w2)
              else (case read_clock ps clock1 w2 of (clock2, w3) \<Rightarrow>
                (let remaining = deadline - clock2 in
                 if remaining \<le> 0 then (True, v, None, clock2, w3)
                 else (case popen_wait ps None (poll_wait interval remaining) w3 of
                    (Some c, w4) \<Rightarrow> (False, v, Some c, clock2, w4)
                  | (None, w4) \<Rightarrow>
                      watch ps n check interval deadline None v (clock2 + poll_wait interval remaining) w4)))))))"
  by pat_completeness auto

termination
  by (relation "measure (\<lambda>(ps, n, check, interval, deadline, rc, violation, clock, w). nat (deadline - clock))")
    (auto simp: poll_wait_def dest!: clock_forward [OF sym] run_check_forward [OF sym])

declare watch.simps [simp del]

text \<open>The whole call: start, watch, settle the verdict, stop the process, collect its output.\<close>

definition finish ::
    "(octets \<Rightarrow> pystr) \<Rightarrow> 'w process_system \<Rightarrow> int \<Rightarrow> 'w terminate \<Rightarrow> bool \<Rightarrow> pystr option \<Rightarrow> int option \<Rightarrow> 'w
      \<Rightarrow> bounded_result \<times> 'w" where
  "finish decode ps n stop timed_out violation rc w =
     (let broken = timed_out \<or> truthy violation;
          w1 = (if broken then (case stop of None \<Rightarrow> w | Some f \<Rightarrow> f w) else w) in
      case (if broken then popen_poll ps rc w1 else (rc, w1)) of (rc1, w2) \<Rightarrow>
        (let w3 = (if broken \<and> rc1 = None then ps_kill ps w2 else w2) in
         case popen_wait ps rc1 5000 w3 of (rc2, w4) \<Rightarrow>
           (let w5 = ps_join ps w4;
                c = capture_chunks (ps_chunks ps w5) n;
                ended = (case rc2 of Some r \<Rightarrow> r | None \<Rightarrow> (if timed_out then 124 else 125)) in
            (\<lparr>br_exit_code = (if timed_out then 124 else if truthy violation then 125 else ended),
              br_stdout = fst (capture_text decode c), br_stderr = snd (capture_text decode c),
              br_timed_out = timed_out, br_output_truncated = oc_truncated c,
              br_policy_violation = violation\<rparr>, w5))))"

definition settle ::
    "'w process_system \<Rightarrow> int \<Rightarrow> 'w policy_check \<Rightarrow> bool \<Rightarrow> pystr option \<Rightarrow> int option \<Rightarrow> int \<Rightarrow> 'w
      \<Rightarrow> pystr option \<times> int option \<times> 'w" where
  "settle ps n check timed_out violation rc clock w =
     (case popen_poll ps rc w of (rc1, w1) \<Rightarrow>
        (let w2 = (if rc1 \<noteq> None then ps_join ps w1 else w1);
             v = (if violation = None \<and> limit_reached ps n w2 then Some (limit_message n) else violation) in
         if \<not> timed_out \<and> v = None
         then (case run_check ps check v clock w2 of (v', clock', w3) \<Rightarrow> (v', rc1, w3))
         else (v, rc1, w2)))"

definition run_bounded_process ::
    "(octets \<Rightarrow> pystr) \<Rightarrow> 'w process_system \<Rightarrow> pystr list \<Rightarrow> int \<Rightarrow> int \<Rightarrow> 'w policy_check \<Rightarrow> 'w terminate \<Rightarrow> int
      \<Rightarrow> ('w, bounded_result) io" where
  "run_bounded_process decode ps command timeout_seconds n check stop interval = (\<lambda>w.
     case ps_start ps command w of
       (Some e, w1) \<Rightarrow> (Inl (OSError e), w1)
     | (None, w1) \<Rightarrow>
        (case read_clock ps 0 w1 of (clock, w2) \<Rightarrow>
        (case watch ps n check interval (clock + 1000 * timeout_seconds) None None clock w2 of
           (timed_out, v, rc, clock', w3) \<Rightarrow>
        (case settle ps n check timed_out v rc clock' w3 of (v', rc', w4) \<Rightarrow>
        (case finish decode ps n stop timed_out v' rc' w4 of (r, w5) \<Rightarrow> (Inr r, w5))))))"

section \<open>The verdict\<close>

text \<open>The process was seen to have ended, with this exit code, in a step that led to \<open>w\<close>.\<close>

definition seen_ended :: "'w process_system \<Rightarrow> int \<Rightarrow> 'w \<Rightarrow> bool" where
  "seen_ended ps c w \<longleftrightarrow> (\<exists>w0. ps_poll ps w0 = (Some c, w)) \<or> (\<exists>t w0. ps_wait ps t w0 = (Some c, w))"

definition talks :: "'w policy_check \<Rightarrow> bool" where
  "talks check \<longleftrightarrow> (\<forall>f. check = Some f \<longrightarrow> (\<forall>t w. fst (f t w) \<noteq> Some []))"

lemma limit_message_truthy [simp]: "truthy (Some (limit_message n))"
  by (simp add: truthy_def limit_message_def)

lemma truthy_None [simp]: "\<not> truthy None"
  by (simp add: truthy_def)

lemma run_check_talks: "talks check \<Longrightarrow> v \<noteq> Some [] \<Longrightarrow> run_check ps check v clock w = (v', clock', w') \<Longrightarrow> v' \<noteq> Some []"
  by (auto simp: run_check_def talks_def split: option.splits prod.splits) (metis fst_conv)

lemma watch_ends:
  assumes "watch ps n check interval deadline None v clock w = (timed_out, v', rc', clock', w')"
  shows "(timed_out \<longrightarrow> rc' = None \<and> deadline \<le> clock') \<and> (rc' = None \<longrightarrow> timed_out \<or> truthy v')
    \<and> (\<forall>c. rc' = Some c \<longrightarrow> seen_ended ps c w') \<and> (talks check \<longrightarrow> v \<noteq> Some [] \<longrightarrow> v' \<noteq> Some [])"
  using assms
proof (induction ps n check interval deadline "None :: int option" v clock w rule: watch.induct)
  case (1 ps n check interval deadline violation clock w)
  obtain p w1 where p: "ps_poll ps w = (p, w1)" by fastforce
  show ?case
  proof (cases p)
    case (Some c)
    with 1(2) p show ?thesis by (auto simp: watch.simps [of ps] popen_poll_def seen_ended_def)
  next
    case None
    note p = p [unfolded None]
    show ?thesis
    proof (cases "limit_reached ps n w1")
      case True
      with 1(2) p show ?thesis by (auto simp: watch.simps [of ps] popen_poll_def) (auto simp: truthy_def limit_message_def)
    next
      case False
      obtain v1 clock1 w2 where c: "run_check ps check violation clock w1 = (v1, clock1, w2)" using prod_cases3 by blast
      obtain clock2 w3 where t: "read_clock ps clock1 w2 = (clock2, w3)" by fastforce
      have v1: "talks check \<Longrightarrow> violation \<noteq> Some [] \<Longrightarrow> v1 \<noteq> Some []" using run_check_talks [OF _ _ c] by blast
      show ?thesis
      proof (cases "check \<noteq> None \<and> truthy v1 \<or> deadline - clock2 \<le> 0")
        case True
        with 1(2) p False c t v1 show ?thesis
          by (auto simp: watch.simps [of ps] popen_poll_def Let_def split: if_splits)
      next
        case go: False
        let ?d = "poll_wait interval (deadline - clock2)"
        obtain q w4 where q: "ps_wait ps ?d w3 = (q, w4)" by fastforce
        show ?thesis
        proof (cases q)
          case (Some e)
          with 1(2) p False c t go q v1 show ?thesis
            by (auto simp: watch.simps [of ps] popen_poll_def popen_wait_def Let_def seen_ended_def split: if_splits)
        next
          case None
          note rest = 1(1) [of None w1 v1 "(clock1, w2)" clock1 w2 clock2 w3 "deadline - clock2" None w4]
          have "watch ps n check interval deadline None v1 (clock2 + ?d) w4 = (timed_out, v', rc', clock', w')"
            using 1(2) p False c t go q None
            by (auto simp: watch.simps [of ps n check interval deadline None violation] popen_poll_def popen_wait_def Let_def split: if_splits)
          with rest p False c t go q None v1 show ?thesis
            by (auto simp: popen_poll_def popen_wait_def)
        qed
      qed
    qed
  qed
qed

text \<open>
  Once the process has ended and the readers were joined, nothing arrives any more: \<open>quiet\<close>
  worlds stay so, with the same chunks, while the clock is read and the policy is asked.
\<close>

definition readers_end :: "'w process_system \<Rightarrow> 'w policy_check \<Rightarrow> ('w \<Rightarrow> bool) \<Rightarrow> bool" where
  "readers_end ps check quiet \<longleftrightarrow>
     (\<forall>c w. seen_ended ps c w \<longrightarrow> quiet (ps_join ps w))
   \<and> (\<forall>w. quiet w \<longrightarrow> quiet (ps_join ps w) \<and> ps_chunks ps (ps_join ps w) = ps_chunks ps w)
   \<and> (\<forall>w. quiet w \<longrightarrow> quiet (snd (ps_tick ps w)))
   \<and> (\<forall>f t w. check = Some f \<longrightarrow> quiet w \<longrightarrow>
        quiet (snd (f t w)) \<and> ps_chunks ps (snd (f t w)) = ps_chunks ps w)
   \<and> (\<forall>w. quiet w \<longrightarrow> ps_chunks ps (snd (ps_tick ps w)) = ps_chunks ps w)"

lemma run_check_quiet:
  assumes "readers_end ps check quiet" and "quiet w" and "run_check ps check v clock w = (v', clock', w')"
  shows "quiet w' \<and> ps_chunks ps w' = ps_chunks ps w"
  using assms unfolding readers_end_def run_check_def read_clock_def
  by (auto split: option.splits prod.splits) (metis snd_conv)+

lemma settle_ended:
  assumes "settle ps n check False v rc clock w = (v', rc', w')" and "\<not> truthy v'"
    and "rc = None \<longrightarrow> truthy v" and "\<forall>c. rc = Some c \<longrightarrow> seen_ended ps c w"
    and "talks check" and "v \<noteq> Some []" and "readers_end ps check quiet"
  shows "\<exists>c. rc' = Some c \<and> seen_ended ps c w \<and> v' = None \<and> quiet w' \<and> \<not> limit_reached ps n w'"
proof (cases rc)
  case None
  with assms have "truthy v'" by (auto simp: settle_def popen_poll_def truthy_def Let_def split: prod.splits option.splits if_splits)
  with assms(2) show ?thesis by blast
next
  case (Some c)
  with assms(4) have c: "seen_ended ps c w" by simp
  then have q: "quiet (ps_join ps w)" using assms(7) by (auto simp: readers_end_def)
  from Some assms(1,2,6) have v: "v = None" and l: "\<not> limit_reached ps n (ps_join ps w)"
    by (auto simp: settle_def popen_poll_def truthy_def Let_def limit_message_def split: prod.splits option.splits if_splits)
  obtain v1 clock1 w1 where r: "run_check ps check None clock (ps_join ps w) = (v1, clock1, w1)" using prod_cases3 by blast
  have "v' = v1 \<and> rc' = Some c \<and> w' = w1"
    using assms(1) Some v l r by (auto simp: settle_def popen_poll_def Let_def)
  moreover have "quiet w1 \<and> ps_chunks ps w1 = ps_chunks ps (ps_join ps w)"
    using run_check_quiet [OF assms(7) q r] .
  moreover have "v1 \<noteq> Some []" using run_check_talks [OF assms(5) _ r] by simp
  ultimately show ?thesis using c l assms(2) by (cases v1) (auto simp: limit_reached_def truthy_def)
qed

lemma truncated_limit: "oc_truncated (capture_chunks cs n) = oc_limit_reached (capture_chunks cs n)"
proof (induction cs rule: rev_induct)
  case Nil
  show ?case by (simp add: capture_chunks_def capture_init_def)
next
  case (snoc c cs)
  obtain s chunk where c: "c = (s, chunk)" by (cases c)
  with snoc show ?case by (cases s) (auto simp: capture_chunks_snoc capture_append_def extend_stream_def Let_def)
qed

lemma run_bounded_cases:
  assumes "run_bounded_process decode ps command t n check stop interval w = (Inr r, w')"
  obtains clock w2 timed_out v rc clock' w3 v' rc' w4 where
    "watch ps n check interval (clock + 1000 * t) None None clock w2 = (timed_out, v, rc, clock', w3)"
    "settle ps n check timed_out v rc clock' w3 = (v', rc', w4)"
    "finish decode ps n stop timed_out v' rc' w4 = (r, w')"
  using assms by (auto simp: run_bounded_process_def split: prod.splits option.splits)

lemma finish_result:
  assumes "finish decode ps n stop timed_out v rc w = (r, w')"
  shows "br_timed_out r = timed_out \<and> br_policy_violation r = v
    \<and> (timed_out \<longrightarrow> br_exit_code r = 124) \<and> (\<not> timed_out \<and> truthy v \<longrightarrow> br_exit_code r = 125)
    \<and> br_stdout r = decode (oc_stdout (capture_chunks (ps_chunks ps w') n))
    \<and> br_stderr r = decode (oc_stderr (capture_chunks (ps_chunks ps w') n))
    \<and> br_output_truncated r = oc_truncated (capture_chunks (ps_chunks ps w') n)
    \<and> (\<forall>c. \<not> timed_out \<and> \<not> truthy v \<and> rc = Some c \<longrightarrow> br_exit_code r = c \<and> w' = ps_join ps w)"
  using assms by (auto simp: finish_def Let_def capture_text_def popen_wait_def popen_poll_def split: prod.splits option.splits if_splits)

section \<open>What every step keeps\<close>

definition keeps :: "('w \<Rightarrow> bool) \<Rightarrow> 'w process_system \<Rightarrow> 'w policy_check \<Rightarrow> 'w terminate \<Rightarrow> bool" where
  "keeps I ps check stop \<longleftrightarrow>
     (\<forall>w. I w \<longrightarrow> I (snd (ps_poll ps w)) \<and> I (snd (ps_tick ps w)) \<and> I (ps_join ps w) \<and> I (ps_kill ps w)
        \<and> (\<forall>c. I (snd (ps_start ps c w))) \<and> (\<forall>d. I (snd (ps_wait ps d w)))
        \<and> (\<forall>f t. check = Some f \<longrightarrow> I (snd (f t w))) \<and> (\<forall>f. stop = Some f \<longrightarrow> I (f w)))"

lemma keeps_ops:
  assumes "keeps I ps check stop" and "I w"
  shows "ps_poll ps w = (c, w') \<Longrightarrow> I w'" and "ps_wait ps d w = (c, w') \<Longrightarrow> I w'" and "I (ps_join ps w)"
    and "I (ps_kill ps w)" and "ps_start ps cmd w = (e, w') \<Longrightarrow> I w'" and "stop = Some f \<Longrightarrow> I (f w)"
    and "popen_poll ps rc w = (c, w') \<Longrightarrow> I w'" and "popen_wait ps rc d w = (c, w') \<Longrightarrow> I w'"
    and "read_clock ps clock w = (clock', w') \<Longrightarrow> I w'" and "run_check ps check v clock w = (v', clock', w') \<Longrightarrow> I w'"
proof -
  have poll: "I (snd (ps_poll ps x))" and tick: "I (snd (ps_tick ps x))" and join: "I (ps_join ps x)"
    and kill: "I (ps_kill ps x)" and start: "I (snd (ps_start ps cmd x))" and wait: "I (snd (ps_wait ps d x))"
    and asked: "check = Some f \<Longrightarrow> I (snd (f t x))" and stopped: "stop = Some g \<Longrightarrow> I (g x)"
    if "I x" for x cmd d f t g
    using assms(1) that unfolding keeps_def by blast+
  note w = assms(2)
  show "I (ps_join ps w)" "I (ps_kill ps w)" "stop = Some f \<Longrightarrow> I (f w)"
    using join [OF w] kill [OF w] stopped [OF w] by blast+
  show "ps_poll ps w = (c, w') \<Longrightarrow> I w'" "ps_wait ps d w = (c, w') \<Longrightarrow> I w'" "ps_start ps cmd w = (e, w') \<Longrightarrow> I w'"
    using poll [OF w] wait [OF w, of d] start [OF w, of cmd] by simp_all
  then show "popen_poll ps rc w = (c, w') \<Longrightarrow> I w'" "popen_wait ps rc d w = (c, w') \<Longrightarrow> I w'"
    using w by (simp_all add: popen_poll_def popen_wait_def split: option.splits)
  have clock: "I y" if "read_clock ps a x = (b, y)" "I x" for a b x y
    using tick [OF that(2)] that(1) by (auto simp: read_clock_def split: prod.splits)
  then show "read_clock ps clock w = (clock', w') \<Longrightarrow> I w'" using w by blast
  show "I w'" if r: "run_check ps check v clock w = (v', clock', w')"
  proof (cases check)
    case (Some f)
    obtain t x where t: "read_clock ps clock w = (t, x)" by fastforce
    with asked [OF clock [OF t w] Some, of t] Some r show ?thesis by (auto simp: run_check_def split: prod.splits)
  qed (use r w in \<open>simp add: run_check_def\<close>)
qed

lemma watch_keeps:
  assumes "keeps I ps check stop" and "I w"
    and "watch ps n check interval deadline rc v clock w = (timed_out, v', rc', clock', w')"
  shows "I w'"
  using assms
proof (induction ps n check interval deadline rc v clock w rule: watch.induct)
  case (1 ps n check interval deadline rc violation clock w)
  note ops = keeps_ops [OF 1(2)]
  obtain p w1 where p: "popen_poll ps rc w = (p, w1)" by fastforce
  obtain v1 clock1 w2 where c: "run_check ps check violation clock w1 = (v1, clock1, w2)" using prod_cases3 by blast
  obtain clock2 w3 where t: "read_clock ps clock1 w2 = (clock2, w3)" by fastforce
  obtain q w4 where q: "popen_wait ps None (poll_wait interval (deadline - clock2)) w3 = (q, w4)" by fastforce
  have I: "I w1" "I w2" "I w3" "I w4"
    using ops(7) [OF 1(3) p] ops(10) [OF _ c] ops(9) [OF _ t] ops(8) [OF _ q] by blast+
  note rest = 1(1) [of p w1 v1 "(clock1, w2)" clock1 w2 clock2 w3 "deadline - clock2" q w4]
  show ?case
  proof (cases p)
    case (Some e)
    with 1(4) p I show ?thesis by (simp add: watch.simps [of ps n check interval deadline rc])
  next
    case None
    show ?thesis
    proof (cases "limit_reached ps n w1 \<or> check \<noteq> None \<and> truthy v1 \<or> deadline - clock2 \<le> 0 \<or> q \<noteq> None")
      case True
      with 1(4) p c t q I None show ?thesis
        by (auto simp: watch.simps [of ps n check interval deadline rc] Let_def split: if_splits option.splits)
    next
      case False
      then have w: "watch ps n check interval deadline None v1 (clock2 + poll_wait interval (deadline - clock2)) w4
          = (timed_out, v', rc', clock', w')"
        using 1(4) p c t q None by (auto simp: watch.simps [of ps n check interval deadline rc] Let_def split: if_splits)
      show ?thesis
        by (rule rest [OF p [symmetric] None _ c [symmetric] refl _ t [symmetric] refl _ q [symmetric] _ 1(2) I(4) w])
          (use False in auto)
    qed
  qed
qed

lemma settle_keeps:
  assumes "keeps I ps check stop" and "I w" and "settle ps n check timed_out v rc clock w = (v', rc', w')"
  shows "I w'"
proof -
  note ops = keeps_ops [OF assms(1)]
  obtain rc1 w1 where p: "popen_poll ps rc w = (rc1, w1)" by fastforce
  have I: "I (if rc1 \<noteq> None then ps_join ps w1 else w1)" (is "I ?w2")
    using ops(7) [OF assms(2) p] ops(3) by simp
  obtain v1 clock1 w3 where c: "run_check ps check None clock ?w2 = (v1, clock1, w3)" using prod_cases3 by blast
  from ops(10) [OF I c] I assms(3) p c show ?thesis
    by (simp add: settle_def Let_def split: if_split_asm)
qed

lemma finish_keeps:
  assumes "keeps I ps check stop" and "I w" and "finish decode ps n stop timed_out v rc w = (r, w')"
  shows "I w'"
proof -
  note ops = keeps_ops [OF assms(1)]
  let ?broken = "timed_out \<or> truthy v"
  let ?w1 = "if ?broken then (case stop of None \<Rightarrow> w | Some f \<Rightarrow> f w) else w"
  have "I ?w1" using ops(6) assms(2) by (auto split: option.split)
  moreover obtain rc1 w2 where p: "(if ?broken then popen_poll ps rc ?w1 else (rc, ?w1)) = (rc1, w2)" by fastforce
  ultimately have "I w2" using ops(7) by (metis snd_conv)
  then have I: "I (if ?broken \<and> rc1 = None then ps_kill ps w2 else w2)" (is "I ?w3") using ops(4) by simp
  obtain rc2 w4 where q: "popen_wait ps rc1 5000 ?w3 = (rc2, w4)" by fastforce
  from ops(8) [OF I q] have "I (ps_join ps w4)" using ops(3) by blast
  moreover have "w' = ps_join ps w4"
    using assms(3) p q by (simp only: finish_def Let_def prod.case) (auto simp only: prod.inject)
  ultimately show ?thesis by simp
qed

lemma run_bounded_keeps:
  assumes "keeps I ps check stop" and "I w"
    and "run_bounded_process decode ps command t n check stop interval w = (r, w')"
  shows "I w'"
proof -
  note ops = keeps_ops [OF assms(1)]
  obtain e w1 where s: "ps_start ps command w = (e, w1)" by fastforce
  have w1: "I w1" using ops(5) [OF assms(2) s] .
  obtain clock w2 where c: "read_clock ps 0 w1 = (clock, w2)" by fastforce
  obtain a v rc clock' w3 where w: "watch ps n check interval (clock + 1000 * t) None None clock w2 = (a, v, rc, clock', w3)"
    using prod_cases5 by blast
  obtain v' rc' w4 where st: "settle ps n check a v rc clock' w3 = (v', rc', w4)" using prod_cases3 by blast
  obtain b w5 where f: "finish decode ps n stop a v' rc' w4 = (b, w5)" by fastforce
  have "I w5"
    using finish_keeps [OF assms(1) settle_keeps [OF assms(1) watch_keeps [OF assms(1) ops(9) [OF w1 c] w] st] f] .
  with w1 assms(3) s c w st f show ?thesis
    by (cases e) (simp_all add: run_bounded_process_def)
qed

section \<open>Properties\<close>

text \<open>
  C26 The capture is exact and bounded: whatever the interleaving of the two readers, the result
  of a bounded run holds, stream by stream, the first \<open>max_output_bytes\<close> of all the bytes in the
  order in which they arrived, and it is marked as truncated exactly if more arrived.
\<close>

theorem bounded_output_is_prefix:
  assumes "run_bounded_process decode ps command t (int n) check stop interval w = (Inr r, w')"
  shows "br_stdout r = decode (on_stream Stdout (take n (arrivals (ps_chunks ps w'))))
    \<and> br_stderr r = decode (on_stream Stderr (take n (arrivals (ps_chunks ps w'))))
    \<and> (br_output_truncated r \<longleftrightarrow> n < length (arrivals (ps_chunks ps w')))"
  by (rule run_bounded_cases [OF assms]) (simp add: finish_result capture_chunks_eq)

text \<open>
  The verdict of a bounded run: status 124 means that the deadline passed and 125, without a
  timeout, that the output or the policy was violated; any other verdict is an exit code that
  the process was seen to end with, and then nothing of its output was cut off. The readers are
  assumed to be done when they were joined after the end of the process.
\<close>

theorem bounded_verdict:
  assumes "run_bounded_process decode ps command t n check stop interval w = (Inr r, w')"
    and "talks check" and "readers_end ps check quiet"
  shows "(if br_timed_out r then br_exit_code r = 124
          else if truthy (br_policy_violation r) then br_exit_code r = 125
          else (\<exists>w0. seen_ended ps (br_exit_code r) w0) \<and> \<not> br_output_truncated r)"
proof -
  obtain clock w2 timed_out v rc clock' w3 v' rc' w4 where
    wt: "watch ps n check interval (clock + 1000 * t) None None clock w2 = (timed_out, v, rc, clock', w3)" and
    st: "settle ps n check timed_out v rc clock' w3 = (v', rc', w4)" and
    fi: "finish decode ps n stop timed_out v' rc' w4 = (r, w')"
    by (rule run_bounded_cases [OF assms(1)])
  note f = finish_result [OF fi]
  show ?thesis
  proof (cases "br_timed_out r \<or> truthy (br_policy_violation r)")
    case False
    with f have nt: "\<not> timed_out" and nv: "\<not> truthy v'" by simp_all
    obtain c where c: "rc' = Some c" "seen_ended ps c w3" "quiet w4" "\<not> limit_reached ps n w4"
      using settle_ended [OF st [unfolded nt [THEN eq_False [THEN iffD2]]] nv _ _ assms(2) _ assms(3)] watch_ends [OF wt] nt assms(2) by auto
    have "ps_chunks ps w' = ps_chunks ps w4" using c assms(3) f nt nv by (auto simp: readers_end_def)
    with c f nt nv show ?thesis by (auto simp: limit_reached_def truncated_limit)
  qed (use f in auto)
qed

text \<open>
  C27 A command that never ends is stopped: the loop returns, the verdict is a timeout or a
  violation, and the last things done are the termination callback, the kill and a bounded wait.
\<close>

theorem hung_process_is_stopped:
  assumes "\<And>w. fst (ps_poll ps w) = None" and "\<And>d w. fst (ps_wait ps d w) = None"
    and "run_bounded_process decode ps command t n check stop interval w = (Inr r, w')"
  shows "br_exit_code r = (if br_timed_out r then 124 else 125)
    \<and> (br_timed_out r \<or> truthy (br_policy_violation r))
    \<and> (\<exists>w0. w' = ps_join ps (snd (ps_wait ps 5000 (ps_kill ps (snd (ps_poll ps
          (case stop of None \<Rightarrow> w0 | Some f \<Rightarrow> f w0)))))))"
proof -
  obtain clock w2 timed_out v rc clock' w3 v' rc' w4 where
    wt: "watch ps n check interval (clock + 1000 * t) None None clock w2 = (timed_out, v, rc, clock', w3)" and
    st: "settle ps n check timed_out v rc clock' w3 = (v', rc', w4)" and
    fi: "finish decode ps n stop timed_out v' rc' w4 = (r, w')"
    by (rule run_bounded_cases [OF assms(3)])
  have "\<not> seen_ended ps c w0" for c w0
    unfolding seen_ended_def using assms(1,2) by (metis fst_conv option.distinct(1))
  with watch_ends [OF wt] have rc: "rc = None" "timed_out \<or> truthy v" by (cases rc; auto)+
  then have broken: "timed_out \<or> truthy v'" and rc': "rc' = None"
    using st assms(1) [of w3] by (auto simp: settle_def popen_poll_def Let_def split: prod.splits if_splits)
  have "\<exists>w0. w' = ps_join ps (snd (ps_wait ps 5000 (ps_kill ps (snd (ps_poll ps (case stop of None \<Rightarrow> w0 | Some f \<Rightarrow> f w0))))))"
    using fi broken assms(1) [of "case stop of None \<Rightarrow> w4 | Some f \<Rightarrow> f w4"]
    by (intro exI [of _ w4]) (auto simp: finish_def rc' Let_def popen_poll_def popen_wait_def split: prod.splits if_splits)
  with finish_result [OF fi] broken show ?thesis by auto
qed

text \<open>A process that prints a line in every wait and ends after three of them, and one that never ends.\<close>

definition demo_process :: "(nat \<times> (stream \<times> octets) list) process_system" where
  "demo_process = \<lparr>ps_start = \<lambda>c w. (None, w), ps_poll = \<lambda>(k, cs). (if k = 0 then Some 0 else None, (k, cs)),
     ps_wait = \<lambda>d (k, cs). (if k \<le> 1 then Some 0 else None, (k - 1, cs @ [(Stdout, ''line'')])),
     ps_tick = \<lambda>w. (5, w), ps_join = id, ps_kill = \<lambda>(k, cs). (0, cs), ps_chunks = snd\<rparr>"

definition hung_process :: "(nat \<times> (stream \<times> octets) list) process_system" where
  "hung_process = demo_process\<lparr>ps_poll := \<lambda>w. (None, w), ps_wait := \<lambda>d w. (None, w)\<rparr>"

lemma demo_readers_end: "readers_end demo_process None (\<lambda>w. fst w = 0)"
  by (auto simp: readers_end_def seen_ended_def demo_process_def split: if_splits)

theorem bounded_output_is_prefix_witness:
  "br_stdout (projr (fst (run_bounded_process id demo_process [''python''] 2 (int 6) None None 100 (3, [])))) = ''lineli''"
proof -
  let ?r = "run_bounded_process id demo_process [''python''] 2 (int 6) None None 100 (3, [])"
  have "\<not> isl (fst ?r)" by code_simp
  then have "?r = (Inr (projr (fst ?r)), snd ?r)" by (simp add: prod_eq_iff)
  from bounded_output_is_prefix [OF this] have "br_stdout (projr (fst ?r)) = on_stream Stdout (take 6 (arrivals (snd (snd ?r))))"
    by (simp add: demo_process_def)
  also have "\<dots> = ''lineli''" by code_simp
  finally show ?thesis .
qed

theorem bounded_verdict_witness:
  "br_exit_code (projr (fst (run_bounded_process id demo_process [''python''] 2 (int 6) None None 100 (3, [])))) = 125
   \<and> \<not> br_output_truncated (projr (fst (run_bounded_process id demo_process [''python''] 2 (int 60) None None 100 (3, []))))"
proof -
  let ?r = "\<lambda>n. run_bounded_process id demo_process [''python''] 2 (int n) None None 100 (3, [])"
  have "\<not> isl (fst (?r 6)) \<and> \<not> isl (fst (?r 60))" by code_simp
  then have r: "?r 6 = (Inr (projr (fst (?r 6))), snd (?r 6))" "?r 60 = (Inr (projr (fst (?r 60))), snd (?r 60))"
    by (simp_all add: prod_eq_iff)
  have t: "talks (None :: (nat \<times> (stream \<times> octets) list) policy_check)" by (simp add: talks_def)
  have "\<not> br_timed_out (projr (fst (?r 6))) \<and> truthy (br_policy_violation (projr (fst (?r 6))))
    \<and> \<not> br_timed_out (projr (fst (?r 60))) \<and> \<not> truthy (br_policy_violation (projr (fst (?r 60))))"
    by code_simp
  with bounded_verdict [OF r(1) t demo_readers_end] bounded_verdict [OF r(2) t demo_readers_end] show ?thesis by simp
qed

theorem hung_process_is_stopped_witness:
  "br_exit_code (projr (fst (run_bounded_process id hung_process [''python''] 2 (int 6) None None 100 (3, [])))) \<in> {124, 125}"
proof -
  let ?r = "run_bounded_process id hung_process [''python''] 2 (int 6) None None 100 (3, [])"
  have "\<not> isl (fst ?r)" by code_simp
  then have r: "?r = (Inr (projr (fst ?r)), snd ?r)" by (simp add: prod_eq_iff)
  have "fst (ps_poll hung_process w) = None" "fst (ps_wait hung_process d w) = None" for w d
    by (simp_all add: hung_process_def)
  from hung_process_is_stopped [OF this r] show ?thesis by simp
qed

end
