(* ===== verification/PyDumps.thy ===== *)
theory PyDumps
  imports PyJson
begin

text \<open>
  \<open>json.dumps\<close> of the Python standard library with the separators of its defaults: the options
  are \<open>sort_keys\<close> and \<open>ensure_ascii\<close>. A float is written with the spelling that it was read
  with.
\<close>

definition hex_char :: "nat \<Rightarrow> char" where
  "hex_char n = (if n < 10 then char_of (48 + n) else char_of (87 + n))"

definition dump_char :: "bool \<Rightarrow> char \<Rightarrow> pystr" where
  "dump_char ascii c =
     (case map_of [(CHR 0x22, CHR 0x22), (CHR 0x5C, CHR 0x5C), (CHR 0x0A, CHR ''n''), (CHR 0x0D, CHR ''r''),
         (CHR 0x09, CHR ''t''), (CHR 0x08, CHR ''b''), (CHR 0x0C, CHR ''f'')] c of
        Some e \<Rightarrow> [CHR 0x5C, e]
      | None \<Rightarrow>
          (if code c < 32 \<or> (ascii \<and> code c > 126)
           then CHR 0x5C # ''u00'' @ [hex_char (code c div 16), hex_char (code c mod 16)]
           else [c]))"

definition dump_string :: "bool \<Rightarrow> pystr \<Rightarrow> pystr" where
  "dump_string ascii s = [CHR 0x22] @ concat (map (dump_char ascii) s) @ [CHR 0x22]"

definition in_key_order :: "bool \<Rightarrow> (pystr \<times> json) list \<Rightarrow> (pystr \<times> json) list" where
  "in_key_order by_key d = (if by_key then sort_key fst d else d)"

lemma set_in_key_order [simp]: "set (in_key_order by_key d) = set d"
  by (simp add: in_key_order_def)

function json_dumps :: "bool \<Rightarrow> bool \<Rightarrow> json \<Rightarrow> pystr" where
  "json_dumps by_key ascii JNull = ''null''"
| "json_dumps by_key ascii (JBool b) = (if b then ''true'' else ''false'')"
| "json_dumps by_key ascii (JInt n) = str_int n"
| "json_dumps by_key ascii (JFloat s) = s"
| "json_dumps by_key ascii (JStr s) = dump_string ascii s"
| "json_dumps by_key ascii (JArr xs) = ''['' @ join '', '' (map (json_dumps by_key ascii) xs) @ '']''"
| "json_dumps by_key ascii (JObj d) =
     ''{'' @ join '', '' (map (\<lambda>(k, v). dump_string ascii k @ '': '' @ json_dumps by_key ascii v)
        (in_key_order by_key d)) @ ''}''"
  by pat_completeness auto

lemma json_item_size: "(k, v) \<in> set d \<Longrightarrow> size v < Suc (size_list (size_prod (\<lambda>x. 0) size) d)"
  by (induction d) auto

lemma json_elem_size: "v \<in> set xs \<Longrightarrow> size v < Suc (size_list size xs)"
  by (induction xs) auto

termination json_dumps
  by (relation "measure (\<lambda>(s, a, v). size v)") (auto simp: json_item_size json_elem_size)

end
