(* ===== verification/PyPretty.thy ===== *)
theory PyPretty
  imports PyDumps "HOL-Library.Multiset"
begin

text \<open>
  \<open>json.dumps(..., indent=2)\<close>, and the round trip: the decoder of \<open>PyJson\<close> reads such a text
  back to the value it was written from. The values are those without floats (whose spelling is
  not canonical) and with distinct keys in every object, as a \<open>dict\<close> has them.
\<close>

section \<open>The indented text\<close>

definition json_newline :: "nat \<Rightarrow> pystr" where
  "json_newline lvl = nl # replicate (2 * lvl) (CHR '' '')"

text \<open>The items of a container at a level, between its two brackets.\<close>

definition json_block :: "nat \<Rightarrow> pystr \<Rightarrow> pystr list \<Rightarrow> pystr \<Rightarrow> pystr" where
  "json_block lvl opening items closing =
     (if items = [] then opening @ closing
      else opening @ json_newline (Suc lvl) @ join ('','' @ json_newline (Suc lvl)) items
        @ json_newline lvl @ closing)"

function json_pretty :: "bool \<Rightarrow> bool \<Rightarrow> nat \<Rightarrow> json \<Rightarrow> pystr" where
  "json_pretty by_key ascii lvl JNull = ''null''"
| "json_pretty by_key ascii lvl (JBool b) = (if b then ''true'' else ''false'')"
| "json_pretty by_key ascii lvl (JInt n) = str_int n"
| "json_pretty by_key ascii lvl (JFloat s) = s"
| "json_pretty by_key ascii lvl (JStr s) = dump_string ascii s"
| "json_pretty by_key ascii lvl (JArr xs) =
     json_block lvl ''['' (map (json_pretty by_key ascii (Suc lvl)) xs) '']''"
| "json_pretty by_key ascii lvl (JObj d) =
     json_block lvl ''{'' (map (\<lambda>(k, v). dump_string ascii k @ '': '' @ json_pretty by_key ascii (Suc lvl) v)
        (in_key_order by_key d)) ''}''"
  by pat_completeness auto
termination
  by (relation "measure (\<lambda>(s, a, l, v). size v)") (auto simp: json_item_size json_elem_size)

text \<open>The value as the decoder returns it: the keys in the order of the text.\<close>

function ordered :: "bool \<Rightarrow> json \<Rightarrow> json" where
  "ordered by_key JNull = JNull"
| "ordered by_key (JBool b) = JBool b"
| "ordered by_key (JInt n) = JInt n"
| "ordered by_key (JFloat s) = JFloat s"
| "ordered by_key (JStr s) = JStr s"
| "ordered by_key (JArr xs) = JArr (map (ordered by_key) xs)"
| "ordered by_key (JObj d) = JObj (map (\<lambda>(k, v). (k, ordered by_key v)) (in_key_order by_key d))"
  by pat_completeness auto
termination
  by (relation "measure (\<lambda>(s, v). size v)") (auto simp: json_item_size json_elem_size)

function plain_json :: "json \<Rightarrow> bool" where
  "plain_json JNull \<longleftrightarrow> True"
| "plain_json (JBool b) \<longleftrightarrow> True"
| "plain_json (JInt n) \<longleftrightarrow> True"
| "plain_json (JFloat s) \<longleftrightarrow> False"
| "plain_json (JStr s) \<longleftrightarrow> True"
| "plain_json (JArr xs) \<longleftrightarrow> (\<forall>x\<in>set xs. plain_json x)"
| "plain_json (JObj d) \<longleftrightarrow> distinct (map fst d) \<and> (\<forall>(k, v)\<in>set d. plain_json v)"
  by pat_completeness auto
termination
  by (relation "measure size") (auto simp: json_item_size json_elem_size)

section \<open>Strings\<close>

lemma hex_val_hex_char: "n < 16 \<Longrightarrow> hex_val (hex_char n) = Some n"
proof -
  have "list_all (\<lambda>n. hex_val (hex_char n) = Some n) [0..<16]" by code_simp
  then show "n < 16 \<Longrightarrow> hex_val (hex_char n) = Some n" by (simp add: list_all_iff)
qed

lemma hex_val_0: "hex_val (CHR ''0'') = Some 0"
  by code_simp

lemma string_body_char:
  "string_body acc (dump_char a c @ s) = string_body (c # acc) s"
proof (cases "map_of [(CHR 0x22, CHR 0x22), (CHR 0x5C, CHR 0x5C), (CHR 0x0A, CHR ''n''), (CHR 0x0D, CHR ''r''),
    (CHR 0x09, CHR ''t''), (CHR 0x08, CHR ''b''), (CHR 0x0C, CHR ''f'')] c")
  case None
  then have c: "c \<noteq> CHR 0x22" "c \<noteq> CHR 0x5C" by (auto split: if_splits)
  show ?thesis
  proof (cases "code c < 32 \<or> (a \<and> code c > 126)")
    case True
    have n: "code c < 256" "code c mod 16 < 16" by (simp_all add: code_def)
    then have d: "code c div 16 < 16" by simp
    have "hex_number 0 [CHR ''0'', CHR ''0'', hex_char (code c div 16), hex_char (code c mod 16)] = Some (code c)"
      using hex_val_hex_char [OF d] hex_val_hex_char [OF n(2)] hex_val_0
      by simp
    with True None n(1) show ?thesis by (simp add: dump_char_def code_def)
  next
    case False
    with None c show ?thesis by (auto simp: dump_char_def)
  qed
next
  case (Some e)
  then show ?thesis by (auto simp: dump_char_def json_escape_def split: if_splits)
qed

lemma string_body_dump:
  "string_body acc (concat (map (dump_char a) s) @ CHR 0x22 # r) = Some (rev acc @ s, r)"
  by (induction s arbitrary: acc) (simp_all add: string_body_char)

section \<open>Numbers and layout\<close>

text \<open>A text that does not continue a number.\<close>

definition number_ends :: "pystr \<Rightarrow> bool" where
  "number_ends r \<longleftrightarrow> (case r of [] \<Rightarrow> True | c # cs \<Rightarrow> \<not> is_digit c \<and> c \<notin> set ''.eE'')"

lemma number_ends_simps [simp]:
  "number_ends []" "number_ends ('','' @ r)" "number_ends (json_newline lvl @ r)" "number_ends (nl # r)"
  "number_ends (CHR '','' # r)"
  by (simp_all add: number_ends_def json_newline_def nl_def is_digit_def code_def)

lemma skip_ws_newline [simp]: "skip_ws (json_newline lvl @ r) = skip_ws r"
proof -
  have "\<forall>c\<in>set (json_newline lvl). json_space c" by (auto simp: json_newline_def json_space_def nl_def)
  then show ?thesis by (simp add: skip_ws_def dropWhile_append_all)
qed

text \<open>A leading zero is written only for zero itself.\<close>

lemma str_nat_hd: "0 < n \<Longrightarrow> hd (str_nat n) \<noteq> CHR ''0''"
proof (induction n rule: str_nat.induct)
  case (1 n)
  show ?case
  proof (cases "n < 10")
    case True
    with 1 have "n \<in> {1, 2, 3, 4, 5, 6, 7, 8, 9}" using all_digits [of n] by auto
    then show ?thesis by (subst str_nat.simps) (auto simp: digit_char_def)
  next
    case False
    with 1 show ?thesis by (subst str_nat.simps) simp
  qed
qed

lemma scan_int_str_nat:
  assumes "number_ends r"
  shows "scan_int (str_nat n @ r) = Some (str_nat n, r)"
proof (cases "n = 0")
  case True
  then have "str_nat n = ''0''" by (simp add: str_nat.simps digit_char_def)
  then show ?thesis by (simp add: scan_int_def)
next
  case False
  then obtain d ds where n: "str_nat n = d # ds" and d: "d \<noteq> CHR ''0''"
    using str_nat_hd [of n] by (cases "str_nat n") auto
  have digits: "\<forall>c\<in>set (str_nat n). is_digit c" using str_nat_digits by blast
  have r: "takeWhile is_digit r = []" "dropWhile is_digit r = r"
    using assms by (auto simp: number_ends_def split: list.splits)
  have "is_digit d" using digits n by simp
  moreover have "digit_run (str_nat n @ r) = str_nat n" "dropWhile is_digit (str_nat n @ r) = r"
    using digits r by (simp_all add: digit_run_def takeWhile_append2 dropWhile_append2)
  ultimately show ?thesis using d by (simp add: scan_int_def n)
qed

lemma scan_number_str_int:
  assumes "number_ends r"
  shows "scan_number (str_int n @ r) = Some (JInt n, r)"
proof -
  have f: "scan_fraction r = ([], r)" "scan_exponent r = ([], r)"
    using assms by (auto simp: number_ends_def scan_fraction_def scan_exponent_def split: list.splits)
  have neg: "\<not> startswith (str_nat k @ r) ''-''" for k
  proof -
    obtain d ds where k: "str_nat k = d # ds" by (cases "str_nat k") auto
    then have "is_digit d" using str_nat_digits [of d k] by simp
    then show ?thesis by (auto simp: k is_digit_def code_def)
  qed
  show ?thesis
    using scan_int_str_nat [OF assms] neg f
    by (auto simp: scan_number_def str_int_def Let_def)
qed

section \<open>Reading back\<close>

lemma dict_set_new: "k \<notin> fst ` set d \<Longrightarrow> dict_set k v d = d @ [(k, v)]"
  by (induction k v d rule: dict_set.induct) auto

lemma dict_of_distinct_pairs: "distinct (map fst d) \<Longrightarrow> dict_of_pairs d = d"
proof (induction d rule: rev_induct)
  case (snoc p d)
  then show ?case by (cases p) (simp add: dict_of_pairs_def dict_set_new)
qed (simp add: dict_of_pairs_def)

lemma distinct_in_key_order:
  "distinct (map fst d) \<Longrightarrow> distinct (map fst (in_key_order by_key d))"
  by (simp add: in_key_order_def distinct_map inj_on_def)

lemma fst_ordered [simp]: "map fst (map (\<lambda>(k, v). (k, f v)) d) = map fst d"
  by (induction d) auto

text \<open>A value starts with a character that is neither a space nor a closing bracket.\<close>

definition value_start :: "pystr \<Rightarrow> bool" where
  "value_start s \<longleftrightarrow> s \<noteq> [] \<and> \<not> json_space (hd s) \<and> hd s \<noteq> CHR 0x5D \<and> hd s \<noteq> CHR 0x7D"

lemma value_start_skip: "value_start s \<Longrightarrow> skip_ws (s @ r) = s @ r"
  by (cases s) (simp_all add: value_start_def skip_ws_def)

lemma value_start_bracket:
  "value_start s \<Longrightarrow> \<not> startswith (s @ r) [CHR 0x5D]" "value_start s \<Longrightarrow> \<not> startswith (s @ r) [CHR 0x7D]"
  by (cases s; simp add: value_start_def)+

lemma str_int_start: "value_start (str_int n)" "hd (str_int n) \<notin> set [CHR 0x22, CHR 0x7B, CHR 0x5B]"
proof -
  have d: "is_digit (hd (str_nat k))" for k
    using str_nat_digits [of "hd (str_nat k)" k] by simp
  have h: "is_digit (hd (str_int n)) \<or> hd (str_int n) = CHR ''-''"
    using d by (auto simp: str_int_def)
  show "value_start (str_int n)" "hd (str_int n) \<notin> set [CHR 0x22, CHR 0x7B, CHR 0x5B]"
    using h by (auto simp: value_start_def str_int_def json_space_def is_digit_def code_def)
qed

lemma pretty_start: "plain_json v \<Longrightarrow> value_start (json_pretty s a lvl v)"
  using str_int_start(1)
  by (cases v) (auto simp: value_start_def json_block_def dump_string_def json_space_def)

lemma json_word_str_int:
  assumes "number_ends r"
  shows "json_word (str_int n @ r) = Some (JInt n, r)"
proof -
  have "is_digit c" if "str_nat k = c # cs" for k c cs
    using str_nat_digits [of c k] that by simp
  then obtain c cs where n: "str_int n = c # cs" and c: "is_digit c \<or> (c = CHR ''-'' \<and> (\<exists>k. cs = str_nat k))"
    by (cases "str_int n") (auto simp: str_int_def split: if_splits)
  have inf: "\<not> startswith (str_nat k @ r) ''Infinity''" for k
  proof -
    obtain d ds where k: "str_nat k = d # ds" by (cases "str_nat k") auto
    then have "is_digit d" using str_nat_digits [of d k] by simp
    then show ?thesis by (auto simp: k is_digit_def code_def)
  qed
  show ?thesis
    using scan_number_str_int [OF assms, of n] c inf
    by (auto simp: json_word_def n is_digit_def code_def)
qed

lemma json_value_str_int:
  "number_ends r \<Longrightarrow> json_value (Suc m) (str_int n @ r) = Some (JInt n, r)"
  using json_word_str_int [of r n] str_int_start(2) [of n] str_int_start(1) [of n]
  by (cases "str_int n") (auto simp: value_start_def)

text \<open>
  The elements of an array: if every element is read back at its fuel, so is the list. \<open>need\<close>
  is the fuel that a value takes at most.
\<close>

definition need :: "json \<Rightarrow> nat" where
  "need v = 2 * size v + 1"

definition reads_back :: "(json \<Rightarrow> pystr) \<Rightarrow> (json \<Rightarrow> json) \<Rightarrow> json \<Rightarrow> bool" where
  "reads_back p f v \<longleftrightarrow> value_start (p v) \<and>
     (\<forall>n r. need v \<le> n \<longrightarrow> number_ends r \<longrightarrow> json_value n (p v @ r) = Some (f v, r))"

lemma reads_back_elements:
  assumes "\<forall>x\<in>set xs. reads_back p f x" and "xs \<noteq> []" and "(\<Sum>x\<leftarrow>xs. Suc (need x)) \<le> n"
  shows "json_elements n acc (join ('','' @ json_newline i) (map p xs) @ json_newline l @ CHR 0x5D # r)
    = Some (JArr (rev acc @ map f xs), r)"
  using assms
proof (induction xs arbitrary: n acc)
  case (Cons x xs)
  obtain m where n: "n = Suc m" and m: "need x \<le> m" "(\<Sum>x\<leftarrow>xs. Suc (need x)) \<le> m"
    using Cons.prems(3) by (cases n) auto
  have x: "reads_back p f x" using Cons.prems(1) by simp
  have close: "skip_ws (CHR 0x5D # r) = CHR 0x5D # r" for r by (simp add: skip_ws_def json_space_def)
  show ?case
  proof (cases xs)
    case Nil
    have "json_value m (p x @ json_newline l @ CHR 0x5D # r) = Some (f x, json_newline l @ CHR 0x5D # r)"
      using x m(1) by (simp add: reads_back_def)
    then show ?thesis by (simp add: n Nil close)
  next
    case (Cons y ys)
    let ?rest = "join ('','' @ json_newline i) (map p xs) @ json_newline l @ CHR 0x5D # r"
    have first: "json_value m (p x @ '','' @ json_newline i @ ?rest) = Some (f x, '','' @ json_newline i @ ?rest)"
      using x m(1) by (simp add: reads_back_def)
    have "value_start (p y)" using Cons.prems(1) Cons by (simp add: reads_back_def)
    then have "value_start (join ('','' @ json_newline i) (map p xs))"
      by (cases ys) (auto simp: Cons value_start_def hd_append)
    then have rest: "skip_ws ?rest = ?rest" by (rule value_start_skip)
    have comma: "skip_ws (CHR '','' # t) = CHR '','' # t" for t by (simp add: skip_ws_def json_space_def)
    have "json_elements m (f x # acc) ?rest = Some (JArr (rev (f x # acc) @ map f xs), r)"
      by (rule Cons.IH) (use Cons.prems(1) m Cons in auto)
    with first rest show ?thesis by (simp add: n Cons comma)
  qed
qed simp

lemma string_body_key: "string_body [] (concat (map (dump_char a) k) @ CHR 0x22 # r) = Some (k, r)"
  by (simp add: string_body_dump)

lemma reads_back_members:
  assumes "\<forall>(k, x)\<in>set d. reads_back p f x" and "d \<noteq> []" and "(\<Sum>(k, x)\<leftarrow>d. Suc (need x)) \<le> n"
  shows "json_members n acc (join ('','' @ json_newline i) (map (\<lambda>(k, x). dump_string a k @ '': '' @ p x) d)
      @ json_newline l @ CHR 0x7D # r)
    = Some (JObj (dict_of_pairs (rev acc @ map (\<lambda>(k, x). (k, f x)) d)), r)"
  using assms
proof (induction d arbitrary: n acc)
  case (Cons kx d)
  obtain k x where kx: "kx = (k, x)" by (cases kx)
  obtain m where n: "n = Suc m" and m: "need x \<le> m" "(\<Sum>(k, x)\<leftarrow>d. Suc (need x)) \<le> m"
    using Cons.prems(3) by (cases n) (auto simp: kx)
  have x: "reads_back p f x" using Cons.prems(1) by (simp add: kx)
  have sp: "skip_ws (CHR '':'' # t) = CHR '':'' # t" "skip_ws (CHR '','' # t) = CHR '','' # t"
    "skip_ws (CHR 0x7D # t) = CHR 0x7D # t" "skip_ws (CHR '' '' # t) = skip_ws t" for t
    by (simp_all add: skip_ws_def json_space_def)
  have start: "skip_ws (p x @ t) = p x @ t" for t
    using x by (simp add: reads_back_def value_start_skip)
  have key: "dump_string a k @ t = CHR 0x22 # concat (map (dump_char a) k) @ CHR 0x22 # t" for k t
    by (simp add: dump_string_def)
  show ?case
  proof (cases d)
    case Nil
    have "json_value m (p x @ json_newline l @ CHR 0x7D # r) = Some (f x, json_newline l @ CHR 0x7D # r)"
      using x m(1) by (simp add: reads_back_def)
    then show ?thesis by (simp add: n Nil kx key string_body_key sp start)
  next
    case (Cons y ys)
    let ?items = "map (\<lambda>(k, x). dump_string a k @ '': '' @ p x) d"
    let ?rest = "join ('','' @ json_newline i) ?items @ json_newline l @ CHR 0x7D # r"
    have first: "json_value m (p x @ '','' @ json_newline i @ ?rest) = Some (f x, '','' @ json_newline i @ ?rest)"
      using x m(1) by (simp add: reads_back_def)
    have "value_start (join ('','' @ json_newline i) ?items)"
      by (cases y; cases ys) (simp_all add: Cons value_start_def dump_string_def json_space_def)
    then have rest: "skip_ws ?rest = ?rest" by (rule value_start_skip)
    have "json_members m ((k, f x) # acc) ?rest
        = Some (JObj (dict_of_pairs (rev ((k, f x) # acc) @ map (\<lambda>(k, x). (k, f x)) d)), r)"
      by (rule Cons.IH) (use Cons.prems(1) m Cons in auto)
    moreover have "json_members n acc (join ('','' @ json_newline i) (map (\<lambda>(k, x). dump_string a k @ '': '' @ p x) (kx # d))
          @ json_newline l @ CHR 0x7D # r)
        = json_members m ((k, f x) # acc) ?rest"
      using first rest by (simp add: n Cons kx key string_body_key sp start del: json_value.simps)
    ultimately show ?thesis by (simp add: kx)
  qed
qed simp

lemma need_items:
  "(\<Sum>x\<leftarrow>xs. Suc (need x)) \<le> 2 * size_list size xs"
  "(\<Sum>(k, x)\<leftarrow>d. Suc (need x)) \<le> 2 * size_list (size_prod (\<lambda>x. 0) size) d"
proof -
  show "(\<Sum>x\<leftarrow>xs. Suc (need x)) \<le> 2 * size_list size xs" by (induction xs) (auto simp: need_def)
  show "(\<Sum>(k, x)\<leftarrow>d. Suc (need x)) \<le> 2 * size_list (size_prod (\<lambda>x. 0) size) d"
    by (induction d) (auto simp: need_def)
qed

lemma sum_in_key_order:
  "(\<Sum>x\<leftarrow>in_key_order by_key d. g x :: nat) = (\<Sum>x\<leftarrow>d. g x)"
proof -
  have "mset (map g (in_key_order by_key d)) = mset (map g d)"
    by (simp add: in_key_order_def)
  then show ?thesis by (metis sum_mset_sum_list)
qed

lemma pretty_reads_back:
  "plain_json v \<Longrightarrow> reads_back (json_pretty by_key ascii lvl) (ordered by_key) v"
proof (induction by_key ascii lvl v rule: json_pretty.induct)
  case (5 by_key ascii lvl s)
  have "json_value n (json_pretty by_key ascii lvl (JStr s) @ r) = Some (JStr s, r)" if "need (JStr s) \<le> n" for n r
    using that by (cases n) (simp_all add: need_def dump_string_def string_body_key)
  with pretty_start [OF 5] show ?case by (simp add: reads_back_def)
next
  case (6 by_key ascii lvl xs)
  let ?p = "json_pretty by_key ascii (Suc lvl)"
  have items: "\<forall>x\<in>set xs. reads_back ?p (ordered by_key) x" using 6 by simp
  have "json_value n (json_pretty by_key ascii lvl (JArr xs) @ r) = Some (ordered by_key (JArr xs), r)"
    if n: "need (JArr xs) \<le> n" for n r
  proof -
    obtain m where m: "n = Suc m" "(\<Sum>x\<leftarrow>xs. Suc (need x)) \<le> m"
      using n need_items(1) [of xs] by (cases n) (auto simp: need_def)
    show ?thesis
    proof (cases xs)
      case Nil
      then show ?thesis by (simp add: m(1) json_block_def skip_ws_def json_space_def)
    next
      case (Cons y ys)
      have "value_start (join ('','' @ json_newline (Suc lvl)) (map ?p xs))"
        using items by (cases ys) (auto simp: Cons reads_back_def value_start_def hd_append)
      then have st: "skip_ws (join ('','' @ json_newline (Suc lvl)) (map ?p xs) @ t)
            = join ('','' @ json_newline (Suc lvl)) (map ?p xs) @ t"
          "\<not> startswith (join ('','' @ json_newline (Suc lvl)) (map ?p xs) @ t) [CHR 0x5D]" for t
        by (simp_all add: value_start_skip value_start_bracket)
      have "xs \<noteq> []" by (simp add: Cons)
      from reads_back_elements [OF items this m(2), of "[]" "Suc lvl" lvl r] st this show ?thesis
        by (simp add: m(1) json_block_def Let_def)
    qed
  qed
  with pretty_start [OF 6(2)] show ?case by (simp add: reads_back_def)
next
  case (7 by_key ascii lvl d)
  let ?p = "json_pretty by_key ascii (Suc lvl)" and ?d = "in_key_order by_key d"
  let ?items = "map (\<lambda>(k, x). dump_string ascii k @ '': '' @ ?p x) ?d"
  have items: "\<forall>(k, x)\<in>set ?d. reads_back ?p (ordered by_key) x" using 7 by force
  have "json_value n (json_pretty by_key ascii lvl (JObj d) @ r) = Some (ordered by_key (JObj d), r)"
    if n: "need (JObj d) \<le> n" for n r
  proof -
    obtain m where m: "n = Suc m" "(\<Sum>(k, x)\<leftarrow>?d. Suc (need x)) \<le> m"
      using n need_items(2) [of d] by (cases n) (auto simp: need_def sum_in_key_order)
    show ?thesis
    proof (cases ?d)
      case Nil
      then show ?thesis by (simp add: m(1) json_block_def skip_ws_def json_space_def)
    next
      case (Cons y ys)
      have "value_start (join ('','' @ json_newline (Suc lvl)) ?items)"
        by (cases y; cases ys) (simp_all add: Cons value_start_def dump_string_def json_space_def)
      then have st: "skip_ws (join ('','' @ json_newline (Suc lvl)) ?items @ t)
            = join ('','' @ json_newline (Suc lvl)) ?items @ t"
          "\<not> startswith (join ('','' @ json_newline (Suc lvl)) ?items @ t) [CHR 0x7D]" for t
        by (simp_all add: value_start_skip value_start_bracket)
      have ne: "?d \<noteq> []" "?items \<noteq> []" by (simp_all add: Cons)
      have "distinct (map fst (map (\<lambda>(k, x). (k, ordered by_key x)) ?d))"
        using 7(2) distinct_in_key_order unfolding fst_ordered by auto
      from dict_of_distinct_pairs [OF this]
        reads_back_members [OF items ne(1) m(2), of "[]" "Suc lvl" ascii lvl r] st ne(2) show ?thesis
        by (simp add: m(1) json_block_def Let_def)
    qed
  qed
  with pretty_start [OF 7(2)] show ?case by (simp add: reads_back_def)
next
  case (3 by_key ascii lvl k)
  have "json_value n (str_int k @ r) = Some (JInt k, r)" if "need (JInt k) \<le> n" "number_ends r" for n r
    using that json_value_str_int by (cases n) (simp_all add: need_def)
  with pretty_start [OF 3] show ?case by (simp add: reads_back_def)
next
  case (1 by_key ascii lvl)
  show ?case by (auto simp: reads_back_def value_start_def json_space_def need_def json_word_def gr0_conv_Suc Suc_le_eq)
next
  case (2 by_key ascii lvl b)
  show ?case by (auto simp: reads_back_def value_start_def json_space_def need_def json_word_def gr0_conv_Suc Suc_le_eq)
qed simp

theorem pretty_loads:
  assumes "plain_json v"
  shows "json_loads (json_pretty by_key ascii 0 v @ [nl]) = Some (ordered by_key v)"
proof -
  let ?s = "json_pretty by_key ascii 0 v @ [nl]" and ?n = "max (need v)"
  have rb: "reads_back (json_pretty by_key ascii 0) (ordered by_key) v" by (rule pretty_reads_back [OF assms])
  then have st: "skip_ws ?s = ?s" by (simp add: reads_back_def value_start_skip)
  have "raw_decode ?s = json_value (max (need v) (json_fuel ?s)) ?s"
    by (simp add: raw_decode_enough_fuel)
  also have "\<dots> = Some (ordered by_key v, [nl])" using rb by (simp add: reads_back_def)
  finally show ?thesis by (simp add: json_loads_def st) (simp add: skip_ws_def json_space_def nl_def)
qed

text \<open>A carriage return is written as an escape, so the text survives the newline translation of a text file.\<close>

lemma set_join: "set (join sep xs) \<subseteq> set sep \<union> \<Union> (set ` set xs)"
  by (induction sep xs rule: join.induct) auto

lemma hex_char_no_cr: "n < 16 \<Longrightarrow> hex_char n \<noteq> CHR 0x0D"
proof -
  have "list_all (\<lambda>n. hex_char n \<noteq> CHR 0x0D) [0..<16]" by code_simp
  then show "n < 16 \<Longrightarrow> hex_char n \<noteq> CHR 0x0D" by (simp add: list_all_iff)
qed

lemma dump_string_no_cr: "CHR 0x0D \<notin> set (dump_string a s)"
proof -
  have "CHR 0x0D \<notin> set (dump_char a c)" for c
  proof -
    have "code c < 256" by (simp add: code_def)
    then have n: "code c div 16 < 16" "code c mod 16 < 16" by simp_all
    show ?thesis
      using hex_char_no_cr [OF n(1)] hex_char_no_cr [OF n(2)]
      by (auto simp: dump_char_def split: option.splits if_splits dest!: map_of_SomeD)
  qed
  then show ?thesis by (auto simp: dump_string_def)
qed

lemma str_int_no_cr: "CHR 0x0D \<notin> set (str_int n)"
  using str_nat_digits [of "CHR 0x0D"] by (auto simp: str_int_def is_digit_def code_def)

lemma json_block_no_cr:
  "CHR 0x0D \<notin> set opening \<Longrightarrow> CHR 0x0D \<notin> set closing \<Longrightarrow> (\<And>t. t \<in> set items \<Longrightarrow> CHR 0x0D \<notin> set t)
     \<Longrightarrow> CHR 0x0D \<notin> set (json_block lvl opening items closing)"
proof -
  assume items: "\<And>t. t \<in> set items \<Longrightarrow> CHR 0x0D \<notin> set t" and ends: "CHR 0x0D \<notin> set opening" "CHR 0x0D \<notin> set closing"
  have gap: "CHR 0x0D \<notin> set (json_newline n)" for n by (auto simp: json_newline_def nl_def)
  have "CHR 0x0D \<notin> set (join ('','' @ json_newline (Suc lvl)) items)"
    using set_join [of "'','' @ json_newline (Suc lvl)" items] items gap by auto
  then show ?thesis using ends gap by (simp add: json_block_def)
qed

lemma pretty_no_cr: "plain_json v \<Longrightarrow> CHR 0x0D \<notin> set (json_pretty s a lvl v)"
proof (induction s a lvl v rule: json_pretty.induct)
  case (6 s a lvl xs)
  then show ?case unfolding json_pretty.simps by (intro json_block_no_cr) auto
next
  case (7 s a lvl d)
  have "CHR 0x0D \<notin> set t" if t: "t \<in> set (map (\<lambda>(k, v). dump_string a k @ '': '' @ json_pretty s a (Suc lvl) v) (in_key_order s d))" for t
  proof -
    obtain k v where kv: "(k, v) \<in> set d" and u: "t = dump_string a k @ '': '' @ json_pretty s a (Suc lvl) v"
      using t by auto
    have "plain_json v" using kv 7(2) by auto
    then have "CHR 0x0D \<notin> set (json_pretty s a (Suc lvl) v)" using 7(1) kv by simp
    then show ?thesis by (simp add: u dump_string_no_cr)
  qed
  then show ?case unfolding json_pretty.simps by (intro json_block_no_cr) simp_all
qed (auto simp: dump_string_no_cr str_int_no_cr)

end
