(* ===== verification/RepositoryIndex.thy ===== *)
theory RepositoryIndex
  imports PyPretty FileSystem Review
begin

text \<open>
  \<open>repository/contracts.py\<close> and \<open>repository/cache.py\<close>: the records of the repository index, their
  conversion to and from JSON, and the store that keeps an index in a file named by its
  fingerprint. A dataclass does not check the types of its fields, and \<open>from_dict\<close> passes them
  on, so the records are polymorphic in the types of text, number and optional text: the indexer
  builds typed ones, the store handles those whose fields are JSON values.
\<close>

section \<open>Records\<close>

record ('s, 'i, 'o) file_record =
  fr_path :: 's
  fr_module :: 's
  fr_sha256 :: 's
  fr_size_bytes :: 'i
  fr_line_count :: 'i
  fr_parse_error :: 'o

record ('s, 'i) symbol_record =
  sy_symbol_id :: 's
  sy_path :: 's
  sy_module :: 's
  sy_name :: 's
  sy_qualname :: 's
  sy_kind :: 's
  sy_start_line :: 'i
  sy_end_line :: 'i

record 's dependency_edge =
  de_source_path :: 's
  de_target_path :: 's
  de_kind :: 's
  de_imported_name :: 's

record ('s, 'i, 'o) repository_index =
  ri_schema_version :: pystr
  ri_fingerprint :: pystr
  ri_files :: "('s, 'i, 'o) file_record list"
  ri_symbols :: "('s, 'i) symbol_record list"
  ri_edges :: "'s dependency_edge list"
  ri_skipped_files :: int

type_synonym source_file = "(pystr, int, pystr option) file_record"
type_synonym source_symbol = "(pystr, int) symbol_record"
type_synonym source_edge = "pystr dependency_edge"
type_synonym source_index = "(pystr, int, pystr option) repository_index"
type_synonym json_index = "(json, json, json) repository_index"

definition parse_errors :: "source_index \<Rightarrow> source_file list" where
  "parse_errors idx = filter (\<lambda>f. truthy (fr_parse_error f)) (ri_files idx)"

text \<open>The values that the records of the indexer hold, as JSON values.\<close>

definition json_opt :: "pystr option \<Rightarrow> json" where
  "json_opt x = (case x of None \<Rightarrow> JNull | Some s \<Rightarrow> JStr s)"

definition encode_file :: "source_file \<Rightarrow> (json, json, json) file_record" where
  "encode_file f = \<lparr>fr_path = JStr (fr_path f), fr_module = JStr (fr_module f), fr_sha256 = JStr (fr_sha256 f),
     fr_size_bytes = JInt (fr_size_bytes f), fr_line_count = JInt (fr_line_count f),
     fr_parse_error = json_opt (fr_parse_error f)\<rparr>"

definition encode_symbol :: "source_symbol \<Rightarrow> (json, json) symbol_record" where
  "encode_symbol s = \<lparr>sy_symbol_id = JStr (sy_symbol_id s), sy_path = JStr (sy_path s),
     sy_module = JStr (sy_module s), sy_name = JStr (sy_name s), sy_qualname = JStr (sy_qualname s),
     sy_kind = JStr (sy_kind s), sy_start_line = JInt (sy_start_line s), sy_end_line = JInt (sy_end_line s)\<rparr>"

definition encode_edge :: "source_edge \<Rightarrow> json dependency_edge" where
  "encode_edge e = \<lparr>de_source_path = JStr (de_source_path e), de_target_path = JStr (de_target_path e),
     de_kind = JStr (de_kind e), de_imported_name = JStr (de_imported_name e)\<rparr>"

definition encode_index :: "source_index \<Rightarrow> json_index" where
  "encode_index idx = \<lparr>ri_schema_version = ri_schema_version idx, ri_fingerprint = ri_fingerprint idx,
     ri_files = map encode_file (ri_files idx), ri_symbols = map encode_symbol (ri_symbols idx),
     ri_edges = map encode_edge (ri_edges idx), ri_skipped_files = ri_skipped_files idx\<rparr>"

section \<open>To and from dictionaries\<close>

definition file_dict :: "(json, json, json) file_record \<Rightarrow> json" where
  "file_dict f = JObj [(''path'', fr_path f), (''module'', fr_module f), (''sha256'', fr_sha256 f),
     (''size_bytes'', fr_size_bytes f), (''line_count'', fr_line_count f), (''parse_error'', fr_parse_error f)]"

definition symbol_dict :: "(json, json) symbol_record \<Rightarrow> json" where
  "symbol_dict s = JObj [(''symbol_id'', sy_symbol_id s), (''path'', sy_path s), (''module'', sy_module s),
     (''name'', sy_name s), (''qualname'', sy_qualname s), (''kind'', sy_kind s),
     (''start_line'', sy_start_line s), (''end_line'', sy_end_line s)]"

definition edge_dict :: "json dependency_edge \<Rightarrow> json" where
  "edge_dict e = JObj [(''source_path'', de_source_path e), (''target_path'', de_target_path e),
     (''kind'', de_kind e), (''imported_name'', de_imported_name e)]"

definition to_dict :: "json_index \<Rightarrow> json" where
  "to_dict idx = JObj [(''schema_version'', JStr (ri_schema_version idx)),
     (''fingerprint'', JStr (ri_fingerprint idx)), (''files'', JArr (map file_dict (ri_files idx))),
     (''symbols'', JArr (map symbol_dict (ri_symbols idx))), (''edges'', JArr (map edge_dict (ri_edges idx))),
     (''skipped_files'', JInt (ri_skipped_files idx))]"

text \<open>
  The exceptions of \<open>from_dict\<close>; \<open>load\<close> catches the first three only. A JSON value that is no
  object has no \<open>get\<close> (\<open>AttributeError\<close>); \<open>int\<close> of an infinite float raises \<open>OverflowError\<close>.
\<close>

datatype index_error =
    IndexValueError pystr | IndexTypeError | IndexKeyError | IndexAttributeError | IndexOverflowError

text \<open>The items that a loop over a JSON value visits.\<close>

definition json_items :: "json \<Rightarrow> index_error + json list" where
  "json_items v = (case v of
     JArr xs \<Rightarrow> Inr xs
   | JObj d \<Rightarrow> Inr (map (\<lambda>(k, x). JStr k) d)
   | JStr s \<Rightarrow> Inr (map (\<lambda>c. JStr [c]) s)
   | _ \<Rightarrow> Inl IndexTypeError)"

text \<open>
  A call with keyword arguments \<open>**item\<close>: every key is a parameter and every parameter without
  a default is a key.
\<close>

definition keyword_arguments :: "pystr list \<Rightarrow> pystr list \<Rightarrow> json \<Rightarrow> index_error + (pystr \<times> json) list" where
  "keyword_arguments required optional v = (case v of
     JObj d \<Rightarrow> (if list_all (\<lambda>k. k \<in> set (required @ optional)) (map fst d)
         \<and> list_all (\<lambda>k. k \<in> set (map fst d)) required
        then Inr d else Inl IndexTypeError)
   | _ \<Rightarrow> Inl IndexTypeError)"

definition file_of_dict :: "json \<Rightarrow> index_error + (json, json, json) file_record" where
  "file_of_dict v = map_sum id (\<lambda>d. \<lparr>fr_path = jget d ''path'', fr_module = jget d ''module'',
       fr_sha256 = jget d ''sha256'', fr_size_bytes = jget d ''size_bytes'',
       fr_line_count = jget d ''line_count'', fr_parse_error = jget_or d ''parse_error'' JNull\<rparr>)
     (keyword_arguments [''path'', ''module'', ''sha256'', ''size_bytes'', ''line_count''] [''parse_error''] v)"

definition symbol_of_dict :: "json \<Rightarrow> index_error + (json, json) symbol_record" where
  "symbol_of_dict v = map_sum id (\<lambda>d. \<lparr>sy_symbol_id = jget d ''symbol_id'', sy_path = jget d ''path'',
       sy_module = jget d ''module'', sy_name = jget d ''name'', sy_qualname = jget d ''qualname'',
       sy_kind = jget d ''kind'', sy_start_line = jget d ''start_line'', sy_end_line = jget d ''end_line''\<rparr>)
     (keyword_arguments [''symbol_id'', ''path'', ''module'', ''name'', ''qualname'', ''kind'', ''start_line'',
        ''end_line''] [] v)"

definition edge_of_dict :: "json \<Rightarrow> index_error + json dependency_edge" where
  "edge_of_dict v = map_sum id (\<lambda>d. \<lparr>de_source_path = jget d ''source_path'',
       de_target_path = jget d ''target_path'', de_kind = jget_or d ''kind'' (JStr ''import''),
       de_imported_name = jget_or d ''imported_name'' (JStr [])\<rparr>)
     (keyword_arguments [''source_path'', ''target_path''] [''kind'', ''imported_name''] v)"

definition records_of :: "(json \<Rightarrow> index_error + 'a) \<Rightarrow> json \<Rightarrow> index_error + 'a list" where
  "records_of f v = (case json_items v of Inl e \<Rightarrow> Inl e | Inr xs \<Rightarrow> map_result f xs)"

text \<open>\<open>int(value)\<close>; \<open>conv\<close> is its result on a float or a text.\<close>

definition py_int :: "(json \<Rightarrow> index_error + int) \<Rightarrow> json \<Rightarrow> index_error + int" where
  "py_int conv v = (case v of
     JInt n \<Rightarrow> Inr n
   | JBool b \<Rightarrow> Inr (if b then 1 else 0)
   | JFloat s \<Rightarrow> conv v
   | JStr s \<Rightarrow> conv v
   | _ \<Rightarrow> Inl IndexTypeError)"

definition from_dict :: "pyvals \<Rightarrow> (json \<Rightarrow> index_error + int) \<Rightarrow> json \<Rightarrow> index_error + json_index" where
  "from_dict py conv v =
     (case v of
        JObj d \<Rightarrow>
          (if json_str py (jget d ''schema_version'') \<noteq> ''1''
           then Inl (IndexValueError ''unsupported repository index schema'')
           else case dict_get d ''fingerprint'' of
             None \<Rightarrow> Inl IndexKeyError
           | Some fp \<Rightarrow>
               (case records_of file_of_dict (jget_or d ''files'' (JArr [])) of
                  Inl e \<Rightarrow> Inl e
                | Inr fs \<Rightarrow>
                    (case records_of symbol_of_dict (jget_or d ''symbols'' (JArr [])) of
                       Inl e \<Rightarrow> Inl e
                     | Inr ss \<Rightarrow>
                         (case records_of edge_of_dict (jget_or d ''edges'' (JArr [])) of
                            Inl e \<Rightarrow> Inl e
                          | Inr es \<Rightarrow>
                              (case py_int conv (jget_or d ''skipped_files'' (JInt 0)) of
                                 Inl e \<Rightarrow> Inl e
                               | Inr n \<Rightarrow>
                                   Inr \<lparr>ri_schema_version = ''1'', ri_fingerprint = json_str py fp, ri_files = fs,
                                     ri_symbols = ss, ri_edges = es, ri_skipped_files = max 0 n\<rparr>)))))
      | _ \<Rightarrow> Inl IndexAttributeError)"

section \<open>The store\<close>

definition store_path :: "path \<Rightarrow> pystr \<Rightarrow> exn + path" where
  "store_path cache_dir fp =
     (let safe = filter (\<lambda>c. c \<in> set ''0123456789abcdef'') (lower fp) in
      if length safe < 16 then Inl (ValueError ''invalid repository fingerprint'')
      else Inr (cache_dir @ [''repository-index-v1-'' @ safe @ ''.json'']))"

definition caught_by_load :: "index_error \<Rightarrow> bool" where
  "caught_by_load e \<longleftrightarrow> (case e of IndexAttributeError \<Rightarrow> False | IndexOverflowError \<Rightarrow> False | _ \<Rightarrow> True)"

text \<open>
  \<open>load\<close>: the path is computed outside the \<open>try\<close>; a file that cannot be read or decoded gives
  \<open>None\<close>.
\<close>

definition store_load ::
    "pyvals \<Rightarrow> (json \<Rightarrow> index_error + int) \<Rightarrow> path \<Rightarrow> fs \<Rightarrow> pystr \<Rightarrow> index_error + json_index option" where
  "store_load py conv cache_dir F fp =
     (case store_path cache_dir fp of
        Inl e \<Rightarrow> Inl (IndexValueError (exn_message e))
      | Inr path \<Rightarrow>
          (case fs_read F path of
             Inl m \<Rightarrow> Inr None
           | Inr text \<Rightarrow>
               (case json_loads text of
                  None \<Rightarrow> Inr None
                | Some data \<Rightarrow>
                    (case from_dict py conv data of
                       Inl e \<Rightarrow> (if caught_by_load e then Inr None else Inl e)
                     | Inr idx \<Rightarrow> Inr (if ri_fingerprint idx = fp then Some idx else None)))))"

definition index_payload :: "json_index \<Rightarrow> pystr" where
  "index_payload idx = json_pretty True False 0 (to_dict idx) @ [nl]"

text \<open>
  \<open>os.replace(temp, target)\<close> moves the content in one step, or raises and changes nothing.
\<close>

definition fs_replace :: "fs \<Rightarrow> path \<Rightarrow> path \<Rightarrow> pystr option \<times> fs" where
  "fs_replace F temp target = (case refuse_write F target of
     Some m \<Rightarrow> (Some m, F)
   | None \<Rightarrow> (None, F\<lparr>contents := (contents F)(target := contents F temp, temp := None)\<rparr>))"

text \<open>
  \<open>save\<close>: \<open>mkdir\<close> and \<open>mkstemp\<close> are refused where a write is; \<open>pick\<close> is the part of the
  name of the temporary file that \<open>mkstemp\<close> chooses. The \<open>finally\<close> block removes the temporary file if it is still there.
\<close>

definition temp_path :: "(fs \<Rightarrow> pystr) \<Rightarrow> path \<Rightarrow> fs \<Rightarrow> path" where
  "temp_path pick cache_dir F = cache_dir @ [''repository-index-'' @ pick F @ ''.tmp'']"

definition store_save :: "(fs \<Rightarrow> pystr) \<Rightarrow> path \<Rightarrow> json_index \<Rightarrow> fs \<Rightarrow> (exn + path) \<times> fs" where
  "store_save pick cache_dir idx F =
     (let temp = temp_path pick cache_dir F in
      case refuse_write F cache_dir of
        Some m \<Rightarrow> (Inl (OSError m), F)
      | None \<Rightarrow>
          (case store_path cache_dir (ri_fingerprint idx) of
             Inl e \<Rightarrow> (Inl e, F)
           | Inr target \<Rightarrow>
               (case fs_write F temp (index_payload idx) of
                  (Some m, F1) \<Rightarrow> (Inl (OSError m), F1)
                | (None, F1) \<Rightarrow>
                    (case fs_replace F1 temp target of
                       (failure, F2) \<Rightarrow>
                         (case (if contents F2 temp \<noteq> None then fs_unlink F2 temp else (None, F2)) of
                            (Some m, F3) \<Rightarrow> (Inl (OSError m), F3)
                          | (None, F3) \<Rightarrow>
                              (case failure of Some m \<Rightarrow> (Inl (OSError m), F3) | None \<Rightarrow> (Inr target, F3)))))))"

section \<open>The conversions are inverse\<close>

lemma map_of_sorted:
  assumes "distinct (map fst d)"
  shows "map_of (in_key_order by_key d) = map_of d"
proof -
  have "distinct (map fst (in_key_order by_key d))" by (rule distinct_in_key_order [OF assms])
  then show ?thesis using assms by (simp add: map_of_inject_set)
qed

lemma keyword_arguments_ordered:
  assumes "distinct (map fst d)"
    and "set (map fst d) \<subseteq> set (req @ opt)" and "set req \<subseteq> set (map fst d)"
  shows "\<exists>d'. keyword_arguments req opt (ordered by_key (JObj d)) = Inr d'
    \<and> map_of d' = map_of (map (\<lambda>(k, v). (k, ordered by_key v)) d)"
proof (intro exI conjI)
  let ?d = "map (\<lambda>(k, v). (k, ordered by_key v)) (in_key_order by_key d)"
  have keys: "set (map fst ?d) = set (map fst d)" unfolding fst_ordered by simp
  have "list_all (\<lambda>k. k \<in> set (req @ opt)) (map fst ?d)" "list_all (\<lambda>k. k \<in> set (map fst ?d)) req"
    using assms(2,3) unfolding list_all_iff keys by blast+
  then show "keyword_arguments req opt (ordered by_key (JObj d)) = Inr ?d" by (simp add: keyword_arguments_def)
  show "map_of ?d = map_of (map (\<lambda>(k, v). (k, ordered by_key v)) d)"
    using map_of_sorted [OF assms(1), of by_key] by (simp add: map_of_map fun_eq_iff)
qed

lemma ordered_scalars [simp]: "ordered b (json_opt x) = json_opt x"
  by (simp add: json_opt_def split: option.split)

text \<open>What a constructor reads from the arguments does not depend on their order.\<close>

lemma keyword_reads:
  assumes "distinct (map fst d) \<and> set (map fst d) \<subseteq> set (req @ opt) \<and> set req \<subseteq> set (map fst d)"
    and "\<And>d'. map_of d' = map_of (map (\<lambda>(k, v). (k, ordered b v)) d) \<Longrightarrow> F d' = x"
  shows "map_sum id F (keyword_arguments req opt (ordered b (JObj d))) = Inr x"
  using keyword_arguments_ordered [of d req opt b] assms by auto

lemma file_of_file_dict: "file_of_dict (ordered b (file_dict (encode_file f))) = Inr (encode_file f)"
  unfolding file_of_dict_def file_dict_def
  by (rule keyword_reads) (simp, simp add: jget_def jget_or_def encode_file_def)

lemma symbol_of_symbol_dict: "symbol_of_dict (ordered b (symbol_dict (encode_symbol s))) = Inr (encode_symbol s)"
  unfolding symbol_of_dict_def symbol_dict_def
  by (rule keyword_reads) (simp, simp add: jget_def jget_or_def encode_symbol_def)

lemma edge_of_edge_dict: "edge_of_dict (ordered b (edge_dict (encode_edge e))) = Inr (encode_edge e)"
  unfolding edge_of_dict_def edge_dict_def
  by (rule keyword_reads) (simp, simp add: jget_def jget_or_def encode_edge_def)

lemma records_of_written:
  "(\<And>x. f (ordered b (g x)) = Inr (h x)) \<Longrightarrow> records_of f (ordered b (JArr (map g xs))) = Inr (map h xs)"
proof -
  assume "\<And>x. f (ordered b (g x)) = Inr (h x)"
  then have "map_result f (map (ordered b) (map g xs)) = Inr (map h xs)" by (induction xs) simp_all
  then show ?thesis by (simp add: records_of_def json_items_def)
qed

lemma from_to_dict:
  assumes "ri_schema_version idx = ''1''" and "0 \<le> ri_skipped_files idx"
  shows "from_dict py conv (ordered b (to_dict (encode_index idx))) = Inr (encode_index idx)"
proof -
  let ?pairs = "[(''schema_version'', JStr (ri_schema_version idx)), (''fingerprint'', JStr (ri_fingerprint idx)),
     (''files'', JArr (map file_dict (map encode_file (ri_files idx)))),
     (''symbols'', JArr (map symbol_dict (map encode_symbol (ri_symbols idx)))),
     (''edges'', JArr (map edge_dict (map encode_edge (ri_edges idx)))), (''skipped_files'', JInt (ri_skipped_files idx))]"
  have dict: "to_dict (encode_index idx) = JObj ?pairs" by (simp add: to_dict_def encode_index_def)
  obtain d where d: "ordered b (JObj ?pairs) = JObj d"
    and get: "\<And>k. dict_get d k = map_option (ordered b) (map_of ?pairs k)"
    using map_of_sorted [of ?pairs b] by (simp add: map_of_map)
  have records: "records_of file_of_dict (ordered b (JArr (map file_dict (map encode_file (ri_files idx))))) = Inr (map encode_file (ri_files idx))"
    "records_of symbol_of_dict (ordered b (JArr (map symbol_dict (map encode_symbol (ri_symbols idx))))) = Inr (map encode_symbol (ri_symbols idx))"
    "records_of edge_of_dict (ordered b (JArr (map edge_dict (map encode_edge (ri_edges idx))))) = Inr (map encode_edge (ri_edges idx))"
    unfolding map_map by (rule records_of_written; simp add: file_of_file_dict symbol_of_symbol_dict edge_of_edge_dict)+
  have "dict_get d ''schema_version'' = Some (JStr ''1'')" "dict_get d ''fingerprint'' = Some (JStr (ri_fingerprint idx))"
    "dict_get d ''files'' = Some (ordered b (JArr (map file_dict (map encode_file (ri_files idx)))))"
    "dict_get d ''symbols'' = Some (ordered b (JArr (map symbol_dict (map encode_symbol (ri_symbols idx)))))"
    "dict_get d ''edges'' = Some (ordered b (JArr (map edge_dict (map encode_edge (ri_edges idx)))))"
    "dict_get d ''skipped_files'' = Some (JInt (ri_skipped_files idx))"
    unfolding get using assms(1) by (simp_all del: ordered.simps(6))
  then show ?thesis
    unfolding dict d using records assms
    by (simp add: from_dict_def jget_def jget_or_def json_str_def py_int_def encode_index_def
        del: ordered.simps(6) map_map list.map_comp)
qed

section \<open>The laws of the store\<close>

definition storable :: "json_index \<Rightarrow> bool" where
  "storable i \<longleftrightarrow> (\<exists>idx. i = encode_index idx \<and> ri_schema_version idx = ''1'' \<and> 0 \<le> ri_skipped_files idx)"

lemma plain_to_dict: "plain_json (to_dict (encode_index idx))"
  by (auto simp: to_dict_def encode_index_def file_dict_def symbol_dict_def edge_dict_def encode_file_def
      encode_symbol_def encode_edge_def json_opt_def split: option.split)

lemma temp_no_entry: "store_path cache_dir fp = Inr target \<Longrightarrow> target \<noteq> temp_path pick dir F"
proof
  assume "store_path cache_dir fp = Inr target" "target = temp_path pick dir F"
  then have "last (last target) = CHR ''n''" "last (last target) = CHR ''p''"
    by (auto simp: store_path_def Let_def temp_path_def split: if_splits)
  then show False by simp
qed

text \<open>What a call of \<open>save\<close> leaves: the old entries, except for the target of a completed call.\<close>

lemma store_save_contents:
  assumes "store_save pick dir idx F = (r, F')" and "q \<noteq> temp_path pick dir F"
  shows "contents F' q = (if r = Inr q then Some (TextFile (index_payload idx)) else contents F q)"
  using assms temp_no_entry [of dir "ri_fingerprint idx" _ pick dir F]
  by (auto simp: store_save_def Let_def fs_write_def fs_replace_def fs_unlink_def split: option.splits sum.splits if_splits)

lemma store_save_target:
  assumes "store_save pick dir idx F = (Inr p, F')"
  shows "store_path dir (ri_fingerprint idx) = Inr p \<and> contents F' (temp_path pick dir F) = None"
  using assms temp_no_entry [of dir "ri_fingerprint idx" _ pick dir F]
  by (auto simp: store_save_def Let_def fs_write_def fs_replace_def fs_unlink_def split: option.splits sum.splits if_splits)

lemma load_contents:
  assumes "\<And>path. store_path dir fp = Inr path \<Longrightarrow> contents F' path = contents F path" and "read_failure F' = read_failure F"
  shows "store_load py conv dir F' fp = store_load py conv dir F fp"
proof (cases "store_path dir fp")
  case (Inr path)
  then have "fs_read F' path = fs_read F path"
    using assms by (simp add: fs_read_def split: option.split file_data.split)
  with Inr show ?thesis by (simp add: store_load_def)
qed (simp add: store_load_def)

lemma load_payload:
  assumes "storable i" and "store_path dir fp = Inr path" and "contents F path = Some (TextFile (index_payload i))"
  shows "store_load py conv dir F fp = Inr (if ri_fingerprint i = fp then Some i else None)"
proof -
  obtain idx where i: "i = encode_index idx" and ok: "ri_schema_version idx = ''1''" "0 \<le> ri_skipped_files idx"
    using assms(1) by (auto simp: storable_def)
  have plain: "plain_json (to_dict i)" unfolding i by (rule plain_to_dict)
  then have "CHR 0x0D \<notin> set (index_payload i)" by (simp add: index_payload_def pretty_no_cr nl_def)
  then have "fs_read F path = Inr (index_payload i)" using assms(3) by (simp add: fs_read_def universal_newlines_id)
  moreover have "json_loads (index_payload i) = Some (ordered True (to_dict i))"
    unfolding index_payload_def by (rule pretty_loads [OF plain])
  ultimately show ?thesis
    using assms(2) from_to_dict [OF ok, of py conv True] by (simp add: store_load_def i)
qed

lemma store_save_frame: "store_save pick dir idx F = (r, F') \<Longrightarrow> read_failure F' = read_failure F"
  by (auto simp: store_save_def Let_def fs_write_def fs_replace_def fs_unlink_def
      split: option.splits sum.splits if_splits)

text \<open>The contract between a store of indexes and its client.\<close>

locale index_cache =
  fixes load :: "'c \<Rightarrow> pystr \<Rightarrow> 'e + 'i option"
    and save :: "'i \<Rightarrow> 'c \<Rightarrow> (exn + 'p) \<times> 'c"
    and fingerprint :: "'i \<Rightarrow> pystr"
    and valid :: "'i \<Rightarrow> bool"
  assumes load_fingerprint: "load c f = Inr (Some i) \<Longrightarrow> fingerprint i = f"
    and save_stores: "valid i \<Longrightarrow> save i c = (Inr p, c') \<Longrightarrow> load c' (fingerprint i) = Inr (Some i)"
    and save_keeps: "valid i \<Longrightarrow> save i c = (r, c') \<Longrightarrow> load c' f = Inr (Some j) \<Longrightarrow>
      load c f = Inr (Some j) \<or> (j = i \<and> f = fingerprint i)"
    and failed_save: "save i c = (Inl e, c') \<Longrightarrow> load c' f = load c f"
begin

text \<open>A store holds only indexes that satisfy \<open>P\<close>; saving one more keeps that.\<close>

definition only :: "(pystr \<Rightarrow> 'i \<Rightarrow> bool) \<Rightarrow> 'c \<Rightarrow> bool" where
  "only P c \<longleftrightarrow> (\<forall>f i. load c f = Inr (Some i) \<longrightarrow> P f i)"

lemma onlyD: "only P c \<Longrightarrow> load c f = Inr (Some i) \<Longrightarrow> P f i"
  by (simp add: only_def)

lemma only_save:
  assumes "only P c" and "valid i" and "P (fingerprint i) i" and "save i c = (r, c')"
  shows "only P c'"
  unfolding only_def using assms save_keeps [OF assms(2,4)] by (metis only_def)

end

interpretation index_file: index_cache "store_load py conv dir" "store_save pick dir" ri_fingerprint storable
proof
  fix c f i assume "store_load py conv dir c f = Inr (Some i)"
  then show "ri_fingerprint i = f"
    by (auto simp: store_load_def split: sum.splits option.splits if_splits)
next
  fix i c p c' assume i: "storable i" and s: "store_save pick dir i c = (Inr p, c')"
  have path: "store_path dir (ri_fingerprint i) = Inr p" using store_save_target [OF s] by simp
  then have "contents c' p = Some (TextFile (index_payload i))"
    using store_save_contents [OF s temp_no_entry [OF path]] by simp
  from load_payload [OF i path this] show "store_load py conv dir c' (ri_fingerprint i) = Inr (Some i)" by simp
next
  fix i c r c' f j
  assume i: "storable i" and s: "store_save pick dir i c = (r, c')" and l: "store_load py conv dir c' f = Inr (Some j)"
  obtain path where path: "store_path dir f = Inr path"
    using l by (cases "store_path dir f") (auto simp: store_load_def)
  note q = store_save_contents [OF s temp_no_entry [OF path]]
  show "store_load py conv dir c f = Inr (Some j) \<or> (j = i \<and> f = ri_fingerprint i)"
  proof (cases "r = Inr path")
    case True
    then have "contents c' path = Some (TextFile (index_payload i))" using q by simp
    from load_payload [OF i path this] l show ?thesis by (auto split: if_splits)
  next
    case False
    have "store_load py conv dir c' f = store_load py conv dir c f"
      by (rule load_contents [OF _ store_save_frame [OF s]]) (use False q path in auto)
    with l show ?thesis by simp
  qed
next
  fix i c e c' f assume s: "store_save pick dir i c = (Inl e, c')"
  show "store_load py conv dir c' f = store_load py conv dir c f"
    by (rule load_contents [OF _ store_save_frame [OF s]]) (use store_save_contents [OF s temp_no_entry] in auto)
qed

section \<open>Properties\<close>

text \<open>
  C31 The store gives back what was put in: an index that the indexer built and \<open>save\<close> wrote is
  the one that \<open>load\<close> returns for its fingerprint, through JSON text and file, no temporary file
  is left, and the entries of other fingerprints are unchanged unless they share the file.
\<close>

theorem saved_index_loads:
  assumes "store_save pick dir (encode_index idx) F = (Inr p, F')"
    and "ri_schema_version idx = ''1''" and "0 \<le> ri_skipped_files idx"
  shows "store_load py conv dir F' (ri_fingerprint idx) = Inr (Some (encode_index idx))
    \<and> contents F' (temp_path pick dir F) = None
    \<and> (store_path dir fp = Inr p \<or> store_load py conv dir F' fp = store_load py conv dir F fp)"
proof (intro conjI disjCI)
  have i: "storable (encode_index idx)" using assms(2,3) by (auto simp: storable_def)
  have fp: "ri_fingerprint (encode_index idx) = ri_fingerprint idx" by (simp add: encode_index_def)
  show "store_load py conv dir F' (ri_fingerprint idx) = Inr (Some (encode_index idx))"
    using index_file.save_stores [OF i assms(1)] unfolding fp .
  have path: "store_path dir (ri_fingerprint (encode_index idx)) = Inr p"
    and gone: "contents F' (temp_path pick dir F) = None"
    using store_save_target [OF assms(1)] by simp_all
  show "contents F' (temp_path pick dir F) = None" by (rule gone)
  assume changed: "store_load py conv dir F' fp \<noteq> store_load py conv dir F fp"
  show "store_path dir fp = Inr p"
  proof (rule ccontr)
    assume other: "store_path dir fp \<noteq> Inr p"
    have "store_load py conv dir F' fp = store_load py conv dir F fp"
      by (rule load_contents [OF _ store_save_frame [OF assms(1)]])
        (use store_save_contents [OF assms(1) temp_no_entry] other in auto)
    with changed show False by simp
  qed
qed

text \<open>An index with one import, in an empty file system.\<close>

definition demo_index :: source_index where
  "demo_index = \<lparr>ri_schema_version = ''1'', ri_fingerprint = ''0123456789abcdef'',
     ri_files = [\<lparr>fr_path = ''a.py'', fr_module = ''a'', fr_sha256 = ''00'', fr_size_bytes = 8, fr_line_count = 1,
       fr_parse_error = None\<rparr>], ri_symbols = [],
     ri_edges = [\<lparr>de_source_path = ''a.py'', de_target_path = ''b.py'', de_kind = ''import'', de_imported_name = ''b''\<rparr>],
     ri_skipped_files = 0\<rparr>"

definition demo_empty_fs :: fs where
  "demo_empty_fs = \<lparr>contents = \<lambda>_. None, resolve = id, listing = \<lambda>_. [], refuse_write = \<lambda>_. None,
     read_failure = \<lambda>_. ''No such file''\<rparr>"

theorem saved_index_loads_witness:
  "store_load demo_py (\<lambda>_. Inl IndexTypeError) [''cache'']
     (snd (store_save (\<lambda>_. ''x'') [''cache''] (encode_index demo_index) demo_empty_fs)) ''0123456789abcdef''
   = Inr (Some (encode_index demo_index))"
proof -
  let ?R = "store_save (\<lambda>_. ''x'') [''cache''] (encode_index demo_index) demo_empty_fs"
  have "store_path [''cache''] (ri_fingerprint (encode_index demo_index))
      = Inr [''cache'', ''repository-index-v1-0123456789abcdef.json'']" by code_simp
  then have "fst ?R = Inr [''cache'', ''repository-index-v1-0123456789abcdef.json'']"
    by (simp add: store_save_def Let_def demo_empty_fs_def fs_write_def fs_replace_def)
  then have "?R = (Inr [''cache'', ''repository-index-v1-0123456789abcdef.json''], snd ?R)" by (cases ?R) simp
  from saved_index_loads [OF this, of demo_py "\<lambda>_. Inl IndexTypeError" "[]"] show ?thesis by (simp add: demo_index_def)
qed

end
