(* ===== verification/Container.thy ===== *)
theory Container
  imports ContainerPolicy BoundedProcess RepositoryIndex
begin

text \<open>
  \<open>pyfixagent/sandbox/container_sandbox.py\<close>, second part, and \<open>factory.py\<close>: the command line of a
  container, the check that the runtime is there, the execution of a command under the bounds of
  the policy, and the choice of a sandbox by the configuration.
\<close>

section \<open>The command line\<close>

definition container_command :: "pystr list \<Rightarrow> pystr list" where
  "container_command command = (case command of
     [] \<Rightarrow> []
   | exe # args \<Rightarrow>
       (let e = lower (path_name exe) in
        (if e \<in> {''python.exe'', ''python3.exe''} then removesuffix e ''.exe''
         else if e = ''pytest.exe'' then ''pytest'' else e) # args))"

definition is_dependency_install :: "pystr list \<Rightarrow> bool" where
  "is_dependency_install command =
     (let lowered = map (\<lambda>p. lower (path_name p)) command in
      if lowered = [] then False
      else if hd lowered \<in> {''pip'', ''pip.exe'', ''pip3'', ''pip3.exe'', ''poetry'', ''uv''} then True
      else length lowered \<ge> 3 \<and> hd lowered \<in> {''python'', ''python.exe'', ''python3'', ''python3.exe''}
        \<and> take 2 (drop 1 lowered) = [''-m'', ''pip''])"

definition runtime_options :: "container_policy \<Rightarrow> pystr \<Rightarrow> pystr \<Rightarrow> pystr list" where
  "runtime_options p workspace container_name =
     [cp_engine p, ''run'', ''--rm'', ''--name'', container_name, ''--init'', ''--stop-timeout'', ''1'',
      ''--pull'', cp_pull_policy p, ''--workdir'', ''/workspace'',
      ''--mount'', ''type=bind,source='' @ workspace @ '',target=/workspace'',
      ''--network'', cp_network p, ''--ipc'', ''none'', ''--cpus'', cp_cpus p, ''--memory'', cp_memory p,
      ''--pids-limit'', str_int (cp_pids_limit p)]"

definition security_options :: "container_policy \<Rightarrow> pystr \<Rightarrow> pystr list" where
  "security_options p runtime_user =
     (let fsize = str_int (checked_size (cp_file_size_limit p)); nofile = str_int (cp_open_files_limit p) in
      [''--ulimit'', ''core=0:0'', ''--ulimit'', ''fsize='' @ fsize @ '':'' @ fsize,
       ''--ulimit'', ''nofile='' @ nofile @ '':'' @ nofile,
       ''--security-opt'', ''no-new-privileges:true'', ''--cap-drop'', ''ALL'', ''--user'', runtime_user,
       ''--env'', ''HOME=/tmp'', ''--env'', ''PYTHONDONTWRITEBYTECODE=1'', ''--env'', ''PYTHONPATH=/workspace''])"

definition userns_options :: "container_policy \<Rightarrow> pystr list" where
  "userns_options p =
     (if cp_engine p = ''podman'' \<and> cp_user p = ''workspace_owner'' then [''--userns'', ''keep-id''] else [])"

definition root_options :: "container_policy \<Rightarrow> pystr list" where
  "root_options p =
     (if cp_read_only_root p
      then [''--read-only'', ''--tmpfs'', ''/tmp:rw,noexec,nosuid,nodev,size='' @ cp_tmpfs_size p] else [])"

definition build_runtime_command ::
    "container_policy \<Rightarrow> pystr list \<Rightarrow> pystr \<Rightarrow> pystr \<Rightarrow> pystr \<Rightarrow> pystr list" where
  "build_runtime_command p command workspace container_name runtime_user =
     runtime_options p workspace container_name @ security_options p runtime_user
     @ userns_options p @ root_options p @ [cp_image p] @ container_command command"

section \<open>The runtime\<close>

text \<open>
  The system outside: \<open>shutil.which\<close>, \<open>subprocess.run\<close> with a timeout, a fresh name, the owner and
  the entries of a directory, and the processes of \<open>BoundedProcess\<close>.
\<close>

record 'w container_system =
  cn_which :: "'w \<Rightarrow> pystr \<Rightarrow> bool"
  cn_run :: "'w \<Rightarrow> pystr list \<Rightarrow> int \<Rightarrow> proc \<times> 'w"
  cn_uuid :: "'w \<Rightarrow> pystr \<times> 'w"
  cn_posix :: bool
  cn_owner :: "'w \<Rightarrow> pystr \<Rightarrow> int \<times> int"
  cn_entries :: "'w \<Rightarrow> pystr \<Rightarrow> directory"
  cn_resolve :: "'w \<Rightarrow> pystr \<Rightarrow> pystr"
  cn_is_dir :: "'w \<Rightarrow> pystr \<Rightarrow> bool"
  cn_decode :: "octets \<Rightarrow> pystr"
  cn_processes :: "'w process_system"

record runtime_metadata =
  rm_engine :: pystr
  rm_engine_available :: bool
  rm_server_version :: "pystr option"
  rm_image_requested :: pystr
  rm_image_resolved :: json
  rm_image_id :: json

record container_sandbox =
  cs_workspace :: pystr
  cs_timeout_seconds :: int
  cs_policy :: container_policy
  cs_runtime_metadata :: "runtime_metadata option"
  cs_runtime_ready :: "bool option"

definition container_sandbox_init :: "pystr \<Rightarrow> int \<Rightarrow> container_policy \<Rightarrow> container_sandbox" where
  "container_sandbox_init workspace timeout p =
     \<lparr>cs_workspace = workspace, cs_timeout_seconds = max 1 timeout, cs_policy = p,
      cs_runtime_metadata = None, cs_runtime_ready = None\<rparr>"

definition container_with_workspace :: "container_sandbox \<Rightarrow> pystr \<Rightarrow> container_sandbox" where
  "container_with_workspace cs workspace =
     (container_sandbox_init workspace (cs_timeout_seconds cs) (cs_policy cs))
       \<lparr>cs_runtime_metadata := cs_runtime_metadata cs, cs_runtime_ready := cs_runtime_ready cs\<rparr>"

definition container_basetemp :: "container_sandbox \<Rightarrow> pystr \<Rightarrow> nat \<Rightarrow> pystr" where
  "container_basetemp cs host_root i = ''/tmp/pyfixagent-pytest-'' @ str_nat i"

definition validate_container_command :: "pystr list \<Rightarrow> pystr option" where
  "validate_container_command command =
     (case is_command_allowed command of
        (False, reason) \<Rightarrow> Some (or_else reason ''command is not allowed'')
      | (True, _) \<Rightarrow>
          (if is_dependency_install command
           then Some ''runtime dependency installation is blocked by the image_only policy'' else None))"

definition runtime_metadata_of :: "container_policy \<Rightarrow> pystr option \<Rightarrow> runtime_metadata" where
  "runtime_metadata_of p version =
     \<lparr>rm_engine = cp_engine p, rm_engine_available = (version \<noteq> None), rm_server_version = version,
      rm_image_requested = cp_image p, rm_image_resolved = JNull, rm_image_id = JNull\<rparr>"

definition set_runtime :: "pystr option \<Rightarrow> container_sandbox \<Rightarrow> container_sandbox" where
  "set_runtime version cs =
     cs\<lparr>cs_runtime_ready := Some (version \<noteq> None),
        cs_runtime_metadata := Some (runtime_metadata_of (cs_policy cs) version)\<rparr>"

definition version_command :: "container_policy \<Rightarrow> pystr list" where
  "version_command p = [cp_engine p, ''version'', ''--format'', ''{{.Server.Version}}'']"

text \<open>The answer is remembered; a remembered failure has lost its message.\<close>

definition preflight_runtime ::
    "'w container_system \<Rightarrow> container_sandbox \<Rightarrow> int \<Rightarrow> 'w \<Rightarrow> (bool \<times> pystr option) \<times> container_sandbox \<times> 'w" where
  "preflight_runtime cn cs command_timeout w =
     (case cs_runtime_ready cs of
        Some True \<Rightarrow> ((True, None), cs, w)
      | Some False \<Rightarrow> ((False, Some ''container runtime daemon is unavailable''), cs, w)
      | None \<Rightarrow>
          (case cn_run cn w (version_command (cs_policy cs)) (min 10 command_timeout) of
             (TimedOut m, w') \<Rightarrow> ((False, Some ''container runtime daemon preflight timed out''), set_runtime None cs, w')
           | (Unstarted m, w') \<Rightarrow>
               ((False, Some (''container runtime daemon preflight failed: '' @ m)), set_runtime None cs, w')
           | (Completed rc out err, w') \<Rightarrow>
               (if rc = 0 \<and> strip out \<noteq> [] then ((True, None), set_runtime (Some (strip out)) cs, w')
                else ((False, Some (or_text (strip err) ''container runtime daemon is unavailable'')),
                  set_runtime None cs, w'))))"

definition runtime_error ::
    "'w container_system \<Rightarrow> container_sandbox \<Rightarrow> int \<Rightarrow> 'w \<Rightarrow> pystr option \<times> container_sandbox \<times> 'w" where
  "runtime_error cn cs timeout w =
     (if \<not> cn_which cn w (cp_engine (cs_policy cs))
      then (Some (''container runtime is not installed or not on PATH: '' @ cp_engine (cs_policy cs)), cs, w)
      else (case preflight_runtime cn cs timeout w of
         ((True, _), cs', w') \<Rightarrow> (None, cs', w')
       | ((False, e), cs', w') \<Rightarrow> (Some (or_else e ''container runtime daemon is unavailable''), cs', w')))"

section \<open>The execution\<close>

definition infrastructure_result :: "pystr list \<Rightarrow> int \<Rightarrow> pystr \<Rightarrow> pystr list \<Rightarrow> command_result" where
  "infrastructure_result command rc e runtime_command =
     (command_result_of ''container'' command rc (Str []) (Str e))
       \<lparr>cr_infrastructure_error := True, cr_runtime_command := runtime_command\<rparr>"

record run_context =
  rc_command :: "pystr list"
  rc_timeout_seconds :: int
  rc_workspace :: pystr
  rc_runtime_user :: pystr
  rc_container_name :: pystr

definition prepare_run_context ::
    "'w container_system \<Rightarrow> container_sandbox \<Rightarrow> pystr list \<Rightarrow> int \<Rightarrow> 'w
      \<Rightarrow> (command_result + run_context) \<times> container_sandbox \<times> 'w" where
  "prepare_run_context cn cs command timeout w =
     (case runtime_error cn cs timeout w of
        (Some e, cs', w') \<Rightarrow>
          (Inl (infrastructure_result command (if contains e ''not installed'' then 127 else 125) e []), cs', w')
      | (None, cs', w') \<Rightarrow>
          (let workspace = cn_resolve cn w' (cs_workspace cs') in
           if \<not> cn_is_dir cn w' workspace
           then (Inl (infrastructure_result command 1 (''container workspace does not exist: '' @ workspace) []), cs', w')
           else (case resolve_runtime_user (cn_posix cn) (cn_owner cn w' workspace) (cp_user (cs_policy cs')) of
              Inl e \<Rightarrow> (Inl (infrastructure_result command 125 (exn_message e) []), cs', w')
            | Inr user \<Rightarrow>
                (case cn_uuid cn w' of (hex, w'') \<Rightarrow>
                   (Inr \<lparr>rc_command = command, rc_timeout_seconds = timeout, rc_workspace = workspace,
                      rc_runtime_user = user, rc_container_name = ''pyfixagent-'' @ take 12 hex\<rparr>, cs', w'')))))"

definition force_remove :: "'w container_system \<Rightarrow> container_policy \<Rightarrow> pystr \<Rightarrow> 'w \<Rightarrow> 'w" where
  "force_remove cn p container_name w = snd (cn_run cn w [cp_engine p, ''rm'', ''--force'', container_name] 10)"

text \<open>The budget changes in its checks, so the processes run over a world that carries it.\<close>

definition with_budget :: "'w process_system \<Rightarrow> ('w \<times> 'b) process_system" where
  "with_budget ps =
     \<lparr>ps_start = \<lambda>c (w, b). (case ps_start ps c w of (e, w') \<Rightarrow> (e, (w', b))),
      ps_poll = \<lambda>(w, b). (case ps_poll ps w of (c, w') \<Rightarrow> (c, (w', b))),
      ps_wait = \<lambda>d (w, b). (case ps_wait ps d w of (c, w') \<Rightarrow> (c, (w', b))),
      ps_tick = \<lambda>(w, b). (case ps_tick ps w of (d, w') \<Rightarrow> (d, (w', b))),
      ps_join = \<lambda>(w, b). (ps_join ps w, b), ps_kill = \<lambda>(w, b). (ps_kill ps w, b),
      ps_chunks = \<lambda>(w, b). ps_chunks ps w\<rparr>"

definition budget_policy :: "'w container_system \<Rightarrow> pystr \<Rightarrow> ('w \<times> workspace_budget) policy_check" where
  "budget_policy cn workspace =
     Some (\<lambda>clock (w, b). case budget_check clock (cn_entries cn w workspace) b of (v, b') \<Rightarrow> (v, (w, b')))"

definition container_result ::
    "run_context \<Rightarrow> pystr list \<Rightarrow> bounded_result \<Rightarrow> pystr option \<Rightarrow> command_result" where
  "container_result ctx runtime_command result final =
     (let violation = (if truthy (br_policy_violation result) then br_policy_violation result
            else if br_timed_out result then None else final);
          e1 = (if br_timed_out result \<and> br_stderr result = []
            then ''container command timed out after '' @ str_int (rc_timeout_seconds ctx) @ ''s'' else br_stderr result);
          e2 = (if truthy violation
            then lstrip (rstrip e1 @ [nl] @ ''sandbox policy violation: '' @ the violation) else e1) in
      \<lparr>cr_command = rc_command ctx, cr_exit_code = (if truthy violation then 125 else br_exit_code result),
       cr_stdout = Str (br_stdout result), cr_stderr = Str e2, cr_duration = ''0.00'', cr_timeout = br_timed_out result,
       cr_backend = ''container'', cr_runtime_command = runtime_command,
       cr_infrastructure_error = (br_exit_code result \<in> {125, 126, 127} \<or> violation \<noteq> None),
       cr_output_truncated = br_output_truncated result, cr_policy_violation = violation\<rparr>)"

definition execute_context ::
    "'w container_system \<Rightarrow> container_policy \<Rightarrow> run_context \<Rightarrow> 'w \<Rightarrow> command_result \<times> 'w" where
  "execute_context cn p ctx w =
     (let runtime_command = build_runtime_command p (rc_command ctx) (rc_workspace ctx) (rc_container_name ctx)
            (rc_runtime_user ctx);
          budget = budget_from_policy (cn_entries cn w (rc_workspace ctx)) (cp_workspace_write_limit p) in
      case run_bounded_process (cn_decode cn) (with_budget (cn_processes cn)) runtime_command (rc_timeout_seconds ctx)
          (checked_size (cp_output_limit p)) (budget_policy cn (rc_workspace ctx))
          (Some (\<lambda>(w, b). (force_remove cn p (rc_container_name ctx) w, b))) 100 (w, budget) of
        (Inl e, (w', b)) \<Rightarrow>
          (infrastructure_result (rc_command ctx) 1 (''failed to run container command: '' @ exn_message e) runtime_command, w')
      | (Inr result, (w', b)) \<Rightarrow>
          (container_result ctx runtime_command result (budget_violation (cn_entries cn w' (rc_workspace ctx)) b), w'))"

definition container_run ::
    "'w container_system \<Rightarrow> container_sandbox \<Rightarrow> pystr list \<Rightarrow> 'w \<Rightarrow> command_result \<times> container_sandbox \<times> 'w" where
  "container_run cn cs command w =
     (let timeout = max 1 (cs_timeout_seconds cs) in
      case validate_container_command command of
        Some e \<Rightarrow> (infrastructure_result command 126 e [], cs, w)
      | None \<Rightarrow>
          (case prepare_run_context cn cs command timeout w of
             (Inl r, cs', w') \<Rightarrow> (r, cs', w')
           | (Inr ctx, cs', w') \<Rightarrow>
               (case execute_context cn (cs_policy cs') ctx w' of (r, w'') \<Rightarrow> (r, cs', w''))))"

section \<open>The report on the runtime\<close>

definition best_effort_output :: "'w container_system \<Rightarrow> pystr list \<Rightarrow> 'w \<Rightarrow> pystr \<times> 'w" where
  "best_effort_output cn command w =
     (case cn_run cn w command 10 of
        (Completed rc out err, w') \<Rightarrow> (if rc = 0 then strip out else [], w')
      | (_, w') \<Rightarrow> ([], w'))"

text \<open>
  The digest of the image out of the JSON of \<open>image inspect\<close>: the first of the digests, otherwise
  the identity. \<^const>\<open>None\<close> is the exception of a value that has no \<open>get\<close> or no item 0.
\<close>

definition image_identity :: "pyvals \<Rightarrow> json \<Rightarrow> (json \<times> json) option" where
  "image_identity py data = (case data of
     JObj d \<Rightarrow>
       (let image_id = jget_or d ''Id'' JNull; digests = jget_or d ''RepoDigests'' JNull in
        if \<not> json_truthy py digests then Some (image_id, image_id)
        else (case digests of
           JArr (x # _) \<Rightarrow> Some (x, image_id)
         | JStr (c # _) \<Rightarrow> Some (JStr [c], image_id)
         | _ \<Rightarrow> None))
   | _ \<Rightarrow> None)"

definition inspect_command :: "container_policy \<Rightarrow> pystr list" where
  "inspect_command p = [cp_engine p, ''image'', ''inspect'', ''--format'', ''{{json .}}'', cp_image p]"

definition inspect_runtime ::
    "pyvals \<Rightarrow> 'w container_system \<Rightarrow> container_policy \<Rightarrow> 'w \<Rightarrow> runtime_metadata option \<times> 'w" where
  "inspect_runtime py cn p w =
     (if \<not> cn_which cn w (cp_engine p) then (Some (runtime_metadata_of p None), w)
      else (case best_effort_output cn (version_command p) w of (version, w1) \<Rightarrow>
           (case best_effort_output cn (inspect_command p) w1 of (image_json, w2) \<Rightarrow>
             (let found = (if image_json = [] then Some (JNull, JNull)
                else image_identity py (case json_loads image_json of Some d \<Rightarrow> d | None \<Rightarrow> JObj [])) in
              (map_option (\<lambda>(resolved, image_id).
                 (runtime_metadata_of p (if version = [] then None else Some version))
                   \<lparr>rm_image_resolved := resolved, rm_image_id := image_id\<rparr>) found, w2)))))"

definition metadata_stale :: "container_sandbox \<Rightarrow> bool" where
  "metadata_stale cs = (case cs_runtime_metadata cs of
     None \<Rightarrow> True
   | Some m \<Rightarrow> cs_runtime_ready cs = Some True \<and> rm_image_resolved m = JNull)"

definition policy_dict :: "container_policy \<Rightarrow> json" where
  "policy_dict p = JObj [(''engine'', JStr (cp_engine p)), (''image'', JStr (cp_image p)),
     (''pull_policy'', JStr (cp_pull_policy p)), (''network'', JStr (cp_network p)), (''cpus'', JFloat (cp_cpus p)),
     (''memory'', JStr (cp_memory p)), (''pids_limit'', JInt (cp_pids_limit p)),
     (''read_only_root'', JBool (cp_read_only_root p)), (''tmpfs_size'', JStr (cp_tmpfs_size p)),
     (''output_limit'', JStr (cp_output_limit p)), (''workspace_write_limit'', JStr (cp_workspace_write_limit p)),
     (''file_size_limit'', JStr (cp_file_size_limit p)), (''open_files_limit'', JInt (cp_open_files_limit p)),
     (''user'', JStr (cp_user p)), (''dependency_policy'', JStr (cp_dependency_policy p))]"

definition environment_dict :: "container_sandbox \<Rightarrow> (pystr \<times> json) list" where
  "environment_dict cs =
     (let p = cs_policy cs in
      [(''backend'', JStr ''container''), (''isolation'', JStr ''ephemeral_container''),
       (''timeout_seconds'', JInt (cs_timeout_seconds cs)), (''workspace_mount'', JStr ''rw:/workspace''),
       (''root_filesystem'', JStr (if cp_read_only_root p then ''read_only'' else ''writable'')),
       (''network'', JStr (cp_network p)), (''dependency_policy'', JStr (cp_dependency_policy p)),
       (''policy'', policy_dict p)])"

definition container_environment ::
    "pyvals \<Rightarrow> 'w container_system \<Rightarrow> container_sandbox \<Rightarrow> 'w
      \<Rightarrow> ((pystr \<times> json) list \<times> runtime_metadata) option \<times> container_sandbox \<times> 'w" where
  "container_environment py cn cs w =
     (if metadata_stale cs
      then (case inspect_runtime py cn (cs_policy cs) w of
         (None, w') \<Rightarrow> (None, cs, w')
       | (Some m, w') \<Rightarrow> (Some (environment_dict cs, m), cs\<lparr>cs_runtime_metadata := Some m\<rparr>, w'))
      else (map_option (Pair (environment_dict cs)) (cs_runtime_metadata cs), cs, w))"

section \<open>The choice of a sandbox\<close>

text \<open>
  The conversions of numbers in a configuration: \<open>int\<close> of a float or a text, \<open>float\<close> of a value,
  with its spelling as the result, and whether a float is positive.
\<close>

record number_ops =
  nm_int :: "json \<Rightarrow> index_error + int"
  nm_float :: "json \<Rightarrow> index_error + pystr"
  nm_positive :: "pystr \<Rightarrow> bool"

definition as_bool :: "pyvals \<Rightarrow> json \<Rightarrow> bool" where
  "as_bool py v = (case v of
     JBool b \<Rightarrow> b
   | JStr s \<Rightarrow> lower (strip s) \<in> {''1'', ''true'', ''yes'', ''on''}
   | _ \<Rightarrow> json_truthy py v)"

definition policy_of_config ::
    "pyvals \<Rightarrow> number_ops \<Rightarrow> (pystr \<times> json) list \<Rightarrow> pystr option \<Rightarrow> index_error + container_policy" where
  "policy_of_config py num d image_override =
     (let text = (\<lambda>key default. json_str py (jget_or d key (JStr default))) in
      case nm_float num (jget_or d ''cpus'' (JFloat ''1.0'')) of
        Inl e \<Rightarrow> Inl e
      | Inr cpus \<Rightarrow>
          (case py_int (nm_int num) (jget_or d ''pids_limit'' (JInt 128)) of
             Inl e \<Rightarrow> Inl e
           | Inr pids \<Rightarrow>
               (case py_int (nm_int num) (jget_or d ''open_files_limit'' (JInt 1024)) of
                  Inl e \<Rightarrow> Inl e
                | Inr open_files \<Rightarrow>
                    (let p = \<lparr>cp_engine = text ''engine'' ''docker'',
                       cp_image = (if truthy image_override then the image_override
                         else text ''image'' ''pyfixagent-runner:0.7.2''),
                       cp_pull_policy = text ''pull_policy'' ''never'', cp_network = text ''network'' ''none'',
                       cp_cpus = cpus, cp_memory = text ''memory'' ''1g'', cp_pids_limit = pids,
                       cp_read_only_root = as_bool py (jget_or d ''read_only_root'' (JBool True)),
                       cp_tmpfs_size = text ''tmpfs_size'' ''128m'', cp_output_limit = text ''output_limit'' ''4m'',
                       cp_workspace_write_limit = text ''workspace_write_limit'' ''256m'',
                       cp_file_size_limit = text ''file_size_limit'' ''64m'', cp_open_files_limit = open_files,
                       cp_user = text ''user'' ''workspace_owner'',
                       cp_dependency_policy = text ''dependency_policy'' ''image_only''\<rparr> in
                     case policy_error (nm_positive num) p of
                       Some e \<Rightarrow> Inl (IndexValueError e)
                     | None \<Rightarrow> Inr p))))"

text \<open>
  A container section other than a mapping is refused; that \<open>dict\<close> accepts a list of pairs too
  is left out.
\<close>

definition build_sandbox ::
    "pyvals \<Rightarrow> number_ops \<Rightarrow> pystr \<Rightarrow> (pystr \<times> json) list \<Rightarrow> pystr option \<Rightarrow> pystr option
      \<Rightarrow> index_error + (local_sandbox + container_sandbox)" where
  "build_sandbox py num workspace config backend_override image_override =
     (let backend = lower (strip (if truthy backend_override then the backend_override
            else json_str py (jget_or config ''backend'' (JStr ''container'')))) in
      if backend \<notin> {''local'', ''container''}
      then Inl (IndexValueError ''sandbox backend must be one of: container, local'')
      else (case py_int (nm_int num) (jget_or config ''timeout_seconds'' (JInt 30)) of
         Inl e \<Rightarrow> Inl e
       | Inr t \<Rightarrow>
           (if backend = ''local'' then Inr (Inl \<lparr>ls_workspace = workspace, ls_timeout_seconds = max 1 t\<rparr>)
            else (let section_value = jget_or config ''container'' (JObj []) in
              case (if json_truthy py section_value then section_value else JObj []) of
                JObj d \<Rightarrow> map_sum id (\<lambda>p. Inr (container_sandbox_init workspace (max 1 t) p))
                  (policy_of_config py num d image_override)
              | _ \<Rightarrow> Inl IndexTypeError))))"

section \<open>The container as a sandbox\<close>

definition container_ops :: "'w container_system \<Rightarrow> (container_sandbox, 'w) sandbox_ops" where
  "container_ops cn = \<lparr>sb_run = container_run cn, sb_with_workspace = container_with_workspace,
     sb_workspace = cs_workspace, sb_basetemp = container_basetemp\<rparr>"

lemma infrastructure_result_fields [simp]:
  "cr_exit_code (infrastructure_result c rc e l) = rc" "cr_infrastructure_error (infrastructure_result c rc e l)"
  by (simp_all add: infrastructure_result_def command_result_of_def)

lemma preflight_policy: "preflight_runtime cn cs t w = (r, cs', w') \<Longrightarrow>
    cs_policy cs' = cs_policy cs \<and> cs_workspace cs' = cs_workspace cs \<and> cs_timeout_seconds cs' = cs_timeout_seconds cs"
  by (auto simp: preflight_runtime_def set_runtime_def split: option.splits bool.splits prod.splits proc.splits if_splits)

lemma runtime_error_policy: "runtime_error cn cs t w = (r, cs', w') \<Longrightarrow>
    cs_policy cs' = cs_policy cs \<and> cs_workspace cs' = cs_workspace cs \<and> cs_timeout_seconds cs' = cs_timeout_seconds cs"
  by (auto simp: runtime_error_def split: option.splits bool.splits prod.splits if_splits dest: preflight_policy)

lemma prepare_policy:
  assumes "prepare_run_context cn cs c t w = (r, cs', w')"
  shows "cs_policy cs' = cs_policy cs \<and> cs_workspace cs' = cs_workspace cs"
    and "r = Inl res \<Longrightarrow> cr_exit_code res \<noteq> 0"
    and "r = Inr ctx \<Longrightarrow> rc_command ctx = c \<and> rc_timeout_seconds ctx = t
      \<and> (\<exists>owner. resolve_runtime_user (cn_posix cn) owner (cp_user (cs_policy cs)) = Inr (rc_runtime_user ctx))"
proof -
  obtain e cs1 w1 where e: "runtime_error cn cs t w = (e, cs1, w1)" using prod_cases3 by blast
  from runtime_error_policy [OF e] assms e
  show "cs_policy cs' = cs_policy cs \<and> cs_workspace cs' = cs_workspace cs"
    "r = Inl res \<Longrightarrow> cr_exit_code res \<noteq> 0"
    "r = Inr ctx \<Longrightarrow> rc_command ctx = c \<and> rc_timeout_seconds ctx = t
      \<and> (\<exists>owner. resolve_runtime_user (cn_posix cn) owner (cp_user (cs_policy cs)) = Inr (rc_runtime_user ctx))"
    by (auto simp: prepare_run_context_def Let_def simp del: split_paired_Ex
        split: option.splits if_splits sum.splits prod.splits)
qed

lemma container_result_success:
  "cr_exit_code (container_result ctx l result final) = 0 \<Longrightarrow> br_timed_out result \<longrightarrow> br_exit_code result = 124 \<Longrightarrow>
     clean_success (container_result ctx l result final) \<and> \<not> br_timed_out result \<and> final = None \<or> final = Some []"
  by (cases final) (auto simp: container_result_def clean_success_def truthy_def Let_def split: if_splits)

lemma budget_violation_text: "budget_violation d b \<noteq> Some []"
  by (simp add: budget_violation_def)

lemma execute_cases:
  assumes "execute_context cn p ctx w = (r, w')"
  obtains e l where "r = infrastructure_result (rc_command ctx) 1 e l"
  | l result b where "r = container_result ctx l result (budget_violation (cn_entries cn w' (rc_workspace ctx)) b)"
    "br_timed_out result \<longrightarrow> br_exit_code result = 124"
    "run_bounded_process (cn_decode cn) (with_budget (cn_processes cn))
       (build_runtime_command p (rc_command ctx) (rc_workspace ctx) (rc_container_name ctx) (rc_runtime_user ctx))
       (rc_timeout_seconds ctx) (checked_size (cp_output_limit p)) (budget_policy cn (rc_workspace ctx))
       (Some (\<lambda>(w, b). (force_remove cn p (rc_container_name ctx) w, b))) 100
       (w, budget_from_policy (cn_entries cn w (rc_workspace ctx)) (cp_workspace_write_limit p)) = (Inr result, (w', b))"
proof -
  let ?run = "run_bounded_process (cn_decode cn) (with_budget (cn_processes cn))
       (build_runtime_command p (rc_command ctx) (rc_workspace ctx) (rc_container_name ctx) (rc_runtime_user ctx))
       (rc_timeout_seconds ctx) (checked_size (cp_output_limit p)) (budget_policy cn (rc_workspace ctx))
       (Some (\<lambda>(w, b). (force_remove cn p (rc_container_name ctx) w, b))) 100
       (w, budget_from_policy (cn_entries cn w (rc_workspace ctx)) (cp_workspace_write_limit p))"
  obtain x w1 b where run: "?run = (x, (w1, b))" using prod_cases3 by blast
  show thesis
  proof (cases x)
    case (Inl e)
    have "r = infrastructure_result (rc_command ctx) 1 (''failed to run container command: '' @ exn_message e)
        (build_runtime_command p (rc_command ctx) (rc_workspace ctx) (rc_container_name ctx) (rc_runtime_user ctx))"
      using assms run Inl by (auto simp: execute_context_def Let_def)
    then show thesis by (rule that(1))
  next
    case (Inr result)
    have "br_timed_out result \<longrightarrow> br_exit_code result = 124"
      by (rule run_bounded_cases [OF run [unfolded Inr]]) (use finish_result in fastforce)
    moreover have "r = container_result ctx (build_runtime_command p (rc_command ctx) (rc_workspace ctx) (rc_container_name ctx)
        (rc_runtime_user ctx)) result (budget_violation (cn_entries cn w' (rc_workspace ctx)) b) \<and> w1 = w'"
      using assms run Inr by (auto simp: execute_context_def Let_def)
    ultimately show thesis using run Inr by (intro that(2)) auto
  qed
qed

lemma container_run_forbidden:
  "\<not> fst (is_command_allowed c) \<Longrightarrow> container_run cn cs c w = (r, cs', w') \<Longrightarrow>
     cs' = cs \<and> w' = w \<and> cr_exit_code r = 126 \<and> cr_infrastructure_error r"
  by (cases "is_command_allowed c") (auto simp: container_run_def validate_container_command_def)

lemma container_run_cases:
  assumes "container_run cn cs c w = (r, cs', w')" and "cr_exit_code r = 0"
  obtains ctx w1 where "validate_container_command c = None"
    "prepare_run_context cn cs c (max 1 (cs_timeout_seconds cs)) w = (Inr ctx, cs', w1)"
    "execute_context cn (cs_policy cs') ctx w1 = (r, w')"
proof (cases "validate_container_command c")
  case None
  obtain x cs1 w1 where x: "prepare_run_context cn cs c (max 1 (cs_timeout_seconds cs)) w = (x, cs1, w1)" using prod_cases3 by blast
  show thesis
  proof (cases x)
    case (Inl res)
    with prepare_policy(2) [OF x] assms None x show thesis by (simp add: container_run_def)
  next
    case (Inr ctx)
    with assms None x that show thesis by (auto simp: container_run_def split: prod.splits)
  qed
qed (use assms in \<open>auto simp: container_run_def\<close>)

lemma container_run_success:
  assumes "container_run cn cs c w = (r, cs', w')" and "cr_exit_code r = 0"
  shows "clean_success r"
proof (rule container_run_cases [OF assms])
  fix ctx w1
  assume x: "execute_context cn (cs_policy cs') ctx w1 = (r, w')"
  show ?thesis
  proof (rule execute_cases [OF x])
    fix l result b
    assume r: "r = container_result ctx l result (budget_violation (cn_entries cn w' (rc_workspace ctx)) b)"
      and "br_timed_out result \<longrightarrow> br_exit_code result = 124"
    with container_result_success [OF assms(2) [unfolded r]] budget_violation_text show ?thesis by blast
  qed (use assms(2) in simp)
qed

lemma container_run_workspace: "container_run cn cs c w = (r, cs', w') \<Longrightarrow> cs_workspace cs' = cs_workspace cs"
  using prepare_policy(1) by (fastforce simp: container_run_def split: option.splits prod.splits sum.splits)

interpretation container: sandbox "container_ops cn" for cn
  by unfold_locales
    (auto simp: container_ops_def container_with_workspace_def container_sandbox_init_def
      dest: container_run_forbidden container_run_success container_run_workspace)

section \<open>Properties\<close>

lemma hd_append_ne: "xs \<noteq> [] \<Longrightarrow> hd (xs @ ys) = hd xs"
  by simp

lemma positive_str_nat: "0 < n \<Longrightarrow> positive_number (str_nat n)"
proof (induction n rule: str_nat.induct)
  case (1 n)
  have digits: "list_all is_digit (str_nat n)" by (auto simp: list_all_iff dest: str_nat_digits)
  have "hd (str_nat n) \<noteq> CHR ''0''"
  proof (cases "n < 10")
    case True
    with 1(2) show ?thesis using all_digits [of n] by (subst str_nat.simps) (auto simp: digit_char_def)
  next
    case False
    with 1 show ?thesis by (subst str_nat.simps) (simp add: positive_number_def)
  qed
  with digits show ?case by (simp add: positive_number_def)
qed

lemma split_char_first: "c \<notin> set s \<Longrightarrow> \<exists>rest. split_char c (s @ c # t) = s # rest"
  by (induction s) auto

text \<open>The user part of the option names no root.\<close>

definition user_part :: "pystr \<Rightarrow> pystr" where
  "user_part u = hd (split_char (CHR '':'') u)"

lemma runtime_user_positive:
  assumes "resolve_runtime_user posix owner configured = Inr u"
    and "configured = ''workspace_owner'' \<or> user_pattern configured"
  shows "positive_number (user_part u)"
proof (cases "configured = ''workspace_owner''")
  case False
  with assms have u: "u = configured" "user_pattern u" by (simp_all add: resolve_runtime_user_def)
  then show ?thesis by (cases "split_char (CHR '':'') u") (auto simp: user_pattern_def user_part_def Let_def split: if_splits)
next
  case owner: True
  have first: "hd (split_char (CHR '':'') (str_nat n @ CHR '':'' # t)) = str_nat n" for n t
  proof -
    have "CHR '':'' \<notin> set (str_nat n)" using str_nat_digits [of "CHR '':''" n] by auto
    from split_char_first [OF this, of t] show ?thesis by (metis list.sel(1))
  qed
  show ?thesis
  proof (cases posix)
    case False
    with owner assms(1) have "u = ''65534:65534''" by (simp add: resolve_runtime_user_def)
    then have "u = str_nat 65534 @ CHR '':'' # ''65534''" by (simp add: str_nat.simps digit_char_def)
    then show ?thesis using positive_str_nat [of 65534] first [of 65534] by (simp add: user_part_def)
  next
    case True
    with owner assms(1) obtain n t where "u = str_nat n @ CHR '':'' # t" "0 < n"
      by (auto simp: resolve_runtime_user_def str_int_def split: if_splits)
    then show ?thesis using positive_str_nat [of n] first [of n] by (simp add: user_part_def)
  qed
qed

lemma built_policy_checked: "build_sandbox py num ws config b i = Inr (Inr cs) \<Longrightarrow> policy_error (nm_positive num) (cs_policy cs) = None"
  by (auto simp: build_sandbox_def policy_of_config_def Let_def container_sandbox_init_def
      split: sum.splits if_splits option.splits json.splits)

text \<open>
  C14 Whatever the configuration, a container is confined: the options in front of the image
  drop all capabilities, forbid new privileges, mount the workspace, give no other network than
  none or the bridge, limit processes and memory, and name a user that is not root;
  and the image cannot be taken for an option, so that the arguments of the command follow it.
\<close>

theorem container_is_confined:
  assumes "build_sandbox py num ws config backend_override image_override = Inr (Inr cs)"
    and "prepare_run_context cn cs c t w = (Inr ctx, cs', w')"
  shows "\<exists>opts. build_runtime_command (cs_policy cs') (rc_command ctx) (rc_workspace ctx) (rc_container_name ctx)
        (rc_runtime_user ctx) = opts @ cp_image (cs_policy cs) # container_command c
    \<and> image_pattern (cp_image (cs_policy cs)) \<and> hd (cp_image (cs_policy cs)) \<noteq> CHR ''-''
    \<and> list_all (\<lambda>pair. sublist pair opts) [[''--cap-drop'', ''ALL''], [''--security-opt'', ''no-new-privileges:true''],
        [''--user'', rc_runtime_user ctx], [''--network'', cp_network (cs_policy cs)],
        [''--mount'', ''type=bind,source='' @ rc_workspace ctx @ '',target=/workspace''],
        [''--memory'', cp_memory (cs_policy cs)], [''--pids-limit'', str_int (cp_pids_limit (cs_policy cs))]]
    \<and> cp_network (cs_policy cs) \<in> {''none'', ''bridge''} \<and> positive_number (user_part (rc_runtime_user ctx))"
proof -
  note p = policy_checked [OF built_policy_checked [OF assms(1)]] and x = prepare_policy [OF assms(2)]
  then have user: "positive_number (user_part (rc_runtime_user ctx))" and c: "rc_command ctx = c"
    using runtime_user_positive by blast+
  let ?p = "cs_policy cs"
  let ?ro = "runtime_options ?p (rc_workspace ctx) (rc_container_name ctx)" and ?so = "security_options ?p (rc_runtime_user ctx)"
  let ?opts = "?ro @ ?so @ userns_options ?p @ root_options ?p"
  have in_ro: "sublist pair ?opts" if "sublist pair ?ro" for pair
    using that sublist_append by blast
  have in_so: "sublist pair ?opts" if "sublist pair ?so" for pair
    using that sublist_append by blast
  have "list_all (\<lambda>pair. sublist pair ?ro) [[''--network'', cp_network ?p],
      [''--mount'', ''type=bind,source='' @ rc_workspace ctx @ '',target=/workspace''],
      [''--memory'', cp_memory ?p], [''--pids-limit'', str_int (cp_pids_limit ?p)]]"
    by (simp add: runtime_options_def sublist_Cons_right)
  then have "list_all (\<lambda>pair. sublist pair ?opts) [[''--network'', cp_network ?p],
      [''--mount'', ''type=bind,source='' @ rc_workspace ctx @ '',target=/workspace''],
      [''--memory'', cp_memory ?p], [''--pids-limit'', str_int (cp_pids_limit ?p)]]"
    using in_ro by (rule list.pred_mono_strong)
  moreover have "list_all (\<lambda>pair. sublist pair ?so) [[''--cap-drop'', ''ALL''],
      [''--security-opt'', ''no-new-privileges:true''], [''--user'', rc_runtime_user ctx]]"
    by (simp add: security_options_def sublist_Cons_right Let_def)
  then have "list_all (\<lambda>pair. sublist pair ?opts) [[''--cap-drop'', ''ALL''],
      [''--security-opt'', ''no-new-privileges:true''], [''--user'', rc_runtime_user ctx]]"
    using in_so by (rule list.pred_mono_strong)
  moreover have "hd (cp_image ?p) \<noteq> CHR ''-''"
    using p by (auto simp: image_pattern_def image_start_def is_digit_def is_ascii_letter_def code_def)
  ultimately show ?thesis
    using p user x(1) by (intro exI [of _ ?opts]) (simp add: build_runtime_command_def c)
qed

lemma budget_kept:
  "keeps (\<lambda>(w, b). wb_limit b = n) (with_budget ps) (budget_policy cn ws) (Some (\<lambda>(w, b). (f w, b)))"
  by (auto simp: keeps_def with_budget_def budget_policy_def budget_check_def split: prod.splits if_splits)

text \<open>
  C15 A command that succeeds in a container was permitted, installed nothing, hit no timeout, no
  policy and no infrastructure error, and did not let the workspace grow by more than the limit
  of the policy.
\<close>

theorem container_success_within_budget:
  assumes "container_run cn cs c w = (r, cs', w')" and "cr_exit_code r = 0"
    and "policy_error positive (cs_policy cs) = None"
  shows "fst (is_command_allowed c) \<and> \<not> is_dependency_install c \<and> clean_success r
    \<and> (\<exists>ctx w1. prepare_run_context cn cs c (max 1 (cs_timeout_seconds cs)) w = (Inr ctx, cs', w1)
         \<and> int (directory_bytes (cn_entries cn w' (rc_workspace ctx)))
           \<le> int (directory_bytes (cn_entries cn w1 (rc_workspace ctx))) + checked_size (cp_workspace_write_limit (cs_policy cs)))"
proof (rule container_run_cases [OF assms(1,2)])
  fix ctx w1
  assume v: "validate_container_command c = None"
    and p: "prepare_run_context cn cs c (max 1 (cs_timeout_seconds cs)) w = (Inr ctx, cs', w1)"
    and x: "execute_context cn (cs_policy cs') ctx w1 = (r, w')"
  let ?limit = "cp_workspace_write_limit (cs_policy cs)"
  let ?b0 = "budget_from_policy (cn_entries cn w1 (rc_workspace ctx)) ?limit"
  note same = prepare_policy(1) [OF p]
  have limit: "size_pattern ?limit" using policy_checked [OF assms(3)] by blast
  have "int (directory_bytes (cn_entries cn w' (rc_workspace ctx)))
      \<le> int (directory_bytes (cn_entries cn w1 (rc_workspace ctx))) + checked_size ?limit"
  proof (rule execute_cases [OF x])
    fix l result b
    assume r: "r = container_result ctx l result (budget_violation (cn_entries cn w' (rc_workspace ctx)) b)"
      and t: "br_timed_out result \<longrightarrow> br_exit_code result = 124"
      and run: "run_bounded_process (cn_decode cn) (with_budget (cn_processes cn))
       (build_runtime_command (cs_policy cs') (rc_command ctx) (rc_workspace ctx) (rc_container_name ctx) (rc_runtime_user ctx))
       (rc_timeout_seconds ctx) (checked_size (cp_output_limit (cs_policy cs'))) (budget_policy cn (rc_workspace ctx))
       (Some (\<lambda>(w, b). (force_remove cn (cs_policy cs') (rc_container_name ctx) w, b))) 100
       (w1, budget_from_policy (cn_entries cn w1 (rc_workspace ctx)) (cp_workspace_write_limit (cs_policy cs'))) = (Inr result, (w', b))"
    have "wb_limit b = wb_limit ?b0"
      using run_bounded_keeps [OF budget_kept _ run] same by simp
    moreover have "budget_violation (cn_entries cn w' (rc_workspace ctx)) b = None"
      using container_result_success [OF assms(2) [unfolded r] t] budget_violation_text by blast
    ultimately have "budget_violation (cn_entries cn w' (rc_workspace ctx)) ?b0 = None"
      by (simp add: budget_violation_def split: if_splits)
    then show ?thesis
      using checked_size_pos [OF limit]
      by (auto simp: budget_violation_def budget_from_policy_def Let_def workspace_size_total workspace_size_stop not_less
          split: if_splits)
  qed (use assms(2) in simp)
  with v p container_run_success [OF assms(1,2)] show ?thesis
    by (cases "is_command_allowed c") (auto simp: validate_container_command_def split: bool.splits if_splits)
qed

text \<open>
  The verdict of a test run in containers is that of one on the host: it succeeds exactly when
  every configured command ran and exited with status 0, and then without a timeout, a violation
  or an infrastructure error.
\<close>

theorem container_tests_verdict:
  assumes "tr_ops tr = container_ops cn" and "tr_commands tr \<noteq> []" and "run_tests ws (tr, w) = (Inr t, (tr', w'))"
  shows "(te_success t \<longleftrightarrow> length (te_command_results t) = length (tr_commands tr)
        \<and> (\<forall>r\<in>set (te_command_results t). cr_exit_code r = 0))
    \<and> (te_success t \<longrightarrow> \<not> te_infrastructure_error t)
    \<and> tr_resolve tr w (cs_workspace (tr_sandbox tr')) = tr_resolve tr w ws"
  using container.run_tests_verdict [OF assms] by (simp add: container_ops_def)

section \<open>Witnesses\<close>

text \<open>A daemon that answers, and the process of the demonstration world.\<close>

definition demo_containers :: "(nat \<times> (stream \<times> octets) list) container_system" where
  "demo_containers = \<lparr>cn_which = \<lambda>w e. True, cn_run = \<lambda>w c t. (Completed 0 ''27.0'' [], w),
     cn_uuid = \<lambda>w. (''0123456789abcdef'', w), cn_posix = True, cn_owner = \<lambda>w p. (1000, 1000),
     cn_entries = \<lambda>w p. Some [RegularFile 100], cn_resolve = \<lambda>w p. p, cn_is_dir = \<lambda>w p. True,
     cn_decode = id, cn_processes = demo_process\<rparr>"

definition demo_numbers :: number_ops where
  "demo_numbers = \<lparr>nm_int = \<lambda>v. Inl IndexTypeError, nm_float = \<lambda>v. Inr ''1.0'', nm_positive = \<lambda>s. True\<rparr>"

definition demo_sandbox :: container_sandbox where
  "demo_sandbox = container_sandbox_init ''/w'' 2 (default_policy\<lparr>cp_pids_limit := 8, cp_file_size_limit := ''90'',
     cp_output_limit := ''60'', cp_open_files_limit := 32\<rparr>)"

definition demo_config :: "(pystr \<times> json) list" where
  "demo_config = [(''timeout_seconds'', JInt 2), (''container'', JObj [(''pids_limit'', JInt 8),
     (''file_size_limit'', JStr ''90''), (''output_limit'', JStr ''60''), (''open_files_limit'', JInt 32)])]"

lemma demo_build: "build_sandbox demo_py demo_numbers ''/w'' demo_config None None = Inr (Inr demo_sandbox)"
  by code_simp

theorem container_is_confined_witness:
  "\<exists>ctx. fst (prepare_run_context demo_containers demo_sandbox [''pytest''] 30 (3, [])) = Inr ctx
     \<and> positive_number (user_part (rc_runtime_user ctx))"
proof -
  let ?x = "prepare_run_context demo_containers demo_sandbox [''pytest''] 30 (3, [])"
  have "\<not> isl (fst ?x)" by code_simp
  then have x: "?x = (Inr (projr (fst ?x)), fst (snd ?x), snd (snd ?x))" by (simp add: prod_eq_iff)
  from container_is_confined [OF demo_build x] x show ?thesis by (metis fst_conv)
qed

theorem container_success_within_budget_witness:
  "clean_success (fst (container_run demo_containers demo_sandbox [''pytest''] (3, [])))"
proof -
  let ?x = "container_run demo_containers demo_sandbox [''pytest''] (3, [])"
  have x: "?x = (fst ?x, fst (snd ?x), snd (snd ?x))" by simp
  have "cr_exit_code (fst ?x) = 0" and "policy_error (\<lambda>s. True) (cs_policy demo_sandbox) = None" by code_simp+
  with container_success_within_budget [OF x] show ?thesis by blast
qed

definition demo_container_runner :: "(container_sandbox, nat \<times> (stream \<times> octets) list) test_runner" where
  "demo_container_runner = \<lparr>tr_ops = container_ops demo_containers, tr_sandbox = demo_sandbox,
     tr_commands = [[''pytest'']], tr_resolve = \<lambda>w p. p, tr_temporary_root = \<lambda>w. ''/tmp''\<rparr>"

theorem container_tests_verdict_witness:
  "te_success (projr (fst (run_tests ''/v'' (demo_container_runner, (3, [])))))
   \<and> cs_workspace (tr_sandbox (fst (snd (run_tests ''/v'' (demo_container_runner, (3, [])))))) = ''/v''"
proof -
  let ?r = "run_tests ''/v'' (demo_container_runner, (3, []))"
  have "\<not> isl (fst ?r)" and ok: "te_success (projr (fst ?r))" by code_simp+
  then have r: "?r = (Inr (projr (fst ?r)), (fst (snd ?r), snd (snd ?r)))"
    by (simp add: prod_eq_iff)
  have "tr_ops demo_container_runner = container_ops demo_containers" "tr_commands demo_container_runner \<noteq> []"
    "tr_resolve demo_container_runner = (\<lambda>w p. p)"
    by (simp_all add: demo_container_runner_def)
  with container_tests_verdict [OF this(1,2) r] ok show ?thesis by simp
qed

end
