(* ===== verification/PyRegex.thy ===== *)
theory PyRegex
  imports PyStr
begin

text \<open>
  Python's \<open>re\<close> for the expressions that the program uses: a backtracking matcher that lists
  the ways to match in the order in which \<open>re\<close> tries them, so that the first element is the
  match that \<open>re\<close> returns. Sets of characters are predicates; captures are numbered.
\<close>

section \<open>Expressions\<close>

datatype rx =
    Cls "char \<Rightarrow> bool"
  | Eps
  | Seq rx rx
  | Alt rx rx
  | Star rx
  | LazyStar rx
  | Group nat rx
  | WordBoundary
  | EndOfText

definition lit :: "pystr \<Rightarrow> rx" where
  "lit s = foldr (\<lambda>c. Seq (Cls ((=) c))) s Eps"

definition seqs :: "rx list \<Rightarrow> rx" where
  "seqs rs = foldr Seq rs Eps"

definition rx_plus :: "rx \<Rightarrow> rx" where "rx_plus r = Seq r (Star r)"
definition lazy_plus :: "rx \<Rightarrow> rx" where "lazy_plus r = Seq r (LazyStar r)"
definition rx_opt :: "rx \<Rightarrow> rx" where "rx_opt r = Alt r Eps"

fun alts :: "rx list \<Rightarrow> rx" where
  "alts [] = Eps"
| "alts [r] = r"
| "alts (r # rs) = Alt r (alts rs)"

section \<open>Matching\<close>

text \<open>The character before the position, the text after it, and the captures so far.\<close>

type_synonym rx_state = "char option \<times> pystr \<times> (nat \<times> pystr) list"

definition rx_rest :: "rx_state \<Rightarrow> pystr" where
  "rx_rest t = fst (snd t)"

fun rx_iter :: "bool \<Rightarrow> nat \<Rightarrow> (rx_state \<Rightarrow> rx_state list) \<Rightarrow> rx_state \<Rightarrow> rx_state list" where
  "rx_iter greedy 0 f s = [s]"
| "rx_iter greedy (Suc n) f s =
     (let more = concat (map (rx_iter greedy n f)
            (filter (\<lambda>t. length (rx_rest t) < length (rx_rest s)) (f s)))
      in if greedy then more @ [s] else s # more)"

definition at_boundary :: "rx_state \<Rightarrow> bool" where
  "at_boundary = (\<lambda>(prev, s, _).
     (case prev of None \<Rightarrow> False | Some c \<Rightarrow> is_word c) \<noteq> (s \<noteq> [] \<and> is_word (hd s)))"

primrec rx_run :: "rx \<Rightarrow> rx_state \<Rightarrow> rx_state list" where
  "rx_run (Cls P) = (\<lambda>(prev, s, caps). (case s of
      [] \<Rightarrow> [] | c # cs \<Rightarrow> (if P c then [(Some c, cs, caps)] else [])))"
| "rx_run Eps = (\<lambda>t. [t])"
| "rx_run (Seq r1 r2) = (\<lambda>t. concat (map (rx_run r2) (rx_run r1 t)))"
| "rx_run (Alt r1 r2) = (\<lambda>t. rx_run r1 t @ rx_run r2 t)"
| "rx_run (Star r) = (\<lambda>t. rx_iter True (length (rx_rest t)) (rx_run r) t)"
| "rx_run (LazyStar r) = (\<lambda>t. rx_iter False (length (rx_rest t)) (rx_run r) t)"
| "rx_run (Group i r) = (\<lambda>t. map (\<lambda>(prev, s, caps).
      (prev, s, (i, take (length (rx_rest t) - length s) (rx_rest t)) # caps)) (rx_run r t))"
| "rx_run WordBoundary = (\<lambda>t. if at_boundary t then [t] else [])"
| "rx_run EndOfText = (\<lambda>t. if rx_rest t = [] \<or> rx_rest t = [nl] then [t] else [])"

declare rx_run.simps(5,6) [simp del]

definition re_first :: "rx \<Rightarrow> char option \<Rightarrow> pystr \<Rightarrow> rx_state option" where
  "re_first r prev s = (case rx_run r (prev, s, []) of [] \<Rightarrow> None | t # _ \<Rightarrow> Some t)"

definition re_match :: "rx \<Rightarrow> pystr \<Rightarrow> rx_state option" where
  "re_match r s = re_first r None s"

fun re_search_from :: "rx \<Rightarrow> char option \<Rightarrow> pystr \<Rightarrow> rx_state option" where
  "re_search_from r prev [] = re_first r prev []"
| "re_search_from r prev (c # cs) =
     (case re_first r prev (c # cs) of Some t \<Rightarrow> Some t | None \<Rightarrow> re_search_from r (Some c) cs)"

definition re_search :: "rx \<Rightarrow> pystr \<Rightarrow> rx_state option" where
  "re_search r s = re_search_from r None s"

text \<open>
  \<open>finditer\<close> for expressions that match no empty text: every match consumes a character, so
  the length of the text bounds the number of rounds.
\<close>

fun re_findall_from :: "nat \<Rightarrow> rx \<Rightarrow> char option \<Rightarrow> pystr \<Rightarrow> rx_state list" where
  "re_findall_from 0 r prev s = []"
| "re_findall_from (Suc n) r prev s =
     (case re_search_from r prev s of
        None \<Rightarrow> []
      | Some (prev', s', caps) \<Rightarrow> (prev', s', caps) # re_findall_from n r prev' s')"

definition re_findall :: "rx \<Rightarrow> pystr \<Rightarrow> rx_state list" where
  "re_findall r s = re_findall_from (length s) r None s"

definition re_group :: "nat \<Rightarrow> rx_state \<Rightarrow> pystr option" where
  "re_group i t = map_of (snd (snd t)) i"

section \<open>Classes repeated\<close>

text \<open>A greedy run of a class matches the longest prefix first, then every shorter one.\<close>

definition last_opt :: "char option \<Rightarrow> pystr \<Rightarrow> char option" where
  "last_opt prev s = (if s = [] then prev else Some (last s))"

lemma last_opt_simps [simp]: "last_opt prev [] = prev" "last_opt prev (s @ [c]) = Some c"
  by (simp_all add: last_opt_def)

lemma last_opt_Cons [simp]: "last_opt prev (c # s) = last_opt (Some c) s"
  by (simp add: last_opt_def)

definition run_states :: "(char \<Rightarrow> bool) \<Rightarrow> rx_state \<Rightarrow> rx_state list" where
  "run_states P t = (case t of (prev, s, caps) \<Rightarrow>
     map (\<lambda>k. (last_opt prev (take k s), drop k s, caps)) (rev [0..<Suc (length (takeWhile P s))]))"

lemma rx_iter_class:
  "length s \<le> n \<Longrightarrow> rx_iter True n (rx_run (Cls P)) (prev, s, caps) = run_states P (prev, s, caps)"
proof (induction n arbitrary: s prev)
  case 0
  then show ?case by (simp add: run_states_def)
next
  case (Suc n)
  show ?case
  proof (cases s)
    case Nil
    then show ?thesis by (simp add: run_states_def rx_rest_def)
  next
    case (Cons c cs)
    show ?thesis
    proof (cases "P c")
      case False
      then show ?thesis using Cons by (simp add: run_states_def rx_rest_def)
    next
      case True
      have up: "rev [0..<Suc (Suc m)] = map Suc (rev [0..<Suc m]) @ [0]" for m
        by (simp only: upt_conv_Cons [of 0 "Suc (Suc m)"] map_Suc_upt [symmetric]) (simp add: rev_map)
      have "length cs \<le> n" using Suc.prems Cons by simp
      from Suc.IH [OF this, of "Some c"] True Cons show ?thesis
        by (simp add: rx_rest_def run_states_def up del: upt_Suc)
    qed
  qed
qed

lemma rx_run_Star_class [simp]: "rx_run (Star (Cls P)) t = run_states P t"
  using rx_iter_class by (cases t) (simp add: rx_run.simps(5) rx_rest_def)

lemma rx_run_plus_class:
  "rx_run (rx_plus (Cls P)) (prev, s, caps) =
     (case s of [] \<Rightarrow> [] | c # cs \<Rightarrow> (if P c then run_states P (Some c, cs, caps) else []))"
  by (simp add: rx_plus_def split: list.split)

lemma rx_run_lit:
  "rx_run (lit p) (prev, s, caps) =
     (if startswith s p then [(last_opt prev p, drop (length p) s, caps)] else [])"
proof (induction p arbitrary: prev s)
  case Nil
  then show ?case by (simp add: lit_def)
next
  case (Cons c p)
  have unfold: "lit (c # p) = Seq (Cls ((=) c)) (lit p)" by (simp add: lit_def)
  show ?case by (cases s) (auto simp: unfold Cons)
qed

lemma rx_run_seqs [simp]:
  "rx_run (seqs []) t = [t]"
  "rx_run (seqs (r # rs)) t = concat (map (rx_run (seqs rs)) (rx_run r t))"
  by (simp_all add: seqs_def)

text \<open>
  After a greedy run of \<open>P\<close> an expression that fails on every character of \<open>P\<close> can only
  match at the end of the run.
\<close>

lemma concat_map_run_states:
  assumes "\<And>prev c s. P c \<Longrightarrow> g (prev, c # s, caps) = []"
  shows "concat (map g (run_states P (prev, s, caps)))
    = g (last_opt prev (takeWhile P s), dropWhile P s, caps)"
proof -
  let ?m = "length (takeWhile P s)"
  have "g (last_opt prev (take k s), drop k s, caps) = []" if "k < ?m" for k
  proof -
    have "drop k s = s ! k # drop (Suc k) s"
      using that by (metis Cons_nth_drop_Suc length_takeWhile_le order_less_le_trans)
    moreover have "P (s ! k)" using that by (metis nth_mem set_takeWhileD takeWhile_nth)
    ultimately show ?thesis using assms by simp
  qed
  then have "concat (map (\<lambda>k. g (last_opt prev (take k s), drop k s, caps)) (rev [0..<?m])) = []"
    by simp
  then show ?thesis
    by (simp add: run_states_def o_def dropWhile_eq_drop takeWhile_eq_take [symmetric])
qed

end
