(* ===== verification/Redaction.thy ===== *)
theory Redaction
  imports PyDumps PyRegex Review
begin

text \<open>
  \<open>pyfixagent/trace_redaction.py\<close> and the audit of \<open>trace_viewer.py\<close>: a trace is a JSON value;
  redaction replaces local paths and, in safe mode, the fields that carry source code by a
  marker with a digest. The SHA-256 digest (\<open>hashlib\<close>) is the parameter \<open>sha\<close>.
\<close>

section \<open>Redaction\<close>

definition redaction_modes :: "pystr list" where
  "redaction_modes = [''none'', ''paths'', ''safe'']"

definition content_keys :: "pystr list" where
  "content_keys = [''task'', ''prompt'', ''raw_model_output'', ''cleaned_patch'', ''pytest_output'',
     ''test_output_before'', ''test_output_after'', ''patch'', ''candidate_patch'',
     ''replacement_raw_output'', ''generated_diff'']"

definition content_container_keys :: "pystr list" where
  "content_container_keys = [''model_output'', ''replacement_edits'']"

definition redactor_mode :: "pystr \<Rightarrow> exn + pystr" where
  "redactor_mode mode =
     (let normalized = lower (strip mode) in
      if normalized \<notin> set redaction_modes
      then Inl (ValueError (''trace redaction mode must be one of: '' @ join '', '' (sort redaction_modes)))
      else Inr normalized)"

text \<open>\<open>re.sub(re.escape(path), placeholder, text, flags=re.IGNORECASE)\<close>.\<close>

function replace_ci :: "pystr \<Rightarrow> pystr \<Rightarrow> pystr \<Rightarrow> pystr" where
  "replace_ci needle new s =
     (if s = [] then []
      else if needle \<noteq> [] \<and> startswith (lower s) (lower needle)
      then new @ replace_ci needle new (drop (length needle) s)
      else hd s # replace_ci needle new (tl s))"
  by pat_completeness auto
termination
  by (relation "measure (\<lambda>(n, r, s). length s)") auto

declare replace_ci.simps [simp del]

definition replace_paths :: "(pystr \<times> pystr) list \<Rightarrow> pystr \<Rightarrow> pystr" where
  "replace_paths rs value = fold (\<lambda>(path, placeholder) t. replace_ci path placeholder t) rs value"

definition content_marker :: "(pystr \<Rightarrow> pystr) \<Rightarrow> pystr \<Rightarrow> pystr" where
  "content_marker sha value =
     ''<redacted sha256='' @ take 16 (sha value) @ '' chars='' @ str_nat (length value) @ ''>''"

definition setdefault :: "'k \<Rightarrow> 'v \<Rightarrow> ('k \<times> 'v) list \<Rightarrow> ('k \<times> 'v) list" where
  "setdefault k v d = (if dict_get d k = None then d @ [(k, v)] else d)"

text \<open>
  \<open>workspace\<close> is the text of the workspace, if there is one; \<open>cwd\<close> and \<open>home\<close> are the resolved
  working and home directories. The sort is stable, longest path first.
\<close>

definition raw_replacements :: "(pystr \<Rightarrow> pystr) \<Rightarrow> pystr \<Rightarrow> pystr \<Rightarrow> pystr option \<Rightarrow> (pystr \<times> pystr) list" where
  "raw_replacements resolved cwd home workspace =
     (case workspace of
        Some ws \<Rightarrow> (if ws \<noteq> [] then [(ws, ''<workspace>''), (resolved ws, ''<workspace>'')] else [])
      | None \<Rightarrow> [])
     @ [(cwd, ''<project-root>''), (home, ''<home>'')]"

definition add_replacement :: "pystr \<times> pystr \<Rightarrow> (pystr \<times> pystr) list \<Rightarrow> (pystr \<times> pystr) list" where
  "add_replacement r d = (case r of (p, ph) \<Rightarrow>
     if p \<noteq> [] then setdefault (slashes p) ph (setdefault p ph d) else d)"

definition path_replacements :: "(pystr \<Rightarrow> pystr) \<Rightarrow> pystr \<Rightarrow> pystr \<Rightarrow> pystr option \<Rightarrow> (pystr \<times> pystr) list" where
  "path_replacements resolved cwd home workspace =
     sort_key (\<lambda>p. - int (length (fst p)))
       (fold add_replacement (raw_replacements resolved cwd home workspace) [])"

text \<open>What safe mode does with a value below the given key: the text whose marker replaces it.\<close>

definition concealed :: "pyvals \<Rightarrow> bool \<Rightarrow> pystr \<Rightarrow> json \<Rightarrow> pystr option" where
  "concealed py safe key v =
     (if safe \<and> key \<in> set content_keys \<and> (case v of JStr s \<Rightarrow> s \<noteq> [] | _ \<Rightarrow> False)
      then (case v of JStr s \<Rightarrow> Some s | _ \<Rightarrow> None)
      else if safe \<and> key \<in> set content_container_keys \<and> json_truthy py v
      then Some (json_dumps True False v)
      else None)"

function redact_value ::
    "(pystr \<Rightarrow> pystr) \<Rightarrow> pyvals \<Rightarrow> (pystr \<times> pystr) list \<Rightarrow> bool \<Rightarrow> pystr \<Rightarrow> json \<Rightarrow> json" where
  "redact_value sha py rs safe key v =
     (case concealed py safe key v of
        Some t \<Rightarrow> JStr (content_marker sha t)
      | None \<Rightarrow>
          (case v of
             JObj d \<Rightarrow> JObj (map (\<lambda>(k, x). (k, redact_value sha py rs safe k x)) d)
           | JArr xs \<Rightarrow> JArr (map (redact_value sha py rs safe key) xs)
           | JStr s \<Rightarrow> JStr (replace_paths rs s)
           | _ \<Rightarrow> v))"
  by pat_completeness auto
termination
  by (relation "measure (\<lambda>(h, p, r, s, k, v). size v)") (auto simp: json_item_size json_elem_size)

declare redact_value.simps [simp del]

text \<open>The keys that the redactor records, in the order of its walk.\<close>

function redacted_keys :: "pyvals \<Rightarrow> bool \<Rightarrow> pystr \<Rightarrow> json \<Rightarrow> pystr list" where
  "redacted_keys py safe key v =
     (case concealed py safe key v of
        Some t \<Rightarrow> [key]
      | None \<Rightarrow>
          (case v of
             JObj d \<Rightarrow> concat (map (\<lambda>(k, x). redacted_keys py safe k x) d)
           | JArr xs \<Rightarrow> concat (map (redacted_keys py safe key) xs)
           | _ \<Rightarrow> []))"
  by pat_completeness auto
termination
  by (relation "measure (\<lambda>(p, s, k, v). size v)") (auto simp: json_item_size json_elem_size)

declare redacted_keys.simps [simp del]

definition redact ::
    "(pystr \<Rightarrow> pystr) \<Rightarrow> pyvals \<Rightarrow> pystr \<Rightarrow> (pystr \<times> pystr) list \<Rightarrow> (pystr \<times> json) list \<Rightarrow> (pystr \<times> json) list" where
  "redact sha py mode rs trace =
     (if mode = ''none''
      then dict_set ''trace_redaction'' (JObj [(''mode'', JStr ''none''), (''redacted_fields'', JArr [])]) trace
      else
        (let safe = (mode = ''safe'');
             redacted = map (\<lambda>(k, x). (k, redact_value sha py rs safe k x)) trace;
             fields = concat (map (\<lambda>(k, x). redacted_keys py safe k x) trace)
         in dict_set ''trace_redaction''
              (JObj [(''mode'', JStr mode), (''redacted_fields'', JArr (map JStr (sort (remdups fields)))),
                     (''path_placeholder_count'', JInt (int (length rs)))]) redacted))"

section \<open>The audit\<close>

definition hex_digit :: "char \<Rightarrow> bool" where
  "hex_digit c \<longleftrightarrow> is_digit c \<or> (97 \<le> code c \<and> code c \<le> 102)"

definition redacted_marker_re :: rx where
  "redacted_marker_re = seqs [lit ''<redacted sha256='', seqs (replicate 16 (Cls hex_digit)), lit '' chars='',
     rx_plus (Cls is_digit), lit ''>'']"

definition re_fullmatch :: "rx \<Rightarrow> pystr \<Rightarrow> bool" where
  "re_fullmatch r s \<longleftrightarrow> list_ex (\<lambda>t. rx_rest t = []) (rx_run r (None, s, []))"

definition path_char :: "char \<Rightarrow> bool" where
  "path_char c \<longleftrightarrow> \<not> is_space c \<and> c \<notin> set [CHR 0x22, CHR 0x27, CHR ''<'', CHR ''>'']"

definition absolute_path_res :: "rx list" where
  "absolute_path_res =
     [Group 0 (seqs [WordBoundary, Cls is_ascii_letter, lit '':'', Cls (\<lambda>c. c = CHR 0x5C \<or> c = CHR ''/''), rx_plus (Cls path_char)]),
      Group 0 (seqs [lit ''/'', alts [lit ''Users'', lit ''home'', lit ''private/tmp'', lit ''var/folders''], lit ''/'',
        rx_plus (Cls path_char)])]"

definition absolute_paths_in :: "pystr \<Rightarrow> pystr list" where
  "absolute_paths_in s = concat (map (\<lambda>r. List.map_filter (re_group 0) (re_findall r s)) absolute_path_res)"

definition is_marker :: "json \<Rightarrow> bool" where
  "is_marker v = (case v of JStr s \<Rightarrow> re_fullmatch redacted_marker_re s | _ \<Rightarrow> False)"

definition unsafe_here :: "pyvals \<Rightarrow> pystr \<Rightarrow> pystr \<Rightarrow> json \<Rightarrow> bool" where
  "unsafe_here py mode key v \<longleftrightarrow> mode = ''safe'' \<and> \<not> is_marker v
     \<and> (key \<in> set content_keys \<and> (case v of JStr s \<Rightarrow> s \<noteq> [] | _ \<Rightarrow> False)
        \<or> key \<in> set content_container_keys \<and> json_truthy py v)"

lemma enumerate_elem: "(i, x) \<in> set (List.enumerate n xs) \<Longrightarrow> x \<in> set xs"
  by (auto simp: enumerate_eq_zip dest: set_zip_rightD)

function audit_unsafe :: "pyvals \<Rightarrow> pystr \<Rightarrow> pystr \<Rightarrow> pystr \<Rightarrow> json \<Rightarrow> pystr list" where
  "audit_unsafe py mode path key v =
     (if unsafe_here py mode key v then [path] else [])
     @ (case v of
          JObj d \<Rightarrow> concat (map (\<lambda>(k, x). audit_unsafe py mode (path @ ''.'' @ k) k x) d)
        | JArr xs \<Rightarrow> concat (map (\<lambda>(i, x). audit_unsafe py mode (path @ ''['' @ str_nat i @ '']'') key x) (List.enumerate 0 xs))
        | _ \<Rightarrow> [])"
  by pat_completeness auto
termination
  by (relation "measure (\<lambda>(p, m, q, k, v). size v)")
    (auto simp: json_item_size intro: json_elem_size dest: enumerate_elem)

declare audit_unsafe.simps [simp del]

function audit_absolute :: "json \<Rightarrow> pystr list" where
  "audit_absolute v =
     (case v of
        JObj d \<Rightarrow> concat (map (\<lambda>(k, x). audit_absolute x) d)
      | JArr xs \<Rightarrow> concat (map audit_absolute xs)
      | JStr s \<Rightarrow> absolute_paths_in s
      | _ \<Rightarrow> [])"
  by pat_completeness auto
termination
  by (relation "measure size") (auto simp: json_item_size json_elem_size)

declare audit_absolute.simps [simp del]

record trace_audit =
  au_passed :: bool
  au_mode :: pystr
  au_absolute :: "pystr list"
  au_unsafe :: "pystr list"
  au_warnings :: "pystr list"

definition declared_mode :: "pyvals \<Rightarrow> (pystr \<times> json) list \<Rightarrow> pystr" where
  "declared_mode py trace = (case dict_get trace ''trace_redaction'' of
     Some (JObj d) \<Rightarrow> json_str py (jget_or d ''mode'' (JStr ''unknown''))
   | _ \<Rightarrow> ''unknown'')"

definition audit_trace :: "pyvals \<Rightarrow> (pystr \<times> json) list \<Rightarrow> trace_audit" where
  "audit_trace py trace =
     (let mode = declared_mode py trace;
          paths = audit_absolute (JObj trace);
          unsafe = audit_unsafe py mode ''$'' [] (JObj trace);
          warnings =
            (if mode = ''none'' then [''trace has no path or source-content redaction'']
             else if mode = ''paths'' then [''path-redacted traces can still contain source code and model output'']
             else if mode = ''unknown'' then [''trace does not declare a redaction mode''] else [])
      in \<lparr>au_passed = (paths = [] \<and> unsafe = []), au_mode = mode, au_absolute = take 20 (dedupe paths),
          au_unsafe = take 20 (dedupe unsafe), au_warnings = warnings\<rparr>)"

section \<open>Markers\<close>

text \<open>What \<open>hashlib.sha256(...).hexdigest()\<close> is documented to return: hexadecimal digits.\<close>

definition hex_digests :: "(pystr \<Rightarrow> pystr) \<Rightarrow> bool" where
  "hex_digests sha \<longleftrightarrow> (\<forall>t. 16 \<le> length (sha t) \<and> list_all hex_digit (sha t))"

lemma rx_run_replicate:
  "n \<le> length s \<Longrightarrow> list_all P (take n s) \<Longrightarrow>
     rx_run (seqs (replicate n (Cls P))) (prev, s, caps) = [(last_opt prev (take n s), drop n s, caps)]"
proof (induction n arbitrary: s prev)
  case (Suc n)
  then show ?case by (cases s) auto
qed simp

lemma marker_matches:
  assumes "hex_digests sha"
  shows "re_fullmatch redacted_marker_re (content_marker sha t)"
proof -
  let ?h = "take 16 (sha t)"
  have h: "length ?h = 16" "list_all hex_digit ?h"
    using assms by (auto simp: hex_digests_def list_all_iff dest: in_set_takeD)
  have hex: "rx_run (seqs (replicate 16 (Cls hex_digit))) (prev, ?h @ r, caps)
      = [(last_opt prev ?h, r, caps)]" for prev r caps
    using rx_run_replicate [of 16 "?h @ r" hex_digit prev caps] h by simp
  obtain d ds where n: "str_nat (length t) = d # ds" by (cases "str_nat (length t)") auto
  have digits: "is_digit d" "\<forall>c\<in>set ds. is_digit c"
    using str_nat_digits [of _ "length t"] n by auto
  have gt: "\<not> is_digit (CHR ''>'')" by (simp add: is_digit_def code_def)
  have tail: "concat (map (rx_run (seqs [lit ''>''])) (run_states is_digit (prev, ds @ ''>'', caps)))
      = [(Some (CHR ''>''), [], caps)]" for prev caps
  proof (subst concat_map_run_states)
    show "rx_run (seqs [lit ''>'']) (p, c # s, caps) = []" if "is_digit c" for p c s
      using that gt by (auto simp: rx_run_lit startswith_def)
    have "dropWhile is_digit (ds @ ''>'') = ''>''"
      using digits(2) gt by (simp add: dropWhile_append2)
    then show "rx_run (seqs [lit ''>'']) (last_opt prev (takeWhile is_digit (ds @ ''>'')), dropWhile is_digit (ds @ ''>''), caps)
        = [(Some (CHR ''>''), [], caps)]"
      by (simp add: rx_run_lit startswith_def last_opt_def)
  qed
  have "rx_run redacted_marker_re (None, content_marker sha t, []) = [(Some (CHR ''>''), [], [])]"
    unfolding redacted_marker_re_def content_marker_def
    by (simp add: rx_run_lit hex n rx_run_plus_class digits(1) tail)
  then show ?thesis by (simp add: re_fullmatch_def rx_rest_def)
qed

section \<open>Safe mode conceals what the audit looks for\<close>

lemma marker_is_marker: "hex_digests sha \<Longrightarrow> is_marker (JStr (content_marker sha t))"
  by (simp add: is_marker_def marker_matches)

lemma replace_paths_Nil [simp]: "replace_paths rs [] = []"
  unfolding replace_paths_def by (induction rs) (auto simp: replace_ci.simps)

lemma concealed_None:
  "concealed py True key v = None \<longleftrightarrow>
     (key \<in> set content_container_keys \<longrightarrow> \<not> json_truthy py v)
     \<and> (key \<in> set content_keys \<longrightarrow> (case v of JStr s \<Rightarrow> s = [] | _ \<Rightarrow> True))"
  by (cases v) (auto simp: concealed_def)

lemma redact_concealed:
  "concealed py safe key v = Some t \<Longrightarrow> redact_value sha py rs safe key v = JStr (content_marker sha t)"
  by (subst redact_value.simps) simp

lemma redact_open:
  assumes "concealed py safe key v = None"
  shows "v = JStr s \<Longrightarrow> redact_value sha py rs safe key v = JStr (replace_paths rs s)"
    and "v = JArr xs \<Longrightarrow> redact_value sha py rs safe key v = JArr (map (redact_value sha py rs safe key) xs)"
    and "v = JObj d \<Longrightarrow> redact_value sha py rs safe key v = JObj (map (\<lambda>(k, x). (k, redact_value sha py rs safe k x)) d)"
    and "v \<in> {JNull, JBool b, JInt n, JFloat s} \<Longrightarrow> redact_value sha py rs safe key v = v"
  by (subst redact_value.simps, use assms in auto)+

lemma audit_unsafe_JStr: "audit_unsafe py mode path key (JStr s) = (if unsafe_here py mode key (JStr s) then [path] else [])"
  by (subst audit_unsafe.simps) simp

lemma audit_unsafe_Nil:
  assumes "\<not> unsafe_here py mode key v"
    and "\<And>d k x path. v = JObj d \<Longrightarrow> (k, x) \<in> set d \<Longrightarrow> audit_unsafe py mode path k x = []"
    and "\<And>xs x path. v = JArr xs \<Longrightarrow> x \<in> set xs \<Longrightarrow> audit_unsafe py mode path key x = []"
  shows "audit_unsafe py mode path key v = []"
  using assms by (subst audit_unsafe.simps) (auto split: json.split dest: enumerate_elem)

lemma audit_redacted_scalar:
  assumes "hex_digests sha" and "v \<in> {JNull, JBool b, JInt n, JFloat s}"
  shows "audit_unsafe py ''safe'' path key (redact_value sha py rs True key v) = []"
proof (cases "concealed py True key v")
  case None
  show ?thesis unfolding redact_open(4) [OF None assms(2)]
    by (rule audit_unsafe_Nil) (use None assms(2) in \<open>auto simp: unsafe_here_def concealed_None\<close>)
qed (simp add: redact_concealed audit_unsafe_JStr unsafe_here_def marker_is_marker [OF assms(1)])

lemma audit_redacted:
  assumes "hex_digests sha"
  shows "audit_unsafe py ''safe'' path key (redact_value sha py rs True key v) = []"
proof (induction v arbitrary: path key)
  case (JStr s)
  show ?case
    by (cases "concealed py True key (JStr s)")
      (auto simp: redact_concealed redact_open(1) audit_unsafe_JStr unsafe_here_def marker_is_marker [OF assms]
        concealed_None json_truthy_def)
next
  case (JArr xs)
  show ?case
  proof (cases "concealed py True key (JArr xs)")
    case None
    show ?thesis unfolding redact_open(2) [OF None refl]
      by (rule audit_unsafe_Nil) (use None JArr.IH in \<open>auto simp: unsafe_here_def concealed_None json_truthy_def\<close>)
  qed (simp add: redact_concealed audit_unsafe_JStr unsafe_here_def marker_is_marker [OF assms])
next
  case (JObj d)
  show ?case
  proof (cases "concealed py True key (JObj d)")
    case None
    show ?thesis unfolding redact_open(3) [OF None refl]
      by (rule audit_unsafe_Nil) (use None JObj.IH in \<open>auto simp: unsafe_here_def concealed_None json_truthy_def\<close>)
  qed (simp add: redact_concealed audit_unsafe_JStr unsafe_here_def marker_is_marker [OF assms])
qed (auto intro: audit_redacted_scalar [OF assms])

lemma set_dict_set: "set (dict_set k v d) \<subseteq> insert (k, v) (set d)"
  by (induction k v d rule: dict_set.induct) auto

section \<open>No local path survives\<close>

text \<open>
  A path of a POSIX system without angle brackets, and a placeholder in them. Text that is
  built from such placeholders and from pieces of the input holds a path only where the
  input did.
\<close>

definition plain_path :: "pystr \<Rightarrow> bool" where
  "plain_path p \<longleftrightarrow> startswith p ''/'' \<and> CHR ''<'' \<notin> set p \<and> CHR ''>'' \<notin> set p"

definition placeholder :: "pystr \<Rightarrow> bool" where
  "placeholder ph \<longleftrightarrow> (\<exists>mid. ph = ''<'' @ mid @ ''>'' \<and> CHR ''/'' \<notin> set mid)"

lemma contains_Nil_right [simp]: "contains s []"
  by (cases s) (simp_all add: contains_def)

lemma contains_Cons: "contains (c # s) m \<longleftrightarrow> startswith (c # s) m \<or> contains s m"
  by (simp add: contains_def)

lemma startswith_stop: "c \<notin> set m \<Longrightarrow> startswith (u @ c # v) m \<longleftrightarrow> startswith u m"
proof (induction u arbitrary: m)
  case Nil
  then show ?case by (cases m) auto
next
  case (Cons x u)
  then show ?case by (cases m) auto
qed

lemma contains_split: "c \<notin> set m \<Longrightarrow> m \<noteq> [] \<Longrightarrow> contains (u @ c # v) m \<longleftrightarrow> contains u m \<or> contains v m"
proof (induction u)
  case Nil
  then show ?case by (cases m) (auto simp: contains_Cons contains_def)
next
  case (Cons x u)
  then show ?case using startswith_stop [of c m "x # u" v] by (simp add: contains_Cons)
qed

lemma contains_drop: "contains (drop k s) m \<Longrightarrow> contains s m"
  unfolding contains_iff by (metis append_assoc append_take_drop_id)

lemma contains_set: "contains s m \<Longrightarrow> set m \<subseteq> set s"
  by (auto simp: contains_iff)

lemma lower_append [simp]: "lower (u @ v) = lower u @ lower v"
  by (simp add: lower_def)

lemma lower_char_low:
  assumes "code d < 65"
  shows "lower_char c = d \<longleftrightarrow> c = d"
proof -
  have "code (lower_char c) = (if (65 \<le> code c \<and> code c \<le> 90) \<or> (192 \<le> code c \<and> code c \<le> 222 \<and> code c \<noteq> 215)
     then code c + 32 else code c)"
    by (simp add: lower_char_def code_char_of)
  then have "code (lower_char c) = code d \<longleftrightarrow> code c = code d" using assms by auto
  then show ?thesis by (simp add: code_def)
qed

lemma lower_marks [simp]:
  "lower_char c = CHR ''<'' \<longleftrightarrow> c = CHR ''<''" "lower_char c = CHR ''>'' \<longleftrightarrow> c = CHR ''>''"
  "lower_char c = CHR ''/'' \<longleftrightarrow> c = CHR ''/''"
  by (simp_all add: lower_char_low code_def)

lemma lower_mark [simp]: "lower_char (CHR ''<'') = CHR ''<''" "lower_char (CHR ''>'') = CHR ''>''"
  "lower_char (CHR ''/'') = CHR ''/''" and lower_eq_Nil [simp]: "lower s = [] \<longleftrightarrow> s = []"
  by simp_all (simp add: lower_def)

lemma lower_mark_in [simp]:
  "CHR ''<'' \<in> set (lower s) \<longleftrightarrow> CHR ''<'' \<in> set s" "CHR ''>'' \<in> set (lower s) \<longleftrightarrow> CHR ''>'' \<in> set s"
  "CHR ''/'' \<in> set (lower s) \<longleftrightarrow> CHR ''/'' \<in> set s"
  unfolding lower_def set_map image_iff by (metis lower_marks)+

lemma lower_bracket: "lower (''<'' @ mid @ ''>'' @ v) = CHR ''<'' # lower mid @ CHR ''>'' # lower v"
  by (simp add: lower_def)

lemma lower_Cons [simp]: "lower (c # s) = lower_char c # lower s" and lower_Nil [simp]: "lower [] = []"
  and lower_drop: "lower (drop k s) = drop k (lower s)"
  by (simp_all add: lower_def drop_map)

text \<open>A text that starts the result of a replacement starts the input.\<close>

lemma replace_ci_step:
  assumes "s \<noteq> []" and "\<not> (n \<noteq> [] \<and> startswith (lower s) (lower n))"
  shows "replace_ci n ph s = hd s # replace_ci n ph (tl s)"
  using assms by (subst replace_ci.simps) auto

lemma replace_ci_match:
  assumes "n \<noteq> []" and "startswith (lower s) (lower n)"
  shows "replace_ci n ph s = ph @ replace_ci n ph (drop (length n) s)"
proof -
  have "s \<noteq> []" using assms by (auto simp: lower_def)
  then show ?thesis using assms by (subst replace_ci.simps) auto
qed

lemma replace_ci_Nil [simp]: "replace_ci n ph [] = []"
  by (subst replace_ci.simps) simp

lemma replace_ci_start:
  "placeholder ph \<Longrightarrow> CHR ''<'' \<notin> set m \<Longrightarrow> startswith (lower (replace_ci n ph s)) m \<Longrightarrow> startswith (lower s) m"
proof (induction n ph s arbitrary: m rule: replace_ci.induct)
  case (1 n ph s)
  consider "s = []" | "n \<noteq> []" "startswith (lower s) (lower n)"
    | "s \<noteq> []" "\<not> (n \<noteq> [] \<and> startswith (lower s) (lower n))" by blast
  then show ?case
  proof cases
    case 2
    obtain mid where ph: "ph = ''<'' @ mid @ ''>''" using "1.prems"(1) by (auto simp: placeholder_def)
    have "m = []"
      using "1.prems"(2,3) unfolding replace_ci_match [OF 2] ph by (cases m) auto
    then show ?thesis by simp
  next
    case 3
    note step = replace_ci_step [OF 3, of ph]
    show ?thesis
    proof (cases m)
      case (Cons x m')
      then have "startswith (lower (replace_ci n ph (tl s))) m'" "x = lower_char (hd s)" "CHR ''<'' \<notin> set m'"
        using "1.prems"(2,3) unfolding step by auto
      with "1.IH"(2) [OF 3 "1.prems"(1)] have "startswith (lower (tl s)) m'" by blast
      then show ?thesis using 3(1) Cons \<open>x = lower_char (hd s)\<close> by (cases s) auto
    qed simp
  qed (use "1.prems" in simp)
qed

text \<open>A replacement introduces no path, and leaves no occurrence of its own.\<close>

lemma contains_placeholder:
  assumes "placeholder ph" and "plain_path p"
  shows "contains (lower (ph @ v)) (lower p) \<longleftrightarrow> contains (lower v) (lower p)"
proof -
  obtain mid where ph: "ph = ''<'' @ mid @ ''>''" and mid: "CHR ''/'' \<notin> set mid"
    using assms(1) by (auto simp: placeholder_def)
  have p: "lower p \<noteq> []" "CHR ''<'' \<notin> set (lower p)" "CHR ''>'' \<notin> set (lower p)" "CHR ''/'' \<in> set (lower p)"
    using assms(2) by (cases p; auto simp: plain_path_def startswith_def)+
  have "CHR ''/'' \<notin> set (lower mid)" using mid by simp
  then have "\<not> contains (lower mid) (lower p)" using contains_set [of "lower mid" "lower p"] p(4) by blast
  moreover have "\<not> contains [] (lower p)" using p(1) by (simp add: contains_def)
  moreover have "lower (ph @ v) = [] @ CHR ''<'' # lower mid @ CHR ''>'' # lower v"
    by (simp only: ph append_assoc lower_bracket append_Nil)
  ultimately show ?thesis
    using contains_split [OF p(2,1), of "[]" "lower mid @ CHR ''>'' # lower v"]
      contains_split [OF p(3,1), of "lower mid" "lower v"]
    by (simp only:) blast
qed

lemma replace_ci_keeps_free:
  "placeholder ph \<Longrightarrow> plain_path p \<Longrightarrow> \<not> contains (lower s) (lower p) \<Longrightarrow>
     \<not> contains (lower (replace_ci n ph s)) (lower p)"
proof (induction n ph s rule: replace_ci.induct)
  case (1 n ph s)
  consider "s = []" | "n \<noteq> []" "startswith (lower s) (lower n)"
    | "s \<noteq> []" "\<not> (n \<noteq> [] \<and> startswith (lower s) (lower n))" by blast
  then show ?case
  proof cases
    case 2
    then have "s \<noteq> []" by (auto simp: lower_def)
    moreover have "\<not> contains (lower (drop (length n) s)) (lower p)"
      using "1.prems"(3) contains_drop by (auto simp: lower_drop)
    ultimately show ?thesis
      using "1.IH"(1) 2 "1.prems" by (simp only: replace_ci_match [OF 2] contains_placeholder) blast
  next
    case 3
    have rest: "\<not> contains (lower (tl s)) (lower p)"
      using "1.prems"(3) 3(1) by (cases s) (auto simp: contains_Cons)
    have "CHR ''<'' \<notin> set (lower p)" using "1.prems"(2) by (simp add: plain_path_def)
    from replace_ci_start [OF "1.prems"(1) this, of n s]
    have "\<not> startswith (lower (replace_ci n ph s)) (lower p)"
      using "1.prems"(3) by (metis append_Nil contains_iff startswith_iff)
    then show ?thesis
      using "1.IH"(2) [OF 3 "1.prems"(1,2) rest] by (simp add: replace_ci_step [OF 3] contains_Cons)
  qed (use "1.prems" in simp)
qed

lemma replace_ci_frees:
  "placeholder ph \<Longrightarrow> plain_path n \<Longrightarrow> \<not> contains (lower (replace_ci n ph s)) (lower n)"
proof (induction n ph s rule: replace_ci.induct)
  case (1 n ph s)
  consider "s = []" | "n \<noteq> []" "startswith (lower s) (lower n)"
    | "s \<noteq> []" "\<not> (n \<noteq> [] \<and> startswith (lower s) (lower n))" by blast
  then show ?case
  proof cases
    case 1
    then show ?thesis using "1.prems"(2) by (auto simp: plain_path_def contains_def startswith_def)
  next
    case 2
    then have "s \<noteq> []" by (auto simp: lower_def)
    then show ?thesis
      using "1.IH"(1) 2 "1.prems" by (simp only: replace_ci_match [OF 2] contains_placeholder) blast
  next
    case 3
    have n: "n \<noteq> []" "CHR ''<'' \<notin> set (lower n)" using "1.prems"(2) by (auto simp: plain_path_def startswith_def)
    from replace_ci_start [OF "1.prems"(1) n(2), of n s] 3(2) n(1)
    have "\<not> startswith (lower (replace_ci n ph s)) (lower n)" by blast
    then show ?thesis
      using "1.IH"(2) [OF 3 "1.prems"] by (simp add: replace_ci_step [OF 3] contains_Cons)
  qed
qed

definition plain_replacements :: "(pystr \<times> pystr) list \<Rightarrow> bool" where
  "plain_replacements rs \<longleftrightarrow> list_all (\<lambda>(p, ph). plain_path p \<and> placeholder ph) rs"

definition path_free :: "pystr set \<Rightarrow> pystr \<Rightarrow> bool" where
  "path_free P s \<longleftrightarrow> (\<forall>p\<in>P. \<not> contains (lower s) (lower p))"

lemma replace_paths_free:
  "plain_replacements rs \<Longrightarrow> \<forall>p\<in>P. plain_path p \<Longrightarrow> path_free P s \<Longrightarrow>
     path_free (P \<union> fst ` set rs) (replace_paths rs s)"
proof (induction rs arbitrary: s P)
  case Nil
  then show ?case by (simp add: replace_paths_def)
next
  case (Cons r rs)
  obtain p ph where r: "r = (p, ph)" by (cases r)
  have good: "plain_path p" "placeholder ph" "plain_replacements rs"
    using Cons.prems(1) by (auto simp: plain_replacements_def r)
  have "path_free (insert p P) (replace_ci p ph s)"
    using Cons.prems(2,3) replace_ci_frees [OF good(2,1)] replace_ci_keeps_free [OF good(2)]
    by (auto simp: path_free_def)
  from Cons.IH [OF good(3) _ this] Cons.prems(2) good(1) show ?case
    by (simp add: replace_paths_def r)
qed

text \<open>The texts that a trace contains as values.\<close>

function json_texts :: "json \<Rightarrow> pystr list" where
  "json_texts (JStr s) = [s]"
| "json_texts (JArr xs) = concat (map json_texts xs)"
| "json_texts (JObj d) = concat (map (\<lambda>(k, x). json_texts x) d)"
| "json_texts JNull = []" | "json_texts (JBool b) = []" | "json_texts (JInt n) = []" | "json_texts (JFloat s) = []"
  by pat_completeness auto
termination by (relation "measure size") (auto simp: json_item_size json_elem_size)

lemma no_slash_path_free: "CHR ''/'' \<notin> set s \<Longrightarrow> \<forall>p\<in>P. plain_path p \<Longrightarrow> path_free P s"
proof -
  assume s: "CHR ''/'' \<notin> set s" and P: "\<forall>p\<in>P. plain_path p"
  have "\<not> contains (lower s) (lower p)" if "p \<in> P" for p
  proof
    assume "contains (lower s) (lower p)"
    then have "set (lower p) \<subseteq> set (lower s)" by (rule contains_set)
    moreover have "CHR ''/'' \<in> set (lower p)" using P that by (cases p) (auto simp: plain_path_def startswith_def)
    moreover have "CHR ''/'' \<notin> set (lower s)" using s by simp
    ultimately show False by blast
  qed
  then show "path_free P s" by (simp add: path_free_def)
qed

lemma str_nat_no_slash: "CHR ''/'' \<notin> set (str_nat n)"
  using str_nat_digits [of "CHR ''/''" n] by (auto simp: is_digit_def)

lemma plain_replacements_paths: "plain_replacements rs \<Longrightarrow> \<forall>p\<in>fst ` set rs. plain_path p"
  by (auto simp: plain_replacements_def list_all_iff)

lemma marker_free:
  assumes "hex_digests sha" and "plain_replacements rs"
  shows "path_free (fst ` set rs) (content_marker sha t)"
proof (rule no_slash_path_free [OF _ plain_replacements_paths [OF assms(2)]])
  have "\<not> hex_digit (CHR ''/'')" by (simp add: hex_digit_def is_digit_def code_def)
  then have "CHR ''/'' \<notin> set (take 16 (sha t))"
    using assms(1) by (auto simp: hex_digests_def list_all_iff dest!: in_set_takeD)
  then show "CHR ''/'' \<notin> set (content_marker sha t)"
    using str_nat_no_slash by (simp add: content_marker_def)
qed

lemma redacted_texts_free:
  assumes "hex_digests sha" and "plain_replacements rs"
  shows "t \<in> set (json_texts (redact_value sha py rs safe key v)) \<Longrightarrow> path_free (fst ` set rs) t"
proof (induction v arbitrary: key t)
  case (JStr s)
  have "path_free {} s" by (simp add: path_free_def)
  with replace_paths_free [OF assms(2) _ this] JStr marker_free [OF assms] show ?case
    by (cases "concealed py safe key (JStr s)") (simp_all add: redact_open(1) redact_concealed)
next
  case (JArr xs)
  then show ?case using marker_free [OF assms]
    by (cases "concealed py safe key (JArr xs)") (auto simp: redact_open(2) redact_concealed)
next
  case (JObj d)
  then show ?case using marker_free [OF assms]
    by (cases "concealed py safe key (JObj d)") (auto simp: redact_open(3) redact_concealed)
qed (use marker_free [OF assms] in \<open>auto simp: redact_value.simps split: option.splits\<close>)

section \<open>Properties\<close>

lemma set_setdefault:
  "set (setdefault k v d) \<subseteq> insert (k, v) (set d)" "k \<in> fst ` set (setdefault k v d)"
  "fst ` set d \<subseteq> fst ` set (setdefault k v d)"
  by (auto simp: setdefault_def dom_map_of_conv_image_fst [symmetric] split: if_splits)

lemma add_replacement_plain:
  assumes "plain_path p" and "placeholder ph" and "plain_replacements d"
  shows "plain_replacements (add_replacement (p, ph) d) \<and> insert p (fst ` set d) \<subseteq> fst ` set (add_replacement (p, ph) d)"
proof -
  have slash: "plain_path (slashes p)"
    using assms(1) by (cases p) (auto simp: plain_path_def slashes_def replace_char_def startswith_def)
  have p: "p \<noteq> []" using assms(1) by (auto simp: plain_path_def startswith_def)
  have "plain_replacements (setdefault k ph d')" if "plain_path k" "plain_replacements d'" for k d'
    using that assms(2) set_setdefault(1) [of k ph d'] by (auto simp: plain_replacements_def list_all_iff)
  then show ?thesis
    using p slash assms set_setdefault(2) [of p ph d] set_setdefault(3) [of d p ph]
      set_setdefault(3) [of "setdefault p ph d" "slashes p" ph]
    by (simp add: add_replacement_def) blast
qed

lemma add_replacements_plain:
  "plain_replacements raw \<Longrightarrow> plain_replacements d \<Longrightarrow>
     plain_replacements (fold add_replacement raw d) \<and> fst ` (set raw \<union> set d) \<subseteq> fst ` set (fold add_replacement raw d)"
proof (induction raw arbitrary: d)
  case (Cons r raw)
  obtain p ph where r: "r = (p, ph)" by (cases r)
  have "plain_path p" "placeholder ph" "plain_replacements raw"
    using Cons.prems(1) by (auto simp: plain_replacements_def r)
  from add_replacement_plain [OF this(1,2) Cons.prems(2)] Cons.IH [OF this(3), of "add_replacement (p, ph) d"]
  have plain: "plain_replacements (fold add_replacement raw (add_replacement (p, ph) d))"
    and first: "insert p (fst ` set d) \<subseteq> fst ` set (add_replacement (p, ph) d)"
    and rest: "fst ` set raw \<union> fst ` set (add_replacement (p, ph) d)
      \<subseteq> fst ` set (fold add_replacement raw (add_replacement (p, ph) d))"
    by (simp_all only: image_Un)
  have "insert p (fst ` set raw \<union> fst ` set d) \<subseteq> fst ` set raw \<union> fst ` set (add_replacement (p, ph) d)"
    using first by (simp add: le_supI2 le_supI1)
  from plain subset_trans [OF this rest] show ?case by (simp add: r image_Un)
qed simp

lemma path_replacements_plain:
  assumes "list_all plain_path [ws, resolved ws, cwd, home]"
  shows "plain_replacements (path_replacements resolved cwd home (Some ws))"
    and "{ws, resolved ws, cwd, home} \<subseteq> fst ` set (path_replacements resolved cwd home (Some ws))"
proof -
  have "ws \<noteq> []" using assms by (auto simp: plain_path_def startswith_def)
  then have raw: "raw_replacements resolved cwd home (Some ws)
      = [(ws, ''<workspace>''), (resolved ws, ''<workspace>''), (cwd, ''<project-root>''), (home, ''<home>'')]"
    by (simp add: raw_replacements_def)
  have ph: "placeholder ''<workspace>''" "placeholder ''<project-root>''" "placeholder ''<home>''"
    unfolding placeholder_def
    by (rule exI [of _ "''workspace''"], simp, rule exI [of _ "''project-root''"], simp, rule exI [of _ "''home''"], simp)
  have "plain_replacements (raw_replacements resolved cwd home (Some ws))"
    using assms ph by (simp add: raw plain_replacements_def)
  from add_replacements_plain [OF this, of "[]"]
  show "plain_replacements (path_replacements resolved cwd home (Some ws))"
    and "{ws, resolved ws, cwd, home} \<subseteq> fst ` set (path_replacements resolved cwd home (Some ws))"
    by (auto simp: path_replacements_def plain_replacements_def list_all_iff raw)
qed

lemma redact_texts:
  assumes "mode \<in> {''paths'', ''safe''}" and "t \<in> set (json_texts (JObj (redact sha py mode rs trace)))"
  shows "(\<exists>k x safe. t \<in> set (json_texts (redact_value sha py rs safe k x))) \<or> t = mode
    \<or> t \<in> set content_keys \<union> set content_container_keys"
proof -
  have keys: "k' \<in> set (redacted_keys py safe key v) \<Longrightarrow> k' \<in> set content_keys \<union> set content_container_keys"
    for k' safe key v
  proof (induction v arbitrary: key)
    case (JArr xs)
    then show ?case
      by (subst (asm) redacted_keys.simps) (auto simp: concealed_def split: option.splits if_splits)
  next
    case (JObj d)
    then show ?case
      by (subst (asm) redacted_keys.simps) (auto simp: concealed_def split: option.splits if_splits)
  qed (subst (asm) redacted_keys.simps, auto simp: concealed_def split: option.splits if_splits)+
  show ?thesis
    using assms
    by (auto simp: redact_def Let_def dest!: set_dict_set [THEN subsetD]) (use keys in blast)+
qed

lemma trace_redaction_silent:
  "audit_unsafe py mode path ''trace_redaction'' (JObj [(''mode'', JStr m), (''redacted_fields'', JArr (map JStr ks)),
     (''path_placeholder_count'', JInt n)]) = []"
proof -
  have quiet: "\<not> unsafe_here py mode key v"
    if "key \<in> {''trace_redaction'', ''mode'', ''redacted_fields'', ''path_placeholder_count''}" for key v
    using that by (auto simp: unsafe_here_def content_keys_def content_container_keys_def)
  have items: "audit_unsafe py mode q ''redacted_fields'' (JArr (map JStr ks)) = []" for q
    by (rule audit_unsafe_Nil) (auto simp: quiet audit_unsafe_JStr)
  have count: "audit_unsafe py mode q ''path_placeholder_count'' (JInt n) = []" for q
    by (rule audit_unsafe_Nil) (auto simp: quiet)
  show ?thesis
    by (rule audit_unsafe_Nil) (auto simp: quiet audit_unsafe_JStr items count)
qed

text \<open>
  C7 A trace redacted in safe mode carries no source text where the audit looks for it: whatever
  the trace, the audit of the redacted trace finds no unsafe content field, so it passes
  exactly when no absolute path is left in its values.
\<close>

theorem safe_redaction_passes_audit:
  assumes "hex_digests sha"
  shows "au_unsafe (audit_trace py (redact sha py ''safe'' rs trace)) = []
    \<and> au_mode (audit_trace py (redact sha py ''safe'' rs trace)) = ''safe''
    \<and> (au_passed (audit_trace py (redact sha py ''safe'' rs trace))
          \<longleftrightarrow> audit_absolute (JObj (redact sha py ''safe'' rs trace)) = [])"
proof -
  let ?T = "redact sha py ''safe'' rs trace"
  have mode: "declared_mode py ?T = ''safe''"
    by (simp add: declared_mode_def redact_def Let_def dict_get_set jget_or_def json_str_def)
  have field: "audit_unsafe py ''safe'' path k x = []" if "(k, x) \<in> set ?T" for path k x
  proof -
    have "(\<exists>v. x = redact_value sha py rs True k v) \<or> (k = ''trace_redaction'' \<and> (\<exists>ks n. x =
        JObj [(''mode'', JStr ''safe''), (''redacted_fields'', JArr (map JStr ks)), (''path_placeholder_count'', JInt n)]))"
      using that by (auto simp: redact_def Let_def dest!: set_dict_set [THEN subsetD])
    then show ?thesis
    proof (elim disjE exE conjE)
      fix ks n assume "k = ''trace_redaction''" and x: "x =
        JObj [(''mode'', JStr ''safe''), (''redacted_fields'', JArr (map JStr ks)), (''path_placeholder_count'', JInt n)]"
      then show ?thesis
        by (simp add: trace_redaction_silent)
    qed (simp add: audit_redacted [OF assms])
  qed
  have "audit_unsafe py ''safe'' ''$'' [] (JObj ?T) = []"
    by (rule audit_unsafe_Nil) (auto simp: field unsafe_here_def content_keys_def content_container_keys_def)
  then show ?thesis by (simp add: audit_trace_def Let_def mode)
qed

text \<open>
  C8 No local path survives redaction: after a redaction in \<open>paths\<close> or \<open>safe\<close> mode, no value of
  the trace contains the workspace, its resolved path, the working directory or the home
  directory, in any mix of upper and lower case, where these are absolute POSIX paths without
  angle brackets.
\<close>

theorem redaction_hides_paths:
  assumes "hex_digests sha" and "mode \<in> {''paths'', ''safe''}"
    and "list_all plain_path [ws, resolved ws, cwd, home]" and "p \<in> {ws, resolved ws, cwd, home}"
    and "t \<in> set (json_texts (JObj (redact sha py mode (path_replacements resolved cwd home (Some ws)) trace)))"
  shows "\<not> contains (lower t) (lower p)"
proof -
  let ?rs = "path_replacements resolved cwd home (Some ws)"
  note rs = path_replacements_plain [where resolved = resolved, OF assms(3)]
  have other: "CHR ''/'' \<notin> set t" if "t = mode \<or> t \<in> set content_keys \<union> set content_container_keys"
    using that assms(2) by (auto simp: content_keys_def content_container_keys_def)
  from redact_texts [OF assms(2,5)] have "path_free (fst ` set ?rs) t"
    using redacted_texts_free [OF assms(1) rs(1)] no_slash_path_free [OF other plain_replacements_paths [OF rs(1)]]
    by blast
  then show ?thesis using rs(2) assms(4) by (auto simp: path_free_def)
qed

text \<open>A digest function of the documented shape, for the witnesses.\<close>

definition demo_sha :: "pystr \<Rightarrow> pystr" where
  "demo_sha t = replicate 64 (CHR ''a'')"

lemma demo_sha_hex: "hex_digests demo_sha"
  by (simp add: hex_digests_def demo_sha_def hex_digit_def code_def list_all_iff)

theorem safe_redaction_passes_audit_witness:
  "au_unsafe (audit_trace demo_py (redact demo_sha demo_py ''safe'' [(''/w'', ''<workspace>'')]
     [(''task'', JStr ''fix'')])) = []"
  using safe_redaction_passes_audit [OF demo_sha_hex, of demo_py "[(''/w'', ''<workspace>'')]"
    "[(''task'', JStr ''fix'')]"] by simp

theorem redaction_hides_paths_witness:
  "\<not> contains (lower ''<workspace>/src/a.py'') (lower ''/w'')"
proof -
  have "''<workspace>/src/a.py'' \<in> set (json_texts (JObj (redact demo_sha demo_py ''paths''
      (path_replacements (\<lambda>p. p) ''/cwd'' ''/root'' (Some ''/w'')) [(''file'', JStr ''/W/src/a.py'')])))"
    by code_simp
  then show ?thesis
    by (intro redaction_hides_paths [where sha = demo_sha and mode = "''paths''" and ws = "''/w''"
        and resolved = "\<lambda>p. p" and cwd = "''/cwd''" and home = "''/root''" and p = "''/w''"])
      (simp_all add: demo_sha_hex plain_path_def startswith_def)
qed

end
