(* ===== verification/Configuration.thy ===== *)
theory Configuration
  imports Container Redaction
begin

text \<open>
  The start of the program (\<open>main.py\<close>, \<open>utils/config.py\<close>): the settings of a run from the
  command line and the configuration file, and the settings of the two models. The YAML reader,
  \<open>int\<close> of a text or a float, and \<open>str\<close> of a composite value are parameters; a configuration
  is the JSON-like value that the reader returns.
\<close>

section \<open>Steps that may raise\<close>

definition res_bind :: "'e + 'a \<Rightarrow> ('a \<Rightarrow> 'e + 'b) \<Rightarrow> 'e + 'b" where
  "res_bind r f = (case r of Inl e \<Rightarrow> Inl e | Inr x \<Rightarrow> f x)"

lemma res_bind_Inr [simp]: "res_bind r f = Inr y \<longleftrightarrow> (\<exists>x. r = Inr x \<and> f x = Inr y)"
  by (auto simp: res_bind_def split: sum.split)

lemma res_bind_simps [simp]: "res_bind (Inl e) f = Inl e" "res_bind (Inr x) f = f x"
  by (simp_all add: res_bind_def)

text \<open>
  What can end the start: the file (\<open>RuntimeError\<close>), a value of the wrong kind, or a
  \<open>ValueError\<close> of the test commands and of the agent.
\<close>

datatype start_error = LoadFailed pystr | BadSetting index_error | Refused exn

section \<open>The file\<close>

definition load_config :: "pystr \<Rightarrow> pyvals \<Rightarrow> exn + json \<Rightarrow> start_error + (pystr \<times> json) list" where
  "load_config path py loaded =
     (let failed = (\<lambda>m. Inl (LoadFailed (''failed to load config '' @ path @ '': '' @ m))) in
      case loaded of
        Inl e \<Rightarrow> failed (exn_message e)
      | Inr data \<Rightarrow>
          (if \<not> json_truthy py data then Inr []
           else (case data of JObj d \<Rightarrow> Inr d | _ \<Rightarrow> failed ''config root must be a mapping'')))"

text \<open>\<open>section.get(key, default)\<close>, where a section that is no mapping has no \<open>get\<close>.\<close>

definition section_get :: "json \<Rightarrow> pystr \<Rightarrow> json \<Rightarrow> start_error + json" where
  "section_get v key dflt = (case v of
     JObj d \<Rightarrow> Inr (jget_or d key dflt) | _ \<Rightarrow> Inl (BadSetting IndexAttributeError))"

definition int_setting :: "number_ops \<Rightarrow> json \<Rightarrow> pystr \<Rightarrow> int \<Rightarrow> start_error + int" where
  "int_setting num v key dflt =
     res_bind (section_get v key (JInt dflt)) (\<lambda>x. map_sum BadSetting id (py_int (nm_int num) x))"

definition bool_setting :: "pyvals \<Rightarrow> json \<Rightarrow> pystr \<Rightarrow> bool \<Rightarrow> start_error + bool" where
  "bool_setting py v key dflt = map_sum id (as_bool py) (section_get v key (JBool dflt))"

definition path_text :: "pystr \<Rightarrow> pystr" where
  "path_text s = or_text (path_root s @ as_posix (path_names s)) ''.''"

definition resolve_setting_path :: "pystr \<Rightarrow> json \<Rightarrow> start_error + pystr" where
  "resolve_setting_path root raw = (case raw of
     JStr s \<Rightarrow> Inr (if path_is_absolute s then path_text s else path_text (root @ ''/'' @ s))
   | _ \<Rightarrow> Inl (BadSetting IndexTypeError))"

section \<open>The command line\<close>

text \<open>The options that \<open>argparse\<close> returns; an option that was not given is \<open>None\<close>.\<close>

record cli_args =
  ca_config :: pystr
  ca_workspace :: "pystr option"
  ca_task :: "pystr option"
  ca_mode :: "pystr option"
  ca_context_strategy :: "pystr option"
  ca_max_iterations :: "int option"
  ca_allow_dirty :: bool
  ca_in_place :: bool
  ca_sandbox_backend :: "pystr option"
  ca_container_image :: "pystr option"
  ca_allowed_paths :: "pystr list option"
  ca_semantic_review :: "bool option"
  ca_repository_context :: "bool option"
  ca_trace_redaction :: "pystr option"

text \<open>\<open>args.x or section.get(key, default)\<close>.\<close>

definition text_or_setting :: "pystr option \<Rightarrow> json \<Rightarrow> pystr \<Rightarrow> pystr \<Rightarrow> start_error + json" where
  "text_or_setting x v key dflt =
     (if truthy x then Inr (JStr (the x)) else section_get v key (JStr dflt))"

definition flag_or_setting :: "bool option \<Rightarrow> pyvals \<Rightarrow> json \<Rightarrow> pystr \<Rightarrow> bool \<Rightarrow> start_error + bool" where
  "flag_or_setting x py v key dflt = (case x of Some b \<Rightarrow> Inr b | None \<Rightarrow> bool_setting py v key dflt)"

section \<open>The settings of a run\<close>

record path_settings =
  ps_workspace :: pystr
  ps_patch_output_dir :: pystr
  ps_trace_output_dir :: pystr

definition resolve_paths :: "pystr \<Rightarrow> cli_args \<Rightarrow> json \<Rightarrow> start_error + path_settings" where
  "resolve_paths root args v =
     res_bind (text_or_setting (ca_workspace args) v ''workspace'' ''workspaces/sklearn_iris_tree_project'') (\<lambda>raw.
     res_bind (resolve_setting_path root raw) (\<lambda>workspace.
     res_bind (section_get v ''patch_output_dir'' (JStr ''outputs/patches'')) (\<lambda>raw.
     res_bind (resolve_setting_path root raw) (\<lambda>patches.
     res_bind (section_get v ''trace_output_dir'' (JStr ''outputs/traces'')) (\<lambda>raw.
     res_bind (resolve_setting_path root raw) (\<lambda>traces.
     Inr \<lparr>ps_workspace = workspace, ps_patch_output_dir = patches, ps_trace_output_dir = traces\<rparr>))))))"

record agent_settings =
  as_task :: json
  as_initial_mode :: json
  as_max_iterations :: int

definition resolve_agent :: "number_ops \<Rightarrow> cli_args \<Rightarrow> json \<Rightarrow> start_error + agent_settings" where
  "resolve_agent num args v =
     res_bind (text_or_setting (ca_task args) v ''task'' ''Fix the failing tests in this small Python project.'') (\<lambda>task.
     res_bind (text_or_setting (ca_mode args) v ''initial_mode'' ''replacement'') (\<lambda>mode.
     res_bind (case ca_max_iterations args of Some n \<Rightarrow> Inr n | None \<Rightarrow> int_setting num v ''max_iterations'' 5) (\<lambda>n.
     Inr \<lparr>as_task = task, as_initial_mode = mode, as_max_iterations = n\<rparr>)))"

record context_settings =
  xs_strategy :: json
  xs_line_window :: int
  xs_max_files :: int
  xs_max_selected_tokens :: int
  xs_max_expansion_level :: int
  xs_fallback_to_full :: bool
  xs_include_tests :: bool

definition resolve_context :: "pyvals \<Rightarrow> number_ops \<Rightarrow> cli_args \<Rightarrow> json \<Rightarrow> start_error + context_settings" where
  "resolve_context py num args v =
     res_bind (text_or_setting (ca_context_strategy args) v ''strategy'' ''traceback'') (\<lambda>strategy.
     res_bind (int_setting num v ''line_window'' 40) (\<lambda>window.
     res_bind (int_setting num v ''max_files'' 6) (\<lambda>n.
     res_bind (int_setting num v ''max_selected_tokens'' 12000) (\<lambda>tokens.
     res_bind (int_setting num v ''max_expansion_level'' 2) (\<lambda>level.
     res_bind (bool_setting py v ''fallback_to_full_context'' True) (\<lambda>fallback.
     res_bind (bool_setting py v ''include_tests'' True) (\<lambda>tests.
     Inr \<lparr>xs_strategy = strategy, xs_line_window = window, xs_max_files = n, xs_max_selected_tokens = tokens,
       xs_max_expansion_level = level, xs_fallback_to_full = fallback, xs_include_tests = tests\<rparr>)))))))"

record safety_settings =
  ss_require_clean :: bool
  ss_allowed_paths :: "json list"
  ss_max_changed_files :: int
  ss_max_changed_lines :: int
  ss_isolate :: bool

definition allowed_path_items :: "pyvals \<Rightarrow> cli_args \<Rightarrow> json \<Rightarrow> start_error + json list" where
  "allowed_path_items py args v =
     (case ca_allowed_paths args of
        Some (p # ps) \<Rightarrow> Inr (map JStr (p # ps))
      | _ \<Rightarrow> res_bind (section_get v ''allowed_paths'' (JArr [])) (\<lambda>x.
          map_sum BadSetting id (json_items (if json_truthy py x then x else JArr []))))"

definition resolve_safety :: "pyvals \<Rightarrow> number_ops \<Rightarrow> cli_args \<Rightarrow> json \<Rightarrow> start_error + safety_settings" where
  "resolve_safety py num args v =
     res_bind (if ca_in_place args then Inr False else bool_setting py v ''isolate_workspace'' True) (\<lambda>isolate.
     res_bind (if ca_allow_dirty args then Inr False else bool_setting py v ''require_clean_workspace'' True) (\<lambda>clean.
     res_bind (allowed_path_items py args v) (\<lambda>allowed.
     res_bind (int_setting num v ''max_changed_files'' 8) (\<lambda>n.
     res_bind (int_setting num v ''max_changed_lines'' 400) (\<lambda>m.
     Inr \<lparr>ss_require_clean = clean, ss_allowed_paths = allowed, ss_max_changed_files = n, ss_max_changed_lines = m,
       ss_isolate = isolate\<rparr>)))))"

record sandbox_settings =
  bs_backend :: pystr
  bs_container_image :: "pystr option"
  bs_timeout :: int
  bs_config :: json

definition sandbox_backends :: "pystr list" where
  "sandbox_backends = [''local'', ''container'']"

definition bad_backend :: pystr where
  "bad_backend = ''sandbox backend must be one of: '' @ join '', '' (sort sandbox_backends)"

definition resolve_sandbox :: "pyvals \<Rightarrow> number_ops \<Rightarrow> cli_args \<Rightarrow> json \<Rightarrow> bool \<Rightarrow> start_error + sandbox_settings" where
  "resolve_sandbox py num args v isolate =
     res_bind (text_or_setting (ca_sandbox_backend args) v ''backend'' ''container'') (\<lambda>raw.
     let backend = lower (strip (json_str py raw)) in
     if backend \<notin> set sandbox_backends then Inl (BadSetting (IndexValueError bad_backend))
     else if backend = ''container'' \<and> \<not> isolate
     then Inl (BadSetting (IndexValueError ''container sandbox cannot be combined with --in-place''))
     else res_bind (int_setting num v ''timeout_seconds'' 30) (\<lambda>t.
       Inr \<lparr>bs_backend = backend, bs_container_image = ca_container_image args, bs_timeout = t, bs_config = v\<rparr>))"

definition resolve_tests :: "pyvals \<Rightarrow> json \<Rightarrow> start_error + pystr list list" where
  "resolve_tests py v = res_bind (section_get v ''commands'' JNull) (\<lambda>raw.
     map_sum Refused id (normalize_test_commands py raw))"

record review_settings =
  vs_enabled :: bool
  vs_max_revisions :: int
  vs_parse_retries :: int
  vs_model_retries :: int
  vs_max_context_chars :: int
  vs_max_feedback_chars :: int
  vs_max_risks :: int
  vs_max_contracts :: int
  vs_max_output_tokens :: int
  vs_thinking_budget :: "int option"

definition optional_int :: "number_ops \<Rightarrow> json \<Rightarrow> pystr \<Rightarrow> start_error + int option" where
  "optional_int num v key = res_bind (section_get v key JNull) (\<lambda>x.
     if x = JNull then Inr None else map_sum BadSetting Some (py_int (nm_int num) x))"

definition resolve_review :: "pyvals \<Rightarrow> number_ops \<Rightarrow> cli_args \<Rightarrow> json \<Rightarrow> start_error + review_settings" where
  "resolve_review py num args v =
     res_bind (flag_or_setting (ca_semantic_review args) py v ''enabled'' True) (\<lambda>enabled.
     res_bind (int_setting num v ''max_semantic_revisions'' 2) (\<lambda>revisions.
     res_bind (int_setting num v ''max_parse_retries'' 1) (\<lambda>parse.
     res_bind (int_setting num v ''max_model_retries'' 2) (\<lambda>model.
     res_bind (int_setting num v ''max_context_chars'' 16000) (\<lambda>context_chars.
     res_bind (int_setting num v ''max_feedback_chars'' 3000) (\<lambda>feedback_chars.
     res_bind (int_setting num v ''max_risks'' 3) (\<lambda>risks.
     res_bind (int_setting num v ''max_contracts'' 3) (\<lambda>contracts.
     res_bind (int_setting num v ''max_output_tokens'' 3072) (\<lambda>tokens.
     res_bind (optional_int num v ''thinking_budget'') (\<lambda>budget.
     Inr \<lparr>vs_enabled = enabled, vs_max_revisions = revisions, vs_parse_retries = parse, vs_model_retries = model,
       vs_max_context_chars = context_chars, vs_max_feedback_chars = feedback_chars, vs_max_risks = risks,
       vs_max_contracts = contracts, vs_max_output_tokens = tokens, vs_thinking_budget = budget\<rparr>))))))))))"

record repository_settings =
  gs_enabled :: bool
  gs_cache_dir :: pystr
  gs_max_files :: int
  gs_max_file_bytes :: int
  gs_max_graph_depth :: int
  gs_max_related_files :: int
  gs_max_snippet_lines :: int

definition resolve_repository ::
    "pyvals \<Rightarrow> number_ops \<Rightarrow> pystr \<Rightarrow> cli_args \<Rightarrow> json \<Rightarrow> start_error + repository_settings" where
  "resolve_repository py num root args v =
     res_bind (flag_or_setting (ca_repository_context args) py v ''enabled'' True) (\<lambda>enabled.
     res_bind (section_get v ''cache_dir'' (JStr ''outputs/index'')) (\<lambda>raw.
     res_bind (resolve_setting_path root raw) (\<lambda>dir.
     res_bind (int_setting num v ''max_files'' 2000) (\<lambda>n.
     res_bind (int_setting num v ''max_file_bytes'' 1000000) (\<lambda>bytes.
     res_bind (int_setting num v ''max_graph_depth'' 2) (\<lambda>depth.
     res_bind (int_setting num v ''max_related_files'' 6) (\<lambda>related.
     res_bind (int_setting num v ''max_snippet_lines'' 200) (\<lambda>lines.
     Inr \<lparr>gs_enabled = enabled, gs_cache_dir = dir, gs_max_files = n, gs_max_file_bytes = bytes,
       gs_max_graph_depth = depth, gs_max_related_files = related, gs_max_snippet_lines = lines\<rparr>))))))))"

definition resolve_trace :: "pyvals \<Rightarrow> cli_args \<Rightarrow> json \<Rightarrow> start_error + pystr" where
  "resolve_trace py args v =
     (if truthy (ca_trace_redaction args) then Inr (the (ca_trace_redaction args))
      else res_bind (section_get v ''redaction_mode'' (JStr ''paths'')) (\<lambda>x. Inr (lower (strip (json_str py x)))))"

record run_config =
  rn_config :: "(pystr \<times> json) list"
  rn_paths :: path_settings
  rn_agent :: agent_settings
  rn_context :: context_settings
  rn_safety :: safety_settings
  rn_sandbox :: sandbox_settings
  rn_tests :: "pystr list list"
  rn_review :: review_settings
  rn_repository :: repository_settings
  rn_trace_redaction :: pystr

definition config_section :: "(pystr \<times> json) list \<Rightarrow> pystr \<Rightarrow> json" where
  "config_section d key = jget_or d key (JObj [])"

definition resolve_run_config ::
    "pyvals \<Rightarrow> number_ops \<Rightarrow> pystr \<Rightarrow> cli_args \<Rightarrow> (pystr \<times> json) list \<Rightarrow> start_error + run_config" where
  "resolve_run_config py num root args d =
     res_bind (resolve_paths root args (config_section d ''paths'')) (\<lambda>paths.
     res_bind (resolve_agent num args (config_section d ''agent'')) (\<lambda>agent.
     res_bind (resolve_context py num args (config_section d ''context'')) (\<lambda>context.
     res_bind (resolve_safety py num args (config_section d ''safety'')) (\<lambda>safety.
     res_bind (resolve_sandbox py num args (config_section d ''sandbox'') (ss_isolate safety)) (\<lambda>sandbox.
     res_bind (resolve_tests py (config_section d ''test'')) (\<lambda>tests.
     res_bind (resolve_review py num args (config_section d ''semantic_review'')) (\<lambda>review.
     res_bind (resolve_repository py num root args (config_section d ''repository'')) (\<lambda>repository.
     res_bind (resolve_trace py args (config_section d ''trace'')) (\<lambda>redaction.
     Inr \<lparr>rn_config = d, rn_paths = paths, rn_agent = agent, rn_context = context, rn_safety = safety,
       rn_sandbox = sandbox, rn_tests = tests, rn_review = review, rn_repository = repository,
       rn_trace_redaction = redaction\<rparr>)))))))))"

end
