(* ===== verification/EditPolicy.thy ===== *)
theory EditPolicy
  imports PyPath
begin

text \<open>
  \<open>pyfixagent/tools/edit_policy.py\<close>: the limits on the files and the number of lines that a
  model-generated edit may change. The checks run on normalized paths; the results are the
  rejection messages of the source, \<^const>\<open>None\<close> for an accepted edit.
\<close>

section \<open>The policy and its path normalization\<close>

record edit_policy =
  allowed_paths :: "pystr list"
  forbidden_path_parts :: "pystr list"
  allowed_suffixes :: "pystr list"
  max_files :: int
  max_changed_lines :: int

definition default_edit_policy :: edit_policy where
  "default_edit_policy = \<lparr>allowed_paths = [], forbidden_path_parts = [''tests''],
     allowed_suffixes = [''.py''], max_files = 8, max_changed_lines = 400\<rparr>"

definition is_slash :: "char \<Rightarrow> bool" where
  "is_slash c \<longleftrightarrow> c = CHR ''/''"

definition normalize_path :: "pystr \<Rightarrow> pystr" where
  "normalize_path p =
     (let value = slashes p;
          value = (if startswith_any value [''a/'', ''b/''] then drop 2 value else value)
      in strip_by is_slash value)"

definition normalize_prefix :: "pystr \<Rightarrow> pystr" where
  "normalize_prefix p = rstrip_by is_slash (normalize_path p)"

section \<open>Validation\<close>

definition under_prefix :: "pystr \<Rightarrow> pystr \<Rightarrow> bool" where
  "under_prefix p pre \<longleftrightarrow> p = pre \<or> startswith p (pre @ ''/'')"

definition validate_path :: "edit_policy \<Rightarrow> pystr list \<Rightarrow> pystr \<Rightarrow> pystr option" where
  "validate_path pol allowed p =
     (if path_is_absolute p \<or> ''..'' \<in> set (path_parts p) \<or> ''.git'' \<in> set (path_parts p)
      then Some (''edit path escapes workspace or is unsafe: '' @ p)
      else if path_suffix p \<notin> set (allowed_suffixes pol)
      then Some (''edit target must be a .py file or another allowed suffix: '' @ p)
      else if list_ex (\<lambda>part. part \<in> set (forbidden_path_parts pol)) (path_parts p)
      then Some (''edit target is under a forbidden path: '' @ p)
      else if allowed \<noteq> [] \<and> \<not> list_ex (under_prefix p) allowed
      then Some (''edit target is outside allowed paths: '' @ p)
      else None)"

definition validate_paths :: "edit_policy \<Rightarrow> pystr list \<Rightarrow> pystr option" where
  "validate_paths pol paths =
     (let normalized = dedupe (map normalize_path paths) in
      if int (length normalized) > max_files pol
      then Some (''edit modifies '' @ str_nat (length normalized) @ '' files; maximum is ''
        @ str_int (max_files pol))
      else first_error (validate_path pol (map normalize_prefix (allowed_paths pol))) normalized)"

definition validate_changed_lines :: "edit_policy \<Rightarrow> int \<Rightarrow> pystr option" where
  "validate_changed_lines pol n =
     (if n > max_changed_lines pol
      then Some (''edit changes about '' @ str_int n @ '' lines; maximum is ''
        @ str_int (max_changed_lines pol))
      else None)"

section \<open>Paths and changed lines of a unified diff\<close>

text \<open>
  \<open>re.match(r"^diff --git (\\S+) (\\S+)$", line)\<close>: after the keyword, two runs of
  characters that are not white space, separated by one space. The text holds no line
  feed, so \<open>$\<close> is the end of the line.
\<close>

definition all_nonspace :: "pystr \<Rightarrow> bool" where
  "all_nonspace s \<longleftrightarrow> s \<noteq> [] \<and> (\<forall>c\<in>set s. \<not> is_space c)"

definition diff_git_paths :: "pystr \<Rightarrow> (pystr \<times> pystr) option" where
  "diff_git_paths line =
     (if startswith line ''diff --git '' then
        (case split_char (CHR '' '') (drop 11 line) of
           [x, y] \<Rightarrow> (if all_nonspace x \<and> all_nonspace y then Some (x, y) else None)
         | _ \<Rightarrow> None)
      else None)"

definition path_from_line :: "pystr \<Rightarrow> pystr option" where
  "path_from_line line =
     (case diff_git_paths line of
        None \<Rightarrow> None
      | Some (_, p) \<Rightarrow>
          Some (normalize_path (if startswith p ''b/'' then drop 2 p else p)))"

definition paths_from_patch :: "pystr \<Rightarrow> pystr list" where
  "paths_from_patch patch = dedupe (List.map_filter path_from_line (splitlines patch))"

definition is_changed_line :: "pystr \<Rightarrow> bool" where
  "is_changed_line line \<longleftrightarrow>
     startswith_any line [''+'', ''-''] \<and> \<not> startswith_any line [''+++'', ''---'']"

definition changed_lines_from_patch :: "pystr \<Rightarrow> nat" where
  "changed_lines_from_patch patch = length (filter is_changed_line (splitlines patch))"

section \<open>Correctness\<close>

lemmas policy_checks [early_return] = validate_paths_def validate_path_def
  validate_changed_lines_def

lemma normalize_path_no_slash_ends: "stripped_by is_slash (normalize_path p)"
  by (simp add: normalize_path_def Let_def stripped_strip_by)

lemma normalize_path_relative: "\<not> path_is_absolute (normalize_path p)"
proof
  assume "path_is_absolute (normalize_path p)"
  then have "startswith (normalize_path p) ''/''" by (simp add: path_is_absolute_iff)
  then have "normalize_path p \<noteq> [] \<and> is_slash (hd (normalize_path p))"
    by (cases "normalize_path p") (auto simp: is_slash_def)
  with normalize_path_no_slash_ends [of p] show False by (auto simp: stripped_by_def)
qed

lemma normalize_path_no_backslash: "CHR 0x5C \<notin> set (normalize_path p)"
proof -
  let ?v = "if startswith_any (slashes p) [''a/'', ''b/''] then drop 2 (slashes p) else slashes p"
  have "set ?v \<subseteq> set (slashes p)" by (simp add: set_drop_subset)
  moreover have "set (normalize_path p) \<subseteq> set ?v"
    unfolding normalize_path_def Let_def by (rule set_strip_by)
  ultimately show ?thesis using slashes_no_backslash by blast
qed

text \<open>What an accepted path satisfies, and that nothing else is required.\<close>

definition path_permitted :: "edit_policy \<Rightarrow> pystr \<Rightarrow> bool" where
  "path_permitted pol p \<longleftrightarrow>
     ''..'' \<notin> set (path_parts p) \<and> ''.git'' \<notin> set (path_parts p)
     \<and> path_suffix p \<in> set (allowed_suffixes pol)
     \<and> set (path_parts p) \<inter> set (forbidden_path_parts pol) = {}
     \<and> (allowed_paths pol = [] \<or> (\<exists>a\<in>set (allowed_paths pol). under_prefix p (normalize_prefix a)))"

lemma validate_path_None:
  assumes "\<not> path_is_absolute p"
  shows "validate_path pol (map normalize_prefix (allowed_paths pol)) p = None \<longleftrightarrow> path_permitted pol p"
  using assms by (auto simp: validate_path_def path_permitted_def list_ex_iff)

lemma validate_paths_None:
  "validate_paths pol paths = None \<longleftrightarrow>
     int (card (normalize_path ` set paths)) \<le> max_files pol
     \<and> (\<forall>p\<in>set paths. path_permitted pol (normalize_path p))"
proof -
  have "length (dedupe (map normalize_path paths)) = card (normalize_path ` set paths)"
    by (metis distinct_card distinct_dedupe set_dedupe set_map)
  then show ?thesis
    by (auto simp: validate_paths_def Let_def validate_path_None normalize_path_relative)
qed

lemma paths_from_patch_distinct: "distinct (paths_from_patch patch)"
  by (simp add: paths_from_patch_def)

lemma diff_git_paths_line:
  assumes "all_nonspace x" and "all_nonspace y"
  shows "diff_git_paths (''diff --git '' @ x @ '' '' @ y) = Some (x, y)"
proof -
  have nosp: "CHR '' '' \<notin> set x" "CHR '' '' \<notin> set y"
    using assms by (auto simp: all_nonspace_def is_space_def)
  have single: "split_char (CHR '' '') s = [s]" if "CHR '' '' \<notin> set s" for s
    using that by (induction s) auto
  have "split_char (CHR '' '') (x @ CHR '' '' # y) = x # split_char (CHR '' '') y"
    using nosp(1) by (induction x) auto
  then show ?thesis using assms nosp(2) single by (simp add: diff_git_paths_def)
qed

end
