(* ===== verification/PatchTools.thy ===== *)
theory PatchTools
  imports EditPolicy PyJson World
begin

text \<open>
  \<open>pyfixagent/tools/patch_tools.py\<close>: extraction of a unified diff from model output,
  normalization of its headers, validation of its format, and the calls of \<open>git apply\<close>
  behind them. Line feeds inside a message are written with \<^const>\<open>nl\<close>.
\<close>

section \<open>Extraction of the patch text\<close>

definition strip_outer_code_fence :: "pystr \<Rightarrow> pystr" where
  "strip_outer_code_fence s =
     (let lines = splitlines (strip s);
          lines = (if lines \<noteq> [] \<and> startswith (strip (hd lines)) ''```'' then tl lines else lines);
          lines = (if lines \<noteq> [] \<and> strip (last lines) = ''```'' then butlast lines else lines)
      in strip (joinlines lines))"

text \<open>The first position where a JSON object decodes, and the text it spans.\<close>

fun extract_first_json_object :: "pystr \<Rightarrow> pystr option" where
  "extract_first_json_object [] = None"
| "extract_first_json_object (c # cs) =
     (if c \<noteq> CHR 0x7B then extract_first_json_object cs
      else (case raw_decode (c # cs) of
         None \<Rightarrow> extract_first_json_object cs
       | Some (_, r) \<Rightarrow> Some (take (length (c # cs) - length r) (c # cs))))"

definition patch_line_prefixes :: "pystr list" where
  "patch_line_prefixes = [''diff --git '', ''index '', ''new file mode '', ''deleted file mode '',
     ''old mode '', ''new mode '', ''similarity index '', ''rename from '', ''rename to '',
     ''--- '', ''+++ '', ''@@'', '' '', ''+'', ''-'', [CHR 0x5C]]"

definition looks_like_patch_line :: "pystr \<Rightarrow> bool" where
  "looks_like_patch_line line \<longleftrightarrow> startswith_any line patch_line_prefixes"

definition trim_trailing_non_patch_lines :: "pystr list \<Rightarrow> pystr list" where
  "trim_trailing_non_patch_lines lines =
     rev (dropWhile (\<lambda>l. \<not> looks_like_patch_line l) (rev lines))"

definition is_patch_start :: "pystr \<Rightarrow> bool" where
  "is_patch_start line \<longleftrightarrow> startswith line ''diff --git '' \<or> startswith line ''--- a/''"

definition extract_patch_text :: "pystr \<Rightarrow> pystr" where
  "extract_patch_text s =
     (let lines = splitlines (strip_outer_code_fence (strip s));
          rest = dropWhile (\<lambda>l. \<not> is_patch_start l) lines
      in if rest = [] then strip (joinlines lines)
         else strip (joinlines (trim_trailing_non_patch_lines rest)))"

text \<open>The first of the three fields of a JSON object that is a text with content.\<close>

definition patch_fields :: "pystr list" where
  "patch_fields = [''patch'', ''cleaned_patch'', ''raw_model_output'']"

fun first_text_field :: "pystr list \<Rightarrow> (pystr \<times> json) list \<Rightarrow> (pystr \<times> pystr) option" where
  "first_text_field [] d = None"
| "first_text_field (f # fs) d =
     (case dict_get d f of
        Some (JStr v) \<Rightarrow> (if strip v \<noteq> [] then Some (f, v) else first_text_field fs d)
      | _ \<Rightarrow> first_text_field fs d)"

definition json_patch_field :: "pystr \<Rightarrow> pystr option" where
  "json_patch_field s =
     (case extract_first_json_object s of
        None \<Rightarrow> None
      | Some j \<Rightarrow> (case json_loads j of
           Some (JObj d) \<Rightarrow> map_option snd (first_text_field patch_fields d)
         | _ \<Rightarrow> None))"

definition clean_model_output :: "pystr \<Rightarrow> pystr" where
  "clean_model_output raw =
     (let s = strip_outer_code_fence (strip raw) in
      case json_patch_field s of
        Some v \<Rightarrow> extract_patch_text v
      | None \<Rightarrow> extract_patch_text s)"

section \<open>Header normalization\<close>

definition is_diff_header :: "pystr \<Rightarrow> bool" where
  "is_diff_header line \<longleftrightarrow> startswith line ''diff --git ''"

definition is_file_header_pair :: "pystr \<Rightarrow> pystr \<Rightarrow> bool" where
  "is_file_header_pair l1 l2 \<longleftrightarrow> startswith l1 ''--- '' \<and> startswith l2 ''+++ ''"

definition old_path_of :: "pystr \<Rightarrow> pystr" where
  "old_path_of l = strip (removeprefix l ''--- '')"

definition new_path_of :: "pystr \<Rightarrow> pystr" where
  "new_path_of l = strip (removeprefix l ''+++ '')"

definition expected_header :: "pystr \<Rightarrow> pystr \<Rightarrow> pystr" where
  "expected_header l1 l2 = ''diff --git '' @ old_path_of l1 @ '' '' @ new_path_of l2"

definition dev_null :: pystr where
  "dev_null = ''/dev/null''"

text \<open>
  The scan of the lines. The state of the loop is the active header; a pair of file
  headers that the active header does not announce gets its own header before it.
\<close>

fun normalize_lines :: "pystr option \<Rightarrow> pystr list \<Rightarrow> pystr list" where
  "normalize_lines active [] = []"
| "normalize_lines active [l] = [l]"
| "normalize_lines active (l # l2 # ls) =
     (if is_diff_header l then l # normalize_lines (Some l) (l2 # ls)
      else if is_file_header_pair l l2 then
        (if old_path_of l = dev_null \<or> new_path_of l2 = dev_null
         then l # l2 # normalize_lines active ls
         else (if active \<noteq> Some (expected_header l l2) then [expected_header l l2] else [])
              @ l # l2 # normalize_lines (Some (expected_header l l2)) ls)
      else l # normalize_lines active (l2 # ls))"

definition normalize_git_diff_headers :: "pystr \<Rightarrow> pystr" where
  "normalize_git_diff_headers patch =
     strip (joinlines (normalize_lines None (splitlines (strip patch))))"

definition ensure_trailing_newline :: "pystr \<Rightarrow> pystr" where
  "ensure_trailing_newline s = (let t = strip s in if t = [] then [] else t @ [nl])"

definition clean_patch_text :: "pystr \<Rightarrow> pystr" where
  "clean_patch_text s = ensure_trailing_newline (normalize_git_diff_headers (clean_model_output s))"

section \<open>Format validation\<close>

record validation_result =
  v_success :: bool
  v_error_code :: "pystr option"
  v_error :: "pystr option"

definition v_ok :: validation_result where
  "v_ok = \<lparr>v_success = True, v_error_code = None, v_error = None\<rparr>"

definition v_fail :: "pystr \<Rightarrow> pystr \<Rightarrow> validation_result" where
  "v_fail c e = \<lparr>v_success = False, v_error_code = Some c, v_error = Some e\<rparr>"

text \<open>
  The last prefix of the source, \<open>\\u4e0b\\u9762\\u662f\\u8865\\u4e01\<close> (five Chinese
  characters), starts no Latin-1 text.
\<close>

definition natural_prefixes :: "pystr list" where
  "natural_prefixes = [''here is the patch'', ''here'' @ [CHR 0x27] @ ''s the patch'',
     ''below is the patch'', ''the patch is'']"

definition has_natural_language_prefix :: "pystr \<Rightarrow> bool" where
  "has_natural_language_prefix s = startswith_any (lower (strip (hd (splitlines s)))) natural_prefixes"

definition unsafe_relative :: "pystr \<Rightarrow> bool" where
  "unsafe_relative p \<longleftrightarrow>
     path_is_absolute p \<or> ''..'' \<in> set (path_parts p) \<or> ''.git'' \<in> set (path_parts p)"

definition strip_ab :: "pystr \<Rightarrow> pystr" where
  "strip_ab p = (if startswith_any p [''a/'', ''b/''] then drop 2 p else p)"

definition create_delete_failure :: validation_result where
  "create_delete_failure =
     v_fail ''UNSUPPORTED_CREATE_DELETE'' ''create/delete patches are not supported''"

definition validate_diff_path :: "pystr \<Rightarrow> validation_result option" where
  "validate_diff_path p =
     (if p = dev_null then Some create_delete_failure
      else if unsafe_relative (strip_ab p)
      then Some (v_fail ''UNSAFE_PATH'' (''unsafe patch path: '' @ p))
      else None)"

text \<open>The lines from each header up to the next one; lines before the first are dropped.\<close>

fun diff_blocks :: "pystr list \<Rightarrow> pystr list list" where
  "diff_blocks [] = []"
| "diff_blocks (l # ls) =
     (if is_diff_header l then (l # takeWhile (\<lambda>x. \<not> is_diff_header x) ls) # diff_blocks ls
      else diff_blocks ls)"

definition check_file_header :: "pystr \<Rightarrow> validation_result option" where
  "check_file_header line =
     (if startswith_any line [''--- '', ''+++ ''] then
        (let p = strip (drop 4 line) in
         if p = dev_null then Some create_delete_failure else validate_diff_path p)
      else None)"

definition check_block :: "pystr list \<Rightarrow> validation_result option" where
  "check_block block =
     (let header_parts = split_space (hd block) in
      if length header_parts < 4
      then Some (v_fail ''MISSING_DIFF_GIT_HEADER'' (''invalid diff --git header: '' @ hd block))
      else (case first_error validate_diff_path (take 2 (drop 2 header_parts)) of
         Some e \<Rightarrow> Some e
       | None \<Rightarrow>
           (if \<not> list_ex (\<lambda>l. startswith l ''--- '') block \<or> \<not> list_ex (\<lambda>l. startswith l ''+++ '') block
            then Some (v_fail ''MISSING_FILE_HEADER''
              (''missing ---/+++ file header after '' @ hd block))
            else if \<not> list_ex (\<lambda>l. startswith l ''@@'') block
            then Some (v_fail ''MISSING_HUNK_HEADER'' (''missing hunk header after '' @ hd block))
            else first_error check_file_header block)))"

definition validate_patch_format :: "pystr \<Rightarrow> validation_result" where
  "validate_patch_format patch =
     (let s = strip patch in
      if s = [] then v_fail ''EMPTY_OUTPUT'' ''patch is empty''
      else if contains s ''```''
      then v_fail ''MARKDOWN_FENCE_FOUND'' ''patch still contains Markdown code fence''
      else if has_natural_language_prefix s
      then v_fail ''NO_PATCH_FOUND'' ''patch appears to contain natural-language prefix''
      else if contains s dev_null then create_delete_failure
      else (let normalized = normalize_git_diff_headers s in
        if \<not> contains normalized ''diff --git ''
        then v_fail ''MISSING_DIFF_GIT_HEADER'' ''patch does not contain diff --git header''
        else (case first_error check_block (diff_blocks (splitlines normalized)) of
           Some e \<Rightarrow> e | None \<Rightarrow> v_ok)))"

section \<open>Calls of git\<close>

record patch_apply_result =
  p_success :: bool
  p_stdout :: pystr
  p_stderr :: pystr
  p_error :: "pystr option"

definition p_fail :: "pystr \<Rightarrow> patch_apply_result" where
  "p_fail e = \<lparr>p_success = False, p_stdout = [], p_stderr = [], p_error = Some e\<rparr>"

definition validate_edit_policy :: "pystr \<Rightarrow> edit_policy option \<Rightarrow> pystr option" where
  "validate_edit_policy patch policy =
     (case policy of
        None \<Rightarrow> None
      | Some pol \<Rightarrow>
          (let error = validate_paths pol (paths_from_patch patch) in
           if truthy error then error
           else validate_changed_lines pol (int (changed_lines_from_patch patch))))"

text \<open>
  The part that \<open>check_patch\<close> and \<open>apply_patch\<close> share: clean, validate, check the policy.
  It returns the rejection, or the cleaned text to hand to git.
\<close>

definition admit_patch :: "pystr \<Rightarrow> edit_policy option \<Rightarrow> pystr + pystr" where
  "admit_patch patch policy =
     (let cleaned = clean_patch_text patch; v = validate_patch_format cleaned in
      if \<not> v_success v
      then Inl (str_opt (v_error_code v) @ '': '' @ str_opt (v_error v))
      else (let policy_error = validate_edit_policy cleaned policy in
        if truthy policy_error then Inl (''EDIT_POLICY_REJECTED: '' @ the policy_error)
        else Inr cleaned))"

definition check_patch ::
    "'w os \<Rightarrow> 'w \<Rightarrow> pystr \<Rightarrow> pystr \<Rightarrow> edit_policy option \<Rightarrow> nat \<Rightarrow> patch_apply_result \<times> 'w" where
  "check_patch os w workspace patch policy timeout =
     (case admit_patch patch policy of
        Inl e \<Rightarrow> (p_fail e, w)
      | Inr cleaned \<Rightarrow>
          (case git os w workspace [''apply'', ''--check'', ''-''] cleaned of
             (Completed rc out err, w') \<Rightarrow>
               (\<lparr>p_success = (rc = 0), p_stdout = out, p_stderr = err,
                 p_error = (if rc = 0 then None
                   else Some (''GIT_APPLY_CHECK_FAILED: '' @ or_text err ''git apply failed''))\<rparr>, w')
           | (TimedOut m, w') \<Rightarrow>
               (p_fail (''git apply --check timed out after '' @ str_nat timeout @ ''s: '' @ m), w')
           | (Unstarted m, w') \<Rightarrow> (p_fail (''failed to check patch: '' @ m), w')))"

definition apply_patch ::
    "'w os \<Rightarrow> 'w \<Rightarrow> pystr \<Rightarrow> pystr \<Rightarrow> edit_policy option \<Rightarrow> nat \<Rightarrow> patch_apply_result \<times> 'w" where
  "apply_patch os w workspace patch policy timeout =
     (case admit_patch patch policy of
        Inl e \<Rightarrow> (p_fail e, w)
      | Inr cleaned \<Rightarrow>
          (case git os w workspace [''apply'', ''-''] cleaned of
             (Completed rc out err, w') \<Rightarrow>
               (\<lparr>p_success = (rc = 0), p_stdout = out, p_stderr = err,
                 p_error = (if rc = 0 then None else Some (or_text err ''git apply failed''))\<rparr>, w')
           | (TimedOut m, w') \<Rightarrow>
               (p_fail (''git apply timed out after '' @ str_nat timeout @ ''s: '' @ m), w')
           | (Unstarted m, w') \<Rightarrow> (p_fail (''failed to apply patch: '' @ m), w')))"

definition get_git_diff :: "'w os \<Rightarrow> 'w \<Rightarrow> pystr \<Rightarrow> nat \<Rightarrow> patch_apply_result \<times> 'w" where
  "get_git_diff os w workspace timeout =
     (case git os w workspace [''diff'', ''--'', ''.''] [] of
        (Completed rc out err, w') \<Rightarrow>
          (\<lparr>p_success = (rc = 0), p_stdout = out, p_stderr = err,
            p_error = (if rc = 0 then None
              else Some (''GIT_DIFF_FAILED: '' @ or_text err ''git diff failed''))\<rparr>, w')
      | (TimedOut m, w') \<Rightarrow>
          (p_fail (''GIT_DIFF_FAILED: git diff timed out after '' @ str_nat timeout @ ''s: '' @ m), w')
      | (Unstarted m, w') \<Rightarrow> (p_fail (''GIT_DIFF_FAILED: failed to run git diff: '' @ m), w'))"

text \<open>\<open>save_patch\<close> cleans the text again before it writes it; a failure is a \<open>RuntimeError\<close>.\<close>

definition save_patch ::
    "'w os \<Rightarrow> 'w \<Rightarrow> pystr \<Rightarrow> pystr \<Rightarrow> (exn + pystr) \<times> 'w" where
  "save_patch os w patch output_path =
     (case write_text os w output_path (clean_patch_text patch) of
        (None, w') \<Rightarrow> (Inr output_path, w')
      | (Some m, w') \<Rightarrow>
          (Inl (RuntimeError (''failed to save patch to '' @ output_path @ '': '' @ m)), w'))"

section \<open>Correctness of the normalization\<close>

lemma header_not_pair: "is_diff_header l \<Longrightarrow> \<not> startswith l ''--- ''"
  by (auto simp: is_diff_header_def startswith_iff)

lemma plus_not_header: "startswith l ''+++ '' \<Longrightarrow> \<not> is_diff_header l \<and> \<not> startswith l ''--- ''"
  by (auto simp: is_diff_header_def startswith_iff)

lemma expected_is_header [simp]: "is_diff_header (expected_header l1 l2)"
  by (simp add: is_diff_header_def expected_header_def)

text \<open>The first output line is the first input line, or the header of a pair that begins there.\<close>

lemma normalize_lines_hd:
  "normalize_lines active (l # ls) = l # tl (normalize_lines active (l # ls))
   \<or> (\<exists>l2 rest. ls = l2 # rest \<and> is_file_header_pair l l2 \<and> \<not> is_diff_header l \<and>
        normalize_lines active (l # ls) = expected_header l l2 # tl (normalize_lines active (l # ls)))"
  by (cases ls) (auto simp: Let_def)

lemma normalize_lines_Cons_other:
  assumes "\<not> is_diff_header l" and "\<not> startswith l ''--- ''"
  shows "normalize_lines active (l # ls) = l # normalize_lines active ls"
  using assms by (cases ls) (auto simp: is_file_header_pair_def)

lemma normalize_lines_header:
  "is_diff_header l \<Longrightarrow> normalize_lines active (l # ls) = l # normalize_lines (Some l) ls"
  by (cases ls) auto

lemma normalize_lines_not_pair:
  assumes "\<not> is_diff_header l" and "ls \<noteq> [] \<Longrightarrow> \<not> is_file_header_pair l (hd ls)"
  shows "normalize_lines active (l # ls) = l # normalize_lines active ls"
  using assms by (cases ls) auto

lemma normalize_lines_Nil_iff [simp]: "normalize_lines active ls = [] \<longleftrightarrow> ls = []"
  by (cases "(active, ls)" rule: normalize_lines.cases) (auto simp: Let_def)

lemma hd_normalize_plus:
  assumes "ls \<noteq> []"
  shows "startswith (hd (normalize_lines active ls)) ''+++ '' \<longleftrightarrow> startswith (hd ls) ''+++ ''"
proof -
  obtain l rest where ls: "ls = l # rest" using assms by (cases ls) auto
  from normalize_lines_hd [of active l rest] show ?thesis
  proof
    assume "normalize_lines active (l # rest) = l # tl (normalize_lines active (l # rest))"
    then show ?thesis by (metis list.sel(1) ls)
  next
    assume "\<exists>l2 rest'. rest = l2 # rest' \<and> is_file_header_pair l l2 \<and> \<not> is_diff_header l \<and>
      normalize_lines active (l # rest) = expected_header l l2 # tl (normalize_lines active (l # rest))"
    then obtain l2 where p: "is_file_header_pair l l2"
      and h: "hd (normalize_lines active ls) = expected_header l l2"
      using ls by (metis list.sel(1))
    have "\<not> startswith (expected_header l l2) ''+++ ''"
      using plus_not_header expected_is_header by blast
    moreover have "\<not> startswith l ''+++ ''"
      using p plus_not_header by (auto simp: is_file_header_pair_def)
    ultimately show ?thesis unfolding h by (simp add: ls)
  qed
qed

lemma normalize_lines_idem [simp]:
  "normalize_lines active (normalize_lines active ls) = normalize_lines active ls"
proof (induction active ls rule: normalize_lines.induct)
  case (3 active l l2 ls)
  consider (header) "is_diff_header l"
    | (null) "\<not> is_diff_header l" "is_file_header_pair l l2" "old_path_of l = dev_null \<or> new_path_of l2 = dev_null"
    | (pair) "\<not> is_diff_header l" "is_file_header_pair l l2" "\<not> (old_path_of l = dev_null \<or> new_path_of l2 = dev_null)"
    | (other) "\<not> is_diff_header l" "\<not> is_file_header_pair l l2"
    by blast
  then show ?case
  proof cases
    case header
    with "3.IH"(1) show ?thesis by (simp add: normalize_lines_header)
  next
    case null
    with "3.IH"(2) show ?thesis by simp
  next
    case pair
    with "3.IH"(3) have ih: "normalize_lines (Some (expected_header l l2))
        (normalize_lines (Some (expected_header l l2)) ls) = normalize_lines (Some (expected_header l l2)) ls"
      by simp
    have "normalize_lines (Some (expected_header l l2))
        (l # l2 # normalize_lines (Some (expected_header l l2)) ls)
        = l # l2 # normalize_lines (Some (expected_header l l2)) ls"
      using pair ih by simp
    with pair show ?thesis
      by (cases "active = Some (expected_header l l2)") (simp_all add: normalize_lines_header)
  next
    case other
    with "3.IH"(4) have ih: "normalize_lines active (normalize_lines active (l2 # ls))
        = normalize_lines active (l2 # ls)" by simp
    have "\<not> is_file_header_pair l (hd (normalize_lines active (l2 # ls)))"
      using other hd_normalize_plus [of "l2 # ls" active] by (auto simp: is_file_header_pair_def)
    with other ih show ?thesis by (simp add: normalize_lines_not_pair)
  qed
qed simp_all

text \<open>Lines are only added, never dropped, changed or reordered.\<close>

lemma normalize_lines_subseq: "subseq ls (normalize_lines active ls)"
  by (induction active ls rule: normalize_lines.induct) auto

lemma set_strip_removeprefix: "set (strip (removeprefix s p)) \<subseteq> set s"
proof -
  have "set (removeprefix s p) \<subseteq> set s" by (simp add: removeprefix_def set_drop_subset)
  then show ?thesis unfolding strip_def using set_strip_by by blast
qed

lemma normalize_lines_no_break:
  "\<forall>l\<in>set ls. no_break l \<Longrightarrow> \<forall>l\<in>set (normalize_lines active ls). no_break l"
proof (induction active ls rule: normalize_lines.induct)
  case (3 active l l2 ls)
  have sub: "set (old_path_of l) \<subseteq> set l" "set (new_path_of l2) \<subseteq> set l2"
    unfolding old_path_of_def new_path_of_def by (rule set_strip_removeprefix)+
  have "no_break ''diff --git ''" "no_break '' ''"
    by (auto simp: no_break_def is_linebreak_def)
  moreover have "no_break (old_path_of l)" "no_break (new_path_of l2)"
    using "3.prems" sub by (auto simp: no_break_def)
  ultimately have "no_break (expected_header l l2)"
    by (auto simp: no_break_def expected_header_def)
  with 3 show ?case by auto
qed auto

lemma last_normalize_lines: "ls \<noteq> [] \<Longrightarrow> last (normalize_lines active ls) = last ls"
  by (induction active ls rule: normalize_lines.induct) auto

lemma normalize_lines_hd_content:
  assumes "ls \<noteq> []" and "hd ls \<noteq> []" and "\<not> is_space (hd (hd ls))"
  shows "hd (normalize_lines active ls) \<noteq> [] \<and> \<not> is_space (hd (hd (normalize_lines active ls)))"
proof -
  obtain l rest where ls: "ls = l # rest" using assms by (cases ls) auto
  have "expected_header a b \<noteq> [] \<and> \<not> is_space (hd (expected_header a b))" for a b
    by (simp add: expected_header_def is_space_def)
  with normalize_lines_hd [of active l rest] assms show ?thesis
    unfolding ls by (metis list.sel(1))
qed

text \<open>The lines of a normalized patch, and the text they join to.\<close>

lemma normalized_lines:
  assumes "strip p \<noteq> []"
  defines "out \<equiv> normalize_lines None (splitlines (strip p))"
  shows "normalize_git_diff_headers p = joinlines out"
    and "splitlines (joinlines out) = out"
    and "strip (joinlines out) = joinlines out"
    and "joinlines out \<noteq> []"
proof -
  have st: "stripped_by is_space (strip p)" by (simp add: strip_def stripped_strip_by)
  note l = stripped_lines [OF st assms(1)]
  have hd: "\<not> is_space (hd (hd (splitlines (strip p))))" "\<not> is_space (last (last (splitlines (strip p))))"
    using st assms(1) l by (auto simp: stripped_by_def)
  have ne: "out \<noteq> []" using l(1) by (simp add: out_def)
  have h: "hd out \<noteq> []" "\<not> is_space (hd (hd out))"
    using normalize_lines_hd_content [OF l(1) l(2) hd(1)] by (auto simp: out_def)
  have la: "last out \<noteq> []" "\<not> is_space (last (last out))"
    using last_normalize_lines [OF l(1)] l(4) hd(2) by (auto simp: out_def)
  show s: "strip (joinlines out) = joinlines out"
    by (rule strip_joinlines) (use ne h la in auto)
  then show "normalize_git_diff_headers p = joinlines out"
    by (simp add: normalize_git_diff_headers_def out_def)
  have "\<forall>l\<in>set out. no_break l"
    unfolding out_def by (rule normalize_lines_no_break) (simp add: splitlines_no_break)
  then show "splitlines (joinlines out) = out" by (rule splitlines_joinlines) (use la in simp)
  show "joinlines out \<noteq> []" using ne la by (simp add: joinlines_def join_not_Nil)
qed

lemma normalize_git_diff_headers_idem [simp]:
  "normalize_git_diff_headers (normalize_git_diff_headers p) = normalize_git_diff_headers p"
proof (cases "strip p = []")
  case True
  then show ?thesis by (simp add: normalize_git_diff_headers_def joinlines_def)
next
  case False
  note n = normalized_lines [OF False]
  show ?thesis
    by (subst n(1), simp add: normalize_git_diff_headers_def n)
qed

section \<open>A clean patch passes unchanged\<close>

definition well_formed_lines :: "pystr list \<Rightarrow> bool" where
  "well_formed_lines ls \<longleftrightarrow>
     ls \<noteq> [] \<and> list_all no_break ls \<and> is_patch_start (hd ls) \<and> last ls \<noteq> []
     \<and> \<not> is_space (last (last ls)) \<and> strip (last ls) \<noteq> ''```'' \<and> looks_like_patch_line (last ls)"

lemma patch_start_content:
  assumes "is_patch_start l"
  shows "l \<noteq> []" and "\<not> is_space (hd l)" and "\<not> startswith (strip l) ''```''"
proof -
  obtain c cs where l: "l = c # cs" and c: "c = CHR ''d'' \<or> c = CHR ''-''"
    using assms by (auto simp: is_patch_start_def startswith_iff)
  then show "l \<noteq> []" and sp: "\<not> is_space (hd l)" by (auto simp: is_space_def)
  have ls: "lstrip_by is_space l = l" using sp by (simp add: lstrip_by_def l dropWhile_hd_id)
  have "strip l \<noteq> []"
    using sp l by (auto simp: strip_def strip_by_Nil_iff)
  moreover have "hd (strip l) = c"
    using rstrip_by_hd [of is_space l] calculation ls by (simp add: strip_def strip_by_def l)
  ultimately show "\<not> startswith (strip l) ''```''"
    using c by (cases "strip l") auto
qed

lemma well_formed_fence:
  assumes "well_formed_lines ls"
  shows "strip (joinlines ls) = joinlines ls" and "splitlines (joinlines ls) = ls"
    and "strip_outer_code_fence (joinlines ls) = joinlines ls"
proof -
  note w = assms [unfolded well_formed_lines_def list_all_iff]
  have h: "is_patch_start (hd ls)" using w by simp
  show s: "strip (joinlines ls) = joinlines ls"
    by (rule strip_joinlines) (use w patch_start_content [OF h] in auto)
  show sl: "splitlines (joinlines ls) = ls"
    by (rule splitlines_joinlines) (use w in auto)
  have "ls \<noteq> []" "strip (last ls) \<noteq> ''```''" using w by auto
  with s sl patch_start_content(3) [OF h]
  show "strip_outer_code_fence (joinlines ls) = joinlines ls"
    by (simp add: strip_outer_code_fence_def)
qed

lemma well_formed_extract:
  assumes "well_formed_lines ls"
  shows "extract_patch_text (joinlines ls) = joinlines ls"
proof -
  note f = well_formed_fence [OF assms]
  note w = assms [unfolded well_formed_lines_def]
  have "dropWhile (\<lambda>l. \<not> is_patch_start l) ls = ls" using w by (simp add: dropWhile_hd_id)
  moreover have "trim_trailing_non_patch_lines ls = ls"
    using w by (simp add: trim_trailing_non_patch_lines_def dropWhile_hd_id hd_rev)
  ultimately show ?thesis using w f by (simp add: extract_patch_text_def)
qed

lemma strip_snoc_nl: "strip (s @ [nl]) = strip s"
proof -
  have "rstrip_by is_space (lstrip_by is_space (s @ [nl])) = rstrip_by is_space (lstrip_by is_space s)"
  proof (cases "\<forall>c\<in>set s. is_space c")
    case True
    then show ?thesis
      by (auto simp: lstrip_by_def rstrip_by_def dropWhile_append_all dest: set_dropWhileD)
  next
    case False
    then have "lstrip_by is_space (s @ [nl]) = lstrip_by is_space s @ [nl]"
      unfolding lstrip_by_def by (metis dropWhile_append1)
    then show ?thesis by (simp add: rstrip_by_def)
  qed
  then show ?thesis by (simp add: strip_def strip_by_def)
qed

lemma clean_patch_text_cong: "strip s = strip t \<Longrightarrow> clean_patch_text s = clean_patch_text t"
  by (simp add: clean_patch_text_def clean_model_output_def)

lemma clean_well_formed:
  assumes "well_formed_lines ls" and "normalize_lines None ls = ls"
    and "json_patch_field (joinlines ls) = None"
  shows "clean_patch_text (joinlines ls) = joinlines ls @ [nl]"
    and "clean_patch_text (joinlines ls @ [nl]) = joinlines ls @ [nl]"
proof -
  note f = well_formed_fence [OF assms(1)]
  have "joinlines ls \<noteq> []"
    using assms(1) by (simp add: well_formed_lines_def joinlines_def join_not_Nil)
  then show c: "clean_patch_text (joinlines ls) = joinlines ls @ [nl]"
    using f assms well_formed_extract [OF assms(1)]
    by (simp add: clean_patch_text_def clean_model_output_def normalize_git_diff_headers_def
        ensure_trailing_newline_def)
  have "strip (joinlines ls @ [nl]) = strip (joinlines ls)" by (rule strip_snoc_nl)
  with c show "clean_patch_text (joinlines ls @ [nl]) = joinlines ls @ [nl]"
    by (metis clean_patch_text_cong)
qed


section \<open>What an admitted patch satisfies\<close>

lemma strip_ensure_trailing_newline [simp]: "strip (ensure_trailing_newline s) = strip s"
  by (simp add: ensure_trailing_newline_def Let_def strip_snoc_nl)

text \<open>Validation splits the very lines that git is handed into blocks.\<close>

lemma validation_sees_cleaned_lines:
  "normalize_git_diff_headers (strip (clean_patch_text t)) = strip (clean_patch_text t)"
proof -
  have "strip (normalize_git_diff_headers x) = normalize_git_diff_headers x" for x
    by (simp add: normalize_git_diff_headers_def)
  then show ?thesis by (simp add: clean_patch_text_def)
qed

definition safe_path_word :: "pystr \<Rightarrow> bool" where
  "safe_path_word p \<longleftrightarrow> p \<noteq> dev_null \<and> \<not> unsafe_relative (strip_ab p)"

definition safe_block :: "pystr list \<Rightarrow> bool" where
  "safe_block b \<longleftrightarrow>
     (\<exists>l\<in>set b. startswith l ''--- '') \<and> (\<exists>l\<in>set b. startswith l ''+++ '') \<and> (\<exists>l\<in>set b. startswith l ''@@'')
     \<and> (\<forall>p\<in>set (take 2 (drop 2 (split_space (hd b)))). safe_path_word p)
     \<and> (\<forall>l\<in>set b. startswith l ''--- '' \<or> startswith l ''+++ '' \<longrightarrow> safe_path_word (strip (drop 4 l)))"

lemma validate_diff_path_None [simp]: "validate_diff_path p = None \<longleftrightarrow> safe_path_word p"
  by (simp add: validate_diff_path_def safe_path_word_def)

lemma check_file_header_None:
  "check_file_header l = None \<longleftrightarrow>
     (startswith l ''--- '' \<or> startswith l ''+++ '' \<longrightarrow> safe_path_word (strip (drop 4 l)))"
  by (auto simp: check_file_header_def Let_def safe_path_word_def)

lemma check_block_None: "check_block b = None \<Longrightarrow> safe_block b"
  by (auto simp: check_block_def safe_block_def Let_def check_file_header_None list_ex_iff
      split: if_splits option.splits)

lemma v_fail_not_success [simp]: "\<not> v_success (v_fail c e)" "\<not> v_success create_delete_failure"
  by (simp_all add: v_fail_def create_delete_failure_def)

lemma check_block_fails: "check_block b = Some e \<Longrightarrow> \<not> v_success e"
  by (auto simp: check_block_def check_file_header_def validate_diff_path_def Let_def
      split: if_splits option.splits dest!: first_error_Some)

lemma validate_patch_format_success:
  assumes "v_success (validate_patch_format s)"
  shows "\<forall>b\<in>set (diff_blocks (splitlines (normalize_git_diff_headers (strip s)))). safe_block b"
    and "\<not> contains (strip s) dev_null" and "strip s \<noteq> []"
  using assms unfolding validate_patch_format_def Let_def
  by (auto split: if_splits option.splits dest: check_block_None check_block_fails dest!: first_error_Some)

lemma policy_messages [simp]:
  "validate_paths pol ps = Some m \<Longrightarrow> m \<noteq> []" "validate_changed_lines pol n = Some m \<Longrightarrow> m \<noteq> []"
  by (auto simp: early_return Let_def split: if_splits dest!: first_error_Some)

lemma not_truthy_policy [simp]:
  "truthy (validate_paths pol ps) \<longleftrightarrow> validate_paths pol ps \<noteq> None"
  "truthy (validate_changed_lines pol n) \<longleftrightarrow> validate_changed_lines pol n \<noteq> None"
  by (auto simp: truthy_def split: option.split)

lemma admit_patch_Inr:
  assumes "admit_patch patch policy = Inr cleaned"
  shows "cleaned = clean_patch_text patch" and "v_success (validate_patch_format cleaned)"
    and "\<not> truthy (validate_edit_policy cleaned policy)"
  using assms by (auto simp: admit_patch_def Let_def split: if_splits)

section \<open>Properties\<close>

definition demo_patch :: "pystr list" where
  "demo_patch = [''diff --git a/src/m.py b/src/m.py'', ''--- a/src/m.py'', ''+++ b/src/m.py'',
     ''@@ -1,1 +1,1 @@'', ''-x = 1'', ''+x = 2'']"





text \<open>
  \<open>git apply\<close> runs on a model patch only after admission, on the cleaned text, and its
  exit status 0 is the only way to success; a rejected patch leaves the world unchanged.
\<close>

theorem apply_patch_gated:
  "case admit_patch patch policy of
     Inl e \<Rightarrow> apply_patch os w ws patch policy t = (p_fail e, w)
       \<and> check_patch os w ws patch policy t = (p_fail e, w)
   | Inr cleaned \<Rightarrow>
       snd (apply_patch os w ws patch policy t) = snd (git os w ws [''apply'', ''-''] cleaned)
       \<and> (p_success (fst (apply_patch os w ws patch policy t))
           \<longleftrightarrow> (\<exists>out err. fst (git os w ws [''apply'', ''-''] cleaned) = Completed 0 out err))
       \<and> (p_success (fst (check_patch os w ws patch policy t))
           \<longleftrightarrow> (\<exists>out err. fst (git os w ws [''apply'', ''--check'', ''-''] cleaned) = Completed 0 out err))"
  by (auto simp: apply_patch_def check_patch_def p_fail_def split: sum.split prod.split proc.split)

text \<open>
  Cleaning leaves a well-formed patch alone: a text that starts with a header, ends in a
  patch line without white space at its end, announces each pair of file headers and hides
  no JSON object with a patch field comes out line for line, and cleaning it again changes
  nothing.
\<close>

theorem clean_patch_text_stable:
  assumes "well_formed_lines ls" and "normalize_lines None ls = ls"
    and "json_patch_field (joinlines ls) = None"
  shows "clean_patch_text (joinlines ls) = joinlines ls @ [nl]
    \<and> clean_patch_text (clean_patch_text (joinlines ls)) = clean_patch_text (joinlines ls)"
  using clean_well_formed [OF assms] by simp

theorem clean_patch_text_stable_witness:
  "clean_patch_text (joinlines demo_patch) = joinlines demo_patch @ [nl]"
  by (rule clean_patch_text_stable [THEN conjunct1]) code_simp+

text \<open>
  Header normalization only inserts lines: the patch's own lines survive in their order,
  and a second pass inserts nothing more.
\<close>

theorem normalize_git_diff_headers_inserts:
  "subseq (splitlines (strip p)) (splitlines (normalize_git_diff_headers p))
    \<and> normalize_git_diff_headers (normalize_git_diff_headers p) = normalize_git_diff_headers p"
proof (cases "strip p = []")
  case False
  then have "subseq (splitlines (strip p)) (splitlines (normalize_git_diff_headers p))"
    using normalize_lines_subseq by (simp add: normalized_lines)
  then show ?thesis by simp
qed simp


text \<open>
  A path with a space is not collected from a header, so that a patch to a file under a
  forbidden directory is admitted.
\<close>

theorem path_with_space_admitted:
  "admit_patch (joinlines [''diff --git a/tests/my t.py b/tests/my t.py'', ''--- a/tests/my t.py'',
     ''+++ b/tests/my t.py'', ''@@ -1,1 +1,1 @@'', ''-assert f(1) == 2'', ''+assert f(1) == 1''])
     (Some default_edit_policy)
   = Inr (joinlines [''diff --git a/tests/my t.py b/tests/my t.py'', ''--- a/tests/my t.py'',
     ''+++ b/tests/my t.py'', ''@@ -1,1 +1,1 @@'', ''-assert f(1) == 2'', ''+assert f(1) == 1''] @ [nl])"
  by code_simp

end
