(* ===== verification/ReplacementTools.thy ===== *)
theory ReplacementTools
  imports EditPolicy PyJson FileSystem World
begin

text \<open>
  \<open>pyfixagent/tools/replacement_tools.py\<close>: JSON replacement edits, their parsing, the
  search for the text to replace, and their application to the files of the workspace.
\<close>

section \<open>Parsing\<close>

record replacement_result =
  r_success :: bool
  r_changed_files :: "pystr list"
  r_error :: "pystr option"

record replacement_edit =
  e_path :: pystr
  e_old :: pystr
  e_new :: pystr
  e_start_line :: "int option"

definition strip_code_fence :: "pystr \<Rightarrow> pystr" where
  "strip_code_fence raw =
     (let lines = splitlines (strip raw);
          lines = (if lines \<noteq> [] \<and> startswith (strip (hd lines)) ''```'' then tl lines else lines);
          lines = (if lines \<noteq> [] \<and> strip (last lines) = ''```'' then butlast lines else lines)
      in strip (joinlines lines))"

text \<open>\<open>rfind\<close> of one character.\<close>

definition rfind_char :: "char \<Rightarrow> pystr \<Rightarrow> nat option" where
  "rfind_char c s = (if c \<in> set s
     then Some (length s - 1 - length (takeWhile (\<lambda>x. x \<noteq> c) (rev s))) else None)"

definition extract_json_array :: "pystr \<Rightarrow> pystr" where
  "extract_json_array s =
     (let stripped = strip s in
      if startswith stripped ''['' \<and> endswith stripped '']'' then stripped
      else (case (find_sub stripped ''['', rfind_char (CHR '']'') stripped) of
         (Some start, Some end') \<Rightarrow>
           (if end' > start then strip (drop start (take (end' + 1) stripped)) else stripped)
       | _ \<Rightarrow> stripped))"

definition item_prefix :: "nat \<Rightarrow> pystr" where
  "item_prefix i = ''replacement item '' @ str_nat i"

definition edit_fields :: "pystr list" where
  "edit_fields = [''path'', ''old'', ''new'']"

text \<open>
  The value of \<open>start_line\<close>: absent or null, an \<open>int\<close> (of which \<open>bool\<close> is a subclass), or
  something else.
\<close>

definition start_line_of :: "nat \<Rightarrow> (pystr \<times> json) list \<Rightarrow> exn + int option" where
  "start_line_of i d =
     (case dict_get d ''start_line'' of
        None \<Rightarrow> Inr None
      | Some JNull \<Rightarrow> Inr None
      | Some v \<Rightarrow>
          (let n = (case v of JInt k \<Rightarrow> Some k | JBool b \<Rightarrow> Some (if b then 1 else 0) | _ \<Rightarrow> None) in
           case n of
             Some k \<Rightarrow> (if k < 1
               then Inl (ValueError (item_prefix i @ '' field start_line must be a positive integer''))
               else Inr (Some k))
           | None \<Rightarrow> Inl (ValueError (item_prefix i @ '' field start_line must be a positive integer''))))"

definition string_field :: "(pystr \<times> json) list \<Rightarrow> pystr \<Rightarrow> pystr option" where
  "string_field d f = (case dict_get d f of Some (JStr s) \<Rightarrow> Some s | _ \<Rightarrow> None)"

definition parse_item :: "nat \<Rightarrow> json \<Rightarrow> exn + replacement_edit" where
  "parse_item i item =
     (case item of
        JObj d \<Rightarrow>
          (let missing = filter (\<lambda>f. dict_get d f = None) edit_fields in
           if missing \<noteq> []
           then Inl (ValueError (item_prefix i @ '' is missing fields: '' @ join '', '' missing))
           else (case first_error (\<lambda>f. if string_field d f = None then Some f else None) edit_fields of
              Some f \<Rightarrow> Inl (ValueError (item_prefix i @ '' field '' @ f @ '' must be a string''))
            | None \<Rightarrow>
                (let p = the (string_field d ''path''); old = the (string_field d ''old'');
                     new = the (string_field d ''new'') in
                 if p = [] then Inl (ValueError (item_prefix i @ '' field path must not be empty''))
                 else if old = [] then Inl (ValueError (item_prefix i @ '' field old must not be empty''))
                 else if old = new then Inl (ValueError (item_prefix i @ '' old and new must differ''))
                 else (case start_line_of i d of
                    Inl e \<Rightarrow> Inl e
                  | Inr l \<Rightarrow> Inr \<lparr>e_path = p, e_old = old, e_new = new, e_start_line = l\<rparr>))))
      | _ \<Rightarrow> Inl (ValueError (item_prefix i @ '' must be an object'')))"

fun parse_items :: "nat \<Rightarrow> json list \<Rightarrow> exn + replacement_edit list" where
  "parse_items i [] = Inr []"
| "parse_items i (x # xs) =
     (case parse_item i x of
        Inl e \<Rightarrow> Inl e
      | Inr e \<Rightarrow> (case parse_items (Suc i) xs of Inl err \<Rightarrow> Inl err | Inr es \<Rightarrow> Inr (e # es)))"

text \<open>\<open>decode_error\<close> is the text of the \<open>JSONDecodeError\<close> that the decoder raises.\<close>

definition parse_replacements :: "(pystr \<Rightarrow> pystr) \<Rightarrow> pystr \<Rightarrow> exn + replacement_edit list" where
  "parse_replacements decode_error raw =
     (let s = extract_json_array (strip_code_fence raw) in
      case json_loads s of
        None \<Rightarrow> Inl (ValueError (''Invalid replacement JSON: '' @ decode_error s))
      | Some (JArr items) \<Rightarrow> parse_items 0 items
      | Some _ \<Rightarrow> Inl (ValueError ''replacement JSON must be a list''))"

section \<open>Search\<close>

text \<open>The search resumes after each match, so matches do not overlap.\<close>

function occurrences_from :: "pystr \<Rightarrow> pystr \<Rightarrow> nat \<Rightarrow> nat list" where
  "occurrences_from t needle start =
     (if length t < start then []
      else (case find_sub (drop start t) needle of
         None \<Rightarrow> []
       | Some k \<Rightarrow> (start + k) # occurrences_from t needle (start + k + max 1 (length needle))))"
  by pat_completeness auto
termination
  by (relation "measure (\<lambda>(t, needle, start). Suc (length t) - start)") auto

declare occurrences_from.simps [simp del]

definition find_occurrences :: "pystr \<Rightarrow> pystr \<Rightarrow> nat list" where
  "find_occurrences t needle = occurrences_from t needle 0"

definition line_of :: "pystr \<Rightarrow> nat \<Rightarrow> int" where
  "line_of t i = int (count_list (take i t) nl) + 1"

definition nearest_match_by_line :: "pystr \<Rightarrow> nat list \<Rightarrow> int option \<Rightarrow> nat option" where
  "nearest_match_by_line t matches start_line =
     (case start_line of
        None \<Rightarrow> None
      | Some l \<Rightarrow>
          (let distances = map (\<lambda>m. (m, \<bar>line_of t m - l\<bar>)) matches;
               best = Min (set (map snd distances));
               best_matches = map fst (filter (\<lambda>(m, d). d = best) distances)
           in if length best_matches \<noteq> 1 then None else Some (hd best_matches)))"

section \<open>Application\<close>

definition resolve_target :: "fs \<Rightarrow> path \<Rightarrow> pystr \<Rightarrow> exn + path" where
  "resolve_target F workspace raw =
     (if path_is_absolute raw
      then Inl (ValueError (''replacement path must be relative to workspace: '' @ raw))
      else (let target = resolve F (workspace @ path_parts raw) in
        case relative_to workspace target of
          None \<Rightarrow> Inl (ValueError (''replacement path escapes workspace: '' @ raw))
        | Some _ \<Rightarrow> Inr target))"

definition edit_lines :: "replacement_edit \<Rightarrow> nat" where
  "edit_lines e = max (length (splitlines (e_old e))) (length (splitlines (e_new e)))"

definition splice :: "pystr \<Rightarrow> nat \<Rightarrow> pystr \<Rightarrow> pystr \<Rightarrow> pystr" where
  "splice t i old new = take i t @ new @ drop (i + length old) t"

text \<open>The local state of the planning loop: the dictionaries in insertion order.\<close>

record plan =
  planned :: "(path \<times> pystr) list"
  originals :: "(path \<times> pystr) list"
  changed :: "pystr list"

definition empty_plan :: plan where
  "empty_plan = \<lparr>planned = [], originals = [], changed = []\<rparr>"

definition not_found_error :: "pystr \<Rightarrow> pystr" where
  "not_found_error p = ''old text was not found exactly once in '' @ p"

definition ambiguous_error :: "pystr \<Rightarrow> pystr" where
  "ambiguous_error p = ''old text appears multiple times in '' @ p
     @ ''; provide a more precise old fragment or include start_line''"

definition tied_error :: "pystr \<Rightarrow> pystr" where
  "tied_error p = ''old text appears multiple times in '' @ p @ ''; start_line was ambiguous''"

definition choose_match :: "pystr \<Rightarrow> replacement_edit \<Rightarrow> pystr + nat" where
  "choose_match current e =
     (let matches = find_occurrences current (e_old e) in
      if matches = [] then Inl (not_found_error (e_path e))
      else if length matches > 1 \<and> e_start_line e = None then Inl (ambiguous_error (e_path e))
      else (let m = (if length matches = 1 then Some (hd matches)
              else nearest_match_by_line current matches (e_start_line e)) in
        case m of None \<Rightarrow> Inl (tied_error (e_path e)) | Some i \<Rightarrow> Inr i))"

definition plan_edit :: "fs \<Rightarrow> path \<Rightarrow> plan \<Rightarrow> replacement_edit \<Rightarrow> pystr + plan" where
  "plan_edit F workspace st e =
     (case resolve_target F workspace (e_path e) of
        Inl err \<Rightarrow> Inl (exn_message err)
      | Inr target \<Rightarrow>
          (let rel = as_posix (drop (length workspace) target);
               original = (case dict_get (originals st) target of
                  Some t \<Rightarrow> Inr t | None \<Rightarrow> fs_read F target) in
           case original of
             Inl m \<Rightarrow> Inl (''failed to read replacement target '' @ e_path e @ '': '' @ m)
           | Inr orig \<Rightarrow>
               (let current = (case dict_get (planned st) target of Some t \<Rightarrow> t | None \<Rightarrow> orig) in
                case choose_match current e of
                  Inl err \<Rightarrow> Inl err
                | Inr i \<Rightarrow>
                    Inr \<lparr>planned = dict_set target (splice current i (e_old e) (e_new e)) (planned st),
                         originals = dict_set target orig (originals st),
                         changed = (if rel \<in> set (changed st) then changed st else changed st @ [rel])\<rparr>)))"

fun plan_edits :: "fs \<Rightarrow> path \<Rightarrow> plan \<Rightarrow> replacement_edit list \<Rightarrow> pystr + plan" where
  "plan_edits F workspace st [] = Inr st"
| "plan_edits F workspace st (e # es) =
     (case plan_edit F workspace st e of
        Inl err \<Rightarrow> Inl err | Inr st' \<Rightarrow> plan_edits F workspace st' es)"

text \<open>
  Removal of the compiled files \<open>stem.*.pyc\<close> beside a changed source (the stem holds no
  character that is special in a glob pattern).
\<close>

definition is_pyc_of :: "pystr \<Rightarrow> pystr \<Rightarrow> bool" where
  "is_pyc_of stem name \<longleftrightarrow> startswith name (stem @ ''.'') \<and> endswith name ''.pyc''
     \<and> length stem + 5 \<le> length name"

fun unlink_all :: "fs \<Rightarrow> path list \<Rightarrow> pystr option \<times> fs" where
  "unlink_all F [] = (None, F)"
| "unlink_all F (p # ps) =
     (case fs_unlink F p of (Some m, F') \<Rightarrow> (Some m, F') | (None, F') \<Rightarrow> unlink_all F' ps)"

definition remove_python_bytecode_cache :: "fs \<Rightarrow> path \<Rightarrow> pystr option \<times> fs" where
  "remove_python_bytecode_cache F source =
     (let dir = butlast source @ [''__pycache__''];
          name = last source;
          stem = take (length name - length (name_suffix name)) name
      in unlink_all F (map (\<lambda>n. dir @ [n]) (filter (is_pyc_of stem) (listing F dir))))"

fun write_all :: "fs \<Rightarrow> (path \<times> pystr) list \<Rightarrow> pystr option \<times> fs" where
  "write_all F [] = (None, F)"
| "write_all F ((p, t) # ws) =
     (case fs_write F p t of
        (Some m, F') \<Rightarrow> (Some m, F')
      | (None, F') \<Rightarrow>
          (case remove_python_bytecode_cache F' p of
             (Some m, F'') \<Rightarrow> (Some m, F'')
           | (None, F'') \<Rightarrow> write_all F'' ws))"

definition r_fail :: "pystr \<Rightarrow> replacement_result" where
  "r_fail e = \<lparr>r_success = False, r_changed_files = [], r_error = Some e\<rparr>"

definition apply_replacements ::
    "fs \<Rightarrow> path \<Rightarrow> replacement_edit list \<Rightarrow> edit_policy option \<Rightarrow> replacement_result \<times> fs" where
  "apply_replacements F workspace edits policy =
     (let pol = (case policy of Some p \<Rightarrow> p | None \<Rightarrow> default_edit_policy) in
      case validate_paths pol (map e_path edits) of
        Some err \<Rightarrow> (r_fail err, F)
      | None \<Rightarrow>
          (case validate_changed_lines pol (int (sum_list (map edit_lines edits))) of
             Some err \<Rightarrow> (r_fail err, F)
           | None \<Rightarrow>
               (case plan_edits F workspace empty_plan edits of
                  Inl err \<Rightarrow> (r_fail err, F)
                | Inr st \<Rightarrow>
                    (case write_all F (planned st) of
                       (Some m, F') \<Rightarrow> (r_fail (''failed to write replacements: '' @ m), F')
                     | (None, F') \<Rightarrow>
                         (\<lparr>r_success = True, r_changed_files = changed st, r_error = None\<rparr>, F')))))"

section \<open>The search finds a maximal set of disjoint occurrences\<close>

lemma occurrences_from_sound:
  "i \<in> set (occurrences_from t needle start) \<Longrightarrow>
     start \<le> i \<and> i \<le> length t \<and> startswith (drop i t) needle"
proof (induction t needle start rule: occurrences_from.induct)
  case (1 t needle start)
  show ?case
  proof (cases "length t < start \<or> find_sub (drop start t) needle = None")
    case True
    with "1.prems" show ?thesis
      by (subst (asm) occurrences_from.simps) (auto split: if_splits option.splits)
  next
    case False
    then obtain k where k: "find_sub (drop start t) needle = Some k" and le: "start \<le> length t" by auto
    let ?next = "start + k + max 1 (length needle)"
    have occ: "startswith (drop (start + k) t) needle"
      using find_sub_occurs [OF k] by (simp add: add.commute)
    have "k \<le> length (drop start t)" using find_sub_Some [OF k] by auto
    then have bound: "start + k \<le> length t" using le by simp
    from "1.prems" have "i = start + k \<or> i \<in> set (occurrences_from t needle ?next)"
      using le k by (subst (asm) occurrences_from.simps) auto
    then show ?thesis using "1.IH" [OF _ k] le occ bound by fastforce
  qed
qed

lemma occurrences_from_disjoint:
  "sorted_wrt (\<lambda>i j. i + max 1 (length needle) \<le> j) (occurrences_from t needle start)"
proof (induction t needle start rule: occurrences_from.induct)
  case (1 t needle start)
  then show ?case
    by (subst occurrences_from.simps) (auto split: option.split dest: occurrences_from_sound)
qed

text \<open>Every occurrence overlaps one that is reported.\<close>

lemma occurrences_from_covers:
  assumes "startswith (drop i t) needle" and "start \<le> i" and "i \<le> length t"
  shows "\<exists>m\<in>set (occurrences_from t needle start). m \<le> i \<and> i < m + max 1 (length needle)"
  using assms
proof (induction t needle start rule: occurrences_from.induct)
  case (1 t needle start)
  let ?d = "drop start t"
  have i: "startswith (drop (i - start) ?d) needle" "i - start \<le> length ?d"
    using "1.prems" by simp_all
  then have "find_sub ?d needle \<noteq> None" using find_sub_None by blast
  then obtain k where k: "find_sub ?d needle = Some k" by blast
  have ki: "k \<le> i - start" using find_sub_first [OF k] i(1) by (meson not_le)
  let ?next = "start + k + max 1 (length needle)"
  have step: "occurrences_from t needle start = (start + k) # occurrences_from t needle ?next"
    using k "1.prems" by (subst occurrences_from.simps) simp
  show ?case
  proof (cases "?next \<le> i")
    case True
    with "1.IH" [OF _ k] "1.prems" show ?thesis unfolding step by auto
  next
    case False
    then show ?thesis unfolding step using ki "1.prems" by auto
  qed
qed

lemma find_occurrences_Nil_iff: "find_occurrences t needle = [] \<longleftrightarrow> \<not> contains t needle"
proof
  assume nil: "find_occurrences t needle = []"
  have "\<not> startswith (drop i t) needle" if "i \<le> length t" for i
  proof
    assume "startswith (drop i t) needle"
    from occurrences_from_covers [OF this le0 that] nil show False
      by (simp add: find_occurrences_def)
  qed
  then show "\<not> contains t needle" by (simp add: contains_def find_sub_None)
next
  assume no: "\<not> contains t needle"
  have "i \<notin> set (find_occurrences t needle)" for i
  proof
    assume "i \<in> set (find_occurrences t needle)"
    then have "i \<le> length t" "startswith (drop i t) needle"
      using occurrences_from_sound by (auto simp: find_occurrences_def)
    with no show False by (simp add: contains_def find_sub_None)
  qed
  then show "find_occurrences t needle = []" by (cases "find_occurrences t needle") auto
qed

lemma find_occurrences_distinct: "distinct (find_occurrences t needle)"
proof -
  have "sorted_wrt (<) (find_occurrences t needle)"
    unfolding find_occurrences_def
    by (rule sorted_wrt_mono_rel [OF _ occurrences_from_disjoint]) auto
  then show ?thesis using strict_sorted_iff by blast
qed

lemma nearest_match_None [simp]: "nearest_match_by_line t matches None = None"
  by (simp add: nearest_match_by_line_def)

lemma nearest_match_Some:
  assumes "nearest_match_by_line t matches (Some l) = Some m"
  shows "m \<in> set matches"
    and "\<And>m'. m' \<in> set matches \<Longrightarrow> m' \<noteq> m \<Longrightarrow> \<bar>line_of t m - l\<bar> < \<bar>line_of t m' - l\<bar>"
proof -
  let ?D = "map (\<lambda>m. (m, \<bar>line_of t m - l\<bar>)) matches"
  let ?best = "Min (set (map snd ?D))"
  let ?B = "map fst (filter (\<lambda>(m, d). d = ?best) ?D)"
  have "nearest_match_by_line t matches (Some l) = (if length ?B \<noteq> 1 then None else Some (hd ?B))"
    by (simp only: nearest_match_by_line_def Let_def option.case)
  with assms have len: "length ?B = 1" and hd: "hd ?B = m"
    by (auto simp only: split: if_splits)
  from singleton_list [OF len hd] have "set ?B = {m}" by (simp only: list.set)
  moreover have "set ?B = {x \<in> set matches. \<bar>line_of t x - l\<bar> = ?best}"
    by (simp only: filter_map map_map o_def) auto
  ultimately have mem: "x \<in> set matches \<and> \<bar>line_of t x - l\<bar> = ?best \<longleftrightarrow> x = m" for x
    by blast
  then show m: "m \<in> set matches" by blast
  fix m' assume m': "m' \<in> set matches" "m' \<noteq> m"
  have "?best \<le> \<bar>line_of t m' - l\<bar>" by (rule Min_le) (use m' in auto)
  with mem m' show "\<bar>line_of t m - l\<bar> < \<bar>line_of t m' - l\<bar>" by (metis order_le_less)
qed

section \<open>Planning refines the edits applied one after the other\<close>

text \<open>
  The abstract view: a map from paths to texts. One edit resolves its target, chooses its
  match in the current text and stores the spliced text; a list of edits is their
  composition.
\<close>

definition edit_store ::
    "fs \<Rightarrow> path \<Rightarrow> (path \<Rightarrow> pystr option) \<Rightarrow> replacement_edit \<Rightarrow> (path \<Rightarrow> pystr option) option" where
  "edit_store F workspace V e =
     (case resolve_target F workspace (e_path e) of
        Inl _ \<Rightarrow> None
      | Inr target \<Rightarrow> (case V target of
          None \<Rightarrow> None
        | Some cur \<Rightarrow> (case choose_match cur e of
            Inl _ \<Rightarrow> None
          | Inr i \<Rightarrow> Some (V(target \<mapsto> splice cur i (e_old e) (e_new e))))))"

fun edit_stores ::
    "fs \<Rightarrow> path \<Rightarrow> (path \<Rightarrow> pystr option) \<Rightarrow> replacement_edit list \<Rightarrow> (path \<Rightarrow> pystr option) option" where
  "edit_stores F workspace V [] = Some V"
| "edit_stores F workspace V (e # es) =
     (case edit_store F workspace V e of None \<Rightarrow> None | Some V' \<Rightarrow> edit_stores F workspace V' es)"

definition plan_view :: "fs \<Rightarrow> plan \<Rightarrow> path \<Rightarrow> pystr option" where
  "plan_view F st p = (case dict_get (planned st) p of Some t \<Rightarrow> Some t | None \<Rightarrow> fs_text F p)"

definition plan_inv :: "fs \<Rightarrow> path \<Rightarrow> plan \<Rightarrow> bool" where
  "plan_inv F workspace st \<longleftrightarrow>
     distinct (map fst (planned st))
     \<and> (\<forall>p t. dict_get (originals st) p = Some t \<longrightarrow> fs_text F p = Some t)
     \<and> (\<forall>p\<in>set (map fst (planned st)). fs_text F p \<noteq> None \<and> (\<exists>r. p = workspace @ r))"

lemma resolve_target_inside:
  "resolve_target F workspace raw = Inr target \<Longrightarrow> \<exists>r. target = workspace @ r"
  unfolding resolve_target_def Let_def by (auto simp: relative_to_Some split: if_splits option.splits; metis)

lemma plan_edit_refines:
  assumes inv: "plan_inv F workspace st"
  shows "case plan_edit F workspace st e of
     Inl _ \<Rightarrow> edit_store F workspace (plan_view F st) e = None
   | Inr st' \<Rightarrow> edit_store F workspace (plan_view F st) e = Some (plan_view F st')
       \<and> plan_inv F workspace st'"
proof (cases "resolve_target F workspace (e_path e)")
  case (Inl err)
  then show ?thesis by (simp add: plan_edit_def edit_store_def)
next
  case target: (Inr target)
  let ?orig = "case dict_get (originals st) target of Some t \<Rightarrow> Inr t | None \<Rightarrow> fs_read F target"
  have orig: "?orig = (case fs_text F target of Some t \<Rightarrow> Inr t | None \<Rightarrow> fs_read F target)"
    using inv by (auto simp: plan_inv_def fs_text_def split: option.split sum.split)
  show ?thesis
  proof (cases "fs_text F target")
    case None
    then have "dict_get (planned st) target = None"
      using inv by (auto simp: plan_inv_def map_of_eq_None_iff)
    with None orig target show ?thesis
      by (auto simp: plan_edit_def edit_store_def plan_view_def fs_text_def Let_def split: sum.splits)
  next
    case (Some t)
    let ?cur = "case dict_get (planned st) target of Some t \<Rightarrow> t | None \<Rightarrow> t"
    have cur: "plan_view F st target = Some ?cur"
      using Some by (simp add: plan_view_def split: option.split)
    have o: "?orig = Inr t" using orig Some by simp
    show ?thesis
    proof (cases "choose_match ?cur e")
      case (Inl err)
      then show ?thesis
        by (simp add: plan_edit_def edit_store_def target o cur Let_def)
    next
      case (Inr i)
      let ?st = "\<lparr>planned = dict_set target (splice ?cur i (e_old e) (e_new e)) (planned st),
        originals = dict_set target t (originals st),
        changed = (if as_posix (drop (length workspace) target) \<in> set (changed st) then changed st
          else changed st @ [as_posix (drop (length workspace) target)])\<rparr>"
      have p: "plan_edit F workspace st e = Inr ?st"
        using Inr by (simp add: plan_edit_def target o Let_def)
      have v: "plan_view F ?st = (plan_view F st)(target \<mapsto> splice ?cur i (e_old e) (e_new e))"
        by (auto simp: plan_view_def dict_get_set fun_eq_iff)
      have "plan_inv F workspace ?st"
        using inv Some resolve_target_inside [OF target] unfolding plan_inv_def plan.simps keys_dict_set
        by (auto simp: dict_get_set distinct_dict_set)
      with p v Inr show ?thesis by (simp add: edit_store_def target cur)
    qed
  qed
qed

lemma plan_edits_refines:
  "plan_inv F workspace st \<Longrightarrow>
     (case plan_edits F workspace st es of
        Inl _ \<Rightarrow> edit_stores F workspace (plan_view F st) es = None
      | Inr st' \<Rightarrow> edit_stores F workspace (plan_view F st) es = Some (plan_view F st')
          \<and> plan_inv F workspace st')"
proof (induction es arbitrary: st)
  case (Cons e es)
  note step = plan_edit_refines [OF Cons.prems, of e]
  show ?case
  proof (cases "plan_edit F workspace st e")
    case (Inl err)
    with step show ?thesis by simp
  next
    case (Inr st1)
    with step have e: "edit_store F workspace (plan_view F st) e = Some (plan_view F st1)"
      and inv: "plan_inv F workspace st1" by simp_all
    from Cons.IH [OF inv] show ?thesis
      by (cases "plan_edits F workspace st1 es") (simp_all add: Inr e)
  qed
qed simp

lemma empty_plan_inv [simp]: "plan_inv F workspace empty_plan"
  by (simp add: plan_inv_def empty_plan_def)

lemma empty_plan_view [simp]: "plan_view F empty_plan = fs_text F"
  by (simp add: plan_view_def empty_plan_def fun_eq_iff)

section \<open>Writing\<close>

lemma unlink_all_frame:
  "q \<notin> set ps \<Longrightarrow> contents (snd (unlink_all F ps)) q = contents F q"
proof (induction F ps rule: unlink_all.induct)
  case (2 F p ps)
  then show ?case
    by (auto simp: fs_unlink_def split: option.splits prod.splits)
qed simp

lemma bytecode_cache_frame:
  assumes "''__pycache__'' \<notin> set q"
  shows "contents (snd (remove_python_bytecode_cache F p)) q = contents F q"
  unfolding remove_python_bytecode_cache_def Let_def
  by (rule unlink_all_frame) (use assms in auto)

lemma bytecode_cache_inside:
  assumes "contents (snd (remove_python_bytecode_cache F (workspace @ r))) q \<noteq> contents F q"
    and "r \<noteq> []"
  shows "\<exists>s. q = workspace @ s"
proof (rule ccontr)
  assume "\<nexists>s. q = workspace @ s"
  then have "contents (snd (remove_python_bytecode_cache F (workspace @ r))) q = contents F q"
    unfolding remove_python_bytecode_cache_def Let_def
    by (intro unlink_all_frame) (use assms(2) in \<open>auto simp: butlast_append\<close>)
  with assms(1) show False by simp
qed

lemma write_all_text:
  assumes "write_all F ws = (None, F')" and "distinct (map fst ws)" and "''__pycache__'' \<notin> set q"
  shows "contents F' q = (case dict_get ws q of Some t \<Rightarrow> Some (TextFile t) | None \<Rightarrow> contents F q)"
  using assms(1,2)
proof (induction F ws rule: write_all.induct)
  case (2 F p t ws)
  obtain F1 where F1: "fs_write F p t = (None, F1)"
    using "2.prems" by (auto split: prod.splits option.splits)
  obtain F2 where F2: "remove_python_bytecode_cache F1 p = (None, F2)"
    using "2.prems" F1 by (auto split: prod.splits option.splits)
  have rest: "write_all F2 ws = (None, F')" using "2.prems" F1 F2 by simp
  have c1: "contents F1 q = (if q = p then Some (TextFile t) else contents F q)"
    using F1 by (auto simp: fs_write_def split: option.splits)
  have c2: "contents F2 q = contents F1 q"
    using bytecode_cache_frame [OF assms(3), of F1 p] F2 by simp
  have "dict_get ws p = None" using "2.prems"(2) by (simp add: map_of_eq_None_iff)
  with "2.IH" [OF F1 [symmetric] refl F2 [symmetric] refl rest] "2.prems"(2) c1 c2
  show ?case by (auto split: option.splits)
qed simp

lemma write_all_inside:
  assumes "\<forall>p\<in>set (map fst ws). \<exists>r. r \<noteq> [] \<and> p = workspace @ r"
    and "contents (snd (write_all F ws)) q \<noteq> contents F q"
  shows "\<exists>s. q = workspace @ s"
  using assms
proof (induction F ws rule: write_all.induct)
  case (2 F p t ws)
  obtain r where r: "p = workspace @ r" "r \<noteq> []" using "2.prems"(1) by auto
  obtain o1 F1 where F1: "fs_write F p t = (o1, F1)" by fastforce
  obtain o2 F2 where F2: "remove_python_bytecode_cache F1 p = (o2, F2)" by fastforce
  show ?case
  proof (rule ccontr)
    assume out: "\<nexists>s. q = workspace @ s"
    then have "q \<noteq> p" using r by auto
    then have c1: "contents F1 q = contents F q" using fs_write_other [of q p F t] F1 by simp
    have c2: "contents F2 q = contents F1 q"
      using bytecode_cache_inside [of F1 workspace r q] r F2 out by (metis snd_conv)
    have c3: "o1 = None \<Longrightarrow> o2 = None \<Longrightarrow> contents (snd (write_all F2 ws)) q = contents F2 q"
      using "2.IH" [of "None" F1] F1 F2 "2.prems"(1) out by auto
    show False
      using "2.prems"(2) F1 F2 c1 c2 c3 by (auto split: option.splits)
  qed
qed simp


text \<open>The outcomes of an application: rejected before any write, or planned and written.\<close>

lemma apply_replacements_cases:
  assumes "apply_replacements F workspace edits policy = (res, F')"
  obtains (rejected) m where "res = r_fail m" "F' = F"
  | (write_failed) st m where "plan_edits F workspace empty_plan edits = Inr st"
      "write_all F (planned st) = (Some m, F')"
      "res = r_fail (''failed to write replacements: '' @ m)"
  | (applied) st where "plan_edits F workspace empty_plan edits = Inr st"
      "write_all F (planned st) = (None, F')"
      "res = \<lparr>r_success = True, r_changed_files = changed st, r_error = None\<rparr>"
      "validate_paths (case policy of Some p \<Rightarrow> p | None \<Rightarrow> default_edit_policy) (map e_path edits) = None"
      "validate_changed_lines (case policy of Some p \<Rightarrow> p | None \<Rightarrow> default_edit_policy)
         (int (sum_list (map edit_lines edits))) = None"
  using assms unfolding apply_replacements_def Let_def
  by (auto split: option.splits sum.splits prod.splits)

lemma planned_inside:
  assumes "plan_edits F workspace empty_plan edits = Inr st" and "fs_text F workspace = None"
  shows "\<forall>p\<in>set (map fst (planned st)). \<exists>r. r \<noteq> [] \<and> p = workspace @ r"
proof -
  have "plan_inv F workspace st"
    using plan_edits_refines [OF empty_plan_inv, of F workspace edits] assms(1) by simp
  then show ?thesis using assms(2) unfolding plan_inv_def by (metis append_Nil2)
qed

lemma fs_text_written:
  assumes "plan_edits F workspace empty_plan edits = Inr st" and "write_all F (planned st) = (None, F')"
    and "''__pycache__'' \<notin> set q"
  shows "fs_text F' q = map_option universal_newlines (plan_view F st q)"
proof -
  have "distinct (map fst (planned st))"
    using plan_edits_refines [OF empty_plan_inv, of F workspace edits] assms(1)
    by (simp add: plan_inv_def)
  from write_all_text [OF assms(2) this assms(3)] show ?thesis
    by (cases "dict_get (planned st) q")
      (simp_all add: fs_text_contents plan_view_def fs_text_newlines [unfolded fs_text_contents])
qed

text \<open>
  A \<open>replacement edit\<close> as the parser promises it.
\<close>

definition valid_edit :: "replacement_edit \<Rightarrow> bool" where
  "valid_edit e \<longleftrightarrow> e_path e \<noteq> [] \<and> e_old e \<noteq> [] \<and> e_old e \<noteq> e_new e
     \<and> (case e_start_line e of None \<Rightarrow> True | Some l \<Rightarrow> 1 \<le> l)"

lemma start_line_of_positive: "start_line_of i d = Inr (Some l) \<Longrightarrow> 1 \<le> l"
  by (auto simp: start_line_of_def Let_def split: option.splits json.splits if_splits)

lemma parse_item_valid: "parse_item i x = Inr e \<Longrightarrow> valid_edit e"
  by (auto simp: parse_item_def valid_edit_def Let_def start_line_of_positive
      split: json.splits if_splits option.splits sum.splits)

lemma parse_items_valid: "parse_items i xs = Inr es \<Longrightarrow> list_all valid_edit es \<and> length es = length xs"
  by (induction i xs arbitrary: es rule: parse_items.induct)
    (auto split: sum.splits dest: parse_item_valid)

lemma choose_match_occurs:
  assumes "choose_match current e = Inr i"
  shows "startswith (drop i current) (e_old e)" and "i \<le> length current"
    and "i \<in> set (find_occurrences current (e_old e))"
proof -
  show m: "i \<in> set (find_occurrences current (e_old e))"
  proof (cases "length (find_occurrences current (e_old e)) = 1")
    case True
    then show ?thesis using assms
      by (auto simp: choose_match_def Let_def split: if_splits intro: hd_in_set)
  next
    case False
    then have near: "nearest_match_by_line current (find_occurrences current (e_old e)) (e_start_line e)
        = Some i"
      using assms by (auto simp: choose_match_def Let_def split: if_splits option.splits)
    then show ?thesis by (cases "e_start_line e") (simp_all add: nearest_match_Some(1))
  qed
  then show "startswith (drop i current) (e_old e)" "i \<le> length current"
    by (auto simp: find_occurrences_def dest: occurrences_from_sound)
qed

text \<open>A chosen match is unique, or strictly nearest to the line the edit names.\<close>

lemma choose_match_unique:
  assumes "choose_match current e = Inr i" and "j \<in> set (find_occurrences current (e_old e))" and "j \<noteq> i"
  shows "\<exists>l. e_start_line e = Some l \<and> \<bar>line_of current i - l\<bar> < \<bar>line_of current j - l\<bar>"
proof -
  let ?M = "find_occurrences current (e_old e)"
  have "length ?M \<noteq> 1"
  proof
    assume "length ?M = 1"
    then obtain m where "?M = [m]" by (metis length_0_conv length_Suc_conv One_nat_def)
    then show False using assms choose_match_occurs(3) [OF assms(1)] by simp
  qed
  then have "nearest_match_by_line current ?M (e_start_line e) = Some i"
    using assms(1) by (auto simp: choose_match_def Let_def split: if_splits option.splits)
  then show ?thesis using nearest_match_Some(2) [OF _ assms(2,3)]
    by (cases "e_start_line e") simp_all
qed

text \<open>The spliced text: the replaced part is the old text, the rest is untouched.\<close>

lemma splice_decompose:
  assumes "startswith (drop i t) old"
  shows "t = take i t @ old @ drop (i + length old) t"
    and "splice t i old new = take i t @ new @ drop (i + length old) t"
proof -
  obtain r where r: "drop i t = old @ r"
    using assms by (metis append_take_drop_id startswith_def)
  have "drop (i + length old) t = r"
    by (metis add.commute append_eq_conv_conj drop_drop r)
  with r show "t = take i t @ old @ drop (i + length old) t" by (metis append_take_drop_id)
  show "splice t i old new = take i t @ new @ drop (i + length old) t" by (simp add: splice_def)
qed


section \<open>Properties\<close>

text \<open>A workspace with one module in which the text to replace occurs twice.\<close>

definition demo_fs :: fs where
  "demo_fs = \<lparr>contents = [[''w'', ''a.py''] \<mapsto> TextFile (joinlines [''x = 1'', ''y = 2'', ''x = 1''])],
     resolve = id, listing = \<lambda>_. [], refuse_write = \<lambda>_. None, read_failure = \<lambda>_. ''No such file''\<rparr>"

definition demo_edit :: replacement_edit where
  "demo_edit = \<lparr>e_path = ''a.py'', e_old = ''x = 1'', e_new = ''x = 3'', e_start_line = Some 4\<rparr>"

text \<open>
  C9 A batch of replacements that reports success has the effect of its edits applied one
  after the other, each to the text that the edits before it left: every file outside the
  bytecode caches reads afterwards as the sequential semantics \<open>edit_stores\<close> says, whatever
  the order in which targets repeat in the batch.
\<close>

theorem apply_replacements_refines:
  assumes "r_success (fst (apply_replacements F workspace edits policy))"
  shows "\<exists>V. edit_stores F workspace (fs_text F) edits = Some V
    \<and> (\<forall>q. ''__pycache__'' \<notin> set q \<longrightarrow>
          fs_text (snd (apply_replacements F workspace edits policy)) q
            = map_option universal_newlines (V q))"
proof -
  obtain res F' where out: "apply_replacements F workspace edits policy = (res, F')" by fastforce
  then show ?thesis
  proof (cases rule: apply_replacements_cases)
    case (applied st)
    have "edit_stores F workspace (fs_text F) edits = Some (plan_view F st)"
      using plan_edits_refines [OF empty_plan_inv, of F workspace edits] applied(1) by simp
    then show ?thesis using fs_text_written [OF applied(1,2)] out by auto
  qed (use assms out in \<open>simp_all add: r_fail_def\<close>)
qed

theorem apply_replacements_refines_witness:
  "\<exists>V. edit_stores demo_fs [''w''] (fs_text demo_fs) [demo_edit] = Some V
    \<and> (\<forall>q. ''__pycache__'' \<notin> set q \<longrightarrow>
          fs_text (snd (apply_replacements demo_fs [''w''] [demo_edit] None)) q
            = map_option universal_newlines (V q))"
  by (rule apply_replacements_refines) code_simp

text \<open>
  A batch is all or nothing as far as its edits go: when one of them cannot be applied in
  sequence (target outside the workspace, unreadable, text missing or ambiguous), the call
  reports a failure and no file has been touched.
\<close>

theorem apply_replacements_atomic:
  assumes "edit_stores F workspace (fs_text F) edits = None"
  shows "\<exists>m. apply_replacements F workspace edits policy = (r_fail m, F)"
proof -
  obtain res F' where out: "apply_replacements F workspace edits policy = (res, F')" by fastforce
  have none: "plan_edits F workspace empty_plan edits \<noteq> Inr st" for st
    using plan_edits_refines [OF empty_plan_inv, of F workspace edits] assms by auto
  from out show ?thesis
  proof (cases rule: apply_replacements_cases)
    case (rejected m)
    then show ?thesis using out by blast
  qed (use none in simp_all)
qed

theorem apply_replacements_atomic_witness:
  "\<exists>m. apply_replacements demo_fs [''w''] [demo_edit, demo_edit\<lparr>e_old := ''z''\<rparr>] None
     = (r_fail m, demo_fs)"
  by (rule apply_replacements_atomic) code_simp



text \<open>
  The text that an edit replaces occurs at the chosen position, and every other disjoint
  occurrence is strictly farther from the line that the edit names; an edit without a line
  is accepted only when the occurrence is the only one.
\<close>

theorem choose_match_correct:
  assumes "choose_match current e = Inr i"
  shows "current = take i current @ e_old e @ drop (i + length (e_old e)) current
    \<and> (\<forall>j\<in>set (find_occurrences current (e_old e)) - {i}.
      \<exists>l. e_start_line e = Some l \<and> \<bar>line_of current i - l\<bar> < \<bar>line_of current j - l\<bar>)"
  using splice_decompose(1) [OF choose_match_occurs(1) [OF assms]] choose_match_unique [OF assms]
  by auto

theorem choose_match_correct_witness:
  "\<exists>l. e_start_line demo_edit = Some l
        \<and> \<bar>line_of (joinlines [''x = 1'', ''y = 2'', ''x = 1'']) 12 - l\<bar>
            < \<bar>line_of (joinlines [''x = 1'', ''y = 2'', ''x = 1'']) 0 - l\<bar>"
  by (rule choose_match_correct [THEN conjunct2, THEN bspec]; code_simp)

text \<open>
  The edits that the parser accepts are well formed: a non-empty path, a non-empty old
  text that differs from the new one, and a positive line number if there is one.
\<close>

theorem parse_replacements_valid:
  assumes "parse_replacements decode_error raw = Inr edits"
  shows "list_all valid_edit edits"
  using assms parse_items_valid
  by (auto simp: parse_replacements_def Let_def split: option.splits json.splits)

definition demo_reply :: pystr where
  "demo_reply = ''[{'' @ [CHR 0x22] @ ''path'' @ [CHR 0x22] @ '':'' @ [CHR 0x22] @ ''a.py'' @ [CHR 0x22]
     @ '','' @ [CHR 0x22] @ ''old'' @ [CHR 0x22] @ '':'' @ [CHR 0x22] @ ''x'' @ [CHR 0x22]
     @ '','' @ [CHR 0x22] @ ''new'' @ [CHR 0x22] @ '':'' @ [CHR 0x22] @ ''y'' @ [CHR 0x22] @ ''}]''"

theorem parse_replacements_valid_witness:
  "list_all valid_edit [\<lparr>e_path = ''a.py'', e_old = ''x'', e_new = ''y'', e_start_line = None\<rparr>]"
  by (rule parse_replacements_valid [of id demo_reply]) code_simp

text \<open>
  An ambiguity that the documentation of the edit format rules out is accepted: the old
  text \<open>aa\<close> starts at two positions of \<open>aaa\<close>, and the search, which skips past a match, reports
  one, so that an edit without a line number is applied.
\<close>

theorem overlapping_match_accepted:
  "startswith (drop 0 ''aaa'') ''aa'' \<and> startswith (drop 1 ''aaa'') ''aa''
    \<and> choose_match ''aaa'' \<lparr>e_path = ''a.py'', e_old = ''aa'', e_new = ''b'', e_start_line = None\<rparr> = Inr 0"
  by code_simp

definition refusing_fs :: fs where
  "refusing_fs = demo_fs\<lparr>contents := (contents demo_fs)([''w'', ''b.py''] \<mapsto> TextFile ''z''),
     refuse_write := \<lambda>p. if p = [''w'', ''b.py''] then Some ''Permission denied'' else None\<rparr>"


end
