(* ===== verification/RetryPolicy.thy ===== *)
theory RetryPolicy
  imports Prelude PyStr World ReplacementTools
begin

text \<open>
  \<open>core/contracts.py\<close>, \<open>repair/retry_policy.py\<close> and \<open>context/policy.py\<close>: the results that
  the components exchange, the switching between the two repair modes, and the level of
  context that a failure asks for.
\<close>

section \<open>Contracts\<close>

datatype repair_mode = PatchMode | ReplacementMode

definition mode_name :: "repair_mode \<Rightarrow> pystr" where
  "mode_name m = (case m of PatchMode \<Rightarrow> ''patch'' | ReplacementMode \<Rightarrow> ''replacement'')"

record apply_result =
  ar_mode :: repair_mode
  ar_success :: bool
  ar_raw_output :: pystr
  ar_cleaned_patch :: pystr
  ar_patch_path :: pystr
  ar_check_success :: bool
  ar_check_error :: pystr
  ar_apply_success :: bool
  ar_apply_error :: pystr
  ar_command :: pystr
  ar_error :: "pystr option"
  ar_failure_stage :: "pystr option"
  ar_applied_to_workspace :: bool
  ar_replacement_edits :: "replacement_edit list option"
  ar_replacement_success :: "bool option"
  ar_replacement_error :: "pystr option"

record retry_decision =
  rd_continue_repair :: bool
  rd_next_mode :: repair_mode
  rd_reason :: pystr
  rd_rollback :: bool
  rd_checkpoint :: bool
  rd_expand_context :: bool

definition decision :: "repair_mode \<Rightarrow> pystr \<Rightarrow> retry_decision" where
  "decision m reason = \<lparr>rd_continue_repair = True, rd_next_mode = m, rd_reason = reason,
     rd_rollback = False, rd_checkpoint = False, rd_expand_context = False\<rparr>"

section \<open>Retry policy\<close>

record retry =
  rp_mode :: repair_mode
  patch_check_failures :: nat
  replacement_apply_failures :: nat

definition retry_init :: "pystr \<Rightarrow> exn + retry" where
  "retry_init initial =
     (if initial = ''patch'' then Inr \<lparr>rp_mode = PatchMode, patch_check_failures = 0, replacement_apply_failures = 0\<rparr>
      else if initial = ''replacement''
      then Inr \<lparr>rp_mode = ReplacementMode, patch_check_failures = 0, replacement_apply_failures = 0\<rparr>
      else Inl (ValueError (''initial_mode must be '' @ [CHR 0x27] @ ''patch'' @ [CHR 0x27] @ '' or ''
        @ [CHR 0x27] @ ''replacement'' @ [CHR 0x27])))"

definition after_model_error :: "retry \<Rightarrow> retry_decision" where
  "after_model_error rp = (decision (rp_mode rp)
     (if rp_mode rp = ReplacementMode then ''retry_replacement_model_error'' else ''stop_patch_model_error''))
     \<lparr>rd_continue_repair := (rp_mode rp = ReplacementMode)\<rparr>"

definition lost_anchor :: "apply_result \<Rightarrow> bool" where
  "lost_anchor r = contains (lower (or_else (ar_error r) [])) ''old text was not found''"

definition after_apply :: "retry \<Rightarrow> apply_result \<Rightarrow> retry_decision \<times> retry" where
  "after_apply rp r =
     (let retry_reason = ''retry_after_'' @ or_else (ar_failure_stage r) ''apply'' in
      if ar_mode r = PatchMode then
        (if ar_failure_stage r = Some ''check'' then
           (let n = Suc (patch_check_failures rp); rp = rp\<lparr>patch_check_failures := n\<rparr> in
            if n \<ge> 2
            then (decision ReplacementMode ''switch_to_replacement_after_patch_checks'',
                  rp\<lparr>rp_mode := ReplacementMode\<rparr>)
            else (decision (rp_mode rp) retry_reason, rp))
         else if ar_applied_to_workspace r
         then (decision (rp_mode rp) retry_reason, rp\<lparr>patch_check_failures := 0\<rparr>)
         else (decision (rp_mode rp) retry_reason, rp))
      else
        (if ar_failure_stage r = Some ''apply'' then
           (let n = Suc (replacement_apply_failures rp); rp = rp\<lparr>replacement_apply_failures := n\<rparr> in
            if lost_anchor r \<or> n \<ge> 2
            then (decision PatchMode
                    (if lost_anchor r then ''switch_to_patch_after_lost_replacement_anchor''
                     else ''switch_to_patch_after_replacement_apply_failures''),
                  rp\<lparr>rp_mode := PatchMode, patch_check_failures := 0\<rparr>)
            else (decision (rp_mode rp) retry_reason, rp))
         else if ar_applied_to_workspace r
         then (decision (rp_mode rp) retry_reason, rp\<lparr>replacement_apply_failures := 0\<rparr>)
         else (decision (rp_mode rp) retry_reason, rp)))"

definition after_test_failure :: "retry \<Rightarrow> pystr \<Rightarrow> retry_decision" where
  "after_test_failure rp failure_type =
     (let d = decision (rp_mode rp) in
      if failure_type = ''regression''
      then (d ''rollback_regression_and_expand_context'')\<lparr>rd_rollback := True, rd_expand_context := True\<rparr>
      else if failure_type = ''no_progress''
      then (d ''rollback_no_progress_and_expand_context'')\<lparr>rd_rollback := True, rd_expand_context := True\<rparr>
      else if failure_type = ''timeout'' then (d ''rollback_after_test_timeout'')\<lparr>rd_rollback := True\<rparr>
      else if failure_type = ''incomplete_fix''
      then (d ''checkpoint_partial_progress'')\<lparr>rd_checkpoint := True\<rparr>
      else (d ''checkpoint_unclassified_test_failure'')\<lparr>rd_checkpoint := True\<rparr>)"

section \<open>Context levels\<close>

record context_plan =
  cp_strategy :: pystr
  cp_line_window :: int
  cp_max_files :: int
  cp_level :: int

record context_policy =
  cx_max_level :: int
  cx_level :: int
  cx_last_reason :: "pystr option"

definition context_policy_init :: "int \<Rightarrow> context_policy" where
  "context_policy_init m = \<lparr>cx_max_level = max 0 m, cx_level = 0, cx_last_reason = None\<rparr>"

definition expand :: "context_policy \<Rightarrow> pystr \<Rightarrow> int \<times> context_policy" where
  "expand cx reason =
     (let l = min (cx_max_level cx) (cx_level cx + 1)
      in (l, cx\<lparr>cx_level := l, cx_last_reason := Some reason\<rparr>))"

definition context_plan_for ::
    "context_policy \<Rightarrow> pystr \<Rightarrow> int \<Rightarrow> int \<Rightarrow> bool \<Rightarrow> context_plan" where
  "context_plan_for cx strategy line_window file_limit allow_full =
     (if strategy = ''full'' \<or> (cx_level cx \<ge> 2 \<and> allow_full)
      then \<lparr>cp_strategy = ''full'', cp_line_window = line_window, cp_max_files = file_limit, cp_level = cx_level cx\<rparr>
      else (let k = (if cx_level cx \<ge> 1 then 2 else 1) in
        \<lparr>cp_strategy = ''traceback'', cp_line_window = max 0 line_window * k,
          cp_max_files = max 1 file_limit * k, cp_level = cx_level cx\<rparr>))"

section \<open>Reachable states of the retry policy\<close>

text \<open>
  The engine generates an attempt in the policy's mode and reports its result, so the mode
  of a result is the mode of the state.
\<close>

inductive retry_step :: "retry \<Rightarrow> retry \<Rightarrow> bool" where
  attempt: "ar_mode r = rp_mode rp \<Longrightarrow> retry_step rp (snd (after_apply rp r))"

inductive retry_reachable :: "retry \<Rightarrow> bool" where
  init: "retry_init initial = Inr rp \<Longrightarrow> retry_reachable rp"
| step: "retry_reachable rp \<Longrightarrow> retry_step rp rp' \<Longrightarrow> retry_reachable rp'"

inductive_cases retry_stepE: "retry_step rp rp'"

lemma after_apply_patch:
  assumes "rp_mode rp = PatchMode" and "ar_mode r = PatchMode"
  shows "rp_mode (snd (after_apply rp r)) =
       (if ar_failure_stage r = Some ''check'' \<and> 1 \<le> patch_check_failures rp
        then ReplacementMode else PatchMode)"
    and "patch_check_failures (snd (after_apply rp r)) =
       (if ar_failure_stage r = Some ''check'' then Suc (patch_check_failures rp)
        else if ar_applied_to_workspace r then 0 else patch_check_failures rp)"
    and "replacement_apply_failures (snd (after_apply rp r)) = replacement_apply_failures rp"
  using assms by (auto simp: after_apply_def Let_def)

lemma after_apply_replacement:
  assumes "rp_mode rp = ReplacementMode" and "ar_mode r = ReplacementMode"
  shows "rp_mode (snd (after_apply rp r)) =
       (if ar_failure_stage r = Some ''apply'' \<and> (lost_anchor r \<or> 1 \<le> replacement_apply_failures rp)
        then PatchMode else ReplacementMode)"
    and "rp_mode (snd (after_apply rp r)) = PatchMode \<Longrightarrow> patch_check_failures (snd (after_apply rp r)) = 0"
    and "replacement_apply_failures (snd (after_apply rp r)) =
       (if ar_failure_stage r = Some ''apply'' then Suc (replacement_apply_failures rp)
        else if ar_applied_to_workspace r then 0 else replacement_apply_failures rp)"
  using assms by (auto simp: after_apply_def Let_def split: if_splits)

text \<open>In patch mode at most one check failure is pending.\<close>

lemma retry_reachable_patch: "retry_reachable rp \<Longrightarrow> rp_mode rp = PatchMode \<Longrightarrow> patch_check_failures rp \<le> 1"
proof (induction rule: retry_reachable.induct)
  case (init initial rp)
  then show ?case by (auto simp: retry_init_def split: if_splits)
next
  case (step rp rp')
  from step.hyps(2) obtain r where r: "ar_mode r = rp_mode rp" "rp' = snd (after_apply rp r)"
    by (rule retry_stepE)
  show ?case
  proof (cases "rp_mode rp")
    case PatchMode
    with r step.prems show ?thesis
      using after_apply_patch [of rp r] step.IH [OF PatchMode] by (auto split: if_splits)
  next
    case ReplacementMode
    with r step.prems show ?thesis using after_apply_replacement(2) [of rp r] by simp
  qed
qed

lemma decision_mode:
  "rd_next_mode (fst (after_apply rp r)) = rp_mode (snd (after_apply rp r))"
  "rd_continue_repair (fst (after_apply rp r))"
  by (auto simp: after_apply_def decision_def Let_def)

definition retry_run :: "retry \<Rightarrow> apply_result list \<Rightarrow> retry" where
  "retry_run rp rs = fold (\<lambda>r rp. snd (after_apply rp r)) rs rp"

lemma expand_level: "cx_level (snd (expand cx reason)) = min (cx_max_level cx) (cx_level cx + 1)"
  "cx_max_level (snd (expand cx reason)) = cx_max_level cx"
  by (simp_all add: expand_def Let_def)

definition expand_all :: "context_policy \<Rightarrow> pystr list \<Rightarrow> context_policy" where
  "expand_all cx rs = fold (\<lambda>r cx. snd (expand cx r)) rs cx"

lemma expand_all_level:
  "cx_level cx \<le> cx_max_level cx \<Longrightarrow>
     cx_level (expand_all cx rs) = min (cx_max_level cx) (cx_level cx + int (length rs))
     \<and> cx_max_level (expand_all cx rs) = cx_max_level cx"
proof (induction rs arbitrary: cx)
  case (Cons r rs)
  have "cx_level (snd (expand cx r)) \<le> cx_max_level (snd (expand cx r))" by (simp add: expand_level)
  from Cons.IH [OF this] Cons.prems show ?case by (simp add: expand_all_def expand_level)
qed (simp add: expand_all_def)

section \<open>Properties\<close>

text \<open>A failed attempt, as a backend reports it.\<close>

definition failed_attempt :: "repair_mode \<Rightarrow> pystr \<Rightarrow> pystr \<Rightarrow> apply_result" where
  "failed_attempt m stage err = \<lparr>ar_mode = m, ar_success = False, ar_raw_output = ''x'',
     ar_cleaned_patch = [], ar_patch_path = [], ar_check_success = False, ar_check_error = [],
     ar_apply_success = False, ar_apply_error = [], ar_command = [], ar_error = Some err,
     ar_failure_stage = Some stage, ar_applied_to_workspace = False, ar_replacement_edits = None,
     ar_replacement_success = None, ar_replacement_error = None\<rparr>"

definition retry_start :: "repair_mode \<Rightarrow> retry" where
  "retry_start m = \<lparr>rp_mode = m, patch_check_failures = 0, replacement_apply_failures = 0\<rparr>"

lemma retry_start_reachable: "retry_reachable (retry_start m)"
  by (cases m; rule retry_reachable.init [where initial = "mode_name m"])
    (simp_all add: retry_init_def retry_start_def mode_name_def)

text \<open>
  No mode is retried a third time on edits that do not apply. From every reachable state:
  in patch mode at most one failed check is pending, and of two successive patches that fail
  the check one switches to replacement mode; of two successive replacements that fail to
  apply one switches to patch mode, the first of them if the anchor was lost; and the switch
  to patch mode starts with no pending check failure.
\<close>

theorem two_failures_switch_mode:
  assumes "retry_reachable rp"
  shows "(rp_mode rp = PatchMode \<longrightarrow> patch_check_failures rp \<le> 1 \<and>
      (\<forall>r1 r2. ar_mode r1 = PatchMode \<and> ar_mode r2 = PatchMode
        \<and> ar_failure_stage r1 = Some ''check'' \<and> ar_failure_stage r2 = Some ''check''
        \<longrightarrow> ReplacementMode \<in> {rp_mode (retry_run rp [r1]), rp_mode (retry_run rp [r1, r2])}))
    \<and> (rp_mode rp = ReplacementMode \<longrightarrow>
      (\<forall>r1 r2. ar_mode r1 = ReplacementMode \<and> ar_mode r2 = ReplacementMode
        \<and> ar_failure_stage r1 = Some ''apply'' \<and> ar_failure_stage r2 = Some ''apply''
        \<longrightarrow> PatchMode \<in> {rp_mode (retry_run rp [r1]), rp_mode (retry_run rp [r1, r2])}
          \<and> (lost_anchor r1 \<longrightarrow> rp_mode (retry_run rp [r1]) = PatchMode
                \<and> patch_check_failures (retry_run rp [r1]) = 0)))"
  using retry_reachable_patch [OF assms]
  by (auto simp: retry_run_def after_apply_patch after_apply_replacement split: if_splits)

theorem two_failures_switch_mode_witness:
  "ReplacementMode \<in> {rp_mode (retry_run (retry_start PatchMode) [failed_attempt PatchMode ''check'' ''e'']),
     rp_mode (retry_run (retry_start PatchMode)
       [failed_attempt PatchMode ''check'' ''e'', failed_attempt PatchMode ''check'' ''e''])}"
  using two_failures_switch_mode [OF retry_start_reachable [of PatchMode]]
  by (simp add: retry_start_def failed_attempt_def)

text \<open>
  The two counters are not treated alike: a switch to patch mode clears the count of failed
  checks, a switch to replacement mode keeps the count of failed replacements, so that after
  one round through both modes a single failed replacement, with its anchor still in the
  file, switches again although the policy allows two.
\<close>

theorem replacement_count_survives_switch:
  "let R = failed_attempt ReplacementMode ''apply'' ''ambiguous''; P = failed_attempt PatchMode ''check'' ''e'' in
     rp_mode (retry_run (retry_start ReplacementMode) [R]) = ReplacementMode
     \<and> rp_mode (retry_run (retry_start ReplacementMode) [R, R]) = PatchMode
     \<and> rp_mode (retry_run (retry_start ReplacementMode) [R, R, P]) = PatchMode
     \<and> rp_mode (retry_run (retry_start ReplacementMode) [R, R, P, P]) = ReplacementMode
     \<and> rp_mode (retry_run (retry_start ReplacementMode) [R, R, P, P, R]) = PatchMode"
  by code_simp

text \<open>
  The context level counts the expansions up to its maximum, so it never leaves its range,
  and a higher level never shrinks the window or the number of files that the traceback
  strategy selects.
\<close>

theorem context_level_bounded:
  "cx_level (expand_all (context_policy_init m) rs) = min (max 0 m) (int (length rs))
    \<and> cp_line_window (context_plan_for (expand_all (context_policy_init m) rs) ''traceback'' w n False)
        \<le> cp_line_window (context_plan_for (expand_all (context_policy_init m) (rs @ rs')) ''traceback'' w n False)
    \<and> cp_max_files (context_plan_for (expand_all (context_policy_init m) rs) ''traceback'' w n False)
        \<le> cp_max_files (context_plan_for (expand_all (context_policy_init m) (rs @ rs')) ''traceback'' w n False)"
proof -
  have level: "cx_level (expand_all (context_policy_init m) xs) = min (max 0 m) (int (length xs))" for xs
    using expand_all_level [of "context_policy_init m" xs] by (simp add: context_policy_init_def)
  show ?thesis by (auto simp: level context_plan_for_def Let_def)
qed

end
