(* ===== verification/PytestSummary.thy ===== *)
theory PytestSummary
  imports Prelude PyRegex World
begin

text \<open>
  \<open>pyfixagent/context/pytest_summary.py\<close> and \<open>context/traceback_parser.py\<close>: what the agent
  reads off the output of a pytest run, with the regular expressions of the source.
\<close>

section \<open>Summary of a run\<close>

record pytest_summary =
  ps_total :: "int option"
  ps_passed :: int
  ps_failed :: int
  ps_skipped :: int
  ps_failed_tests :: "pystr list"

abbreviation spaces1 :: rx where "spaces1 \<equiv> rx_plus (Cls is_space)"
abbreviation digits1 :: rx where "digits1 \<equiv> rx_plus (Cls is_digit)"
abbreviation nonspace :: "char \<Rightarrow> bool" where "nonspace c \<equiv> \<not> is_space c"

definition collected_re :: rx where
  "collected_re = seqs [WordBoundary, lit ''collected'', spaces1, Group 1 digits1, spaces1,
     lit ''item'', rx_opt (lit ''s''), WordBoundary]"

definition failed_node_re :: rx where
  "failed_node_re = seqs [Star (Cls is_space), lit ''FAILED'', spaces1, Group 1 (rx_plus (Cls nonspace))]"

definition count_re :: rx where
  "count_re = seqs [Group 1 digits1, spaces1,
     Group 2 (alts (map lit [''failed'', ''passed'', ''skipped'', ''error'', ''errors''])), WordBoundary]"

definition group_int :: "nat \<Rightarrow> rx_state \<Rightarrow> int" where
  "group_int i t = (case re_group i t of Some d \<Rightarrow> int (int_of_digits d) | None \<Rightarrow> 0)"

definition group_text :: "nat \<Rightarrow> rx_state \<Rightarrow> pystr" where
  "group_text i t = (case re_group i t of Some s \<Rightarrow> s | None \<Rightarrow> [])"

definition collected_count :: "pystr \<Rightarrow> int option" where
  "collected_count line = map_option (group_int 1) (re_search collected_re line)"

definition normalize_node_id :: "pystr \<Rightarrow> pystr" where
  "normalize_node_id node = slashes node"

definition failed_node :: "pystr \<Rightarrow> pystr option" where
  "failed_node line = map_option (\<lambda>t. normalize_node_id (group_text 1 t)) (re_match failed_node_re line)"

text \<open>The three counters in the order passed, failed, skipped.\<close>

definition add_count :: "rx_state \<Rightarrow> int \<times> int \<times> int \<Rightarrow> int \<times> int \<times> int" where
  "add_count m = (\<lambda>(p, f, s).
     (let kind = group_text 2 m; n = group_int 1 m in
      if kind = ''passed'' then (n, f, s)
      else if kind = ''skipped'' then (p, f, n)
      else if kind \<in> {''failed'', ''error'', ''errors''} then (p, f + n, s)
      else (p, f, s)))"

fun last_counts :: "pystr list \<Rightarrow> int \<times> int \<times> int" where
  "last_counts [] = (0, 0, 0)"
| "last_counts (line # rest) =
     (let ms = re_findall count_re line in
      if ms = [] then last_counts rest else fold add_count ms (0, 0, 0))"

definition parse_pytest_summary :: "pystr \<Rightarrow> pytest_summary" where
  "parse_pytest_summary output =
     (let lines = splitlines output;
          total = fold (\<lambda>l t. case collected_count l of Some n \<Rightarrow> Some n | None \<Rightarrow> t) lines None;
          failed_tests = dedupe (List.map_filter failed_node lines);
          (p, f, s) = last_counts (rev lines);
          inferred = p + f + s;
          total = (case total of Some n \<Rightarrow> Some n | None \<Rightarrow> (if inferred \<noteq> 0 then Some inferred else None))
      in \<lparr>ps_total = total, ps_passed = p, ps_failed = f, ps_skipped = s, ps_failed_tests = failed_tests\<rparr>)"

definition short_test_result :: "pytest_summary option \<Rightarrow> pystr" where
  "short_test_result summary =
     (case summary of
        None \<Rightarrow> ''unknown''
      | Some s \<Rightarrow>
          (let parts = (if ps_failed s \<noteq> 0 then [str_int (ps_failed s) @ '' failed''] else [])
                @ (if ps_passed s \<noteq> 0 then [str_int (ps_passed s) @ '' passed''] else [])
                @ (if ps_skipped s \<noteq> 0 then [str_int (ps_skipped s) @ '' skipped''] else [])
           in if parts \<noteq> [] then join '', '' parts else ''no tests parsed''))"

section \<open>Frames and exception of a failure\<close>

record trace_frame =
  tf_path :: pystr
  tf_line :: int
  tf_function :: "pystr option"
  tf_raw :: pystr

record pytest_failure_summary =
  fs_failed_tests :: "pystr list"
  fs_exception_type :: "pystr option"
  fs_error_message :: "pystr option"
  fs_frames :: "trace_frame list"
  fs_raw_output :: pystr

definition error_mark :: rx where
  "error_mark = rx_opt (seqs [lit ''E'', spaces1])"

definition trace_frame_re :: rx where
  "trace_frame_re = seqs [Star (Cls is_space), error_mark,
     Group 1 (seqs [rx_opt (seqs [Cls is_ascii_letter, lit '':'']),
       lazy_plus (Cls (\<lambda>c. c \<noteq> CHR '':'' \<and> c \<noteq> nl)), lit ''.py'']),
     lit '':'', Group 2 digits1,
     rx_opt (seqs [lit '':'', spaces1, lit ''in'', spaces1, Group 3 (rx_plus (Cls (\<lambda>c. c \<noteq> nl)))])]"

definition exception_re :: rx where
  "exception_re = seqs [Star (Cls is_space), error_mark,
     Group 1 (seqs [Cls (\<lambda>c. is_ascii_letter c \<or> c = CHR ''_''),
       Star (Cls (\<lambda>c. is_ascii_letter c \<or> is_digit c \<or> c = CHR ''_'' \<or> c = CHR ''.'')),
       alts (map lit [''Error'', ''Exception'', ''Warning'', ''Failure'', ''Failed''])]),
     rx_opt (seqs [lit '':'', Star (Cls is_space), Group 2 (Star (Cls (\<lambda>c. c \<noteq> nl)))]), EndOfText]"

definition clean_function :: "pystr option \<Rightarrow> pystr option" where
  "clean_function f = (case f of
     None \<Rightarrow> None
   | Some s \<Rightarrow> (if strip s = [] then None else Some (strip s)))"

definition frame_of :: "pystr \<Rightarrow> trace_frame option" where
  "frame_of raw = map_option (\<lambda>t. \<lparr>tf_path = slashes (strip (group_text 1 t)), tf_line = group_int 2 t,
     tf_function = clean_function (re_group 3 t), tf_raw = raw\<rparr>) (re_match trace_frame_re (strip raw))"

definition raw_failed_node :: "pystr \<Rightarrow> pystr option" where
  "raw_failed_node line = map_option (group_text 1) (re_match failed_node_re line)"

definition exception_of :: "pystr \<Rightarrow> (pystr \<times> pystr) option" where
  "exception_of raw = map_option (\<lambda>t. (group_text 1 t, group_text 2 t)) (re_match exception_re (strip raw))"

definition parse_pytest_failure_output :: "pystr \<Rightarrow> pytest_failure_summary" where
  "parse_pytest_failure_output output =
     (let lines = splitlines output;
          exc = fold (\<lambda>l t. case exception_of l of Some e \<Rightarrow> Some e | None \<Rightarrow> t) lines None
      in \<lparr>fs_failed_tests = dedupe (List.map_filter raw_failed_node lines),
          fs_exception_type = map_option fst exc, fs_error_message = map_option snd exc,
          fs_frames = List.map_filter frame_of lines, fs_raw_output = output\<rparr>)"

section \<open>What the summary reports\<close>

text \<open>The failing tests of a run, without the regular expression.\<close>

definition failed_word :: "pystr \<Rightarrow> pystr option" where
  "failed_word line =
     (let t = dropWhile is_space line; u = drop 6 t; v = dropWhile is_space u in
      if startswith t ''FAILED'' \<and> u \<noteq> [] \<and> is_space (hd u) \<and> v \<noteq> []
      then Some (takeWhile nonspace v) else None)"

lemma space_not_F: "is_space c \<Longrightarrow> c \<noteq> CHR ''F''"
  by (auto simp: is_space_def)

lemma hd_run_states: "\<exists>ts. run_states P (prev, s, caps)
    = (last_opt prev (takeWhile P s), dropWhile P s, caps) # ts"
  by (simp add: run_states_def dropWhile_eq_drop takeWhile_eq_take [symmetric])

lemma failed_node_re_match:
  "map_option (group_text 1) (re_match failed_node_re line) = failed_word line"
proof -
  let ?t = "dropWhile is_space line"
  let ?tail = "seqs [lit ''FAILED'', spaces1, Group 1 (rx_plus (Cls nonspace))]"
  let ?word = "seqs [Group 1 (rx_plus (Cls nonspace))]"
  have lit6: "rx_run (lit ''FAILED'') (p, s, caps)
      = (if startswith s ''FAILED'' then [(Some CHR ''D'', drop 6 s, caps)] else [])" for p s caps
    by (simp add: rx_run_lit last_opt_def eval_nat_numeral)
  have word: "rx_run ?word (prev, c # s, caps) = []" if "is_space c" for prev c s caps
    using that by (simp add: rx_run_plus_class)
  have tail: "rx_run ?tail (prev, c # s, caps) = []" if "is_space c" for prev c s caps
    using space_not_F [OF that] by (simp add: rx_run_lit)
  have first: "rx_run failed_node_re (None, line, []) = rx_run ?tail (last_opt None (takeWhile is_space line), ?t, [])"
    unfolding failed_node_re_def rx_run_seqs(2) [of "Star (Cls is_space)"] rx_run_Star_class
    by (rule concat_map_run_states [where g = "rx_run ?tail" and P = is_space, OF tail])
  show ?thesis
  proof (cases "startswith ?t ''FAILED'' \<and> drop 6 ?t \<noteq> [] \<and> is_space (hd (drop 6 ?t))")
    case False
    then have "rx_run ?tail (p, ?t, []) = []" for p
      by (cases "drop 6 ?t") (auto simp: lit6 rx_run_plus_class)
    then have "re_match failed_node_re line = None"
      by (simp only: re_match_def re_first_def first list.case)
    moreover have "failed_word line = None"
      using False unfolding failed_word_def Let_def by meson
    ultimately show ?thesis by simp
  next
    case True
    then obtain c u where u: "drop 6 ?t = c # u" "is_space c" by (cases "drop 6 ?t") auto
    have second: "rx_run ?tail (p, ?t, [])
        = rx_run ?word (last_opt (Some c) (takeWhile is_space u), dropWhile is_space u, [])" for p
    proof -
      have "rx_run ?tail (p, ?t, []) = concat (map (rx_run ?word) (run_states is_space (Some c, u, [])))"
        using True u by (simp add: lit6 rx_run_plus_class)
      then show ?thesis by (simp only: concat_map_run_states [where g = "rx_run ?word" and P = is_space, OF word])
    qed
    let ?v = "dropWhile is_space u"
    have v: "dropWhile is_space (drop 6 ?t) = ?v" using u by simp
    have full: "rx_run failed_node_re (None, line, [])
        = rx_run ?word (last_opt (Some c) (takeWhile is_space u), ?v, [])"
      by (simp only: first second)
    show ?thesis
    proof (cases ?v)
      case Nil
      have "rx_run ?word (p, [], []) = []" for p by (simp add: rx_run_plus_class)
      then have "re_match failed_node_re line = None"
        by (simp only: re_match_def re_first_def full Nil list.case)
      moreover have "failed_word line = None" by (simp only: failed_word_def Let_def v Nil) simp
      ultimately show ?thesis by simp
    next
      case (Cons d w)
      have d: "nonspace d" using hd_dropWhile [of is_space u] Cons by simp
      obtain ts where ts: "run_states nonspace (Some d, w, [])
          = (last_opt (Some d) (takeWhile nonspace w), dropWhile nonspace w, []) # ts"
        using hd_run_states by blast
      have len: "take (Suc (length w) - length (dropWhile nonspace w)) (d # w) = takeWhile nonspace (d # w)"
      proof -
        have "length w - length (dropWhile nonspace w) = length (takeWhile nonspace w)"
          using length_takeWhile_le [of nonspace w] by (simp add: dropWhile_eq_drop)
        then show ?thesis using d
          by (simp add: Suc_diff_le dropWhile_eq_drop takeWhile_eq_take [symmetric])
      qed
      have "rx_run ?word (p, d # w, []) \<noteq> []
          \<and> group_text 1 (hd (rx_run ?word (p, d # w, []))) = takeWhile nonspace (d # w)" for p
        using d ts len by (simp add: rx_run_plus_class rx_rest_def group_text_def re_group_def)
      then obtain m ms where "rx_run failed_node_re (None, line, []) = m # ms"
          "group_text 1 m = takeWhile nonspace ?v"
        unfolding full Cons by (metis list.collapse)
      then have "map_option (group_text 1) (re_match failed_node_re line) = Some (takeWhile nonspace ?v)"
        by (simp only: re_match_def re_first_def list.case option.map)
      moreover have "failed_word line = Some (takeWhile nonspace ?v)"
        using True by (simp only: failed_word_def Let_def v Cons) simp
      ultimately show ?thesis by simp
    qed
  qed
qed

lemma failed_node_word: "failed_node line = map_option slashes (failed_word line)"
  unfolding failed_node_re_match [symmetric]
  by (simp add: failed_node_def normalize_node_id_def option.map_comp o_def)

section \<open>Properties\<close>

text \<open>
  The failing tests of a summary are exactly the words that follow \<open>FAILED\<close> at the start
  of a line of the output, in the order of their first occurrence, without repetition and
  with forward slashes; the backtracking of the regular expression adds and loses none.
\<close>

theorem summary_failed_tests:
  "ps_failed_tests (parse_pytest_summary output)
     = dedupe (map slashes (List.map_filter failed_word (splitlines output)))"
  by (simp add: parse_pytest_summary_def Let_def failed_node_word [abs_def] split_beta
      map_filter_map_option)

definition demo_pytest_output :: pystr where
  "demo_pytest_output = joinlines [''FAILED t.py::a - e'', ''1 failed, 2 passed'']"

lemma demo_pytest_summary:
  "parse_pytest_summary demo_pytest_output = \<lparr>ps_total = Some 3, ps_passed = 2, ps_failed = 1,
     ps_skipped = 0, ps_failed_tests = [''t.py::a'']\<rparr>"
  by code_simp

end
