(* ===== verification/Trace.thy ===== *)
theory Trace
  imports PytestSummary RetryPolicy
begin

text \<open>
  \<open>pyfixagent/trace.py\<close>, \<open>repair/evaluator.py\<close> and the iteration record of \<open>schemas.py\<close>:
  how the facts of one attempt are classified. The wall-clock duration of a record and the
  description of the host are left out; the metadata of a model call and of a context are
  passed through as JSON values.
\<close>

section \<open>Change of the set of failing tests\<close>

record test_delta =
  fd_fixed :: "pystr list"
  fd_remaining :: "pystr list"
  fd_new :: "pystr list"

definition failed_of :: "pytest_summary option \<Rightarrow> pystr list" where
  "failed_of s = (case s of None \<Rightarrow> [] | Some x \<Rightarrow> ps_failed_tests x)"

definition failure_delta :: "pytest_summary option \<Rightarrow> pytest_summary option \<Rightarrow> test_delta" where
  "failure_delta prior after =
     (let bs = failed_of prior; as = failed_of after in
      \<lparr>fd_fixed = filter (\<lambda>n. n \<notin> set as) bs, fd_remaining = filter (\<lambda>n. n \<in> set as) bs,
       fd_new = filter (\<lambda>n. n \<notin> set bs) as\<rparr>)"

section \<open>Classification of an iteration\<close>

record attempt_class =
  ir_status :: pystr
  ir_failure_type :: pystr
  ir_reason :: pystr

text \<open>The facts that the classification reads, as keyword arguments.\<close>

record attempt_facts =
  af_success :: bool
  af_mode :: repair_mode
  af_raw :: pystr
  af_parse_error :: "pystr option"
  af_apply_success :: bool
  af_apply_error :: pystr
  af_check_success :: bool
  af_check_error :: pystr
  af_exit_code :: "int option"
  af_delta :: test_delta

definition iteration_result :: "attempt_facts \<Rightarrow> attempt_class" where
  "iteration_result a =
     (if af_success a then
        \<lparr>ir_status = ''test_passed'', ir_failure_type = ''success'',
         ir_reason = ''Pytest passed after applying the repair.''\<rparr>
      else if truthy (af_parse_error a) then
        \<lparr>ir_status = (if af_mode a = ReplacementMode then ''replacement_parse_failed'' else ''model_output_invalid''),
         ir_failure_type = ''invalid_model_output'', ir_reason = the (af_parse_error a)\<rparr>
      else if af_raw a = [] then
        \<lparr>ir_status = ''model_output_invalid'', ir_failure_type = ''invalid_model_output'',
         ir_reason = ''Model did not return usable output.''\<rparr>
      else if af_mode a = PatchMode \<and> \<not> af_check_success a then
        \<lparr>ir_status = ''patch_check_failed'', ir_failure_type = ''invalid_model_output'',
         ir_reason = or_text (af_check_error a) ''Patch failed git apply --check.''\<rparr>
      else if \<not> af_apply_success a then
        \<lparr>ir_status = (if af_mode a = ReplacementMode then ''replacement_apply_failed'' else ''patch_apply_failed''),
         ir_failure_type = ''apply_failed'',
         ir_reason = or_text (af_apply_error a) ''Repair could not be applied.''\<rparr>
      else if af_exit_code a = Some 124 then
        \<lparr>ir_status = ''timeout'', ir_failure_type = ''timeout'',
         ir_reason = ''Pytest timed out after applying the repair.''\<rparr>
      else if af_exit_code a \<noteq> None \<and> af_exit_code a \<noteq> Some 0 then
        \<lparr>ir_status = ''test_failed_after_apply'',
         ir_failure_type = (if fd_new (af_delta a) \<noteq> [] then ''regression''
           else if fd_fixed (af_delta a) \<noteq> [] then ''incomplete_fix'' else ''no_progress''),
         ir_reason = ''Repair was applied successfully, but pytest still failed.''\<rparr>
      else
        \<lparr>ir_status = ''unknown_error'', ir_failure_type = ''unknown'',
         ir_reason = ''Iteration failed before a structured reason could be determined.''\<rparr>)"

section \<open>Records of the trace\<close>

record model_output =
  mo_mode :: repair_mode
  mo_raw :: pystr
  mo_parsed_success :: bool
  mo_parsed_edits :: "replacement_edit list option"
  mo_parse_error :: "pystr option"
  mo_parsed_patch :: "pystr option"

definition some_edits :: "replacement_edit list option \<Rightarrow> replacement_edit list" where
  "some_edits es = (case es of None \<Rightarrow> [] | Some xs \<Rightarrow> xs)"

definition build_model_output ::
    "repair_mode \<Rightarrow> pystr \<Rightarrow> replacement_edit list option \<Rightarrow> pystr option \<Rightarrow> pystr \<Rightarrow> model_output" where
  "build_model_output mode raw edits err cleaned =
     \<lparr>mo_mode = mode, mo_raw = raw,
      mo_parsed_success = (err = None
        \<and> (if mode = ReplacementMode then some_edits edits \<noteq> [] else cleaned \<noteq> [])),
      mo_parsed_edits = (if mode = ReplacementMode then edits else None),
      mo_parse_error = err,
      mo_parsed_patch = (if mode = PatchMode then Some cleaned else None)\<rparr>"

record apply_info =
  ai_method :: repair_mode
  ai_success :: bool
  ai_error :: "pystr option"
  ai_generated_diff :: pystr
  ai_check_success :: bool
  ai_check_error :: "pystr option"
  ai_command :: pystr

definition none_if_empty :: "pystr \<Rightarrow> pystr option" where
  "none_if_empty s = (if s = [] then None else Some s)"

definition build_apply ::
    "repair_mode \<Rightarrow> bool \<Rightarrow> pystr \<Rightarrow> pystr \<Rightarrow> bool \<Rightarrow> pystr \<Rightarrow> pystr \<Rightarrow> apply_info" where
  "build_apply mode success error diff check_success check_error command =
     \<lparr>ai_method = mode, ai_success = success, ai_error = none_if_empty error, ai_generated_diff = diff,
      ai_check_success = check_success, ai_check_error = none_if_empty check_error, ai_command = command\<rparr>"

record edit_stats =
  es_modified_files :: "pystr list"
  es_edit_count :: nat
  es_changed_lines_estimate :: nat

text \<open>
  \<open>re.match(r"^diff --git a/(.*?) b/(.*?)$", line)\<close>: the second group is what follows the
  first \<open> b/\<close>.
\<close>

definition diff_line_path :: "pystr \<Rightarrow> pystr option" where
  "diff_line_path line =
     (if startswith line ''diff --git a/'' then
        (case find_sub (drop 13 line) '' b/'' of
           None \<Rightarrow> None
         | Some i \<Rightarrow> Some (slashes (drop (13 + i + 3) line)))
      else None)"

definition paths_from_diff :: "pystr \<Rightarrow> pystr list" where
  "paths_from_diff diff = dedupe (List.map_filter diff_line_path (splitlines diff))"

definition diff_changed_lines :: "pystr \<Rightarrow> nat" where
  "diff_changed_lines diff = length (filter (\<lambda>l. \<not> startswith_any l [''+++'', ''---'']
     \<and> startswith_any l [''+'', ''-'']) (splitlines diff))"

definition edit_summary :: "repair_mode \<Rightarrow> replacement_edit list option \<Rightarrow> pystr \<Rightarrow> edit_stats" where
  "edit_summary mode edits diff =
     (if mode = ReplacementMode then
        (let es = some_edits edits in
         \<lparr>es_modified_files = dedupe (map e_path (filter (\<lambda>e. e_path e \<noteq> []) es)),
          es_edit_count = length es, es_changed_lines_estimate = sum_list (map edit_lines es)\<rparr>)
      else
        \<lparr>es_modified_files = paths_from_diff diff, es_edit_count = length (paths_from_diff diff),
         es_changed_lines_estimate = diff_changed_lines diff\<rparr>)"

section \<open>Iteration records\<close>

record iteration_record =
  it_iteration :: nat
  it_prompt :: pystr
  it_raw_model_output :: pystr
  it_cleaned_patch :: pystr
  it_patch_path :: pystr
  it_apply_check_success :: bool
  it_apply_check_error :: pystr
  it_apply_success :: bool
  it_apply_error :: pystr
  it_pytest_exit_code :: "int option"
  it_pytest_output :: pystr
  it_success :: bool
  it_mode :: repair_mode
  it_replacement_raw_output :: "pystr option"
  it_replacement_edits :: "replacement_edit list option"
  it_replacement_success :: "bool option"
  it_replacement_error :: "pystr option"
  it_patch_command :: pystr
  it_context :: json
  it_test_summary_before :: pytest_summary
  it_test_summary_after :: "pytest_summary option"
  it_failure_delta :: test_delta
  it_iteration_result :: attempt_class
  it_generated_diff :: pystr
  it_model_output :: model_output
  it_apply :: apply_info
  it_edit_summary :: edit_stats
  it_model_call :: json
  it_workspace_action :: "pystr option"
  it_retry_reason :: "pystr option"
  it_context_expansion_level :: int
  it_trigger :: pystr
  it_review_feedback_ids :: "pystr list"
  it_candidate_checkpoint :: "pystr option"

record proposal =
  pr_mode :: repair_mode
  pr_prompt :: pystr
  pr_raw_output :: pystr
  pr_model_call :: json

text \<open>
  \<open>build_record\<close>; its many keyword arguments come from a proposal and the result of its
  application, to which a failed model call is reduced by \<open>model_error_record\<close>.
\<close>

definition record_parse_error :: "apply_result \<Rightarrow> pystr option" where
  "record_parse_error r =
     (if ar_mode r = ReplacementMode \<and> ar_replacement_success r = Some False
         \<and> some_edits (ar_replacement_edits r) = []
      then ar_replacement_error r else None)"

definition record_apply_error :: "apply_result \<Rightarrow> pystr" where
  "record_apply_error r = or_text (ar_apply_error r)
     (if ar_replacement_success r = Some False \<and> some_edits (ar_replacement_edits r) \<noteq> []
      then or_else (ar_replacement_error r) [] else [])"

definition build_record ::
    "nat \<Rightarrow> proposal \<Rightarrow> apply_result \<Rightarrow> json \<Rightarrow> pytest_summary \<Rightarrow> int option \<Rightarrow> pystr \<Rightarrow> bool \<Rightarrow> iteration_record" where
  "build_record iteration p r context prior exit_code output success =
     (let after = (if output \<noteq> [] then Some (parse_pytest_summary output) else None);
          delta = failure_delta (Some prior) after;
          diff = (if ar_apply_success r \<and> ar_command r = ''git diff --'' then ar_cleaned_patch r else []);
          parse_error = record_parse_error r; apply_error = record_apply_error r
      in \<lparr>it_iteration = iteration, it_prompt = pr_prompt p, it_raw_model_output = pr_raw_output p,
          it_cleaned_patch = ar_cleaned_patch r, it_patch_path = ar_patch_path r,
          it_apply_check_success = ar_check_success r, it_apply_check_error = ar_check_error r,
          it_apply_success = ar_apply_success r, it_apply_error = ar_apply_error r,
          it_pytest_exit_code = exit_code, it_pytest_output = output, it_success = success,
          it_mode = ar_mode r,
          it_replacement_raw_output = (if ar_mode r = ReplacementMode then Some (pr_raw_output p) else None),
          it_replacement_edits = ar_replacement_edits r, it_replacement_success = ar_replacement_success r,
          it_replacement_error = ar_replacement_error r, it_patch_command = ar_command r,
          it_context = context, it_test_summary_before = prior, it_test_summary_after = after,
          it_failure_delta = delta,
          it_iteration_result = iteration_result \<lparr>af_success = success, af_mode = ar_mode r,
            af_raw = pr_raw_output p, af_parse_error = parse_error, af_apply_success = ar_apply_success r,
            af_apply_error = apply_error, af_check_success = ar_check_success r,
            af_check_error = ar_check_error r, af_exit_code = exit_code, af_delta = delta\<rparr>,
          it_generated_diff = diff,
          it_model_output = build_model_output (ar_mode r) (pr_raw_output p) (ar_replacement_edits r)
            parse_error (ar_cleaned_patch r),
          it_apply = build_apply (ar_mode r) (ar_apply_success r) apply_error diff (ar_check_success r)
            (ar_check_error r) (ar_command r),
          it_edit_summary = edit_summary (ar_mode r) (ar_replacement_edits r) (or_text diff (ar_cleaned_patch r)),
          it_model_call = pr_model_call p, it_workspace_action = None, it_retry_reason = None,
          it_context_expansion_level = 0, it_trigger = ''pytest_failure'', it_review_feedback_ids = [],
          it_candidate_checkpoint = None\<rparr>)"

definition apply_record ::
    "nat \<Rightarrow> proposal \<Rightarrow> apply_result \<Rightarrow> json \<Rightarrow> pytest_summary \<Rightarrow> int option \<Rightarrow> pystr \<Rightarrow> bool \<Rightarrow> iteration_record" where
  "apply_record iteration p r context prior exit_code output success =
     build_record iteration p r context prior exit_code output success"

definition model_error_result :: "repair_mode \<Rightarrow> pystr \<Rightarrow> pystr \<Rightarrow> apply_result" where
  "model_error_result mode patch_path error =
     \<lparr>ar_mode = mode, ar_success = False, ar_raw_output = [], ar_cleaned_patch = [],
      ar_patch_path = (if mode = ReplacementMode then [] else patch_path), ar_check_success = False,
      ar_check_error = [], ar_apply_success = False,
      ar_apply_error = (if mode = ReplacementMode then [] else error), ar_command = [],
      ar_error = None, ar_failure_stage = None, ar_applied_to_workspace = False,
      ar_replacement_edits = None,
      ar_replacement_success = (if mode = ReplacementMode then Some False else None),
      ar_replacement_error = (if mode = ReplacementMode then Some error else None)\<rparr>"

definition model_error_record ::
    "nat \<Rightarrow> pystr \<Rightarrow> pystr \<Rightarrow> repair_mode \<Rightarrow> pystr \<Rightarrow> json \<Rightarrow> pytest_summary \<Rightarrow> json \<Rightarrow> iteration_record" where
  "model_error_record iteration prompt patch_path mode error context before model_call =
     build_record iteration
       \<lparr>pr_mode = mode, pr_prompt = prompt, pr_raw_output = [], pr_model_call = model_call\<rparr>
       (model_error_result mode patch_path error) context before None [] False"

section \<open>Lemmas\<close>

lemma failure_delta_sets:
  "set (fd_fixed (failure_delta b a)) = set (failed_of b) - set (failed_of a)"
  "set (fd_remaining (failure_delta b a)) = set (failed_of b) \<inter> set (failed_of a)"
  "set (fd_new (failure_delta b a)) = set (failed_of a) - set (failed_of b)"
  by (auto simp: failure_delta_def Let_def)

lemma failed_of_parse [simp]: "failed_of (Some s) = ps_failed_tests s"
  by (simp add: failed_of_def)

text \<open>The failure types after a run of the tests, in terms of the sets of failing tests.\<close>

lemma tested_failure_type:
  assumes "\<not> af_success a" and "\<not> truthy (af_parse_error a)" and "af_raw a \<noteq> []"
    and "af_apply_success a" and "af_mode a = PatchMode \<Longrightarrow> af_check_success a"
    and "af_exit_code a = Some rc" and "rc \<noteq> 0"
  shows "ir_failure_type (iteration_result a) =
    (if rc = 124 then ''timeout'' else if fd_new (af_delta a) \<noteq> [] then ''regression''
     else if fd_fixed (af_delta a) \<noteq> [] then ''incomplete_fix'' else ''no_progress'')"
  using assms by (auto simp: iteration_result_def)

lemma build_record_fields [simp]:
  "it_failure_delta (build_record n p r ctx b rc out ok)
     = failure_delta (Some b) (if out \<noteq> [] then Some (parse_pytest_summary out) else None)"
  "it_success (build_record n p r ctx b rc out ok) = ok"
  "it_iteration (build_record n p r ctx b rc out ok) = n"
  by (simp_all add: build_record_def Let_def)

lemma build_record_result:
  "it_iteration_result (build_record n p r ctx b rc out ok) =
     iteration_result \<lparr>af_success = ok, af_mode = ar_mode r, af_raw = pr_raw_output p,
       af_parse_error = record_parse_error r, af_apply_success = ar_apply_success r,
       af_apply_error = record_apply_error r, af_check_success = ar_check_success r,
       af_check_error = ar_check_error r, af_exit_code = rc,
       af_delta = failure_delta (Some b) (if out \<noteq> [] then Some (parse_pytest_summary out) else None)\<rparr>"
  by (simp add: build_record_def Let_def)

section \<open>Properties\<close>

definition tested_attempt :: "apply_result \<Rightarrow> bool" where
  "tested_attempt r \<longleftrightarrow> ar_apply_success r \<and> (ar_mode r = PatchMode \<longrightarrow> ar_check_success r)
     \<and> ar_replacement_success r \<noteq> Some False"

lemma tested_attempt_parse: "tested_attempt r \<Longrightarrow> record_parse_error r = None"
  by (auto simp: tested_attempt_def record_parse_error_def)

lemma tested_record_type:
  fixes b :: pytest_summary and out :: pystr
  assumes "tested_attempt r" and "pr_raw_output p \<noteq> []" and "rc \<noteq> 0"
  defines "before \<equiv> set (failed_of (Some b))"
    and "after \<equiv> set (failed_of (if out \<noteq> [] then Some (parse_pytest_summary out) else None))"
  shows "ir_failure_type (it_iteration_result (build_record n p r ctx b (Some rc) out False)) =
     (if rc = 124 then ''timeout'' else if \<not> after \<subseteq> before then ''regression''
      else if after \<subset> before then ''incomplete_fix'' else ''no_progress'')"
proof -
  let ?a = "if out \<noteq> [] then Some (parse_pytest_summary out) else None"
  have new: "fd_new (failure_delta (Some b) ?a) = [] \<longleftrightarrow> after \<subseteq> before"
    and fixed: "fd_fixed (failure_delta (Some b) ?a) = [] \<longleftrightarrow> before \<subseteq> after"
    unfolding after_def before_def by (simp_all only: set_empty [symmetric] failure_delta_sets) auto
  have "ir_failure_type (it_iteration_result (build_record n p r ctx b (Some rc) out False)) =
     (if rc = 124 then ''timeout'' else if fd_new (failure_delta (Some b) ?a) \<noteq> [] then ''regression''
      else if fd_fixed (failure_delta (Some b) ?a) \<noteq> [] then ''incomplete_fix'' else ''no_progress'')"
    unfolding build_record_result
    by (subst tested_failure_type [of _ rc])
      (use assms(1-3) tested_attempt_parse [OF assms(1)] in \<open>auto simp: tested_attempt_def\<close>)
  with new fixed show ?thesis by auto
qed

text \<open>
  A repair that was applied and whose tests still fail is classified by the sets of failing
  tests alone: a regression when a test fails that did not fail before, an incomplete fix
  when the failing tests are a proper subset of the earlier ones, no progress when the two
  sets agree; a run that timed out (exit status 124) is a timeout whatever failed.
\<close>

theorem failure_type_by_sets:
  assumes "tested_attempt r" and "pr_raw_output p \<noteq> []" and "rc \<noteq> 0" and "out \<noteq> []"
  shows "ir_failure_type (it_iteration_result (apply_record n p r ctx b (Some rc) out False)) =
     (if rc = 124 then ''timeout''
      else if \<not> set (ps_failed_tests (parse_pytest_summary out)) \<subseteq> set (ps_failed_tests b) then ''regression''
      else if set (ps_failed_tests (parse_pytest_summary out)) \<subset> set (ps_failed_tests b) then ''incomplete_fix''
      else ''no_progress'')"
  using tested_record_type [OF assms(1-3), of n ctx b out] assms(4) by (simp add: apply_record_def)

definition demo_result :: apply_result where
  "demo_result = (failed_attempt PatchMode ''x'' ''y'')\<lparr>ar_success := True, ar_error := None,
     ar_failure_stage := None, ar_check_success := True, ar_apply_success := True,
     ar_applied_to_workspace := True\<rparr>"

definition demo_proposal :: proposal where
  "demo_proposal = \<lparr>pr_mode = PatchMode, pr_prompt = ''p'', pr_raw_output = ''x'', pr_model_call = JNull\<rparr>"

theorem failure_type_by_sets_witness:
  "ir_failure_type (it_iteration_result (apply_record 1 demo_proposal demo_result JNull
     ((parse_pytest_summary demo_pytest_output)\<lparr>ps_failed_tests := [''a'', ''t.py::a'']\<rparr>)
     (Some 1) demo_pytest_output False)) = ''incomplete_fix''"
proof -
  have out: "demo_pytest_output \<noteq> []" by (simp add: demo_pytest_output_def joinlines_def)
  have "tested_attempt demo_result" "pr_raw_output demo_proposal \<noteq> []" "(1::int) \<noteq> 0" by code_simp+
  from failure_type_by_sets [OF this out] show ?thesis by (auto simp: demo_pytest_summary)
qed

text \<open>
  The three lists of a failure delta partition the failing tests: the fixed and the
  remaining ones are those that failed before, the remaining and the new ones those that
  fail now, and the fixed and the new ones have nothing in common.
\<close>

theorem failure_delta_partition:
  "set (fd_fixed (failure_delta b a)) \<union> set (fd_remaining (failure_delta b a)) = set (failed_of b)
    \<and> set (fd_new (failure_delta b a)) \<union> set (fd_remaining (failure_delta b a)) = set (failed_of a)
    \<and> set (fd_fixed (failure_delta b a)) \<inter> set (fd_remaining (failure_delta b a)) = {}
    \<and> set (fd_new (failure_delta b a)) \<inter> set (failed_of b) = {}
    \<and> length (fd_fixed (failure_delta b a)) + length (fd_remaining (failure_delta b a)) = length (failed_of b)"
proof -
  have "length (fd_fixed (failure_delta b a)) + length (fd_remaining (failure_delta b a)) = length (failed_of b)"
    unfolding failure_delta_def Let_def
    by simp (metis add.commute sum_length_filter_compl)
  then show ?thesis by (auto simp: failure_delta_sets)
qed

end
