(* ===== verification/Backends.thy ===== *)
theory Backends
  imports PatchTools ReplacementTools RetryPolicy Trace
begin

text \<open>
  \<open>pyfixagent/repair/backends\<close>: the two implementations of the \<open>EditBackend\<close> protocol, which
  turn a model answer into a changed workspace and a normalized result. \<open>save_patch\<close> may
  raise; every other failure is a result.
\<close>

section \<open>The patch backend\<close>

definition patch_result :: "pystr \<Rightarrow> pystr \<Rightarrow> pystr \<Rightarrow> apply_result" where
  "patch_result raw cleaned patch_path =
     \<lparr>ar_mode = PatchMode, ar_success = False, ar_raw_output = raw, ar_cleaned_patch = cleaned,
      ar_patch_path = patch_path, ar_check_success = False, ar_check_error = [],
      ar_apply_success = False, ar_apply_error = [], ar_command = [], ar_error = None,
      ar_failure_stage = None, ar_applied_to_workspace = False, ar_replacement_edits = None,
      ar_replacement_success = None, ar_replacement_error = None\<rparr>"

definition patch_backend ::
    "'w os \<Rightarrow> edit_policy \<Rightarrow> pystr \<Rightarrow> pystr \<Rightarrow> pystr \<Rightarrow> ('w, apply_result) io" where
  "patch_backend os policy workspace raw patch_path =
     (let cleaned = clean_patch_text raw; r = patch_result raw cleaned patch_path in
      then_io (\<lambda>w. save_patch os w cleaned patch_path)
      (bind_io (\<lambda>w. case check_patch os w workspace cleaned (Some policy) 30 of (c, w') \<Rightarrow> (Inr c, w'))
      (\<lambda>checked.
        if \<not> p_success checked then
          (let e = or_else (p_error checked) (p_stderr checked) in
           ret (r\<lparr>ar_check_error := e, ar_command := ''git apply --check -'', ar_error := Some e,
             ar_failure_stage := Some ''check''\<rparr>))
        else bind_io (\<lambda>w. case apply_patch os w workspace cleaned (Some policy) 30 of (a, w') \<Rightarrow> (Inr a, w'))
        (\<lambda>applied.
          if \<not> p_success applied then
            (let e = or_else (p_error applied) (p_stderr applied) in
             ret (r\<lparr>ar_check_success := True, ar_apply_error := e, ar_command := ''git apply -'',
               ar_error := Some e, ar_failure_stage := Some ''apply''\<rparr>))
          else bind_io (\<lambda>w. case get_git_diff os w workspace 30 of (d, w') \<Rightarrow> (Inr d, w'))
          (\<lambda>diff.
            if \<not> p_success diff then
              (let e = or_else (p_error diff) ''git diff failed'' in
               ret (r\<lparr>ar_check_success := True, ar_apply_success := True, ar_apply_error := e,
                 ar_command := ''git diff --'', ar_error := Some e, ar_failure_stage := Some ''diff'',
                 ar_applied_to_workspace := True\<rparr>))
            else then_io (\<lambda>w. save_patch os w (p_stdout diff) patch_path)
              (ret (r\<lparr>ar_success := True, ar_cleaned_patch := p_stdout diff, ar_check_success := True,
                ar_apply_success := True, ar_command := ''git diff --'', ar_applied_to_workspace := True\<rparr>)))))))"

section \<open>The replacement backend\<close>

definition replacement_result0 :: "pystr \<Rightarrow> apply_result" where
  "replacement_result0 raw = (patch_result raw [] [])\<lparr>ar_mode := ReplacementMode\<rparr>"

definition replacement_backend ::
    "(pystr \<Rightarrow> pystr) \<Rightarrow> 'w os \<Rightarrow> edit_policy \<Rightarrow> pystr \<Rightarrow> pystr \<Rightarrow> pystr \<Rightarrow> ('w, apply_result) io" where
  "replacement_backend decode_error os policy workspace raw patch_path =
     (let r = replacement_result0 raw in
      case parse_replacements decode_error raw of
        Inl e \<Rightarrow> ret (r\<lparr>ar_error := Some (exn_message e), ar_failure_stage := Some ''parse'',
           ar_replacement_success := Some False, ar_replacement_error := Some (exn_message e)\<rparr>)
      | Inr edits \<Rightarrow>
          bind_io (\<lambda>w. case apply_replacements (files os w) (path_names (resolve_path os w workspace)) edits
              (Some policy) of (a, F') \<Rightarrow> (Inr a, set_files os F' w))
          (\<lambda>applied.
            if \<not> r_success applied then
              (let e = or_else (r_error applied) ''replacement apply failed'' in
               ret (r\<lparr>ar_error := Some e, ar_failure_stage := Some ''apply'', ar_replacement_edits := Some edits,
                 ar_replacement_success := Some False, ar_replacement_error := Some e\<rparr>))
            else bind_io (\<lambda>w. case get_git_diff os w workspace 30 of (d, w') \<Rightarrow> (Inr d, w'))
            (\<lambda>diff.
              if \<not> p_success diff then
                (let e = or_else (p_error diff) ''git diff failed'' in
                 ret (r\<lparr>ar_apply_success := True, ar_apply_error := e, ar_command := ''git diff --'',
                   ar_error := Some e, ar_failure_stage := Some ''diff'', ar_applied_to_workspace := True,
                   ar_replacement_edits := Some edits, ar_replacement_success := Some True\<rparr>))
              else then_io (\<lambda>w. save_patch os w (p_stdout diff) patch_path)
                (ret (r\<lparr>ar_success := True, ar_cleaned_patch := p_stdout diff, ar_patch_path := patch_path,
                  ar_apply_success := True, ar_command := ''git diff --'', ar_applied_to_workspace := True,
                  ar_replacement_edits := Some edits, ar_replacement_success := Some True\<rparr>)))))"

section \<open>The protocol\<close>

text \<open>
  What the engine, the retry policy and the evaluator rely on in a result, whichever backend
  made it.
\<close>

definition coherent_result :: "apply_result \<Rightarrow> bool" where
  "coherent_result r \<longleftrightarrow>
     (ar_success r \<longleftrightarrow> ar_failure_stage r = None)
     \<and> (ar_success r \<longrightarrow> tested_attempt r \<and> ar_applied_to_workspace r \<and> ar_error r = None)
     \<and> (\<not> ar_success r \<longrightarrow> ar_error r \<noteq> None
          \<and> (ar_applied_to_workspace r \<longleftrightarrow> ar_failure_stage r = Some ''diff''))
     \<and> (ar_failure_stage r = Some ''check'' \<longrightarrow> ar_mode r = PatchMode)
     \<and> (ar_failure_stage r = Some ''parse'' \<longrightarrow> ar_mode r = ReplacementMode)"

locale edit_backend =
  fixes apply_edit :: "'o \<Rightarrow> edit_policy \<Rightarrow> pystr \<Rightarrow> pystr \<Rightarrow> pystr \<Rightarrow> ('w, apply_result) io"
    and mode :: repair_mode
  assumes mode_of: "apply_edit os pol ws raw p w = (Inr r, w') \<Longrightarrow> ar_mode r = mode"
    and raw_of: "apply_edit os pol ws raw p w = (Inr r, w') \<Longrightarrow> ar_raw_output r = raw"
    and coherent: "apply_edit os pol ws raw p w = (Inr r, w') \<Longrightarrow> coherent_result r"
begin

text \<open>A successful edit clears the pending failures of its mode and keeps the mode.\<close>

lemma success_keeps_mode:
  assumes "apply_edit os pol ws raw p w = (Inr r, w')" and "ar_success r" and "rp_mode rp = mode"
  shows "rp_mode (snd (after_apply rp r)) = mode"
    and "mode = PatchMode \<Longrightarrow> patch_check_failures (snd (after_apply rp r)) = 0"
    and "mode = ReplacementMode \<Longrightarrow> replacement_apply_failures (snd (after_apply rp r)) = 0"
  using coherent [OF assms(1)] mode_of [OF assms(1)] assms(2,3)
  by (cases mode; auto simp: coherent_result_def after_apply_patch after_apply_replacement)+

text \<open>An edit that failed after it reached the workspace is reported as such.\<close>

lemma failure_stage_of_applied:
  assumes "apply_edit os pol ws raw p w = (Inr r, w')" and "\<not> ar_success r" and "ar_applied_to_workspace r"
  shows "ar_failure_stage r = Some ''diff''" and "rp_mode rp = mode \<Longrightarrow> rp_mode (snd (after_apply rp r)) = mode"
  using coherent [OF assms(1)] mode_of [OF assms(1)] assms(2,3)
  by (cases mode; auto simp: coherent_result_def after_apply_patch after_apply_replacement)+

end

definition backend_result :: "repair_mode \<Rightarrow> pystr \<Rightarrow> apply_result \<Rightarrow> bool" where
  "backend_result m raw r \<longleftrightarrow> ar_mode r = m \<and> ar_raw_output r = raw \<and> coherent_result r"

lemma patch_backend_result: "returns (patch_backend os pol ws raw p) (backend_result PatchMode raw)"
  unfolding patch_backend_def Let_def
  by (intro returns_intros; simp add: patch_result_def backend_result_def coherent_result_def tested_attempt_def)

lemma replacement_backend_result:
  "returns (replacement_backend de os pol ws raw p) (backend_result ReplacementMode raw)"
proof (cases "parse_replacements de raw")
  case (Inl e)
  then show ?thesis unfolding replacement_backend_def Let_def
    by (simp add: returns_def replacement_result0_def patch_result_def backend_result_def
        coherent_result_def tested_attempt_def)
next
  case (Inr edits)
  show ?thesis unfolding replacement_backend_def Let_def Inr sum.case
    by (intro returns_intros; simp add: replacement_result0_def patch_result_def backend_result_def
        coherent_result_def tested_attempt_def)
qed

interpretation patch_backend: edit_backend patch_backend PatchMode
  by unfold_locales (metis returnsD [OF patch_backend_result] backend_result_def)+

interpretation replacement_backend: edit_backend "replacement_backend de" ReplacementMode for de
  by unfold_locales (metis returnsD [OF replacement_backend_result] backend_result_def)+

end
