(* ===== verification/Prompting.thy ===== *)
theory Prompting
  imports Trace
begin

text \<open>
  \<open>pyfixagent/repair/prompting.py\<close>: the feedback texts that one attempt hands to the next. The
  two long templates of \<open>agent/prompts.py\<close> are a parameter of the engine.
\<close>

definition or_none :: "pystr list \<Rightarrow> pystr" where
  "or_none xs = or_text (join '', '' xs) ''none''"

definition patch_failure :: "pystr \<Rightarrow> pystr \<Rightarrow> pystr" where
  "patch_failure patch error = joinlines
     [''The previous model response could not be applied by git apply.'',
      ''Return a valid unified diff patch only. Do not use SEARCH/REPLACE blocks.'',
      ''git apply error:'', error, [], ''Previous invalid patch:'', patch]"

definition replacement_failure :: "pystr \<Rightarrow> pystr \<Rightarrow> pystr" where
  "replacement_failure raw error = joinlines
     [''The previous replacement response could not be parsed or applied.'',
      ''Use the failure reason below to fix the next JSON replacement attempt.'',
      ''If old text appears multiple times, either make old longer with surrounding context or include start_line.'',
      ''Return only a JSON array of objects with path, old, and new string fields.'',
      ''Do not return a unified diff patch or Markdown code block.'',
      ''Replacement failure reason:'', error, [], ''Previous replacement response:'', raw]"

definition semantic_test_failure ::
    "repair_mode \<Rightarrow> pystr \<Rightarrow> test_delta \<Rightarrow> pystr \<Rightarrow> bool \<Rightarrow> int \<Rightarrow> pystr" where
  "semantic_test_failure mode failure_type delta output rolled_back level = joinlines
     [''The previous edit produced semantic outcome: '' @ failure_type @ ''.'',
      if rolled_back
      then ''The previous edit was rolled back. Generate a different repair against the restored source.''
      else ''The previous edit was checkpointed. Generate an incremental repair against the current source.'',
      ''Context expansion level for the next attempt: '' @ str_int level @ ''.'',
      ''Fixed failures: '' @ or_none (fd_fixed delta),
      ''Remaining failures: '' @ or_none (fd_remaining delta),
      ''New failures: '' @ or_none (fd_new delta),
      ''Re-evaluate the general behavior and use the expanded current context; do not hard-code examples.'',
      if mode = ReplacementMode then ''Return only a JSON array of exact replacements.''
      else ''Return only a valid unified diff patch.'',
      ''Pytest output after the previous edit:'', output]"

definition apply_failure :: "apply_result \<Rightarrow> pystr" where
  "apply_failure r = (if ar_mode r = ReplacementMode
     then replacement_failure (ar_raw_output r) (or_else (ar_error r) [])
     else patch_failure (ar_cleaned_patch r) (or_else (ar_error r) []))"

definition mode_switch_failure :: "apply_result \<Rightarrow> repair_mode \<Rightarrow> pystr" where
  "mode_switch_failure r next = joinlines
     [''The previous '' @ mode_name (ar_mode r) @ '' edit could not be applied, so the repair backend is switching to ''
        @ mode_name next @ '' mode.'',
      ''Follow the output rules for the current mode and use the current source context as truth.'',
      ''Previous failure reason:'', or_else (ar_error r) ''unknown apply failure'']"

text \<open>The size of the prompt, recorded in the metadata of its context.\<close>

definition add_prompt_chars :: "nat \<Rightarrow> json \<Rightarrow> json" where
  "add_prompt_chars n meta = (case meta of
     JObj d \<Rightarrow>
       (let d = dict_set ''prompt_chars'' (JInt (int n)) d;
            stats = (case dict_get d ''stats'' of Some (JObj x) \<Rightarrow> x | _ \<Rightarrow> [])
        in JObj (dict_set ''stats'' (JObj (dict_set ''prompt_chars'' (JInt (int n)) stats)) d))
   | _ \<Rightarrow> meta)"

end
