(* ===== verification/Engine.thy ===== *)
theory Engine
  imports Workspace Sandbox Backends Prompting
begin

text \<open>
  \<open>pyfixagent/core/engine.py\<close>, \<open>agent/state.py\<close> and the result types of \<open>schemas.py\<close>: the repair
  loop. Its state is one record: the world, the session, the retry and context policies, the
  agent's state and the control state of the run. The collaborators that are injected
  (\<open>EngineServices\<close>) are the fields of \<open>services\<close>.
\<close>

section \<open>State\<close>

record review_record =
  re_review_index :: nat
  re_based_on_iteration :: nat
  re_prompt :: pystr
  re_raw_model_output :: pystr
  re_parsed_outcome :: "review_outcome option"
  re_parse_error :: "pystr option"
  re_model_error :: "pystr option"
  re_model_calls :: "json list"
  re_context :: json
  re_policy_action :: review_action
  re_policy_reason :: pystr
  re_blocking_risk_ids :: "pystr list"
  re_candidate_checkpoint :: "pystr option"

record agent_state =
  a_task :: pystr
  a_workspace :: pystr
  a_original_workspace :: pystr
  a_file_tree :: pystr
  a_test_output_before :: pystr
  a_test_output_after :: pystr
  a_patch :: pystr
  a_iterations :: "iteration_record list"
  a_success :: bool
  a_visible_success :: bool
  a_acceptance_status :: pystr
  a_candidate_patch :: pystr
  a_candidate_patch_path :: pystr
  a_reviews :: "review_record list"
  a_semantic_revisions_used :: int
  a_error :: "pystr option"
  a_workspace_state :: "workspace_state option"
  a_workspace_strategy :: pystr
  a_final_patch_path :: pystr

record runtime =
  rt_patch_applied :: bool
  rt_feedback :: pystr
  rt_current_test_output :: pystr
  rt_active_review_feedback :: pystr
  rt_active_review_ids :: "pystr list"
  rt_trigger :: pystr
  rt_review_index :: nat
  rt_finished :: bool

record 'w engine =
  en_world :: 'w
  en_session :: session
  en_retry :: retry
  en_context :: context_policy
  en_agent :: agent_state
  en_runtime :: runtime

record repair_request =
  rq_task :: pystr
  rq_workspace :: pystr
  rq_max_iterations :: int

text \<open>
  The services: the system, the sandboxed test run, the source context and its strategy, the
  model, the prompt templates, the edit policy, and the reviewer with its context.
\<close>

record 'w services =
  sv_os :: "'w os"
  sv_run_tests :: "pystr \<Rightarrow> ('w, test_execution) io"
  sv_strategy :: pystr
  sv_line_window :: int
  sv_max_files :: int
  sv_allow_full :: bool
  sv_build_context :: "'w \<Rightarrow> pystr \<Rightarrow> pystr \<Rightarrow> context_plan \<Rightarrow> exn + (pystr \<times> json)"
  sv_prompt :: "repair_mode \<Rightarrow> pystr \<Rightarrow> nat \<Rightarrow> int \<Rightarrow> pystr \<Rightarrow> pystr \<Rightarrow> pystr \<Rightarrow> pystr \<Rightarrow> pystr \<Rightarrow> pystr"
  sv_system_prompt :: pystr
  sv_model :: "'w model"
  sv_policy :: edit_policy
  sv_decode_error :: "pystr \<Rightarrow> pystr"
  sv_review_enabled :: bool
  sv_review_context :: "'w \<Rightarrow> pystr \<Rightarrow> pystr \<Rightarrow> exn + (pystr \<times> json \<times> structural_cue list)"
  sv_review_prompt :: "pystr \<Rightarrow> pystr \<Rightarrow> pystr \<Rightarrow> pystr \<Rightarrow> nat \<Rightarrow> pystr"
  sv_reviewer :: "'w reviewer"
  sv_max_semantic_revisions :: int
  sv_review_max_feedback_chars :: int

definition agent_init :: "repair_request \<Rightarrow> agent_state" where
  "agent_init rq = \<lparr>a_task = rq_task rq, a_workspace = rq_workspace rq,
     a_original_workspace = rq_workspace rq, a_file_tree = [], a_test_output_before = [],
     a_test_output_after = [], a_patch = [], a_iterations = [], a_success = False,
     a_visible_success = False, a_acceptance_status = ''not_run'', a_candidate_patch = [],
     a_candidate_patch_path = [], a_reviews = [], a_semantic_revisions_used = 0, a_error = None,
     a_workspace_state = None, a_workspace_strategy = ''in_place'', a_final_patch_path = []\<rparr>"

definition runtime_init :: runtime where
  "runtime_init = \<lparr>rt_patch_applied = False, rt_feedback = ''No previous attempt.'',
     rt_current_test_output = [], rt_active_review_feedback = [], rt_active_review_ids = [],
     rt_trigger = ''pytest_failure'', rt_review_index = 0, rt_finished = False\<rparr>"

section \<open>Access to the state\<close>

definition on_world :: "('w, 'a) io \<Rightarrow> ('w engine, 'a) io" where
  "on_world m = (\<lambda>s. case m (en_world s) of (r, w') \<Rightarrow> (r, s\<lparr>en_world := w'\<rparr>))"

definition on_session :: "('w \<times> session, 'a) io \<Rightarrow> ('w engine, 'a) io" where
  "on_session m = (\<lambda>s. case m (en_world s, en_session s) of
     (r, (w', se')) \<Rightarrow> (r, s\<lparr>en_world := w', en_session := se'\<rparr>))"

definition set_agent :: "(agent_state \<Rightarrow> agent_state) \<Rightarrow> ('w engine, unit) io" where
  "set_agent f = modify (\<lambda>s. s\<lparr>en_agent := f (en_agent s)\<rparr>)"

definition set_runtime :: "(runtime \<Rightarrow> runtime) \<Rightarrow> ('w engine, unit) io" where
  "set_runtime f = modify (\<lambda>s. s\<lparr>en_runtime := f (en_runtime s)\<rparr>)"

definition set_retry :: "(retry \<Rightarrow> retry) \<Rightarrow> ('w engine, unit) io" where
  "set_retry f = modify (\<lambda>s. s\<lparr>en_retry := f (en_retry s)\<rparr>)"

definition add_iteration :: "iteration_record \<Rightarrow> ('w engine, unit) io" where
  "add_iteration r = set_agent (\<lambda>a. a\<lparr>a_iterations := a_iterations a @ [r]\<rparr>)"

abbreviation in_worktree :: "'w engine \<Rightarrow> bool" where
  "in_worktree s \<equiv> a_workspace_strategy (en_agent s) = worktree_strategy"

definition from_result :: "exn + 'a \<Rightarrow> ('s, 'a) io" where
  "from_result r = (case r of Inl e \<Rightarrow> throw e | Inr x \<Rightarrow> ret x)"

definition rollback :: "'w services \<Rightarrow> ('w engine, unit) io" where
  "rollback sv = bind_io (gets (\<lambda>s. se_tx (en_session s))) (\<lambda>tx. on_world (tx_rollback (sv_os sv) tx))"

definition checkpoint :: "'w services \<Rightarrow> nat \<Rightarrow> pystr \<Rightarrow> ('w engine, pystr option) io" where
  "checkpoint sv n kind =
     bind_io (gets (\<lambda>s. se_tx (en_session s))) (\<lambda>tx. on_world (tx_checkpoint (sv_os sv) tx n kind))"

definition candidate_diff :: "'w services \<Rightarrow> ('w engine, pystr) io" where
  "candidate_diff sv = bind_io (gets (\<lambda>s. se_tx (en_session s))) (\<lambda>tx. on_world (tx_final_diff (sv_os sv) tx))"

text \<open>The fields that every record of an iteration gets from the control state.\<close>

definition stamp :: "context_plan \<Rightarrow> runtime \<Rightarrow> iteration_record \<Rightarrow> iteration_record" where
  "stamp cp rt r = r\<lparr>it_context_expansion_level := cp_level cp, it_trigger := rt_trigger rt,
     it_review_feedback_ids := rt_active_review_ids rt\<rparr>"

section \<open>Preparation\<close>

definition engine_prepare :: "'w services \<Rightarrow> ('w engine, bool) io" where
  "engine_prepare sv =
     bind_io (on_session (prepare (sv_os sv))) (\<lambda>p.
     then_io (set_agent (\<lambda>a. a\<lparr>a_workspace_state := Some (pw_state p), a_workspace_strategy := pw_strategy p\<rparr>))
     (if truthy (pw_error p) then then_io (set_agent (\<lambda>a. a\<lparr>a_error := pw_error p\<rparr>)) (ret True)
      else
        then_io (set_agent (\<lambda>a. a\<lparr>a_workspace := pw_workspace p, a_file_tree := pw_file_tree p\<rparr>))
        (bind_io (on_world (sv_run_tests sv (pw_workspace p))) (\<lambda>prior.
         then_io (set_agent (\<lambda>a. a\<lparr>a_test_output_before := te_output prior\<rparr>))
         (then_io (set_runtime (\<lambda>rt. rt\<lparr>rt_current_test_output := te_output prior\<rparr>))
         (if te_infrastructure_error prior then
            then_io (set_agent (\<lambda>a. a\<lparr>a_error := Some ''test execution infrastructure error; model was not called''\<rparr>))
              (ret True)
          else if te_success prior then
            then_io (set_agent (\<lambda>a. a\<lparr>a_success := True, a_visible_success := True,
              a_acceptance_status := ''not_run''\<rparr>)) (ret True)
          else ret False))))))"

section \<open>One iteration\<close>

record iteration_plan =
  ip_iteration :: nat
  ip_patch_path :: pystr
  ip_mode :: repair_mode
  ip_context_plan :: context_plan
  ip_context :: json
  ip_test_summary_before :: pytest_summary
  ip_proposal :: proposal

definition handle_model_error ::
    "nat \<Rightarrow> pystr \<Rightarrow> pystr \<Rightarrow> repair_mode \<Rightarrow> pystr \<Rightarrow> json \<Rightarrow> json \<Rightarrow> pytest_summary \<Rightarrow> context_plan
      \<Rightarrow> ('w engine, unit) io" where
  "handle_model_error iteration prompt ppath mode err meta context prior cp =
     bind_io (gets (\<lambda>s. (en_runtime s, en_retry s))) (\<lambda>(rt, rp).
       let d = after_model_error rp;
           r = (stamp cp rt (model_error_record iteration prompt ppath mode err context prior meta))
                 \<lparr>it_retry_reason := Some (rd_reason d)\<rparr> in
       then_io (set_agent (\<lambda>a. a\<lparr>a_error := Some err\<rparr>))
       (then_io (add_iteration r)
       (then_io (set_runtime (\<lambda>rt. rt\<lparr>rt_finished := \<not> rd_continue_repair d\<rparr>))
       (when_io (rd_continue_repair d)
         (set_runtime (\<lambda>rt. rt\<lparr>rt_feedback := replacement_failure [] err\<rparr>))))))"

definition plan_and_generate ::
    "'w services \<Rightarrow> repair_request \<Rightarrow> nat \<Rightarrow> ('w engine, iteration_plan option) io" where
  "plan_and_generate sv rq iteration =
     bind_io (gets (\<lambda>s. s)) (\<lambda>s.
     let rt = en_runtime s; a = en_agent s; mode = rp_mode (en_retry s);
         ppath = patch_path (sv_os sv) (en_session s) iteration (en_world s);
         cp = context_plan_for (en_context s) (sv_strategy sv) (sv_line_window sv) (sv_max_files sv) (sv_allow_full sv);
         prior = parse_pytest_summary (rt_current_test_output rt) in
     bind_io (from_result (sv_build_context sv (en_world s) (a_workspace a) (rt_current_test_output rt) cp))
     (\<lambda>(rendered, meta0).
       let prompt = sv_prompt sv mode (rq_task rq) iteration (rq_max_iterations rq) (a_file_tree a)
             (if iteration = 1 then a_test_output_before a
              else ''Omitted after iteration 1. Use Current pytest output as the source of truth.'')
             (rt_current_test_output rt) (rt_feedback rt) rendered;
           context = add_prompt_chars (length prompt) meta0 in
       bind_io (on_world (\<lambda>w. case sv_model sv w (sv_system_prompt sv) prompt of (r, w') \<Rightarrow> (Inr r, w')))
       (\<lambda>answer. case answer of
          Inl (err, meta) \<Rightarrow>
            then_io (handle_model_error iteration prompt ppath mode err meta context prior cp) (ret None)
        | Inr (raw, meta) \<Rightarrow>
            ret (Some \<lparr>ip_iteration = iteration, ip_patch_path = ppath, ip_mode = mode,
              ip_context_plan = cp, ip_context = context, ip_test_summary_before = prior,
              ip_proposal = \<lparr>pr_mode = mode, pr_prompt = prompt, pr_raw_output = raw,
                pr_model_call = meta\<rparr>\<rparr>))))"

definition run_backend ::
    "'w services \<Rightarrow> repair_mode \<Rightarrow> pystr \<Rightarrow> pystr \<Rightarrow> pystr \<Rightarrow> ('w, apply_result) io" where
  "run_backend sv mode ws raw ppath = (case mode of
     PatchMode \<Rightarrow> patch_backend (sv_os sv) (sv_policy sv) ws raw ppath
   | ReplacementMode \<Rightarrow> replacement_backend (sv_decode_error sv) (sv_os sv) (sv_policy sv) ws raw ppath)"

definition engine_apply :: "'w services \<Rightarrow> iteration_plan \<Rightarrow> ('w engine, apply_result) io" where
  "engine_apply sv plan =
     bind_io (gets (\<lambda>s. a_workspace (en_agent s))) (\<lambda>ws.
     bind_io (on_world (run_backend sv (ip_mode plan) ws (pr_raw_output (ip_proposal plan)) (ip_patch_path plan)))
     (\<lambda>r. then_io (set_runtime (\<lambda>rt. rt\<lparr>rt_patch_applied := rt_patch_applied rt \<or> ar_applied_to_workspace r\<rparr>))
     (then_io (when_io (ip_mode plan = PatchMode \<or> ar_success r)
        (set_agent (\<lambda>a. a\<lparr>a_patch := ar_cleaned_patch r\<rparr>)))
     (ret r))))"

definition handle_apply_failure ::
    "'w services \<Rightarrow> iteration_plan \<Rightarrow> apply_result \<Rightarrow> ('w engine, unit) io" where
  "handle_apply_failure sv plan r =
     then_io (set_agent (\<lambda>a. a\<lparr>a_error := ar_error r\<rparr>))
     (bind_io (gets (\<lambda>s. ar_applied_to_workspace r \<and> in_worktree s)) (\<lambda>undo.
      then_io (when_io undo (rollback sv))
      (bind_io (gets (\<lambda>s. (en_runtime s, en_retry s))) (\<lambda>(rt, rp).
       let d = fst (after_apply rp r);
           rec = apply_record (ip_iteration plan) (ip_proposal plan) r (ip_context plan)
             (ip_test_summary_before plan) None [] False;
           rec = (stamp (ip_context_plan plan) rt rec)\<lparr>it_retry_reason := Some (rd_reason d),
             it_workspace_action := (if undo then Some ''rolled_back_after_apply_failure'' else None)\<rparr> in
       then_io (set_retry (\<lambda>rp. snd (after_apply rp r)))
       (then_io (add_iteration rec)
       (set_runtime (\<lambda>rt. rt\<lparr>rt_feedback :=
          (if rd_next_mode d \<noteq> ip_mode plan then mode_switch_failure r (rd_next_mode d) else apply_failure r)\<rparr>)))))))"

section \<open>After the tests\<close>

text \<open>\<open>_verify\<close>: \<^const>\<open>None\<close> when the run has to stop.\<close>

definition engine_verify ::
    "'w services \<Rightarrow> iteration_plan \<Rightarrow> apply_result
      \<Rightarrow> ('w engine, (iteration_record \<times> test_execution) option) io" where
  "engine_verify sv plan r =
     then_io (set_retry (\<lambda>rp. snd (after_apply rp r)))
     (bind_io (gets (\<lambda>s. a_workspace (en_agent s))) (\<lambda>ws.
      bind_io (on_world (sv_run_tests sv ws)) (\<lambda>after.
      then_io (set_agent (\<lambda>a. a\<lparr>a_test_output_after := te_output after, a_success := te_success after,
        a_error := (if te_success after then None
          else Some (''tests still failed after applying '' @ mode_name (ip_mode plan)))\<rparr>))
      (let rec = apply_record (ip_iteration plan) (ip_proposal plan) r (ip_context plan)
             (ip_test_summary_before plan) (Some (te_exit_code after)) (te_output after) (te_success after);
           err = ''test execution infrastructure error after applying repair'' in
       if \<not> te_infrastructure_error after then ret (Some (rec, after))
       else
         then_io (set_agent (\<lambda>a. a\<lparr>a_success := False, a_error := Some err\<rparr>))
         (bind_io (gets in_worktree) (\<lambda>isolated.
          then_io (when_io isolated (rollback sv))
          (bind_io (gets en_runtime) (\<lambda>rt.
           let rec = (stamp (ip_context_plan plan) rt rec)
                \<lparr>it_iteration_result := \<lparr>ir_status = ''execution_error'', ir_failure_type = ''execution_error'',
                   ir_reason = err\<rparr>,
                 it_workspace_action := Some (if isolated then ''rolled_back_execution_error'' else ''kept_in_place'')\<rparr> in
           then_io (add_iteration rec)
           (then_io (set_runtime (\<lambda>rt. rt\<lparr>rt_finished := True\<rparr>)) (ret None))))))))))"

definition retry_after_test_failure ::
    "'w services \<Rightarrow> iteration_plan \<Rightarrow> iteration_record \<Rightarrow> test_execution \<Rightarrow> ('w engine, unit) io" where
  "retry_after_test_failure sv plan rec after =
     (let failure_type = or_text (ir_failure_type (it_iteration_result rec)) ''unknown'' in
      bind_io (gets (\<lambda>s. (after_test_failure (en_retry s) failure_type, in_worktree s))) (\<lambda>(d, isolated).
      let rolled_back = rd_rollback d \<and> isolated in
      then_io
       (if rolled_back then rollback sv
        else then_io (bind_io (checkpoint sv (ip_iteration plan) ''iteration'') (\<lambda>_. ret ()))
          (set_runtime (\<lambda>rt. rt\<lparr>rt_current_test_output := te_output after\<rparr>)))
      (then_io (when_io (rd_expand_context d)
         (modify (\<lambda>s. s\<lparr>en_context := snd (expand (en_context s) (rd_reason d))\<rparr>)))
      (bind_io (gets (\<lambda>s. (en_runtime s, cx_level (en_context s)))) (\<lambda>(rt, level).
       let rec = (stamp (ip_context_plan plan) rt rec)\<lparr>it_retry_reason := Some (rd_reason d),
             it_workspace_action := Some (if rolled_back then ''rolled_back_'' @ failure_type
               else if isolated then ''checkpointed_partial'' else ''kept_in_place'')\<rparr>;
           feedback = semantic_test_failure (ip_mode plan) failure_type (it_failure_delta rec)
             (te_output after) rolled_back level in
       then_io (add_iteration rec)
       (set_runtime (\<lambda>rt. rt\<lparr>rt_feedback :=
          (if rt_active_review_feedback rt \<noteq> [] then rt_active_review_feedback rt @ [nl, nl] @ feedback
           else feedback)\<rparr>)))))))"

section \<open>The review of a candidate\<close>

definition checkpoint_visible_candidate ::
    "'w services \<Rightarrow> iteration_plan \<Rightarrow> iteration_record \<Rightarrow> ('w engine, pystr option) io" where
  "checkpoint_visible_candidate sv plan rec =
     then_io (set_agent (\<lambda>a. a\<lparr>a_visible_success := True\<rparr>))
     (bind_io (checkpoint sv (ip_iteration plan) ''visible_candidate'') (\<lambda>c.
      bind_io (gets (\<lambda>s. (en_runtime s, in_worktree s))) (\<lambda>(rt, isolated).
      let rec = (stamp (ip_context_plan plan) rt rec)\<lparr>it_candidate_checkpoint := c,
            it_workspace_action := Some (if isolated
              then (if sv_review_enabled sv then ''checkpointed_visible_candidate'' else ''checkpointed_success'')
              else ''kept_in_place'')\<rparr> in
      then_io (add_iteration rec) (ret c))))"

definition review_error :: "review_execution \<Rightarrow> pystr option" where
  "review_error ex = (if truthy (ex_model_error ex) then ex_model_error ex else ex_parse_error ex)"

definition review_decision_for ::
    "'w services \<Rightarrow> repair_request \<Rightarrow> iteration_plan \<Rightarrow> int \<Rightarrow> review_execution \<Rightarrow> structural_cue list
      \<Rightarrow> review_decision" where
  "review_decision_for sv rq plan used ex cues =
     (let d = decide (sv_max_semantic_revisions sv) (ex_outcome ex) used (review_error ex)
            (filter (\<lambda>c. c \<noteq> []) (map cue_category cues)) (map cue_id cues) in
      if dec_action d = DoRevise \<and> int (ip_iteration plan) \<ge> rq_max_iterations rq
      then \<lparr>dec_action = NeedsReview, dec_reason = ''edit iteration budget exhausted'',
             dec_blocking_risk_ids = dec_blocking_risk_ids d\<rparr>
      else d)"

definition run_semantic_review ::
    "'w services \<Rightarrow> repair_request \<Rightarrow> iteration_plan \<Rightarrow> test_execution
      \<Rightarrow> ('w engine, review_execution \<times> structural_cue list \<times> review_decision) io" where
  "run_semantic_review sv rq plan after =
     then_io (set_runtime (\<lambda>rt. rt\<lparr>rt_review_index := Suc (rt_review_index rt)\<rparr>))
     (bind_io (candidate_diff sv) (\<lambda>diff.
      bind_io (gets (\<lambda>s. s)) (\<lambda>s.
      let ws = a_workspace (en_agent s); index = rt_review_index (en_runtime s) in
      bind_io (from_result (sv_review_context sv (en_world s) ws diff)) (\<lambda>(text, meta, cues0).
      bind_io (on_world (\<lambda>w. case review (sv_os sv) (sv_reviewer sv)
           (sv_review_prompt sv (rq_task rq) diff (te_output after) text index) meta ws w of
             (ex, w') \<Rightarrow> (Inr ex, w')))
      (\<lambda>ex. let cues = filter (\<lambda>c. cue_id c \<noteq> []) cues0 in
       ret (ex, cues, review_decision_for sv rq plan (a_semantic_revisions_used (en_agent s)) ex cues))))))"

definition record_review ::
    "review_execution \<Rightarrow> review_decision \<Rightarrow> iteration_plan \<Rightarrow> pystr option \<Rightarrow> ('w engine, unit) io" where
  "record_review ex d plan c =
     bind_io (gets (\<lambda>s. rt_review_index (en_runtime s))) (\<lambda>i.
     set_agent (\<lambda>a. a\<lparr>a_reviews := a_reviews a @
       [\<lparr>re_review_index = i, re_based_on_iteration = ip_iteration plan, re_prompt = ex_prompt ex,
         re_raw_model_output = ex_raw_output ex, re_parsed_outcome = ex_outcome ex,
         re_parse_error = ex_parse_error ex, re_model_error = ex_model_error ex,
         re_model_calls = ex_model_calls ex, re_context = ex_context ex, re_policy_action = dec_action d,
         re_policy_reason = dec_reason d, re_blocking_risk_ids = dec_blocking_risk_ids d,
         re_candidate_checkpoint = c\<rparr>]\<rparr>))"

definition apply_review_decision ::
    "'w services \<Rightarrow> test_execution \<Rightarrow> review_execution \<Rightarrow> structural_cue list \<Rightarrow> review_decision
      \<Rightarrow> ('w engine, bool) io" where
  "apply_review_decision sv after ex cues d =
     (if dec_action d \<in> {DoAccept, DoAcceptWithWarnings} then
        then_io (set_agent (\<lambda>a. a\<lparr>a_acceptance_status :=
            (if dec_action d = DoAcceptWithWarnings then ''accepted_with_warnings'' else ''accepted''),
            a_success := True, a_error := None\<rparr>)) (ret True)
      else (case (dec_action d, ex_outcome ex) of
        (DoRevise, Some oc) \<Rightarrow>
          (case build_review_feedback oc (sv_review_max_feedback_chars sv) (dec_blocking_risk_ids d) cues of
            (text, ids) \<Rightarrow>
              then_io (set_runtime (\<lambda>rt. rt\<lparr>rt_active_review_feedback := text, rt_active_review_ids := ids,
                rt_feedback := text, rt_current_test_output := te_output after, rt_trigger := ''semantic_revision''\<rparr>))
              (then_io (set_agent (\<lambda>a. a\<lparr>a_semantic_revisions_used := a_semantic_revisions_used a + 1,
                a_success := False, a_acceptance_status := ''revising''\<rparr>)) (ret False)))
      | _ \<Rightarrow>
          then_io (set_agent (\<lambda>a. a\<lparr>a_success := False, a_acceptance_status :=
             (if truthy (review_error ex) then ''review_error''
              else (case ex_outcome ex of
                 Some oc \<Rightarrow> (if ro_verdict oc = Abstain then ''abstained'' else ''rejected'')
               | None \<Rightarrow> ''rejected'')),
             a_error := None\<rparr>)) (ret True)))"

definition handle_visible_success ::
    "'w services \<Rightarrow> repair_request \<Rightarrow> iteration_plan \<Rightarrow> iteration_record \<Rightarrow> test_execution
      \<Rightarrow> ('w engine, bool) io" where
  "handle_visible_success sv rq plan rec after =
     bind_io (checkpoint_visible_candidate sv plan rec) (\<lambda>c.
     if \<not> sv_review_enabled sv then
       then_io (set_agent (\<lambda>a. a\<lparr>a_acceptance_status := ''disabled''\<rparr>)) (ret True)
     else bind_io (run_semantic_review sv rq plan after) (\<lambda>(ex, cues, d).
       then_io (record_review ex d plan c) (apply_review_decision sv after ex cues d)))"

definition accept_or_retry ::
    "'w services \<Rightarrow> repair_request \<Rightarrow> iteration_plan \<Rightarrow> iteration_record \<Rightarrow> test_execution
      \<Rightarrow> ('w engine, bool) io" where
  "accept_or_retry sv rq plan rec after =
     bind_io (gets (\<lambda>s. a_success (en_agent s))) (\<lambda>ok.
     if ok then handle_visible_success sv rq plan rec after
     else then_io (retry_after_test_failure sv plan rec after) (ret False))"

section \<open>The loop\<close>

definition run_iteration :: "'w services \<Rightarrow> repair_request \<Rightarrow> nat \<Rightarrow> ('w engine, bool) io" where
  "run_iteration sv rq iteration =
     bind_io (plan_and_generate sv rq iteration) (\<lambda>p. case p of
       None \<Rightarrow> gets (\<lambda>s. rt_finished (en_runtime s))
     | Some plan \<Rightarrow>
         bind_io (engine_apply sv plan) (\<lambda>r.
         if \<not> ar_success r then then_io (handle_apply_failure sv plan r) (ret False)
         else bind_io (engine_verify sv plan r) (\<lambda>v. case v of
             None \<Rightarrow> ret True
           | Some (rec, after) \<Rightarrow> accept_or_retry sv rq plan rec after)))"

text \<open>The loop stops by its own test; the first argument bounds the number of its rounds.\<close>

definition loop_goes_on :: "repair_request \<Rightarrow> 'w engine \<Rightarrow> bool" where
  "loop_goes_on rq s \<longleftrightarrow> \<not> rt_finished (en_runtime s)
     \<and> int (length (a_iterations (en_agent s))) < rq_max_iterations rq"

fun repair_loop :: "'w services \<Rightarrow> repair_request \<Rightarrow> nat \<Rightarrow> ('w engine, unit) io" where
  "repair_loop sv rq 0 = ret ()"
| "repair_loop sv rq (Suc n) =
     bind_io (gets (\<lambda>s. (loop_goes_on rq s, Suc (length (a_iterations (en_agent s)))))) (\<lambda>(go, i).
     if \<not> go then ret ()
     else bind_io (run_iteration sv rq i) (\<lambda>f.
       then_io (set_runtime (\<lambda>rt. rt\<lparr>rt_finished := f\<rparr>)) (repair_loop sv rq n)))"

definition mark_iteration_limit :: "'w services \<Rightarrow> repair_request \<Rightarrow> agent_state \<Rightarrow> agent_state" where
  "mark_iteration_limit sv rq a =
     (if a_visible_success a \<and> sv_review_enabled sv
      then a\<lparr>a_success := False, a_acceptance_status := ''rejected'', a_error := None\<rparr>
      else a\<lparr>a_error := Some ((case a_error a of None \<Rightarrow> ''agent did not produce a successful patch'' | Some e \<Rightarrow> e)
             @ ''; reached max_iterations='' @ str_int (rq_max_iterations rq))\<rparr>)"

definition engine_body :: "'w services \<Rightarrow> repair_request \<Rightarrow> ('w engine, unit) io" where
  "engine_body sv rq =
     bind_io (engine_prepare sv) (\<lambda>f.
     then_io (set_runtime (\<lambda>rt. rt\<lparr>rt_finished := f\<rparr>))
     (then_io (repair_loop sv rq (nat (rq_max_iterations rq)))
     (bind_io (gets (\<lambda>s. rt_finished (en_runtime s))) (\<lambda>f.
      when_io (\<not> f) (set_agent (mark_iteration_limit sv rq))))))"

section \<open>The result of a run\<close>

record final_summary =
  sm_status :: pystr
  sm_iterations_used :: nat
  sm_initial_total :: "int option"
  sm_initial_failed :: int
  sm_final_total :: "int option"
  sm_final_failed :: int
  sm_modified_files :: "pystr list"
  sm_final_test_result :: pystr
  sm_visible_success :: bool
  sm_acceptance_status :: pystr
  sm_review_count :: nat
  sm_semantic_revisions_used :: int

definition summary_status :: "agent_state \<Rightarrow> pystr" where
  "summary_status a =
     (if a_success a then ''passed''
      else if a_visible_success a \<and> a_acceptance_status a \<notin> {''disabled'', ''not_run''} then ''needs_review''
      else if truthy (a_error a) then (if a_iterations a = [] then ''error'' else ''failed'')
      else ''failed'')"

definition final_summary :: "agent_state \<Rightarrow> final_summary" where
  "final_summary a =
     (let initial = parse_pytest_summary (a_test_output_before a);
          final = parse_pytest_summary (or_text (a_test_output_after a) (a_test_output_before a)) in
      \<lparr>sm_status = summary_status a, sm_iterations_used = length (a_iterations a),
       sm_initial_total = ps_total initial, sm_initial_failed = ps_failed initial,
       sm_final_total = ps_total final, sm_final_failed = ps_failed final,
       sm_modified_files = dedupe (concat (map (\<lambda>r. es_modified_files (it_edit_summary r)) (a_iterations a))),
       sm_final_test_result = short_test_result (Some final), sm_visible_success = a_visible_success a,
       sm_acceptance_status = a_acceptance_status a, sm_review_count = length (a_reviews a),
       sm_semantic_revisions_used = a_semantic_revisions_used a\<rparr>)"

record agent_result =
  res_state :: agent_state
  res_patch_applied :: bool
  res_final_patch_command :: pystr
  res_final_summary :: final_summary

definition final_patch_command :: "agent_state \<Rightarrow> bool \<Rightarrow> pystr" where
  "final_patch_command a applied =
     (let q = (\<lambda>s. [CHR 0x22] @ s @ [CHR 0x22]) in
      if a_workspace_strategy a = worktree_strategy \<and> a_final_patch_path a \<noteq> []
      then ''pyfixagent-apply --workspace '' @ q (a_original_workspace a) @ '' --patch '' @ q (a_final_patch_path a)
      else if applied \<and> a_patch a \<noteq> [] then ''git diff --''
      else if a_patch a \<noteq> [] then ''git apply --check -''
      else [])"

text \<open>
  The fields of the result that repeat the agent's state are kept as that state; the
  environment metadata is left out.
\<close>

definition result_of :: "agent_state \<Rightarrow> bool \<Rightarrow> agent_result" where
  "result_of a applied = \<lparr>res_state = a, res_patch_applied = applied,
     res_final_patch_command = final_patch_command a applied, res_final_summary = final_summary a\<rparr>"

definition to_result :: "'w services \<Rightarrow> ('w engine, agent_result) io" where
  "to_result sv =
     bind_io (gets (\<lambda>s. tx_active (se_tx (en_session s)) \<noteq> None)) (\<lambda>active.
     then_io
      (when_io active
        (bind_io (gets en_session) (\<lambda>se.
         bind_io (on_world (export_final_patch (sv_os sv) se)) (\<lambda>(patch, path).
         set_agent (\<lambda>a.
           let a = (if a_workspace_strategy a = worktree_strategy then a\<lparr>a_patch := patch\<rparr> else a);
               a = (case path of Some p \<Rightarrow> a\<lparr>a_final_patch_path := p\<rparr> | None \<Rightarrow> a)
           in if a_visible_success a
              then a\<lparr>a_candidate_patch := patch, a_candidate_patch_path := or_else path []\<rparr> else a)))))
      (gets (\<lambda>s. result_of (en_agent s) (rt_patch_applied (en_runtime s)))))"

text \<open>
  \<open>except (OSError, RuntimeError, ValueError)\<close>, of which \<open>UnicodeError\<close> is a subclass of the last.
\<close>

definition expected_failure :: "exn \<Rightarrow> bool" where
  "expected_failure e = (case e of TimeoutExpired _ \<Rightarrow> False | TypeError _ \<Rightarrow> False | _ \<Rightarrow> True)"

definition close_warns :: "exn \<Rightarrow> bool" where
  "close_warns e = (case e of OSError _ \<Rightarrow> True | RuntimeError _ \<Rightarrow> True | _ \<Rightarrow> False)"

definition close_workspace :: "'w services \<Rightarrow> ('w engine, unit) io" where
  "close_workspace sv = (\<lambda>s.
     case on_world (tx_close (sv_os sv) (se_tx (en_session s))) s of (r, s') \<Rightarrow>
       (let s' = s'\<lparr>en_session := (en_session s')\<lparr>se_tx := tx_closed (se_tx (en_session s'))\<rparr>\<rparr> in
        case r of Inl e \<Rightarrow> (if close_warns e then (Inr (), s') else (Inl e, s')) | Inr _ \<Rightarrow> (Inr (), s')))"

definition engine_catch :: "exn + unit \<Rightarrow> 'w engine \<Rightarrow> 'w engine" where
  "engine_catch r s = (case r of
     Inl e \<Rightarrow> (if expected_failure e
        then s\<lparr>en_agent := (en_agent s)\<lparr>a_error := Some (exn_message e), a_success := False\<rparr>\<rparr> else s)
   | Inr _ \<Rightarrow> s)"

text \<open>
  The body, then its handler, then the \<open>finally\<close> block: the result is computed and the
  workspace closed even when an unexpected exception passes through.
\<close>

definition engine_run :: "'w services \<Rightarrow> repair_request \<Rightarrow> ('w engine, agent_result) io" where
  "engine_run sv rq = (\<lambda>s0.
     case engine_body sv rq s0 of (r, s1) \<Rightarrow>
       bind_io (to_result sv) (\<lambda>res.
       then_io (close_workspace sv)
       (case r of Inl e \<Rightarrow> (if expected_failure e then ret res else throw e) | Inr _ \<Rightarrow> ret res))
       (engine_catch r s1))"

definition engine_start :: "'w services \<Rightarrow> repair_request \<Rightarrow> session \<Rightarrow> retry \<Rightarrow> context_policy \<Rightarrow> 'w \<Rightarrow> 'w engine" where
  "engine_start sv rq se rp cx w = \<lparr>en_world = w, en_session = se, en_retry = rp, en_context = cx,
     en_agent = agent_init rq, en_runtime = runtime_init\<rparr>"

end
