(* ===== verification/EngineLoop.thy ===== *)
theory EngineLoop
  imports Engine
begin

text \<open>
  What the repair loop guarantees, whatever its collaborators do: it ends by its own test
  within its budget, it never reports a success that was not accepted, and it asks for no
  more revisions than permitted.
\<close>

section \<open>Weakest preconditions of the engine's own steps\<close>

lemma wp_on_world [wp_simps]:
  "wp (on_world m) Q E s = wp m (\<lambda>x w. Q x (s\<lparr>en_world := w\<rparr>)) (\<lambda>e w. E e (s\<lparr>en_world := w\<rparr>)) (en_world s)"
  by (simp add: wp_def on_world_def split: prod.split sum.split)

lemma wp_on_session [wp_simps]:
  "wp (on_session m) Q E s = wp m (\<lambda>x (w, se). Q x (s\<lparr>en_world := w, en_session := se\<rparr>))
     (\<lambda>e (w, se). E e (s\<lparr>en_world := w, en_session := se\<rparr>)) (en_world s, en_session s)"
  by (simp add: wp_def on_session_def split: prod.split sum.split)

lemma wp_any: "(\<And>x w'. Q x w') \<Longrightarrow> (\<And>e w'. E e w') \<Longrightarrow> wp m Q E w"
  by (auto simp: wp_def split: prod.split sum.split)

lemma wp_from_result [wp_simps]:
  "wp (from_result r) Q E s = (case r of Inl e \<Rightarrow> E e s | Inr x \<Rightarrow> Q x s)"
  by (simp add: from_result_def wp_simps split: sum.split)

lemmas engine_steps = set_agent_def set_runtime_def set_retry_def add_iteration_def

lemmas engine_phases = plan_and_generate_def handle_model_error_def engine_apply_def
  handle_apply_failure_def engine_verify_def retry_after_test_failure_def
  checkpoint_visible_candidate_def run_semantic_review_def record_review_def
  handle_visible_success_def accept_or_retry_def rollback_def checkpoint_def candidate_diff_def

section \<open>The number of iterations\<close>

definition its :: "'w engine \<Rightarrow> nat" where
  "its s = length (a_iterations (en_agent s))"

lemma wp_plan_its:
  "wp (plan_and_generate sv rq i) (\<lambda>p s'. its s' = its s + (if p = None then 1 else 0))
     (\<lambda>e s'. its s' = its s) s"
  by (auto simp: wp_simps plan_and_generate_def handle_model_error_def engine_steps its_def Let_def
      intro!: wp_any split: sum.split prod.split)

lemma wp_apply_its:
  "wp (engine_apply sv plan) (\<lambda>r s'. its s' = its s) (\<lambda>e s'. its s' = its s) s"
  by (auto simp: wp_simps engine_apply_def engine_steps its_def intro!: wp_any)

lemma wp_apply_failure_its:
  "wp (handle_apply_failure sv plan r) (\<lambda>u s'. its s' = Suc (its s)) (\<lambda>e s'. its s' = its s) s"
  by (auto simp: wp_simps handle_apply_failure_def rollback_def engine_steps its_def Let_def
      intro!: wp_any split: prod.split)

lemma wp_verify_its:
  "wp (engine_verify sv plan r) (\<lambda>v s'. its s' = its s + (if v = None then 1 else 0))
     (\<lambda>e s'. its s' = its s) s"
  by (auto simp: wp_simps engine_verify_def rollback_def engine_steps its_def Let_def
      intro!: wp_any split: prod.split)

lemma wp_retry_its:
  "wp (retry_after_test_failure sv plan rec after) (\<lambda>u s'. its s' = Suc (its s)) (\<lambda>e s'. its s' = its s) s"
  by (auto simp: wp_simps retry_after_test_failure_def rollback_def checkpoint_def engine_steps its_def Let_def
      intro!: wp_any split: prod.split)

lemma wp_visible_its:
  "wp (checkpoint_visible_candidate sv plan rec) (\<lambda>c s'. its s' = Suc (its s)) (\<lambda>e s'. its s' = its s) s"
  by (auto simp: wp_simps checkpoint_visible_candidate_def checkpoint_def engine_steps its_def Let_def
      intro!: wp_any split: prod.split)

lemma wp_review_its:
  "wp (run_semantic_review sv rq plan after) (\<lambda>x s'. its s' = its s) (\<lambda>e s'. its s' = its s) s"
  by (auto simp: wp_simps run_semantic_review_def candidate_diff_def engine_steps its_def Let_def
      intro!: wp_any split: prod.split sum.split)

lemma wp_decision_its:
  "wp (apply_review_decision sv after ex cues d) (\<lambda>f s'. its s' = its s) (\<lambda>e s'. its s' = its s) s"
  by (auto simp: wp_simps apply_review_decision_def engine_steps its_def
      split: prod.split option.split review_action.split)

lemma wp_record_its:
  "wp (record_review ex d plan c) (\<lambda>u s'. its s' = its s) (\<lambda>e s'. its s' = its s) s"
  by (simp add: record_review_def wp_simps set_agent_def its_def)

lemma wp_handle_visible_its:
  "wp (handle_visible_success sv rq plan rec after) (\<lambda>f s'. its s' = Suc (its s))
     (\<lambda>e s'. its s' \<le> Suc (its s)) s"
  unfolding handle_visible_success_def wp_simps
  by (auto intro!: wp_mono [OF wp_visible_its] wp_mono [OF wp_review_its] wp_mono [OF wp_record_its]
      wp_mono [OF wp_decision_its] simp: wp_simps set_agent_def its_def split: prod.split)

lemma wp_accept_its:
  "wp (accept_or_retry sv rq plan rec after) (\<lambda>f s'. its s' = Suc (its s)) (\<lambda>e s'. its s' \<le> Suc (its s)) s"
  unfolding accept_or_retry_def wp_simps
  by (auto intro!: wp_handle_visible_its wp_mono [OF wp_retry_its] simp: wp_simps)

lemma wp_run_iteration_its:
  "wp (run_iteration sv rq i) (\<lambda>f s'. its s' = Suc (its s)) (\<lambda>e s'. its s' \<le> Suc (its s)) s"
  unfolding run_iteration_def wp_simps
  by (auto intro!: wp_mono [OF wp_plan_its] wp_mono [OF wp_apply_its] wp_mono [OF wp_apply_failure_its]
      wp_mono [OF wp_verify_its] wp_mono [OF wp_accept_its] simp: wp_simps split: option.split prod.split)

lemma wp_repair_loop_its:
  fixes s :: "'w engine"
  assumes "int (its s) + int n \<ge> rq_max_iterations rq"
  shows "wp (repair_loop sv rq n)
     (\<lambda>u s'. \<not> loop_goes_on rq s' \<and> int (its s') \<le> max (int (its s)) (rq_max_iterations rq))
     (\<lambda>e s'. int (its s') \<le> max (int (its s)) (rq_max_iterations rq)) s"
  using assms
proof (induction n arbitrary: s)
  case 0
  then show ?case by (simp add: wp_simps loop_goes_on_def its_def)
next
  case (Suc n)
  show ?case
  proof (cases "loop_goes_on rq s")
    case False
    then show ?thesis by (simp add: wp_simps)
  next
    case True
    then have less: "int (its s) < rq_max_iterations rq" by (simp add: loop_goes_on_def its_def)
    have run: "wp (run_iteration sv rq i) (\<lambda>f s'. wp (set_runtime (\<lambda>rt. rt\<lparr>rt_finished := f\<rparr>))
        (\<lambda>_. wp (repair_loop sv rq n)
           (\<lambda>u s'. \<not> loop_goes_on rq s' \<and> int (its s') \<le> max (int (its s)) (rq_max_iterations rq))
           (\<lambda>e s'. int (its s') \<le> max (int (its s)) (rq_max_iterations rq)))
        (\<lambda>e s'. int (its s') \<le> max (int (its s)) (rq_max_iterations rq)) s')
        (\<lambda>e s'. int (its s') \<le> max (int (its s)) (rq_max_iterations rq)) s" for i
    proof (rule wp_mono [OF wp_run_iteration_its])
      fix f and s1 :: "'w engine" assume s1: "its s1 = Suc (its s)"
      let ?s = "s1\<lparr>en_runtime := (en_runtime s1)\<lparr>rt_finished := f\<rparr>\<rparr>"
      have "its ?s = Suc (its s)" using s1 by (simp add: its_def)
      with Suc.IH [of ?s] Suc.prems less
      show "wp (set_runtime (\<lambda>rt. rt\<lparr>rt_finished := f\<rparr>))
        (\<lambda>_. wp (repair_loop sv rq n)
           (\<lambda>u s'. \<not> loop_goes_on rq s' \<and> int (its s') \<le> max (int (its s)) (rq_max_iterations rq))
           (\<lambda>e s'. int (its s') \<le> max (int (its s)) (rq_max_iterations rq)))
        (\<lambda>e s'. int (its s') \<le> max (int (its s)) (rq_max_iterations rq)) s1"
        by (auto simp: set_runtime_def wp_simps elim: wp_mono)
    qed (use less in auto)
    show ?thesis using True run by (simp add: wp_simps)
  qed
qed

section \<open>Success means acceptance\<close>

text \<open>The part of the agent's state that says how a run stands.\<close>

definition standing :: "'w engine \<Rightarrow> bool \<times> bool \<times> pystr \<times> int" where
  "standing s = (a_success (en_agent s), a_visible_success (en_agent s), a_acceptance_status (en_agent s),
     a_semantic_revisions_used (en_agent s))"

lemma standing_frame [simp]:
  "standing (s\<lparr>en_world := w\<rparr>) = standing s" "standing (s\<lparr>en_session := se\<rparr>) = standing s"
  "standing (s\<lparr>en_runtime := rt\<rparr>) = standing s" "standing (s\<lparr>en_retry := rp\<rparr>) = standing s"
  "standing (s\<lparr>en_context := cx\<rparr>) = standing s"
  by (simp_all add: standing_def)

lemma wp_plan_standing:
  "wp (plan_and_generate sv rq i) (\<lambda>p s'. standing s' = standing s) (\<lambda>e s'. standing s' = standing s) s"
  by (auto simp: wp_simps plan_and_generate_def handle_model_error_def engine_steps Let_def standing_def
      intro!: wp_any split: sum.split prod.split)

lemma wp_apply_standing:
  "wp (engine_apply sv plan) (\<lambda>r s'. standing s' = standing s) (\<lambda>e s'. standing s' = standing s) s"
  by (auto simp: wp_simps engine_apply_def engine_steps standing_def intro!: wp_any)

lemma wp_apply_failure_standing:
  "wp (handle_apply_failure sv plan r) (\<lambda>u s'. standing s' = standing s) (\<lambda>e s'. standing s' = standing s) s"
  by (auto simp: wp_simps handle_apply_failure_def rollback_def engine_steps standing_def Let_def
      intro!: wp_any split: prod.split)

lemma wp_retry_standing:
  "wp (retry_after_test_failure sv plan rec after) (\<lambda>u s'. standing s' = standing s)
     (\<lambda>e s'. standing s' = standing s) s"
  by (auto simp: wp_simps retry_after_test_failure_def rollback_def checkpoint_def engine_steps standing_def Let_def
      intro!: wp_any split: prod.split)

text \<open>After a verification the success flag is the verdict of the tests, or the run is over.\<close>

lemma wp_verify_standing:
  "wp (engine_verify sv plan r)
     (\<lambda>v s'. snd (standing s') = snd (standing s)
        \<and> (case v of None \<Rightarrow> \<not> fst (standing s') | Some (rec, after) \<Rightarrow> fst (standing s') = te_success after))
     (\<lambda>e s'. snd (standing s') = snd (standing s)) s"
  by (auto simp: wp_simps engine_verify_def rollback_def engine_steps standing_def Let_def
      intro!: wp_any split: prod.split)

lemma wp_visible_standing:
  "wp (checkpoint_visible_candidate sv plan rec)
     (\<lambda>c s'. standing s' = (fst (standing s), True, snd (snd (standing s)))) (\<lambda>e s'. snd (snd (snd (standing s'))) = snd (snd (snd (standing s)))) s"
  by (auto simp: wp_simps checkpoint_visible_candidate_def checkpoint_def engine_steps standing_def Let_def
      intro!: wp_any split: prod.split)

lemma review_decision_revise:
  "dec_action (review_decision_for sv rq plan used ex cues) = DoRevise \<Longrightarrow>
     used < max 0 (sv_max_semantic_revisions sv) \<and> ex_outcome ex \<noteq> None
       \<and> int (ip_iteration plan) < rq_max_iterations rq"
  unfolding review_decision_for_def Let_def by (auto dest!: decide_revise split: if_splits)

lemma wp_review_standing:
  "wp (run_semantic_review sv rq plan after)
     (\<lambda>x s'. standing s' = standing s
        \<and> (dec_action (snd (snd x)) = DoRevise \<longrightarrow> a_semantic_revisions_used (en_agent s) < max 0 (sv_max_semantic_revisions sv)))
     (\<lambda>e s'. snd (snd (snd (standing s'))) = snd (snd (snd (standing s)))) s"
  by (auto simp: wp_simps run_semantic_review_def candidate_diff_def engine_steps Let_def
      intro!: wp_any dest: review_decision_revise split: prod.split sum.split)

lemma wp_record_standing:
  "wp (record_review ex d plan c) (\<lambda>u s'. standing s' = standing s) (\<lambda>e s'. snd (snd (snd (standing s'))) = snd (snd (snd (standing s)))) s"
  by (simp add: record_review_def wp_simps set_agent_def standing_def)

text \<open>What a run may claim at the end of a round that returns \<open>f\<close>.\<close>

definition accepted_statuses :: "pystr set" where
  "accepted_statuses = {''accepted'', ''accepted_with_warnings''}"

definition sound_standing :: "'w services \<Rightarrow> bool \<Rightarrow> 'w engine \<Rightarrow> bool" where
  "sound_standing sv f s = (case standing s of (ok, visible, status, used) \<Rightarrow>
     0 \<le> used \<and> used \<le> max 0 (sv_max_semantic_revisions sv)
     \<and> (ok \<longrightarrow> f \<and> visible \<and> (if sv_review_enabled sv then status \<in> accepted_statuses else status = ''disabled'')))"

definition used_bounded :: "'w services \<Rightarrow> 'w engine \<Rightarrow> bool" where
  "used_bounded sv s \<longleftrightarrow> 0 \<le> a_semantic_revisions_used (en_agent s)
     \<and> a_semantic_revisions_used (en_agent s) \<le> max 0 (sv_max_semantic_revisions sv)"

lemma used_bounded_standing:
  "used_bounded sv s \<longleftrightarrow> 0 \<le> snd (snd (snd (standing s)))
     \<and> snd (snd (snd (standing s))) \<le> max 0 (sv_max_semantic_revisions sv)"
  by (simp add: used_bounded_def standing_def)

lemma sound_standing_used: "sound_standing sv f s \<Longrightarrow> used_bounded sv s"
  by (auto simp: sound_standing_def used_bounded_standing)

lemma sound_standing_cong: "standing s' = standing s \<Longrightarrow> sound_standing sv f s' = sound_standing sv f s"
  by (simp add: sound_standing_def)

lemma wp_decision_standing:
  assumes "standing s = (ok, True, status, used)" and "0 \<le> used" and "used \<le> max 0 (sv_max_semantic_revisions sv)"
    and "dec_action d = DoRevise \<longrightarrow> used < max 0 (sv_max_semantic_revisions sv)" and "sv_review_enabled sv"
  shows "wp (apply_review_decision sv after ex cues d) (\<lambda>f s'. sound_standing sv f s') (\<lambda>e s'. used_bounded sv s') s"
  using assms
  by (cases "dec_action d"; cases "ex_outcome ex")
    (auto simp: wp_simps apply_review_decision_def engine_steps standing_def sound_standing_def
      accepted_statuses_def Let_def split: prod.split)

lemma wp_reviewed_standing:
  assumes st: "standing s = (True, True, status, used)" and rev: "sv_review_enabled sv"
    and used: "0 \<le> used" "used \<le> max 0 (sv_max_semantic_revisions sv)"
  shows "wp (bind_io (run_semantic_review sv rq plan after)
      (\<lambda>(ex, cues, d). then_io (record_review ex d plan c) (apply_review_decision sv after ex cues d)))
    (sound_standing sv) (\<lambda>e s'. used_bounded sv s') s"
  unfolding wp_bind
proof (rule wp_mono [OF wp_review_standing])
  fix x :: "review_execution \<times> structural_cue list \<times> review_decision" and s2 :: "'a engine"
  assume s2: "standing s2 = standing s \<and> (dec_action (snd (snd x)) = DoRevise \<longrightarrow>
    a_semantic_revisions_used (en_agent s) < max 0 (sv_max_semantic_revisions sv))"
  obtain ex cues d where x: "x = (ex, cues, d)" by (cases x) auto
  have u: "a_semantic_revisions_used (en_agent s) = used" using st by (simp add: standing_def)
  show "wp (case x of (ex, cues, d) \<Rightarrow> then_io (record_review ex d plan c) (apply_review_decision sv after ex cues d))
      (sound_standing sv) (\<lambda>e s'. used_bounded sv s') s2"
    unfolding x prod.case wp_simps
  proof (rule wp_mono [OF wp_record_standing])
    fix y and s3 :: "'a engine" assume "standing s3 = standing s2"
    then show "wp (apply_review_decision sv after ex cues d) (sound_standing sv) (\<lambda>e s'. used_bounded sv s') s3"
      using s2 u st by (intro wp_decision_standing [OF _ used _ rev]) (auto simp: x)
  qed (use s2 st used in \<open>simp add: used_bounded_standing\<close>)
qed (use st used in \<open>simp add: used_bounded_standing\<close>)

lemma wp_handle_visible_standing:
  assumes st: "standing s = (True, visible, status, used)"
    and used: "0 \<le> used" "used \<le> max 0 (sv_max_semantic_revisions sv)"
  shows "wp (handle_visible_success sv rq plan rec after) (sound_standing sv) (\<lambda>e s'. used_bounded sv s') s"
  unfolding handle_visible_success_def
proof (subst wp_bind, rule wp_mono [OF wp_visible_standing])
  fix c and s1 :: "'a engine" assume "standing s1 = (fst (standing s), True, snd (snd (standing s)))"
  then have s1: "standing s1 = (True, True, status, used)" using st by simp
  show "wp (if \<not> sv_review_enabled sv then then_io (set_agent (\<lambda>a. a\<lparr>a_acceptance_status := ''disabled''\<rparr>)) (ret True)
      else bind_io (run_semantic_review sv rq plan after)
        (\<lambda>(ex, cues, d). then_io (record_review ex d plan c) (apply_review_decision sv after ex cues d)))
    (sound_standing sv) (\<lambda>e s'. used_bounded sv s') s1"
    using wp_reviewed_standing [OF s1 _ used] s1
    by (auto simp: wp_simps(1-4,6,8) wp_then engine_steps sound_standing_def standing_def used)
qed (use st used in \<open>simp add: used_bounded_standing\<close>)

lemma wp_accept_standing:
  assumes u: "snd (snd (snd (standing s))) = used"
    and used: "0 \<le> used" "used \<le> max 0 (sv_max_semantic_revisions sv)"
  shows "wp (accept_or_retry sv rq plan rec after) (sound_standing sv) (\<lambda>e s'. used_bounded sv s') s"
proof (cases "a_success (en_agent s)")
  case True
  then show ?thesis using wp_handle_visible_standing [OF _ used] u
    by (simp add: accept_or_retry_def wp_simps standing_def)
next
  case ok: False
  have "wp (then_io (retry_after_test_failure sv plan rec after) (ret False)) (sound_standing sv) (\<lambda>e s'. used_bounded sv s') s"
    unfolding wp_then
    by (rule wp_mono [OF wp_retry_standing])
      (use u used ok in \<open>auto simp: wp_simps sound_standing_def standing_def used_bounded_def\<close>)
  with ok show ?thesis by (simp add: accept_or_retry_def wp_bind wp_gets)
qed

lemma wp_run_iteration_standing:
  assumes "sound_standing sv False s"
  shows "wp (run_iteration sv rq i) (sound_standing sv) (\<lambda>e s'. used_bounded sv s') s"
proof -
  obtain visible status used where st: "standing s = (False, visible, status, used)"
    and used: "0 \<le> used" "used \<le> max 0 (sv_max_semantic_revisions sv)"
    using assms by (cases "standing s") (auto simp: sound_standing_def)
  have failed: "sound_standing sv f s'" if "\<not> fst (standing s')" "snd (snd (snd (standing s'))) = used" for f s'
    using that used by (auto simp: sound_standing_def)
  have bounded: "used_bounded sv s'" if "snd (snd (snd (standing s'))) = used" for s'
    using that used by (simp add: used_bounded_standing)
  show ?thesis
    unfolding run_iteration_def
    by (auto simp: wp_simps st bounded intro!: failed wp_mono [OF wp_plan_standing] wp_mono [OF wp_apply_standing]
        wp_mono [OF wp_apply_failure_standing] wp_mono [OF wp_verify_standing] wp_accept_standing [OF _ used]
        split: option.split prod.split)
qed

lemma sound_standing_runtime [simp]:
  "sound_standing sv f (s\<lparr>en_runtime := rt\<rparr>) = sound_standing sv f s"
  by (simp add: sound_standing_def)

text \<open>
  Rules for the loop and for the body of a run: an invariant \<open>I f s\<close> of the states \<open>s\<close> after a
  round that returned \<open>f\<close>.
\<close>

lemma wp_repair_loop_inv:
  fixes s :: "'w engine"
  assumes step: "\<And>s. I False s \<Longrightarrow> wp (run_iteration sv rq (Suc (its s))) I E s"
    and frame: "\<And>f g s. I f s \<Longrightarrow> I f (s\<lparr>en_runtime := (en_runtime s)\<lparr>rt_finished := g\<rparr>\<rparr>)"
  shows "I (rt_finished (en_runtime s)) s \<Longrightarrow>
     wp (repair_loop sv rq n) (\<lambda>u s'. I (rt_finished (en_runtime s')) s') E s"
proof (induction n arbitrary: s)
  case (Suc n)
  show ?case
  proof (cases "loop_goes_on rq s")
    case True
    then have "I False s" using Suc.prems by (simp add: loop_goes_on_def)
    then have "wp (run_iteration sv rq (Suc (its s)))
        (\<lambda>f. wp (then_io (set_runtime (\<lambda>rt. rt\<lparr>rt_finished := f\<rparr>)) (repair_loop sv rq n))
          (\<lambda>u s'. I (rt_finished (en_runtime s')) s') E) E s"
      by (intro wp_mono [OF step]) (auto simp: wp_simps set_runtime_def intro!: Suc.IH frame)
    with True show ?thesis by (simp add: wp_simps its_def)
  qed (use Suc.prems in \<open>simp add: wp_simps\<close>)
qed (simp add: wp_simps)

lemma wp_engine_body_inv:
  fixes s :: "'w engine"
  assumes prep: "wp (engine_prepare sv) I E s"
    and step: "\<And>s. I False s \<Longrightarrow> wp (run_iteration sv rq (Suc (its s))) I E s"
    and frame: "\<And>f g s. I f s \<Longrightarrow> I f (s\<lparr>en_runtime := (en_runtime s)\<lparr>rt_finished := g\<rparr>\<rparr>)"
    and limit: "\<And>s. I False s \<Longrightarrow> I False (s\<lparr>en_agent := mark_iteration_limit sv rq (en_agent s)\<rparr>)"
  shows "wp (engine_body sv rq) (\<lambda>u s'. \<exists>f. I f s') E s"
  unfolding engine_body_def wp_bind
proof (rule wp_mono [OF prep])
  fix f and s1 :: "'w engine" assume "I f s1"
  then have "I f (s1\<lparr>en_runtime := (en_runtime s1)\<lparr>rt_finished := f\<rparr>\<rparr>)" by (rule frame)
  then have "wp (repair_loop sv rq (nat (rq_max_iterations rq))) (\<lambda>u s'. I (rt_finished (en_runtime s')) s') E
      (s1\<lparr>en_runtime := (en_runtime s1)\<lparr>rt_finished := f\<rparr>\<rparr>)"
    by (intro wp_repair_loop_inv [OF step frame]) simp_all
  then show "wp (then_io (set_runtime (\<lambda>rt. rt\<lparr>rt_finished := f\<rparr>))
      (then_io (repair_loop sv rq (nat (rq_max_iterations rq)))
      (bind_io (gets (\<lambda>s. rt_finished (en_runtime s)))
        (\<lambda>f. when_io (\<not> f) (set_agent (mark_iteration_limit sv rq)))))) (\<lambda>u s'. \<exists>f. I f s') E s1"
    unfolding wp_simps set_runtime_def set_agent_def
    by (rule wp_mono) (use limit in \<open>auto simp: wp_simps; metis\<close>)
qed

lemma wp_repair_loop_standing:
  "sound_standing sv (rt_finished (en_runtime s)) s \<Longrightarrow>
     wp (repair_loop sv rq n) (\<lambda>u s'. sound_standing sv (rt_finished (en_runtime s')) s') (\<lambda>e s'. used_bounded sv s') s"
  by (rule wp_repair_loop_inv [OF wp_run_iteration_standing]) simp_all

section \<open>The whole run\<close>

text \<open>The tests passed from the start, or a candidate was accepted.\<close>

definition success_justified :: "'w services \<Rightarrow> agent_state \<Rightarrow> bool" where
  "success_justified sv a \<longleftrightarrow> a_visible_success a
     \<and> (a_iterations a = [] \<and> a_acceptance_status a = ''not_run''
        \<or> a_acceptance_status a \<in> (if sv_review_enabled sv then accepted_statuses else {''disabled''}))"

lemma wp_engine_prepare:
  assumes "a_iterations (en_agent s) = []" and "standing s = (False, False, status, 0)"
  shows "wp (engine_prepare sv)
     (\<lambda>f s'. its s' = 0 \<and> used_bounded sv s' \<and> (f \<longrightarrow> a_success (en_agent s') \<longrightarrow> success_justified sv (en_agent s'))
        \<and> (\<not> f \<longrightarrow> sound_standing sv False s'))
     (\<lambda>e s'. its s' = 0 \<and> used_bounded sv s') s"
  using assms
  by (auto simp: wp_simps engine_prepare_def engine_steps its_def standing_def sound_standing_def
      success_justified_def used_bounded_def intro!: wp_any split: prod.split)

lemma sound_standing_justified:
  "sound_standing sv f s \<Longrightarrow> a_success (en_agent s) \<Longrightarrow> success_justified sv (en_agent s)"
  by (auto simp: sound_standing_def standing_def success_justified_def)

definition within_budget :: "'w services \<Rightarrow> repair_request \<Rightarrow> 'w engine \<Rightarrow> bool" where
  "within_budget sv rq s \<longleftrightarrow> int (its s) \<le> max 0 (rq_max_iterations rq) \<and> used_bounded sv s"

lemma used_bounded_runtime [simp]: "used_bounded sv (s\<lparr>en_runtime := rt\<rparr>) = used_bounded sv s"
  by (simp add: used_bounded_def)

lemma wp_engine_body:
  assumes "a_iterations (en_agent s) = []" and "standing s = (False, False, status, 0)"
  shows "wp (engine_body sv rq)
     (\<lambda>u s'. (a_success (en_agent s') \<longrightarrow> success_justified sv (en_agent s'))
        \<and> within_budget sv rq s')
     (\<lambda>e s'. within_budget sv rq s') s"
  unfolding engine_body_def wp_bind wp_then
proof (rule wp_mono [OF wp_engine_prepare [OF assms]])
  fix f and s1 :: "'a engine"
  assume s1: "its s1 = 0 \<and> used_bounded sv s1 \<and> (f \<longrightarrow> a_success (en_agent s1) \<longrightarrow> success_justified sv (en_agent s1))
      \<and> (\<not> f \<longrightarrow> sound_standing sv False s1)"
  let ?s2 = "s1\<lparr>en_runtime := (en_runtime s1)\<lparr>rt_finished := f\<rparr>\<rparr>"
  let ?N = "nat (rq_max_iterations rq)"
  have its2: "its ?s2 = 0" using s1 by (simp add: its_def)
  let ?Q = "\<lambda>s'. (a_success (en_agent s') \<longrightarrow> success_justified sv (en_agent s'))
        \<and> within_budget sv rq s'"
  have "wp (repair_loop sv rq ?N)
      (\<lambda>u. wp (bind_io (gets (\<lambda>s. rt_finished (en_runtime s)))
         (\<lambda>f. when_io (\<not> f) (set_agent (mark_iteration_limit sv rq)))) (\<lambda>u. ?Q)
         (\<lambda>e s'. within_budget sv rq s'))
      (\<lambda>e s'. within_budget sv rq s') ?s2"
  proof (cases f)
    case True
    have "repair_loop sv rq n ?s2 = (Inr (), ?s2)" for n
      using True by (cases n) (simp_all add: io_defs loop_goes_on_def)
    then show ?thesis using s1 True its2 by (simp add: wp_def io_defs its_def within_budget_def)
  next
    case False
    then have "sound_standing sv (rt_finished (en_runtime ?s2)) ?s2" using s1 by simp
    from wp_repair_loop_standing [OF this, of rq ?N]
    have a: "wp (repair_loop sv rq ?N) (\<lambda>u s'. sound_standing sv (rt_finished (en_runtime s')) s') (\<lambda>e s'. used_bounded sv s') ?s2" .
    have b: "wp (repair_loop sv rq ?N)
        (\<lambda>u s'. \<not> loop_goes_on rq s' \<and> int (its s') \<le> max (int (its ?s2)) (rq_max_iterations rq))
        (\<lambda>e s'. int (its s') \<le> max (int (its ?s2)) (rq_max_iterations rq)) ?s2"
      by (rule wp_repair_loop_its) (simp add: its2)
    show ?thesis
    proof (rule wp_mono [OF wp_conj [OF a b]])
      fix u and s3 :: "'a engine"
      assume s3: "sound_standing sv (rt_finished (en_runtime s3)) s3 \<and> \<not> loop_goes_on rq s3
        \<and> int (its s3) \<le> max (int (its ?s2)) (rq_max_iterations rq)"
      have "\<not> rt_finished (en_runtime s3) \<Longrightarrow> \<not> a_success (en_agent s3)"
        using s3 by (auto simp: sound_standing_def standing_def)
      then show "wp (bind_io (gets (\<lambda>s. rt_finished (en_runtime s)))
         (\<lambda>f. when_io (\<not> f) (set_agent (mark_iteration_limit sv rq)))) (\<lambda>u. ?Q)
         (\<lambda>e s'. within_budget sv rq s') s3"
        using s3 its2 sound_standing_justified
        by (auto simp: wp_simps set_agent_def mark_iteration_limit_def its_def within_budget_def
            used_bounded_def sound_standing_def standing_def)
    qed (use its2 in \<open>auto simp: within_budget_def\<close>)
  qed
  then show "wp (set_runtime (\<lambda>rt. rt\<lparr>rt_finished := f\<rparr>))
      (\<lambda>_. wp (repair_loop sv rq ?N)
        (\<lambda>_. wp (gets (\<lambda>s. rt_finished (en_runtime s)))
           (\<lambda>x. wp (when_io (\<not> x) (set_agent (mark_iteration_limit sv rq))) (\<lambda>u. ?Q)
             (\<lambda>e s'. within_budget sv rq s'))
           (\<lambda>e s'. within_budget sv rq s'))
        (\<lambda>e s'. within_budget sv rq s'))
      (\<lambda>e s'. within_budget sv rq s') s1"
    by (simp add: set_runtime_def wp_modify wp_bind)
qed (auto simp: within_budget_def)

lemma wp_to_result:
  "wp (to_result sv)
     (\<lambda>res s'. a_iterations (res_state res) = a_iterations (en_agent s)
        \<and> a_success (res_state res) = a_success (en_agent s)
        \<and> a_visible_success (res_state res) = a_visible_success (en_agent s)
        \<and> a_acceptance_status (res_state res) = a_acceptance_status (en_agent s)
        \<and> a_reviews (res_state res) = a_reviews (en_agent s)) (\<lambda>e s'. True) s"
  by (auto simp: wp_simps to_result_def result_of_def set_agent_def Let_def intro!: wp_any
      split: prod.split option.split)

lemma engine_run_to_result:
  assumes "engine_run sv rq s = (Inr res, s')"
  obtains r s1 s2 where "engine_body sv rq s = (r, s1)" and "\<forall>e. r = Inl e \<longrightarrow> expected_failure e"
    and "to_result sv (engine_catch r s1) = (Inr res, s2)"
proof -
  obtain r s1 where body: "engine_body sv rq s = (r, s1)" by fastforce
  from assms body obtain res1 s2 s3 where
      t: "to_result sv (engine_catch r s1) = (Inr res1, s2)"
      and "(case r of Inl e \<Rightarrow> (if expected_failure e then ret res1 else throw e) | Inr _ \<Rightarrow> ret res1) s3 = (Inr res, s')"
    by (auto simp: engine_run_def bind_io_Inr then_io_def)
  then have "res = res1" "\<forall>e. r = Inl e \<longrightarrow> expected_failure e" by (auto split: sum.splits if_splits)
  with t body show ?thesis by (intro that) auto
qed

lemma engine_run_result:
  assumes "engine_run sv rq s = (Inr res, s')"
  obtains r s1 where "engine_body sv rq s = (r, s1)"
    and "\<forall>e. r = Inl e \<longrightarrow> expected_failure e"
    and "a_iterations (res_state res) = a_iterations (en_agent (engine_catch r s1))"
    and "a_success (res_state res) = a_success (en_agent (engine_catch r s1))"
    and "a_visible_success (res_state res) = a_visible_success (en_agent (engine_catch r s1))"
    and "a_acceptance_status (res_state res) = a_acceptance_status (en_agent (engine_catch r s1))"
    and "a_reviews (res_state res) = a_reviews (en_agent (engine_catch r s1))"
proof (rule engine_run_to_result [OF assms])
  fix r s1 s2
  assume "engine_body sv rq s = (r, s1)" and "\<forall>e. r = Inl e \<longrightarrow> expected_failure e"
    and t: "to_result sv (engine_catch r s1) = (Inr res, s2)"
  with wpD(1) [OF wp_to_result t] show ?thesis by (intro that) auto
qed

text \<open>A reported success comes from a body that returned.\<close>

lemma engine_run_success:
  assumes "engine_run sv rq s = (Inr res, s')" and "a_success (res_state res)"
  obtains s1 s2 where "engine_body sv rq s = (Inr (), s1)" and "to_result sv s1 = (Inr res, s2)"
    and "a_success (en_agent s1)"
proof (rule engine_run_to_result [OF assms(1)])
  fix r s1 s2
  assume body: "engine_body sv rq s = (r, s1)" and e: "\<forall>e. r = Inl e \<longrightarrow> expected_failure e"
    and t: "to_result sv (engine_catch r s1) = (Inr res, s2)"
  have ok: "a_success (en_agent (engine_catch r s1))" using wpD(1) [OF wp_to_result t] assms(2) by simp
  then obtain u where "r = Inr u" using e by (cases r) (auto simp: engine_catch_def)
  then show ?thesis using body t ok by (intro that) (auto simp: engine_catch_def)
qed

text \<open>More rounds than the budget asks for change nothing.\<close>

lemma repair_loop_fuel:
  fixes s :: "'w engine"
  assumes "int (its s) + int n \<ge> rq_max_iterations rq"
  shows "repair_loop sv rq (n + k) s = repair_loop sv rq n s"
  using assms
proof (induction n arbitrary: s)
  case 0
  then have "\<not> loop_goes_on rq s" by (simp add: loop_goes_on_def its_def)
  then show ?case by (cases k) (simp_all add: io_defs)
next
  case (Suc n)
  show ?case
  proof (cases "loop_goes_on rq s")
    case False
    then show ?thesis by (simp add: io_defs)
  next
    case True
    let ?i = "Suc (length (a_iterations (en_agent s)))"
    obtain r s1 where r: "run_iteration sv rq ?i s = (r, s1)" by fastforce
    show ?thesis
    proof (cases r)
      case (Inl e)
      with True r show ?thesis by (simp add: io_defs)
    next
      case (Inr f)
      with wpD(1) [OF wp_run_iteration_its] r have "its s1 = Suc (its s)" by blast
      then have "int (its (s1\<lparr>en_runtime := (en_runtime s1)\<lparr>rt_finished := f\<rparr>\<rparr>)) + int n \<ge> rq_max_iterations rq"
        using Suc.prems by (simp add: its_def)
      from Suc.IH [OF this] True r Inr show ?thesis by (simp add: io_defs set_runtime_def)
    qed
  qed
qed

section \<open>Properties\<close>

lemma engine_start_fresh:
  "a_iterations (en_agent (engine_start sv rq se rp cx w)) = []"
  "standing (engine_start sv rq se rp cx w) = (False, False, ''not_run'', 0)"
  by (simp_all add: engine_start_def agent_init_def standing_def)

lemma engine_run_justified:
  assumes "engine_run sv rq (engine_start sv rq se rp cx w) = (Inr res, s')"
    and "a_success (res_state res)"
  shows "success_justified sv (res_state res)"
proof -
  obtain s1 s2 where body: "engine_body sv rq (engine_start sv rq se rp cx w) = (Inr (), s1)"
    and t: "to_result sv s1 = (Inr res, s2)" and ok: "a_success (en_agent s1)"
    by (rule engine_run_success [OF assms])
  have "success_justified sv (en_agent s1)"
    using wpD(1) [OF wp_engine_body [OF engine_start_fresh] body] ok by blast
  then show ?thesis using wpD(1) [OF wp_to_result t] by (simp add: success_justified_def)
qed

text \<open>
  A run that can be computed: a repository whose tests pass once its file is \<open>good\<close>, and a model
  whose patch makes it so.
\<close>

definition demo_tests :: "demo_world \<Rightarrow> int \<times> pystr" where
  "demo_tests w = (if d_disk w = ''good'' then (0, ''ok'') else (1, ''x''))"

definition demo_run :: "pystr \<Rightarrow> (demo_world, test_execution) io" where
  "demo_run ws = (\<lambda>w. case demo_tests w of (rc, out) \<Rightarrow>
     (Inr \<lparr>te_exit_code = rc, te_output = out, te_command_result = command_result_of ''local'' [''pytest''] rc (Str out) (Str []),
       te_command_results = []\<rparr>, w))"

definition edit_git :: "demo_world \<Rightarrow> pystr \<Rightarrow> pystr list \<Rightarrow> pystr \<Rightarrow> proc \<times> demo_world" where
  "edit_git w cwd args stdin =
     (if args = [''apply'', ''-''] then (Completed 0 [] [], w\<lparr>d_disk := ''good''\<rparr>)
      else demo_git w cwd args stdin)"

definition demo_services :: "demo_world services" where
  "demo_services = \<lparr>sv_os = demo_os\<lparr>git := edit_git\<rparr>, sv_run_tests = demo_run, sv_strategy = ''traceback'',
     sv_line_window = 40, sv_max_files = 6, sv_allow_full = True,
     sv_build_context = \<lambda>w ws out cp. Inr ([], JNull),
     sv_prompt = \<lambda>m t i n f a b c d. ''prompt'', sv_system_prompt = ''system'',
     sv_model = \<lambda>w a b. (Inr (joinlines [''diff --git a/m.py b/m.py'', ''--- a/m.py'', ''+++ b/m.py'', ''@@'', ''-a'', ''+b''], JNull), w), sv_policy = default_edit_policy,
     sv_decode_error = id, sv_review_enabled = False,
     sv_review_context = \<lambda>w ws d. Inr ([], JNull, []), sv_review_prompt = \<lambda>a b c d e. ''review'',
     sv_reviewer = \<lparr>rv_model = \<lambda>w a b. (Inr ([], JNull), w), rv_parser = parser_init 5 3000 3,
       rv_max_parse_retries = 0, rv_max_model_retries = 0, rv_system_prompt = [], rv_retry_prompt = \<lambda>a b. [],
       rv_python = demo_py\<rparr>,
     sv_max_semantic_revisions = 1, sv_review_max_feedback_chars = 3000\<rparr>"

definition demo_request :: repair_request where
  "demo_request = \<lparr>rq_task = ''fix'', rq_workspace = ''/r'', rq_max_iterations = 1\<rparr>"

definition demo_fresh :: demo_world where
  "demo_fresh = demo_state\<lparr>d_disk := ''old''\<rparr>"

definition demo_session :: session where
  "demo_session = session_init (sv_os demo_services) demo_fresh ''/r'' ''/o'' False True"

definition demo_start :: "demo_world engine" where
  "demo_start = engine_start demo_services demo_request demo_session (retry_start PatchMode) (context_policy_init 2)
     demo_fresh"


lemma demo_run_result:
  "map_sum id (\<lambda>r. (a_success (res_state r), length (a_iterations (res_state r)), a_candidate_patch (res_state r)))
     (fst (engine_run demo_services demo_request demo_start)) = Inr (True, 1, ''good'')"
  by code_simp

lemma demo_run_returns:
  obtains res s' where "engine_run demo_services demo_request demo_start = (Inr res, s')"
    and "a_success (res_state res)" and "length (a_iterations (res_state res)) = 1"
  using demo_run_result
  by (cases "engine_run demo_services demo_request demo_start"; cases "fst (engine_run demo_services demo_request demo_start)")
    auto


text \<open>
  C5 A run stays within its budget: its result records at most \<open>max_iterations\<close> iterations,
  also when a failure ended the run early.
\<close>

theorem run_within_iteration_budget:
  assumes "engine_run sv rq (engine_start sv rq se rp cx w) = (Inr res, s')"
  shows "int (length (a_iterations (res_state res))) \<le> max 0 (rq_max_iterations rq)"
proof -
  obtain r s1 where
    body: "engine_body sv rq (engine_start sv rq se rp cx w) = (r, s1)"
    and res: "a_iterations (res_state res) = a_iterations (en_agent (engine_catch r s1))"
    by (rule engine_run_result [OF assms]) blast
  have "within_budget sv rq s1"
  proof (cases r)
    case (Inl e)
    with wpD(2) [OF wp_engine_body [OF engine_start_fresh] body [unfolded Inl]] show ?thesis by simp
  next
    case (Inr u)
    with wpD(1) [OF wp_engine_body [OF engine_start_fresh] body [unfolded Inr]] show ?thesis by simp
  qed
  then show ?thesis using res
    by (auto simp: within_budget_def its_def engine_catch_def split: sum.splits)
qed

theorem run_within_iteration_budget_witness:
  "\<exists>res. fst (engine_run demo_services demo_request demo_start) = Inr res
     \<and> int (length (a_iterations (res_state res))) \<le> max 0 (rq_max_iterations demo_request)"
proof (rule demo_run_returns)
  fix res s' assume r: "engine_run demo_services demo_request demo_start = (Inr res, s')"
  from run_within_iteration_budget [OF r [unfolded demo_start_def]] r show ?thesis by auto
qed

text \<open>
  C6 The repair loop ends by its own test: started within the budget, it returns only when the
  run is finished or the iterations are used up, the number of rounds given to it being
  enough, since any larger number gives the same run; every round that returns records
  exactly one iteration.
\<close>

theorem repair_loop_terminates:
  assumes "int (length (a_iterations (en_agent s))) + int n \<ge> rq_max_iterations rq"
  shows "repair_loop sv rq (n + k) s = repair_loop sv rq n s
    \<and> (\<forall>s'. repair_loop sv rq n s = (Inr (), s') \<longrightarrow> \<not> loop_goes_on rq s')
    \<and> (\<forall>f s'. run_iteration sv rq i s = (Inr f, s') \<longrightarrow>
          length (a_iterations (en_agent s')) = Suc (length (a_iterations (en_agent s))))"
proof (intro conjI allI impI)
  have budget: "int (its s) + int n \<ge> rq_max_iterations rq" using assms by (simp add: its_def)
  show "repair_loop sv rq (n + k) s = repair_loop sv rq n s" by (rule repair_loop_fuel [OF budget])
  show "\<not> loop_goes_on rq s'" if "repair_loop sv rq n s = (Inr (), s')" for s'
    using wpD(1) [OF wp_repair_loop_its [OF budget] that] by blast
  show "length (a_iterations (en_agent s')) = Suc (length (a_iterations (en_agent s)))"
    if "run_iteration sv rq i s = (Inr f, s')" for f s'
    using wpD(1) [OF wp_run_iteration_its that] by (simp add: its_def)
qed

theorem repair_loop_terminates_witness:
  "repair_loop demo_services demo_request (1 + 5) demo_start = repair_loop demo_services demo_request 1 demo_start"
  by (rule repair_loop_terminates [THEN conjunct1]) code_simp

text \<open>
  The number of semantic revisions never exceeds the configured maximum, in the result of a
  round as well as in the state that an exception leaves.
\<close>

theorem revisions_bounded:
  assumes "sound_standing sv False s"
  shows "0 \<le> a_semantic_revisions_used (en_agent (snd (run_iteration sv rq i s)))
    \<and> a_semantic_revisions_used (en_agent (snd (run_iteration sv rq i s))) \<le> max 0 (sv_max_semantic_revisions sv)"
proof -
  obtain r s1 where r: "run_iteration sv rq i s = (r, s1)" by fastforce
  have "used_bounded sv s1"
  proof (cases r)
    case (Inl e)
    with wpD(2) [OF wp_run_iteration_standing [OF assms]] r show ?thesis by blast
  next
    case (Inr f)
    with wpD(1) [OF wp_run_iteration_standing [OF assms]] r show ?thesis by (blast intro: sound_standing_used)
  qed
  then show ?thesis by (simp add: r used_bounded_def)
qed

theorem revisions_bounded_witness:
  "a_semantic_revisions_used (en_agent (snd (run_iteration demo_services demo_request 1 demo_start)))
     \<le> max 0 (sv_max_semantic_revisions demo_services)"
  by (rule revisions_bounded [THEN conjunct2])
    (simp add: sound_standing_def demo_start_def engine_start_fresh)

end
