(* ===== verification/EngineCandidate.thy ===== *)
theory EngineCandidate
  imports EngineLoop
begin

text \<open>
  What a success of the repair engine means: the candidate was accepted by the last review,
  and, in a worktree, the patch that is exported describes a tree on which the tests passed.
\<close>

section \<open>The last review accepts\<close>

definition accepting :: "review_record \<Rightarrow> bool" where
  "accepting r \<longleftrightarrow> re_policy_action r \<in> {DoAccept, DoAcceptWithWarnings}
     \<and> (\<exists>oc. re_parsed_outcome r = Some oc \<and> ro_verdict oc = Accept \<and> blocking_risks oc = [])"

definition last_review_accepts :: "agent_state \<Rightarrow> bool" where
  "last_review_accepts a \<longleftrightarrow> a_reviews a \<noteq> [] \<and> accepting (last (a_reviews a))
     \<and> re_based_on_iteration (last (a_reviews a)) = length (a_iterations a)"

text \<open>A round that ends the run with a success ends it with an accepting review.\<close>

definition reviewed :: "'w services \<Rightarrow> bool \<Rightarrow> 'w engine \<Rightarrow> bool" where
  "reviewed sv f s \<longleftrightarrow> (a_success (en_agent s) \<longrightarrow>
     f \<and> (sv_review_enabled sv \<longrightarrow> last_review_accepts (en_agent s)))"

lemma decision_accepts:
  assumes "dec_action (review_decision_for sv rq plan used ex cues) \<in> {DoAccept, DoAcceptWithWarnings}"
  shows "\<exists>oc. ex_outcome ex = Some oc \<and> ro_verdict oc = Accept \<and> blocking_risks oc = []"
  using assms unfolding review_decision_for_def Let_def
  by (auto simp: decide_action actionable_ids_def split: option.splits if_splits)

lemma wp_review_decides:
  "wp (run_semantic_review sv rq plan after)
     (\<lambda>x s'. its s' = its s \<and> (\<exists>used. snd (snd x) = review_decision_for sv rq plan used (fst x) (fst (snd x))))
     (\<lambda>e s'. True) s"
  by (auto simp: wp_simps run_semantic_review_def candidate_diff_def engine_steps its_def Let_def
      intro!: wp_any split: prod.split sum.split)

lemma wp_decision_reviewed:
  assumes "dec_action d \<in> {DoAccept, DoAcceptWithWarnings} \<Longrightarrow> last_review_accepts (en_agent s)"
  shows "wp (apply_review_decision sv after ex cues d) (reviewed sv) (\<lambda>e s'. True) s"
  using assms
  by (cases "dec_action d"; cases "ex_outcome ex")
    (auto simp: wp_simps apply_review_decision_def engine_steps reviewed_def last_review_accepts_def Let_def
      split: prod.split)

lemma wp_handle_visible_reviewed:
  assumes "ip_iteration plan = Suc (its s)"
  shows "wp (handle_visible_success sv rq plan rec after) (reviewed sv) (\<lambda>e s'. True) s"
  unfolding handle_visible_success_def
proof (subst wp_bind, rule wp_mono [OF wp_visible_its])
  fix c and s1 :: "'a engine" assume s1: "its s1 = Suc (its s)"
  show "wp (if \<not> sv_review_enabled sv then then_io (set_agent (\<lambda>a. a\<lparr>a_acceptance_status := ''disabled''\<rparr>)) (ret True)
      else bind_io (run_semantic_review sv rq plan after)
        (\<lambda>(ex, cues, d). then_io (record_review ex d plan c) (apply_review_decision sv after ex cues d)))
    (reviewed sv) (\<lambda>e s'. True) s1"
  proof (cases "sv_review_enabled sv")
    case False
    then show ?thesis by (simp add: wp_simps set_agent_def reviewed_def)
  next
    case True
    have "wp (bind_io (run_semantic_review sv rq plan after)
        (\<lambda>(ex, cues, d). then_io (record_review ex d plan c) (apply_review_decision sv after ex cues d)))
      (reviewed sv) (\<lambda>e s'. True) s1"
      unfolding wp_bind
    proof (rule wp_mono [OF wp_review_decides])
      fix x :: "review_execution \<times> structural_cue list \<times> review_decision" and s2 :: "'a engine"
      assume s2: "its s2 = its s1
        \<and> (\<exists>used. snd (snd x) = review_decision_for sv rq plan used (fst x) (fst (snd x)))"
      obtain ex cues d where x: "x = (ex, cues, d)" by (cases x) auto
      from s2 obtain used where d: "d = review_decision_for sv rq plan used ex cues" by (auto simp: x)
      have n: "ip_iteration plan = its s2" using s2 assms s1 by simp
      note acc = decision_accepts [of sv rq plan used ex cues, folded d]
      show "wp (case x of (ex, cues, d) \<Rightarrow> then_io (record_review ex d plan c) (apply_review_decision sv after ex cues d))
          (reviewed sv) (\<lambda>e s'. True) s2"
        unfolding x prod.case wp_then record_review_def wp_bind wp_gets set_agent_def wp_modify
        by (rule wp_decision_reviewed) (use n acc in \<open>auto simp: last_review_accepts_def accepting_def its_def\<close>)
    qed simp
    with True show ?thesis by simp
  qed
qed simp

lemma wp_accept_reviewed:
  assumes "ip_iteration plan = Suc (its s)"
  shows "wp (accept_or_retry sv rq plan rec after) (reviewed sv) (\<lambda>e s'. True) s"
proof (cases "a_success (en_agent s)")
  case True
  then show ?thesis using wp_handle_visible_reviewed [OF assms] by (simp add: accept_or_retry_def wp_simps)
next
  case False
  have "wp (then_io (retry_after_test_failure sv plan rec after) (ret False)) (reviewed sv) (\<lambda>e s'. True) s"
    unfolding wp_then
    by (rule wp_mono [OF wp_retry_standing]) (use False in \<open>auto simp: wp_simps reviewed_def standing_def\<close>)
  with False show ?thesis by (simp add: accept_or_retry_def wp_simps)
qed

lemma wp_plan_iteration:
  "wp (plan_and_generate sv rq i)
     (\<lambda>p s'. (case p of None \<Rightarrow> True | Some plan \<Rightarrow> ip_iteration plan = i \<and> its s' = its s) \<and> standing s' = standing s)
     (\<lambda>e s'. True) s"
  by (auto simp: wp_simps plan_and_generate_def handle_model_error_def engine_steps Let_def its_def standing_def
      intro!: wp_any split: sum.split prod.split)

lemma wp_run_iteration_reviewed:
  assumes "\<not> a_success (en_agent s)" and "i = Suc (its s)"
  shows "wp (run_iteration sv rq i) (reviewed sv) (\<lambda>e s'. True) s"
proof -
  have failed: "reviewed sv f s'" if "\<not> fst (standing s')" for f s'
    using that by (simp add: reviewed_def standing_def)
  have quiet: "wp (engine_apply sv plan) (\<lambda>r s'. standing s' = standing s1 \<and> its s' = its s1) (\<lambda>e s'. True) s1"
    for plan and s1 :: "'a engine"
    using wp_conj [OF wp_apply_standing wp_apply_its] by (rule wp_mono) auto
  have apply_failed: "wp (handle_apply_failure sv plan r) (\<lambda>u s'. standing s' = standing s1) (\<lambda>e s'. True) s1"
    for plan r and s1 :: "'a engine"
    using wp_apply_failure_standing by (rule wp_mono) auto
  have verify: "wp (engine_verify sv plan r)
      (\<lambda>v s'. case v of None \<Rightarrow> \<not> fst (standing s') | Some _ \<Rightarrow> its s' = its s1) (\<lambda>e s'. True) s1"
    for plan r and s1 :: "'a engine"
    using wp_conj [OF wp_verify_standing wp_verify_its] by (rule wp_mono) (auto split: option.splits)
  show ?thesis
    unfolding run_iteration_def wp_bind
  proof (rule wp_mono [OF wp_plan_iteration])
    fix p :: "iteration_plan option" and s1 :: "'a engine"
    assume p: "(case p of None \<Rightarrow> True | Some plan \<Rightarrow> ip_iteration plan = i \<and> its s1 = its s) \<and> standing s1 = standing s"
    then have ok: "\<not> fst (standing s1)" using assms by (simp add: standing_def)
    show "wp (case p of None \<Rightarrow> gets (\<lambda>s. rt_finished (en_runtime s))
       | Some plan \<Rightarrow> bind_io (engine_apply sv plan) (\<lambda>r.
           if \<not> ar_success r then then_io (handle_apply_failure sv plan r) (ret False)
           else bind_io (engine_verify sv plan r) (\<lambda>v. case v of None \<Rightarrow> ret True
             | Some (rec, after) \<Rightarrow> accept_or_retry sv rq plan rec after)))
      (reviewed sv) (\<lambda>e s'. True) s1"
      using p assms ok
      by (cases p)
        (auto simp: wp_simps intro!: failed wp_mono [OF quiet] wp_mono [OF apply_failed] wp_mono [OF verify]
          wp_accept_reviewed split: option.splits)
  qed simp
qed

text \<open>The tests passed before any edit, or the last review accepted the candidate.\<close>

definition review_held :: "'w services \<Rightarrow> bool \<Rightarrow> 'w engine \<Rightarrow> bool" where
  "review_held sv f s \<longleftrightarrow> (a_success (en_agent s) \<longrightarrow>
     f \<and> (a_iterations (en_agent s) = [] \<or> (sv_review_enabled sv \<longrightarrow> last_review_accepts (en_agent s))))"

lemma wp_engine_body_reviewed:
  assumes "a_iterations (en_agent s) = []" and "\<not> a_success (en_agent s)"
  shows "wp (engine_body sv rq) (\<lambda>u s'. \<exists>f. review_held sv f s') (\<lambda>e s'. True) s"
proof (rule wp_engine_body_inv)
  show "wp (engine_prepare sv) (review_held sv) (\<lambda>e s'. True) s"
    using assms by (auto simp: wp_simps engine_prepare_def engine_steps review_held_def
      intro!: wp_any split: prod.split)
  fix s assume "review_held sv False s"
  then have "\<not> a_success (en_agent s)" by (simp add: review_held_def)
  from wp_run_iteration_reviewed [OF this refl]
  show "wp (run_iteration sv rq (Suc (its s))) (review_held sv) (\<lambda>e s'. True) s"
    by (rule wp_mono) (auto simp: reviewed_def review_held_def)
qed (auto simp: review_held_def mark_iteration_limit_def)

section \<open>What a round does to the files\<close>

text \<open>
  What is asked of the collaborators of a run in a worktree. A test run leaves the files as
  they are; when it succeeds, \<open>passes\<close> holds of the tree it ran on and its output names no
  failing test. The model and the reviewer do not touch the worktree. Applying a patch,
  showing a diff and writing a file leave the last commit as it is.
\<close>

definition keeps_trees :: "('w, 'tree) git_view \<Rightarrow> 'w \<Rightarrow> 'w \<Rightarrow> bool" where
  "keeps_trees v w w' \<longleftrightarrow> head_tree v w' = head_tree v w \<and> disk_tree v w' = disk_tree v w"

definition quiet_output :: "pystr \<Rightarrow> bool" where
  "quiet_output out \<longleftrightarrow> ps_failed_tests (parse_pytest_summary out) = []"

definition edit_commands :: "pystr list set" where
  "edit_commands = {[''apply'', ''--check'', ''-''], [''apply'', ''-''], [''diff'', ''--'', ''.'']}"

definition lawful_services ::
    "'w services \<Rightarrow> ('w, 'tree) git_view \<Rightarrow> ('tree \<Rightarrow> bool) \<Rightarrow> bool" where
  "lawful_services sv v passes \<longleftrightarrow>
     (\<forall>ws w t w'. sv_run_tests sv ws w = (Inr t, w') \<longrightarrow> keeps_trees v w w'
        \<and> (te_success t \<longrightarrow> passes (disk_tree v w) \<and> quiet_output (te_output t)))
     \<and> (\<forall>w a b. keeps_trees v w (snd (sv_model sv w a b)))
     \<and> (\<forall>w a b. keeps_trees v w (snd (rv_model (sv_reviewer sv) w a b)))
     \<and> (\<forall>w cwd args stdin. args \<in> edit_commands \<longrightarrow>
          head_tree v (snd (git (sv_os sv) w cwd args stdin)) = head_tree v w)
     \<and> (\<forall>w p t. head_tree v (snd (write_text (sv_os sv) w p t)) = head_tree v w)
     \<and> (\<forall>w F. head_tree v (set_files (sv_os sv) F w) = head_tree v w)"

lemma keeps_trees_refl [simp]: "keeps_trees v w w"
  by (simp add: keeps_trees_def)

lemma keeps_trees_trans: "keeps_trees v w w1 \<Longrightarrow> keeps_trees v w1 w2 \<Longrightarrow> keeps_trees v w w2"
  by (simp add: keeps_trees_def)

lemma generate_keeps_trees:
  assumes "\<And>w a b. keeps_trees v w (snd (rv_model rv w a b))"
  shows "keeps_trees v w (snd (snd (generate_with_retry rv n prompt ex w)))"
proof (induction n arbitrary: ex w)
  case 0
  show ?case using assms [of w "rv_system_prompt rv" prompt]
    by (subst generate_with_retry.simps) (auto split: prod.split sum.split)
next
  case (Suc n)
  show ?case using assms [of w "rv_system_prompt rv" prompt] Suc keeps_trees_trans
    by (subst generate_with_retry.simps) (force split: prod.split sum.split)
qed

lemma attempts_keep_trees:
  assumes "\<And>w a b. keeps_trees v w (snd (rv_model rv w a b))"
  shows "keeps_trees v w (snd (review_attempts os rv ws base n prompt ex w))"
proof (induction n arbitrary: prompt ex w)
  case 0
  obtain r ex1 w1 where g: "generate_with_retry rv (nat (max 0 (rv_max_model_retries rv))) prompt ex w = (r, ex1, w1)"
    by (cases "generate_with_retry rv (nat (max 0 (rv_max_model_retries rv))) prompt ex w") auto
  have "keeps_trees v w w1" using generate_keeps_trees [OF assms, where w = w and ex = ex and prompt = prompt] g by (metis snd_conv)
  then show ?case
    by (subst review_attempts.simps) (simp add: g Let_def split: sum.split option.split)
next
  case (Suc n)
  obtain r ex1 w1 where g: "generate_with_retry rv (nat (max 0 (rv_max_model_retries rv))) prompt ex w = (r, ex1, w1)"
    by (cases "generate_with_retry rv (nat (max 0 (rv_max_model_retries rv))) prompt ex w") auto
  have keep: "keeps_trees v w w1" using generate_keeps_trees [OF assms, where w = w and ex = ex and prompt = prompt] g by (metis snd_conv)
  have rest: "keeps_trees v w (snd (review_attempts os rv ws base n p x w1))" for p x
    by (rule keeps_trees_trans [OF keep Suc])
  show ?case
    by (subst review_attempts.simps) (simp add: g keep rest Let_def split: sum.split option.split)
qed

lemma lawful_review:
  assumes "lawful_services sv v passes"
  shows "keeps_trees v w (snd (review os (sv_reviewer sv) prompt ctx ws w))"
  unfolding review_def
  by (rule attempts_keep_trees) (use assms in \<open>simp add: lawful_services_def\<close>)

subsection \<open>The backends\<close>

lemma wp_returns: "returns m P \<Longrightarrow> wp m (\<lambda>x s'. P x) (\<lambda>e s'. True) s"
  by (auto simp: wp_def returns_def split: prod.split sum.split)

lemma wp_total [wp_simps]:
  "wp (\<lambda>w. case f w of (c, w') \<Rightarrow> (Inr c, g w')) Q E w = (case f w of (c, w') \<Rightarrow> Q c (g w'))"
  by (simp add: wp_def split: prod.split)

lemma wp_files [wp_simps]:
  "wp (\<lambda>w. case f w of (a, F) \<Rightarrow> (Inr a, set_files os F w)) Q E w = (case f w of (a, F) \<Rightarrow> Q a (set_files os F w))"
  by (simp add: wp_def split: prod.split)

lemma git_keeps_head:
  assumes "lawful_services sv v passes" and "git (sv_os sv) w ws args stdin = (r, w')" and "args \<in> edit_commands"
  shows "head_tree v w' = head_tree v w"
proof -
  have "head_tree v (snd (git (sv_os sv) w ws args stdin)) = head_tree v w"
    using assms(1,3) by (simp add: lawful_services_def)
  then show ?thesis by (simp add: assms(2))
qed

lemma patch_tools_keep_head:
  assumes "lawful_services sv v passes"
  shows "check_patch (sv_os sv) w ws patch pol t = (c, w') \<Longrightarrow> head_tree v w' = head_tree v w"
    and "apply_patch (sv_os sv) w ws patch pol t = (c, w') \<Longrightarrow> head_tree v w' = head_tree v w"
    and "get_git_diff (sv_os sv) w ws t = (c, w') \<Longrightarrow> head_tree v w' = head_tree v w"
    and "save_patch (sv_os sv) w patch p = (x, w') \<Longrightarrow> head_tree v w' = head_tree v w"
proof -
  show "check_patch (sv_os sv) w ws patch pol t = (c, w') \<Longrightarrow> head_tree v w' = head_tree v w"
    by (auto simp: check_patch_def edit_commands_def dest: git_keeps_head [OF assms] split: sum.splits prod.splits proc.splits)
  show "apply_patch (sv_os sv) w ws patch pol t = (c, w') \<Longrightarrow> head_tree v w' = head_tree v w"
    by (auto simp: apply_patch_def edit_commands_def dest: git_keeps_head [OF assms] split: sum.splits prod.splits proc.splits)
  show "get_git_diff (sv_os sv) w ws t = (c, w') \<Longrightarrow> head_tree v w' = head_tree v w"
    by (auto simp: get_git_diff_def edit_commands_def dest: git_keeps_head [OF assms] split: prod.splits proc.splits)
  have "head_tree v (snd (write_text (sv_os sv) w p x)) = head_tree v w" for x
    using assms by (simp add: lawful_services_def)
  then show "save_patch (sv_os sv) w patch p = (x, w') \<Longrightarrow> head_tree v w' = head_tree v w"
    by (auto simp: save_patch_def split: prod.splits option.splits) (metis snd_conv)+
qed

lemma wp_save_patch:
  assumes "lawful_services sv v passes"
  shows "wp (\<lambda>w. save_patch (sv_os sv) w patch p) (\<lambda>x w'. head_tree v w' = head_tree v w) (\<lambda>e w'. True) w"
  by (auto simp: wp_def dest: patch_tools_keep_head(4) [OF assms] split: prod.split sum.split)

lemma wp_backend_head:
  assumes "lawful_services sv v passes"
  shows "wp (run_backend sv m ws raw p) (\<lambda>r w'. head_tree v w' = head_tree v w) (\<lambda>e w'. True) w"
proof (cases m)
  case PatchMode
  show ?thesis
    unfolding PatchMode run_backend_def repair_mode.case patch_backend_def Let_def wp_then
    by (rule wp_mono [OF wp_save_patch [OF assms]])
      (auto simp: wp_simps intro!: wp_mono [OF wp_save_patch [OF assms]]
        dest!: patch_tools_keep_head(1-3) [OF assms] split: prod.split)
next
  case ReplacementMode
  have store: "head_tree v (set_files (sv_os sv) F w) = head_tree v w" for F w
    using assms by (simp add: lawful_services_def)
  show ?thesis
    unfolding ReplacementMode run_backend_def repair_mode.case replacement_backend_def Let_def
    by (auto simp: wp_simps store intro!: wp_mono [OF wp_save_patch [OF assms]]
        dest!: patch_tools_keep_head(3) [OF assms] split: sum.split prod.split)
qed

text \<open>An empty answer is never applied.\<close>

lemma empty_answer_fails:
  "parse_replacements de [] = Inl (ValueError (''Invalid replacement JSON: '' @ de []))"
  "admit_patch [] pol = Inl ''EMPTY_OUTPUT: patch is empty''"
proof -
  have "extract_json_array (strip_code_fence []) = []" "json_loads [] = None" by code_simp+
  then show "parse_replacements de [] = Inl (ValueError (''Invalid replacement JSON: '' @ de []))"
    by (simp add: parse_replacements_def)
  have "clean_patch_text [] = []"
    "validate_patch_format [] = v_fail ''EMPTY_OUTPUT'' ''patch is empty''" by code_simp+
  then show "admit_patch [] pol = Inl ''EMPTY_OUTPUT: patch is empty''"
    by (simp add: admit_patch_def Let_def v_fail_def str_opt_def)
qed

lemma backend_success:
  assumes "run_backend sv m ws raw p w = (Inr r, w')" and "ar_success r"
  shows "tested_attempt r \<and> raw \<noteq> []"
proof (cases m)
  case PatchMode
  with assms(1) have run: "patch_backend (sv_os sv) (sv_policy sv) ws raw p w = (Inr r, w')"
    by (simp add: run_backend_def)
  have "clean_patch_text [] = []" by code_simp
  then have "returns (patch_backend (sv_os sv) (sv_policy sv) ws [] p) (\<lambda>r. \<not> ar_success r)"
    by (auto simp: patch_backend_def Let_def returns_def bind_io_Inr then_io_def check_patch_def
        empty_answer_fails p_fail_def patch_result_def)
  then show ?thesis using run assms(2) patch_backend.coherent [OF run]
    by (auto simp: coherent_result_def dest: returnsD)
next
  case ReplacementMode
  with assms(1) have run: "replacement_backend (sv_decode_error sv) (sv_os sv) (sv_policy sv) ws raw p w = (Inr r, w')"
    by (simp add: run_backend_def)
  have "returns (replacement_backend (sv_decode_error sv) (sv_os sv) (sv_policy sv) ws [] p) (\<lambda>r. \<not> ar_success r)"
    by (simp add: replacement_backend_def empty_answer_fails returns_def replacement_result0_def patch_result_def)
  then show ?thesis using run assms(2) replacement_backend.coherent [OF run]
    by (auto simp: coherent_result_def dest: returnsD)
qed

lemma wp_backend:
  assumes "lawful_services sv v passes"
  shows "wp (run_backend sv m ws raw p)
    (\<lambda>r w'. head_tree v w' = head_tree v w \<and> (ar_success r \<longrightarrow> tested_attempt r \<and> raw \<noteq> [])) (\<lambda>e w'. True) w"
  using wp_backend_head [OF assms, of m ws raw p w] backend_success [of sv m ws raw p w]
  by (auto simp: wp_def split: prod.splits sum.splits)

subsection \<open>The phases of a round\<close>

text \<open>
  Between the rounds of a run in the worktree of \<open>tx\<close>: once the visible tests have passed, the
  last commit is a tree on which they passed, and unless the run is over its current test
  output names no failing test, so that a later failure counts as a regression.
\<close>

definition candidate :: "('w, 'tree) git_view \<Rightarrow> ('tree \<Rightarrow> bool) \<Rightarrow> transaction \<Rightarrow> bool \<Rightarrow> 'w engine \<Rightarrow> bool" where
  "candidate v passes tx f s \<longleftrightarrow> in_worktree s \<and> se_tx (en_session s) = tx
     \<and> (a_visible_success (en_agent s) \<longrightarrow> passes (head_tree v (en_world s))
          \<and> (f \<or> quiet_output (rt_current_test_output (en_runtime s))))"

lemma candidate_finish: "candidate v passes tx False s \<Longrightarrow> candidate v passes tx f s"
  by (auto simp: candidate_def)

lemma wp_rollback:
  assumes "git_lawful (sv_os sv) tx v" and "se_tx (en_session s) = tx"
  shows "wp (rollback sv) (\<lambda>u s'. \<exists>w. s' = s\<lparr>en_world := w\<rparr> \<and> head_tree v w = head_tree v (en_world s)) (\<lambda>e s'. True) s"
  unfolding rollback_def wp_bind wp_gets wp_on_world using assms
  by (auto simp: wp_def split: prod.split sum.split) (metis worktree.rollback_restores)

lemma wp_checkpoint:
  assumes "git_lawful (sv_os sv) tx v" and "se_tx (en_session s) = tx"
  shows "wp (checkpoint sv n k) (\<lambda>u s'. \<exists>w. s' = s\<lparr>en_world := w\<rparr> \<and> head_tree v w = disk_tree v (en_world s)) (\<lambda>e s'. True) s"
  unfolding checkpoint_def wp_bind wp_gets wp_on_world using assms
  by (auto simp: wp_def split: prod.split sum.split) (metis worktree.checkpoint_commits)

lemma wp_candidate_diff:
  assumes "git_lawful (sv_os sv) tx v" and "se_tx (en_session s) = tx"
  shows "wp (candidate_diff sv) (\<lambda>d s'. \<exists>w. s' = s\<lparr>en_world := w\<rparr> \<and> head_tree v w = head_tree v (en_world s)) (\<lambda>e s'. True) s"
  unfolding candidate_diff_def wp_bind wp_gets wp_on_world using assms
  by (auto simp: wp_def split: prod.split sum.split) (metis worktree.export_reads)

lemma wp_plan_candidate:
  assumes "lawful_services sv v passes" and "candidate v passes tx False s"
  shows "wp (plan_and_generate sv rq i)
     (\<lambda>p s'. candidate v passes tx False s' \<and> (case p of None \<Rightarrow> True | Some plan \<Rightarrow>
        ip_test_summary_before plan = parse_pytest_summary (rt_current_test_output (en_runtime s'))))
     (\<lambda>e s'. True) s"
proof -
  have model: "head_tree v w' = head_tree v w" if "sv_model sv w a b = (r, w')" for w w' a b r
  proof -
    have "keeps_trees v w (snd (sv_model sv w a b))" using assms(1) by (simp add: lawful_services_def)
    then show ?thesis by (simp add: that keeps_trees_def)
  qed
  show ?thesis
    using assms(2)
    by (auto simp: wp_simps plan_and_generate_def handle_model_error_def engine_steps Let_def candidate_def
        dest!: model split: sum.split prod.split)
qed

lemma wp_apply_candidate:
  assumes "lawful_services sv v passes" and "candidate v passes tx False s"
  shows "wp (engine_apply sv plan)
     (\<lambda>r s'. candidate v passes tx False s'
        \<and> rt_current_test_output (en_runtime s') = rt_current_test_output (en_runtime s)
        \<and> (ar_success r \<longrightarrow> tested_attempt r \<and> pr_raw_output (ip_proposal plan) \<noteq> []))
     (\<lambda>e s'. True) s"
  unfolding engine_apply_def wp_simps
  by (rule wp_mono [OF wp_backend [OF assms(1)]])
    (use assms(2) in \<open>auto simp: wp_simps engine_steps candidate_def\<close>)

lemma wp_apply_failure_candidate:
  assumes "git_lawful (sv_os sv) tx v" and "candidate v passes tx False s"
  shows "wp (handle_apply_failure sv plan r) (\<lambda>u s'. candidate v passes tx False s') (\<lambda>e s'. True) s"
proof -
  have tx: "se_tx (en_session s) = tx" using assms(2) by (simp add: candidate_def)
  show ?thesis
    unfolding handle_apply_failure_def
    using assms(2) tx
    by (auto simp: wp_simps engine_steps candidate_def Let_def
        intro!: wp_mono [OF wp_rollback [OF assms(1)]] split: prod.split)
qed

lemma wp_tests:
  assumes "lawful_services sv v passes"
  shows "wp (sv_run_tests sv ws) (\<lambda>t w'. keeps_trees v w w'
     \<and> (te_success t \<longrightarrow> passes (disk_tree v w) \<and> quiet_output (te_output t))) (\<lambda>e w'. True) w"
  using assms by (auto simp: wp_def lawful_services_def split: prod.split sum.split)

lemma wp_verify_candidate:
  assumes "lawful_services sv v passes" and "git_lawful (sv_os sv) tx v" and "candidate v passes tx False s"
  shows "wp (engine_verify sv plan r)
     (\<lambda>x s'. case x of None \<Rightarrow> candidate v passes tx True s'
        | Some (rec, after) \<Rightarrow> candidate v passes tx False s' \<and> a_success (en_agent s') = te_success after
            \<and> (te_success after \<longrightarrow> passes (disk_tree v (en_world s')) \<and> quiet_output (te_output after))
            \<and> rt_current_test_output (en_runtime s') = rt_current_test_output (en_runtime s)
            \<and> rec = apply_record (ip_iteration plan) (ip_proposal plan) r (ip_context plan)
                (ip_test_summary_before plan) (Some (te_exit_code after)) (te_output after) (te_success after))
     (\<lambda>e s'. True) s"
proof -
  have tx: "se_tx (en_session s) = tx" using assms(3) by (simp add: candidate_def)
  show ?thesis
    unfolding engine_verify_def
    using assms(3) tx
    by (auto simp: wp_simps engine_steps candidate_def Let_def keeps_trees_def
        intro!: wp_mono [OF wp_tests [OF assms(1)]] wp_mono [OF wp_rollback [OF assms(2)]] split: prod.split)
qed

text \<open>
  Tests that fail after they had passed make the round a regression, no progress, or a
  timeout, and each of them is rolled back.
\<close>

lemma failure_after_success_rolls_back:
  assumes "tested_attempt r" and "pr_raw_output p \<noteq> []" and "rc \<noteq> 0" and "ps_failed_tests b = []"
    and "rec = apply_record n p r ctx b (Some rc) out False"
  shows "rd_rollback (after_test_failure rp (or_text (ir_failure_type (it_iteration_result rec)) ''unknown''))"
  using tested_record_type [OF assms(1-3), of n ctx b out] assms(4,5)
  by (auto simp: apply_record_def after_test_failure_def Let_def or_text_def failed_of_def split: if_splits)

lemma wp_retry_candidate:
  assumes "git_lawful (sv_os sv) tx v" and "candidate v passes tx False s"
    and "a_visible_success (en_agent s) \<Longrightarrow>
      (\<forall>rp. rd_rollback (after_test_failure rp (or_text (ir_failure_type (it_iteration_result rec)) ''unknown'')))"
  shows "wp (retry_after_test_failure sv plan rec after) (\<lambda>u s'. candidate v passes tx False s') (\<lambda>e s'. True) s"
proof -
  have tx: "se_tx (en_session s) = tx" "in_worktree s" using assms(2) by (simp_all add: candidate_def)
  show ?thesis
    unfolding retry_after_test_failure_def
    using assms(2,3) tx
    by (auto simp: wp_simps engine_steps candidate_def Let_def
        intro!: wp_mono [OF wp_rollback [OF assms(1)]] wp_mono [OF wp_checkpoint [OF assms(1)]] split: prod.split)
qed

lemma wp_visible_candidate:
  assumes "git_lawful (sv_os sv) tx v" and "candidate v passes tx False s" and "passes (disk_tree v (en_world s))"
  shows "wp (checkpoint_visible_candidate sv plan rec) (\<lambda>c s'. candidate v passes tx True s') (\<lambda>e s'. True) s"
proof -
  have tx: "se_tx (en_session s) = tx" "in_worktree s" using assms(2) by (simp_all add: candidate_def)
  show ?thesis
    unfolding checkpoint_visible_candidate_def
    using assms(3) tx
    by (auto simp: wp_simps engine_steps candidate_def Let_def
        intro!: wp_mono [OF wp_checkpoint [OF assms(1)]] split: prod.split)
qed

lemma wp_review_candidate:
  assumes "lawful_services sv v passes" and "git_lawful (sv_os sv) tx v" and "candidate v passes tx True s"
  shows "wp (run_semantic_review sv rq plan after) (\<lambda>x s'. candidate v passes tx True s') (\<lambda>e s'. True) s"
proof -
  have tx: "se_tx (en_session s) = tx" "in_worktree s" using assms(3) by (simp_all add: candidate_def)
  have rev: "head_tree v w' = head_tree v w" if "review os (sv_reviewer sv) p c ws w = (ex, w')" for os p c ws w ex w'
    using lawful_review [OF assms(1), where w = w and os = os and prompt = p and ctx = c and ws = ws] that
    by (simp add: keeps_trees_def)
  show ?thesis
    unfolding run_semantic_review_def
    using assms(3) tx
    by (auto simp: wp_simps engine_steps candidate_def Let_def
        intro!: wp_mono [OF wp_candidate_diff [OF assms(2)]] dest!: rev split: prod.split sum.split)
qed

lemma wp_decision_candidate:
  assumes "candidate v passes tx True s" and "quiet_output (te_output after)"
  shows "wp (apply_review_decision sv after ex cues d) (\<lambda>f s'. candidate v passes tx f s') (\<lambda>e s'. True) s"
  using assms
  by (cases "dec_action d"; cases "ex_outcome ex")
    (auto simp: wp_simps apply_review_decision_def engine_steps candidate_def Let_def split: prod.split)

lemma wp_record_candidate:
  "candidate v passes tx f s \<Longrightarrow> wp (record_review ex d plan c) (\<lambda>u s'. candidate v passes tx f s') (\<lambda>e s'. True) s"
  by (simp add: record_review_def wp_simps set_agent_def candidate_def)

lemma candidate_status:
  "candidate v passes tx f (s\<lparr>en_agent := (en_agent s)\<lparr>a_acceptance_status := x\<rparr>\<rparr>) = candidate v passes tx f s"
  by (simp add: candidate_def)

lemma wp_accept_candidate:
  assumes "lawful_services sv v passes" and "git_lawful (sv_os sv) tx v" and "candidate v passes tx False s"
    and "a_success (en_agent s) \<Longrightarrow> passes (disk_tree v (en_world s)) \<and> quiet_output (te_output after)"
    and "\<not> a_success (en_agent s) \<Longrightarrow> a_visible_success (en_agent s) \<Longrightarrow>
      (\<forall>rp. rd_rollback (after_test_failure rp (or_text (ir_failure_type (it_iteration_result rec)) ''unknown'')))"
  shows "wp (accept_or_retry sv rq plan rec after) (\<lambda>f s'. candidate v passes tx f s') (\<lambda>e s'. True) s"
proof (cases "a_success (en_agent s)")
  case True
  note passed = assms(4) [OF True]
  have "wp (handle_visible_success sv rq plan rec after) (\<lambda>f s'. candidate v passes tx f s') (\<lambda>e s'. True) s"
    unfolding handle_visible_success_def wp_bind
    by (rule wp_mono [OF wp_visible_candidate [OF assms(2,3) conjunct1 [OF passed]]])
      (auto simp: wp_simps set_agent_def candidate_status
        intro!: wp_mono [OF wp_review_candidate [OF assms(1,2)]] wp_mono [OF wp_record_candidate]
          wp_decision_candidate conjunct2 [OF passed] split: prod.split)
  with True show ?thesis by (simp add: accept_or_retry_def wp_simps)
next
  case False
  have "wp (then_io (retry_after_test_failure sv plan rec after) (ret False))
      (\<lambda>f s'. candidate v passes tx f s') (\<lambda>e s'. True) s"
    unfolding wp_then
    by (rule wp_mono [OF wp_retry_candidate [OF assms(2,3)]]) (use False assms(5) in \<open>auto simp: wp_simps\<close>)
  with False show ?thesis by (simp add: accept_or_retry_def wp_simps)
qed

section \<open>The whole run\<close>

lemma wp_run_iteration_candidate:
  assumes "lawful_services sv v passes" and "git_lawful (sv_os sv) tx v" and "candidate v passes tx False s"
  shows "wp (run_iteration sv rq i) (candidate v passes tx) (\<lambda>e s'. True) s"
  unfolding run_iteration_def wp_bind
proof (rule wp_mono [OF wp_plan_candidate [OF assms(1,3)]])
  fix p :: "iteration_plan option" and s1 :: "'a engine"
  assume p: "candidate v passes tx False s1 \<and> (case p of None \<Rightarrow> True | Some plan \<Rightarrow>
      ip_test_summary_before plan = parse_pytest_summary (rt_current_test_output (en_runtime s1)))"
  show "wp (case p of None \<Rightarrow> gets (\<lambda>s. rt_finished (en_runtime s))
     | Some plan \<Rightarrow> bind_io (engine_apply sv plan) (\<lambda>r.
         if \<not> ar_success r then then_io (handle_apply_failure sv plan r) (ret False)
         else bind_io (engine_verify sv plan r) (\<lambda>v. case v of None \<Rightarrow> ret True
           | Some (rec, after) \<Rightarrow> accept_or_retry sv rq plan rec after)))
    (candidate v passes tx) (\<lambda>e s'. True) s1"
  proof (cases p)
    case None
    then show ?thesis using p by (auto simp: wp_simps intro: candidate_finish)
  next
    case (Some plan)
    have before: "ps_failed_tests (ip_test_summary_before plan) = []"
      if "a_visible_success (en_agent s')" "rt_current_test_output (en_runtime s') = rt_current_test_output (en_runtime s1)"
        "candidate v passes tx False s'" for s'
      using p that by (simp add: Some candidate_def quiet_output_def)
    have verify: "wp (bind_io (engine_verify sv plan r) (\<lambda>x. case x of None \<Rightarrow> ret True
           | Some (rec, after) \<Rightarrow> accept_or_retry sv rq plan rec after)) (candidate v passes tx) (\<lambda>e s'. True) s2"
      if r: "candidate v passes tx False s2" "tested_attempt r" "pr_raw_output (ip_proposal plan) \<noteq> []"
        "rt_current_test_output (en_runtime s2) = rt_current_test_output (en_runtime s1)" for r s2
      unfolding wp_bind
      by (rule wp_mono [OF wp_verify_candidate [OF assms(1,2) r(1)]])
        (auto simp: wp_ret te_success_def r(4) split: option.splits prod.split
          intro!: wp_accept_candidate [OF assms(1,2)] failure_after_success_rolls_back [OF r(2,3) _ before])
    show ?thesis
      unfolding Some option.case wp_bind
      by (rule wp_mono [OF wp_apply_candidate [OF assms(1) conjunct1 [OF p]]])
        (auto simp: wp_simps(1-4) wp_then candidate_finish intro!: verify wp_mono [OF wp_apply_failure_candidate [OF assms(2)]])
  qed
qed simp

lemma wp_prepare_candidate:
  assumes "lawful_services sv v passes" and "prepare (sv_os sv) (en_world s, en_session s) = (Inr p, (w1, se1))"
    and "pw_strategy p = worktree_strategy" and "disk_tree v w1 = head_tree v w1"
    and "\<not> a_visible_success (en_agent s)"
  shows "wp (engine_prepare sv) (candidate v passes (se_tx se1)) (\<lambda>e s'. True) s"
proof -
  have run: "on_session (prepare (sv_os sv)) s = (Inr p, s\<lparr>en_world := w1, en_session := se1\<rparr>)"
    using assms(2) by (simp add: on_session_def)
  have prep: "wp (on_session (prepare (sv_os sv))) Q E s = Q p (s\<lparr>en_world := w1, en_session := se1\<rparr>)" for Q E
    using run by (simp add: wp_def)
  show ?thesis
    unfolding engine_prepare_def wp_bind prep
    using assms(3-5)
    by (auto simp: wp_simps engine_steps candidate_def keeps_trees_def intro!: wp_mono [OF wp_tests [OF assms(1)]])
qed

lemma wp_engine_body_candidate:
  assumes "lawful_services sv v passes" and "git_lawful (sv_os sv) (se_tx se1) v"
    and "prepare (sv_os sv) (en_world s, en_session s) = (Inr p, (w1, se1))"
    and "pw_strategy p = worktree_strategy" and "disk_tree v w1 = head_tree v w1"
    and "\<not> a_visible_success (en_agent s)"
  shows "wp (engine_body sv rq) (\<lambda>u s'. \<exists>f. candidate v passes (se_tx se1) f s') (\<lambda>e s'. True) s"
proof (rule wp_engine_body_inv)
  show "wp (engine_prepare sv) (candidate v passes (se_tx se1)) (\<lambda>e s'. True) s"
    by (rule wp_prepare_candidate [OF assms(1,3-6)])
  fix s assume "candidate v passes (se_tx se1) False s"
  then show "wp (run_iteration sv rq (Suc (its s))) (candidate v passes (se_tx se1)) (\<lambda>e s'. True) s"
    by (rule wp_run_iteration_candidate [OF assms(1,2)])
qed (auto simp: candidate_def mark_iteration_limit_def)

text \<open>The candidate in the result is the export of the last commit.\<close>

lemma wp_to_result_candidate:
  assumes "git_lawful (sv_os sv) tx v" and "candidate v passes tx f s" and "a_visible_success (en_agent s)"
  shows "wp (to_result sv) (\<lambda>res s'. a_candidate_patch (res_state res) = exported tx v (head_tree v (en_world s)))
     (\<lambda>e s'. True) s"
proof -
  have tx: "se_tx (en_session s) = tx" using assms(2) by (simp add: candidate_def)
  have active: "\<exists>y. tx_active tx = Some y" using assms(1) by (auto simp: git_lawful_def)
  have "wp (export_final_patch (sv_os sv) (en_session s))
      (\<lambda>x w'. fst x = exported tx v (head_tree v (en_world s))) (\<lambda>e s'. True) (en_world s)"
    unfolding export_final_patch_def wp_bind
    by (auto simp: wp_def tx ret_def Let_def dest!: worktree.export_reads [OF assms(1)]
        split: prod.split sum.split option.split)
  then show ?thesis
    unfolding to_result_def wp_bind wp_gets wp_then wp_when wp_on_world using assms(3) active tx
    by (auto simp: wp_simps set_agent_def result_of_def Let_def elim!: wp_mono split: prod.split option.split)
qed

section \<open>Properties\<close>

lemma engine_run_reviewed:
  assumes "engine_run sv rq (engine_start sv rq se rp cx w) = (Inr res, s')"
    and "a_success (res_state res)" and "sv_review_enabled sv" and "a_iterations (res_state res) \<noteq> []"
  shows "last_review_accepts (res_state res)"
proof -
  obtain s1 s2 where body: "engine_body sv rq (engine_start sv rq se rp cx w) = (Inr (), s1)"
    and t: "to_result sv s1 = (Inr res, s2)" and ok: "a_success (en_agent s1)"
    by (rule engine_run_success [OF assms(1,2)])
  have "\<not> a_success (en_agent (engine_start sv rq se rp cx w))" by (simp add: engine_start_def agent_init_def)
  from wpD(1) [OF wp_engine_body_reviewed [OF engine_start_fresh(1) this] body] ok
  have "a_iterations (en_agent s1) = [] \<or> last_review_accepts (en_agent s1)"
    using assms(3) by (auto simp: review_held_def)
  with wpD(1) [OF wp_to_result t] assms(4) show ?thesis by (simp add: last_review_accepts_def)
qed

text \<open>
  C4 When a run that starts from failing tests succeeds with semantic review enabled, the last
  review it recorded examined the last iteration, and it accepted: its parsed outcome has the
  verdict accept and no blocking risk.
\<close>

theorem success_was_reviewed:
  assumes "engine_run sv rq (engine_start sv rq se rp cx w) = (Inr res, s')"
    and "a_success (res_state res)" and "sv_review_enabled sv" and "a_iterations (res_state res) \<noteq> []"
  shows "last_review_accepts (res_state res)"
  by (rule engine_run_reviewed [OF assms])

text \<open>The demonstration with a reviewer that accepts with a warning.\<close>

definition demo_reviewing :: "demo_world services" where
  "demo_reviewing = demo_services\<lparr>sv_review_enabled := True,
     sv_reviewer := (sv_reviewer demo_services)\<lparr>rv_model := \<lambda>w a b. (Inr (demo_review_text, JNull), w)\<rparr>\<rparr>"

lemma demo_review_run:
  "map_sum id (\<lambda>r. (a_success (res_state r), length (a_iterations (res_state r)), a_acceptance_status (res_state r)))
     (fst (engine_run demo_reviewing demo_request demo_start)) = Inr (True, 1, ''accepted_with_warnings'')"
  by code_simp

theorem success_was_reviewed_witness:
  "\<exists>res. fst (engine_run demo_reviewing demo_request demo_start) = Inr res \<and> last_review_accepts (res_state res)"
proof -
  let ?R = "engine_run demo_reviewing demo_request demo_start"
  obtain res where res: "fst ?R = Inr res" "a_success (res_state res)" "length (a_iterations (res_state res)) = 1"
    using demo_review_run by (cases "fst ?R") auto
  have r: "?R = (Inr res, snd ?R)" using res(1) by (cases ?R) auto
  have start: "demo_start = engine_start demo_reviewing demo_request demo_session (retry_start PatchMode)
      (context_policy_init 2) demo_fresh"
    by (simp add: demo_start_def engine_start_def)
  have "sv_review_enabled demo_reviewing" by (simp add: demo_reviewing_def)
  from success_was_reviewed [OF r [unfolded start] res(2) this] res(1,3) show ?thesis by force
qed


text \<open>The run of the demonstration, in its fresh worktree.\<close>

lemma demo_lawful_services: "lawful_services demo_services demo_view (\<lambda>t. t = ''good'')"
proof -
  have quiet: "quiet_output ''ok''" unfolding quiet_output_def by code_simp
  show ?thesis
    unfolding lawful_services_def
    by (auto simp: demo_services_def demo_run_def demo_tests_def demo_view_def keeps_trees_def te_success_def quiet
        edit_commands_def edit_git_def demo_git_def demo_os_def commit_args_def split: if_splits)
qed

lemma demo_services_lawful: "git_lawful (sv_os demo_services) demo_tx demo_view"
proof -
  have git: "run_git (sv_os demo_services) cwd args w = (Inr (rc, out, err), w')
      \<longleftrightarrow> edit_git w cwd args [] = (Completed rc out err, w')" for cwd args w rc out err w'
    by (auto simp: run_git_def demo_services_def demo_git_def edit_git_def)
  show ?thesis
    unfolding git_lawful_def Let_def
    by (rule exI [of _ "the (tx_active demo_tx)"])
      (simp add: git, simp add: edit_git_def demo_git_def demo_tx_def demo_view_def same_trees_def commit_args_def; auto)
qed

lemma demo_prepared:
  obtains p w1 se1 where "prepare (sv_os demo_services) (demo_fresh, demo_session) = (Inr p, (w1, se1))"
    and "pw_strategy p = worktree_strategy" and "se_tx se1 = demo_tx" and "d_disk w1 = d_head w1"
proof -
  let ?R = "prepare (sv_os demo_services) (demo_fresh, demo_session)"
  have "\<not> isl (fst ?R)" "pw_strategy (projr (fst ?R)) = worktree_strategy" "se_tx (snd (snd ?R)) = demo_tx"
    "d_disk (fst (snd ?R)) = d_head (fst (snd ?R))" by code_simp+
  then show ?thesis by (intro that [of "projr (fst ?R)" "fst (snd ?R)" "snd (snd ?R)"]) (cases ?R; cases "fst ?R"; auto)+
qed


end
