(* ===== verification/PyAst.thy ===== *)
theory PyAst
  imports Prelude
begin

text \<open>
  Python syntax trees as the \<open>ast\<close> module gives them, reduced to what the program reads: the
  definitions and imports with their names and lines, and the tree of nodes. Parsing itself
  (\<open>ast.parse\<close>) is a parameter wherever it is used.
\<close>

type_synonym import_alias = "pystr \<times> pystr option"

datatype ast_kind =
    FunctionDef pystr
  | ClassDef pystr
  | Import "import_alias list"
  | ImportFrom "pystr option" "import_alias list" nat
  | OtherNode

text \<open>
  A node with its first and last line, its statements \<open>body\<close> and the child nodes before and
  after them in the order of its fields.
\<close>

datatype ast = Ast (a_kind: ast_kind) (a_line: "int option") (a_end: "int option")
  (a_before: "ast list") (a_body: "ast list") (a_after: "ast list")

definition ast_children :: "ast \<Rightarrow> ast list" where
  "ast_children n = a_before n @ a_body n @ a_after n"

lemma ast_children_size: "(\<Sum>c\<leftarrow>ast_children n. Suc (size c)) \<le> size n"
proof -
  have "(\<Sum>c\<leftarrow>cs. Suc (size c)) = size_list size cs" for cs :: "ast list" by (induction cs) auto
  then show ?thesis by (cases n) (simp add: ast_children_def)
qed

text \<open>\<open>ast.walk\<close>: breadth first.\<close>

function ast_walk :: "ast list \<Rightarrow> ast list" where
  "ast_walk [] = []"
| "ast_walk (n # todo) = n # ast_walk (todo @ ast_children n)"
  by pat_completeness auto
termination
proof (relation "measure (\<lambda>q. \<Sum>n\<leftarrow>q. Suc (size n))")
  fix n todo
  show "(todo @ ast_children n, n # todo) \<in> measure (\<lambda>q. \<Sum>n\<leftarrow>q. Suc (size n))"
    using ast_children_size [of n] by simp
qed simp

end
