(* ===== verification/ContextSelection.thy ===== *)
theory ContextSelection
  imports SourceFiles PyAst PytestSummary RetryPolicy PyJson
begin

text \<open>
  \<open>context/selector.py\<close> and \<open>context/builder.py\<close>: from the summary of a failed test run to the
  source snippets of the prompt. \<open>ast.parse\<close> is the parameter \<open>parse\<close>, which gives
  \<^const>\<open>None\<close> for a \<open>SyntaxError\<close>.
\<close>

section \<open>Snippets\<close>

record snippet =
  ss_path :: pystr
  ss_reason :: pystr
  ss_start_line :: int
  ss_end_line :: int
  ss_content :: pystr
  ss_score :: "int option"
  ss_graph_distance :: "int option"
  ss_symbol :: "pystr option"

record selected_context =
  sc_strategy :: pystr
  sc_snippets :: "snippet list"
  sc_fallback_used :: bool
  sc_prompt_chars :: "int option"
  sc_repository :: "(pystr \<times> json) list option"

definition plain_snippet :: "pystr \<Rightarrow> pystr \<Rightarrow> int \<times> int \<times> pystr \<Rightarrow> snippet" where
  "plain_snippet path reason window = (case window of (first, final, content) \<Rightarrow>
     \<lparr>ss_path = path, ss_reason = reason, ss_start_line = first, ss_end_line = final, ss_content = content,
      ss_score = None, ss_graph_distance = None, ss_symbol = None\<rparr>)"

definition selection :: "pystr \<Rightarrow> snippet list \<Rightarrow> bool \<Rightarrow> selected_context" where
  "selection strategy snippets fallback = \<lparr>sc_strategy = strategy, sc_snippets = snippets,
     sc_fallback_used = fallback, sc_prompt_chars = None, sc_repository = None\<rparr>"

section \<open>Candidates\<close>

text \<open>The ordered dictionary of candidates: the reason and the lines of a path.\<close>

type_synonym candidates = "(pystr \<times> (pystr \<times> int list)) list"

definition add_lines :: "int list \<Rightarrow> int list \<Rightarrow> int list" where
  "add_lines current new = dedupe_onto current new"

definition add_candidate :: "pystr \<Rightarrow> pystr \<Rightarrow> int list \<Rightarrow> candidates \<Rightarrow> candidates" where
  "add_candidate path reason line_numbers d =
     (case dict_get d path of
        None \<Rightarrow> dict_set path (reason, add_lines [] line_numbers) d
      | Some (r, current) \<Rightarrow> dict_set path (r, add_lines current line_numbers) d)"

definition frame_lines :: "source_tree \<Rightarrow> bool \<Rightarrow> trace_frame list \<Rightarrow> (pystr \<times> int list) list" where
  "frame_lines t include_tests frames = fold (\<lambda>f d.
     case resolve_python_path t (tf_path f) include_tests of
       None \<Rightarrow> d
     | Some relative \<Rightarrow>
         (let key = as_posix relative; seen = (case dict_get d key of None \<Rightarrow> [] | Some ls \<Rightarrow> ls) in
          dict_set key (seen @ [tf_line f]) d)) frames []"

text \<open>\<open>node.split("::", 1)[0]\<close>.\<close>

definition test_file_of :: "pystr \<Rightarrow> pystr" where
  "test_file_of node = (case find_sub node ''::'' of None \<Rightarrow> node | Some i \<Rightarrow> take i node)"

definition add_failing_tests ::
    "source_tree \<Rightarrow> bool \<Rightarrow> (pystr \<times> int list) list \<Rightarrow> pystr list \<Rightarrow> candidates \<Rightarrow> candidates" where
  "add_failing_tests t include_tests by_path nodes = fold (\<lambda>node d.
     case resolve_python_path t (test_file_of node) include_tests of
       None \<Rightarrow> d
     | Some relative \<Rightarrow>
         (let key = as_posix relative; ls = (case dict_get by_path key of None \<Rightarrow> [] | Some ls \<Rightarrow> ls) in
          add_candidate key ''failing_test_file'' ls d)) nodes"

definition add_frames :: "source_tree \<Rightarrow> bool \<Rightarrow> trace_frame list \<Rightarrow> candidates \<Rightarrow> candidates" where
  "add_frames t include_tests frames = fold (\<lambda>f d.
     case resolve_python_path t (tf_path f) include_tests of
       None \<Rightarrow> d
     | Some relative \<Rightarrow> add_candidate (as_posix relative) ''traceback_source_file'' [tf_line f] d) frames"

definition imported_modules :: "ast \<Rightarrow> pystr list" where
  "imported_modules tree = concat (map (\<lambda>node. case a_kind node of
       Import names \<Rightarrow> map fst names
     | ImportFrom (Some module) names level \<Rightarrow>
         (if level = 0 \<and> module \<noteq> [] then module # map (\<lambda>a. module @ ''.'' @ fst a) names else [])
     | _ \<Rightarrow> []) (ast_walk [tree]))"

definition infer_imported_modules ::
    "(pystr \<Rightarrow> ast option) \<Rightarrow> source_tree \<Rightarrow> path \<Rightarrow> bool \<Rightarrow> exn + path list" where
  "infer_imported_modules parse t test_relative include_tests =
     (case read_source t test_relative of
        Inl (OSError m) \<Rightarrow> Inr []
      | Inl e \<Rightarrow> Inl e
      | Inr text \<Rightarrow>
          (case parse text of
             None \<Rightarrow> Inr []
           | Some tree \<Rightarrow>
               (let raw_paths = concat (map (\<lambda>module.
                      let module_path = replace_char (CHR ''.'') (CHR ''/'') module in
                      [module_path @ ''.py'', module_path @ ''/__init__.py'']) (imported_modules tree));
                    resolved = List.map_filter (\<lambda>raw. resolve_python_path t raw include_tests) raw_paths
                in Inr (dedupe (filter (\<lambda>relative. relative \<noteq> test_relative) resolved)))))"

fun add_test_imports ::
    "(pystr \<Rightarrow> ast option) \<Rightarrow> source_tree \<Rightarrow> bool \<Rightarrow> pystr list \<Rightarrow> candidates \<Rightarrow> exn + candidates" where
  "add_test_imports parse t include_tests [] d = Inr d"
| "add_test_imports parse t include_tests (node # nodes) d =
     (case resolve_python_path t (test_file_of node) include_tests of
        None \<Rightarrow> add_test_imports parse t include_tests nodes d
      | Some relative \<Rightarrow>
          (case infer_imported_modules parse t relative include_tests of
             Inl e \<Rightarrow> Inl e
           | Inr inferred \<Rightarrow> add_test_imports parse t include_tests nodes
               (fold (\<lambda>r. add_candidate (as_posix r) ''direct_test_import'' []) inferred d)))"

definition traceback_candidates ::
    "(pystr \<Rightarrow> ast option) \<Rightarrow> source_tree \<Rightarrow> bool \<Rightarrow> pytest_failure_summary \<Rightarrow> exn + candidates" where
  "traceback_candidates parse t include_tests summary =
     add_test_imports parse t include_tests (fs_failed_tests summary)
       (add_frames t include_tests (fs_frames summary)
         (add_failing_tests t include_tests (frame_lines t include_tests (fs_frames summary))
           (fs_failed_tests summary) []))"

section \<open>Selection\<close>

text \<open>A candidate that cannot be read is passed over; one that is not UTF-8 ends the selection.\<close>

fun build_snippets :: "source_tree \<Rightarrow> int \<Rightarrow> int \<Rightarrow> candidates \<Rightarrow> snippet list \<Rightarrow> exn + snippet list" where
  "build_snippets t line_window file_limit [] snippets = Inr snippets"
| "build_snippets t line_window file_limit ((path, reason, ls) # rest) snippets =
     (if file_limit \<le> int (length snippets) then Inr snippets
      else case read_code_window t (path_names path) ls line_window of
        Inl (OSError m) \<Rightarrow> build_snippets t line_window file_limit rest snippets
      | Inl e \<Rightarrow> Inl e
      | Inr window \<Rightarrow>
          build_snippets t line_window file_limit rest (snippets @ [plain_snippet path reason window]))"

fun full_snippets :: "source_tree \<Rightarrow> path list \<Rightarrow> exn + snippet list" where
  "full_snippets t [] = Inr []"
| "full_snippets t (relative # rest) =
     (case read_code_window t relative [] 0 of
        Inl e \<Rightarrow> Inl e
      | Inr window \<Rightarrow>
          (case full_snippets t rest of
             Inl e \<Rightarrow> Inl e
           | Inr others \<Rightarrow> Inr (plain_snippet (as_posix relative) ''fallback_full_context'' window # others)))"

definition select_full_context :: "source_tree \<Rightarrow> bool \<Rightarrow> exn + selected_context" where
  "select_full_context t include_tests =
     map_sum id (\<lambda>snippets. selection ''full'' snippets False) (full_snippets t (iter_python_files t include_tests))"

definition select_context ::
    "(pystr \<Rightarrow> ast option) \<Rightarrow> pytest_failure_summary \<Rightarrow> source_tree \<Rightarrow> pystr \<Rightarrow> int \<Rightarrow> int \<Rightarrow> bool \<Rightarrow> bool
     \<Rightarrow> exn + selected_context" where
  "select_context parse summary t strategy line_window file_limit fallback_to_full include_tests =
     (if strategy \<notin> {''full'', ''traceback''}
      then Inl (ValueError (''context strategy must be 'full' or 'traceback'' @ [CHR 0x27]))
      else if strategy = ''full'' then select_full_context t include_tests
      else case traceback_candidates parse t include_tests summary of
        Inl e \<Rightarrow> Inl e
      | Inr candidates \<Rightarrow>
          (case build_snippets t line_window file_limit candidates [] of
             Inl e \<Rightarrow> Inl e
           | Inr snippets \<Rightarrow>
               (if snippets \<noteq> [] then Inr (selection ''traceback'' snippets False)
                else if fallback_to_full
                then map_sum id (\<lambda>c. c\<lparr>sc_strategy := ''traceback'', sc_fallback_used := True\<rparr>)
                  (select_full_context t include_tests)
                else Inr (selection ''traceback'' [] False))))"

section \<open>Rendering\<close>

definition line_range :: "snippet \<Rightarrow> pystr" where
  "line_range s = str_int (ss_start_line s) @ ''-'' @ str_int (ss_end_line s)"

definition render_selected_context :: "selected_context \<Rightarrow> pystr" where
  "render_selected_context c =
     (let selected_files = joinlines (map (\<lambda>(i, s). str_nat i @ ''. '' @ ss_path s @ [nl] @ ''   reason: '' @ ss_reason s
            @ [nl] @ ''   lines: '' @ line_range s) (List.enumerate 1 (sc_snippets c)));
          code_snippets = join [nl, nl] (map (\<lambda>s. ''--- '' @ ss_path s @ '':'' @ line_range s @ '' ---'' @ [nl] @ ss_content s)
            (sc_snippets c))
      in ''Selected context strategy:'' @ [nl] @ sc_strategy c @ [nl, nl]
         @ ''Context fallback used:'' @ [nl] @ (if sc_fallback_used c then ''true'' else ''false'') @ [nl, nl]
         @ ''Selected files:'' @ [nl] @ or_text selected_files ''(none)'' @ [nl, nl]
         @ ''Code snippets:'' @ [nl] @ or_text code_snippets ''(no Python snippets selected)'')"

definition json_int_opt :: "int option \<Rightarrow> json" where
  "json_int_opt x = (case x of None \<Rightarrow> JNull | Some n \<Rightarrow> JInt n)"

text \<open>The score is a float with an integral value.\<close>

definition snippet_metadata :: "bool \<Rightarrow> snippet \<Rightarrow> json" where
  "snippet_metadata dependency_analysis s = JObj (
     [(''path'', JStr (ss_path s)), (''reason'', JStr (ss_reason s)), (''selection_rule'', JStr (ss_reason s)),
      (''dependency_analysis'', JBool dependency_analysis),
      (''line_range'', JArr [JInt (ss_start_line s), JInt (ss_end_line s)])]
     @ (case ss_score s of None \<Rightarrow> [] | Some n \<Rightarrow> [(''score'', JFloat (str_int n @ ''.0''))])
     @ (case ss_graph_distance s of None \<Rightarrow> [] | Some n \<Rightarrow> [(''graph_distance'', JInt n)])
     @ (if truthy (ss_symbol s) then [(''symbol'', JStr (the (ss_symbol s)))] else []))"

definition repository_value :: "(pystr \<times> json) list \<Rightarrow> pystr \<Rightarrow> json" where
  "repository_value d key = (case dict_get d key of None \<Rightarrow> JNull | Some v \<Rightarrow> v)"

definition context_trace_metadata :: "selected_context \<Rightarrow> (pystr \<times> json) list" where
  "context_trace_metadata c =
     (let dependency_analysis = (case sc_repository c of None \<Rightarrow> False | Some d \<Rightarrow> d \<noteq> []);
          repository = (case sc_repository c of None \<Rightarrow> [] | Some d \<Rightarrow> d);
          stats = [(''selected_file_count'', JInt (int (card (set (map ss_path (sc_snippets c)))))),
            (''selected_snippet_count'', JInt (int (length (sc_snippets c)))),
            (''selected_context_chars'', JInt (int (\<Sum>s\<leftarrow>sc_snippets c. length (ss_content s)))),
            (''pytest_output_chars'', JNull), (''prompt_chars'', json_int_opt (sc_prompt_chars c)),
            (''fallback_used'', JBool (sc_fallback_used c))]
            @ (if dependency_analysis
               then [(''estimated_selected_tokens'', repository_value repository ''estimated_selected_tokens''),
                     (''budget_truncated'', repository_value repository ''budget_truncated'')] else [])
      in [(''strategy'', JStr (sc_strategy c)), (''fallback_used'', JBool (sc_fallback_used c)),
          (''prompt_chars'', json_int_opt (sc_prompt_chars c)), (''dependency_analysis'', JBool dependency_analysis),
          (''stats'', JObj stats),
          (''selected_files'', JArr (map (snippet_metadata dependency_analysis) (sc_snippets c)))]
         @ (if dependency_analysis then [(''repository'', JObj repository)] else []))"

section \<open>What a selection contains\<close>

text \<open>A path that the selection may show: a file of the workspace outside the ignored directories.\<close>

definition showable :: "source_tree \<Rightarrow> bool \<Rightarrow> pystr \<Rightarrow> bool" where
  "showable t include_tests path \<longleftrightarrow> (\<exists>r. path = as_posix r \<and> \<not> source_ignored r \<and> (include_tests \<or> \<not> under_tests r))"

lemma resolve_showable: "resolve_python_path t raw include_tests = Some r \<Longrightarrow> showable t include_tests (as_posix r)"
  using resolve_python_path_Some [of t raw include_tests r] unfolding showable_def by blast

definition sound_candidates :: "source_tree \<Rightarrow> bool \<Rightarrow> candidates \<Rightarrow> bool" where
  "sound_candidates t include_tests d \<longleftrightarrow> distinct (map fst d) \<and> fst ` set d \<subseteq> Collect (showable t include_tests)"

lemma add_candidate_sound:
  "sound_candidates t b d \<Longrightarrow> showable t b p \<Longrightarrow> sound_candidates t b (add_candidate p reason ls d)"
proof -
  assume d: "sound_candidates t b d" and p: "showable t b p"
  have keys: "fst ` set (dict_set p v d) = insert p (fst ` set d)" for v
    using keys_dict_set [of p v d] by simp
  have "sound_candidates t b (dict_set p v d)" for v
    unfolding sound_candidates_def keys using d p distinct_dict_set [of d p v] by (simp add: sound_candidates_def)
  then show ?thesis by (simp add: add_candidate_def split: option.split prod.split)
qed

lemma fold_candidates_sound:
  "sound_candidates t b d \<Longrightarrow> (\<And>x d. x \<in> set xs \<Longrightarrow> sound_candidates t b d \<Longrightarrow> sound_candidates t b (f x d)) \<Longrightarrow>
     sound_candidates t b (fold f xs d)"
  by (induction xs arbitrary: d) auto

lemma inferred_showable:
  "infer_imported_modules parse t test b = Inr rs \<Longrightarrow> r \<in> set rs \<Longrightarrow> showable t b (as_posix r)"
  by (auto simp: infer_imported_modules_def Let_def set_map_filter intro: resolve_showable
      split: sum.splits exn.splits option.splits)

lemma add_test_imports_sound:
  "sound_candidates t b d \<Longrightarrow> add_test_imports parse t b nodes d = Inr d' \<Longrightarrow> sound_candidates t b d'"
proof (induction parse t b nodes d rule: add_test_imports.induct)
  case (2 parse t b node nodes d)
  have "sound_candidates t b (fold (\<lambda>r. add_candidate (as_posix r) ''direct_test_import'' []) inferred d)"
    if "infer_imported_modules parse t relative b = Inr inferred" for relative inferred
    by (rule fold_candidates_sound [OF 2(3)]) (use that in \<open>auto intro: add_candidate_sound inferred_showable\<close>)
  with 2 show ?case by (auto split: option.splits sum.splits)
qed simp

lemma traceback_candidates_sound:
  assumes "traceback_candidates parse t b summary = Inr d"
  shows "sound_candidates t b d"
proof (rule add_test_imports_sound)
  show "add_test_imports parse t b (fs_failed_tests summary) (add_frames t b (fs_frames summary)
      (add_failing_tests t b (frame_lines t b (fs_frames summary)) (fs_failed_tests summary) [])) = Inr d"
    using assms by (simp add: traceback_candidates_def)
  have "sound_candidates t b (add_failing_tests t b x nodes [])" for x nodes
    unfolding add_failing_tests_def
    by (rule fold_candidates_sound)
      (auto simp: sound_candidates_def [of _ _ "[]"] Let_def split: option.split intro: add_candidate_sound resolve_showable)
  then show "sound_candidates t b (add_frames t b (fs_frames summary)
      (add_failing_tests t b (frame_lines t b (fs_frames summary)) (fs_failed_tests summary) []))"
    unfolding add_frames_def
    by (rule fold_candidates_sound) (auto split: option.split intro: add_candidate_sound resolve_showable)
qed

text \<open>A snippet shows what the window of its file holds.\<close>

definition shows_window :: "source_tree \<Rightarrow> int \<Rightarrow> snippet \<Rightarrow> bool" where
  "shows_window t line_window s \<longleftrightarrow> (\<exists>ls. read_code_window t (path_names (ss_path s)) ls line_window
     = Inr (ss_start_line s, ss_end_line s, ss_content s))"

lemma build_snippets_sound:
  assumes "build_snippets t w n d acc = Inr ss" and "distinct (map ss_path acc @ map fst d)"
    and "int (length acc) \<le> max 0 n" and "list_all (shows_window t w) acc"
  shows "distinct (map ss_path ss) \<and> set (map ss_path ss) \<subseteq> set (map ss_path acc) \<union> fst ` set d
    \<and> int (length ss) \<le> max 0 n \<and> list_all (shows_window t w) ss"
  using assms
proof (induction t w n d acc rule: build_snippets.induct)
  case (2 t w n path reason ls rest acc)
  show ?case
  proof (cases "n \<le> int (length acc)")
    case True
    with 2 show ?thesis by auto
  next
    case False
    show ?thesis
    proof (cases "read_code_window t (path_names path) ls w")
      case (Inl e)
      with 2 False show ?thesis by (cases e) auto
    next
      case (Inr window)
      have "shows_window t w (plain_snippet path reason window)"
        using Inr by (cases window) (auto simp: shows_window_def plain_snippet_def)
      moreover have "ss_path (plain_snippet path reason window) = path"
        by (cases window) (simp add: plain_snippet_def)
      ultimately have "distinct (map ss_path ss) \<and> set (map ss_path ss) \<subseteq> set (map ss_path (acc @ [plain_snippet path reason window])) \<union> fst ` set rest
          \<and> int (length ss) \<le> max 0 n \<and> list_all (shows_window t w) ss"
        using 2(2) [OF False Inr] 2(3-) False Inr by auto
      then show ?thesis using \<open>ss_path _ = path\<close> by auto
    qed
  qed
qed simp

lemma map_sum_Inr: "map_sum id f x = Inr y \<longleftrightarrow> (\<exists>z. x = Inr z \<and> y = f z)"
  by (cases x) auto

lemma full_snippets_sound:
  "full_snippets t rs = Inr ss \<Longrightarrow> map ss_path ss = map as_posix rs"
  by (induction rs arbitrary: ss) (auto simp: plain_snippet_def split: sum.splits)

lemma nth_window:
  "a \<le> l \<Longrightarrow> l < f \<Longrightarrow> f \<le> length xs \<Longrightarrow>
     drop a (take f xs) ! (l - a) = xs ! l \<and> l - a < length (drop a (take f xs))"
  by simp

lemma splitlines_shown:
  "\<forall>l\<in>set ls. no_break l \<Longrightarrow> ls \<noteq> [] \<Longrightarrow> splitlines (joinlines ls @ [nl]) = ls"
proof (induction ls)
  case (Cons l ls)
  show ?case
  proof (cases ls)
    case Nil
    with Cons.prems show ?thesis using splitlines_aux_line [of l "[]" "[]"]
      by (simp add: splitlines_def joinlines_def)
  next
    case (Cons m ms)
    with Cons.prems Cons.IH have "splitlines (joinlines ls @ [nl]) = ls" by auto
    with Cons Cons.prems splitlines_aux_line [of l "[]" "joinlines ls @ [nl]"] show ?thesis
      by (simp add: splitlines_def joinlines_def)
  qed
qed simp

section \<open>Properties\<close>


text \<open>
  The window around the lines of a traceback shows them: each target line that the file has
  lies between the reported bounds, and unless it is empty it is found in the content at its
  place.
\<close>

theorem window_shows_targets:
  assumes "read_code_window t relative targets line_window = Inr (first, final, content)"
    and "read_source t relative = Inr text" and "line \<in> set targets"
    and "1 \<le> line" "line \<le> int (length (splitlines text))" and "0 \<le> line_window"
    and "splitlines text ! nat (line - 1) \<noteq> []"
  shows "1 \<le> first \<and> first \<le> line \<and> line \<le> final \<and> final \<le> int (length (splitlines text))
    \<and> splitlines content ! nat (line - first) = splitlines text ! nat (line - 1)"
proof -
  let ?ls = "splitlines text"
  have ne: "?ls \<noteq> []" "targets \<noteq> []" using assms(3-5) by auto
  have m: "Min (set targets) \<le> line" "line \<le> Max (set targets)" using assms(3) by simp_all
  have b: "first = max 1 (Min (set targets) - line_window)"
    "final = min (int (length ?ls)) (Max (set targets) + line_window)"
    and content: "content = code_lines first final ?ls"
    using assms(1,2) ne by (auto simp: read_code_window_def Let_def)
  have bounds: "1 \<le> first" "first \<le> line" "line \<le> final" "final \<le> int (length ?ls)"
    using b m assms(4-6) by simp_all
  let ?shown = "drop (nat (first - 1)) (take (nat final) ?ls)"
  have pos: "nat (line - first) = nat (line - 1) - nat (first - 1)" "nat (first - 1) \<le> nat (line - 1)"
    "nat (line - 1) < nat final" "nat final \<le> length ?ls"
    using bounds by auto
  note window = nth_window [OF pos(2-4)]
  have at: "?shown ! nat (line - first) = ?ls ! nat (line - 1)" and len: "nat (line - first) < length ?shown"
    unfolding pos(1) using window by blast+
  have "?shown ! nat (line - first) \<in> set ?shown" using len by simp
  with at assms(7) have ne: "joinlines ?shown \<noteq> []" by (auto simp: joinlines_Nil_iff)
  then have "content = joinlines ?shown @ [nl]" using content bounds by (simp add: code_lines_def slice_to_def)
  moreover have "splitlines (joinlines ?shown @ [nl]) = ?shown"
  proof (rule splitlines_shown)
    show "\<forall>l\<in>set ?shown. no_break l" by (meson in_set_dropD in_set_takeD splitlines_no_break)
    show "?shown \<noteq> []" using len by auto
  qed
  ultimately show ?thesis using bounds at by simp
qed

text \<open>A workspace with a failing test, its source and a hidden file.\<close>

definition demo_tree :: source_tree where
  "demo_tree = \<lparr>so_root = [''w''],
     so_fs = \<lparr>contents = (\<lambda>_. None)([''w'', ''t.py''] \<mapsto> TextFile ''import m'', [''w'', ''m.py''] \<mapsto> TextFile (joinlines [''a'', ''b'', ''c''])),
       resolve = id, listing = \<lambda>_. [], refuse_write = \<lambda>_. None, read_failure = \<lambda>_. ''No such file''\<rparr>,
     so_found = [[''w'', ''m.py''], [''w'', ''t.py'']]\<rparr>"

definition demo_summary :: pytest_failure_summary where
  "demo_summary = \<lparr>fs_failed_tests = [''t.py::test_m''], fs_exception_type = None, fs_error_message = None,
     fs_frames = [\<lparr>tf_path = ''/w/m.py'', tf_line = 2, tf_function = None, tf_raw = []\<rparr>], fs_raw_output = []\<rparr>"

definition demo_parse :: "pystr \<Rightarrow> ast option" where
  "demo_parse text = Some (Ast OtherNode None None [] [Ast (Import [(''m'', None)]) (Some 1) (Some 1) [] [] []] [])"


theorem window_shows_targets_witness:
  "splitlines (joinlines [''a'', ''b'', ''c''] @ [nl]) ! nat (2 - 1) = ''b''"
proof -
  have "read_code_window demo_tree [''m.py''] [2] 1 = Inr (1, 3, joinlines [''a'', ''b'', ''c''] @ [nl])" by code_simp
  moreover have "read_source demo_tree [''m.py''] = Inr (joinlines [''a'', ''b'', ''c''])" by code_simp
  moreover have "splitlines (joinlines [''a'', ''b'', ''c'']) = [''a'', ''b'', ''c'']" by code_simp
  ultimately show ?thesis
    using window_shows_targets [of demo_tree "[''m.py'']" "[2]" 1 1 3 "joinlines [''a'', ''b'', ''c''] @ [nl]"
      "joinlines [''a'', ''b'', ''c'']" 2] by simp
qed

end
