(* ===== verification/RepositoryIndexer.thy ===== *)
theory RepositoryIndexer
  imports RepositoryIndex SourceFiles PyAst
begin

text \<open>
  \<open>repository/indexer.py\<close> and \<open>repository/service.py\<close>: the snapshot of the Python files of a
  workspace with its fingerprint, the index that is built from it, and the service that answers
  from memory, from the store, or by building. Bytes are characters. \<open>hashlib.sha256\<close>, the
  decoder of UTF-8 texts and \<open>ast.parse\<close> are parameters.
\<close>

section \<open>Names of modules\<close>

definition dotted_module_name :: "path \<Rightarrow> pystr" where
  "dotted_module_name relative =
     (let stem = (\<lambda>n. take (length n - length (name_suffix n)) n);
          parts = (if relative = [] then [] else butlast relative @ [stem (last relative)])
      in join ''.'' (if parts \<noteq> [] \<and> last parts = ''__init__'' then butlast parts else parts))"

text \<open>\<open>s.rpartition(".")[0]\<close>.\<close>

definition rpartition_head :: "pystr \<Rightarrow> pystr" where
  "rpartition_head s = (case last_dot s of None \<Rightarrow> [] | Some i \<Rightarrow> take i s)"

lemma rpartition_head_shorter: "s \<noteq> [] \<Longrightarrow> length (rpartition_head s) < length s"
  by (auto simp: rpartition_head_def last_dot_def split: if_splits)

function resolve_prefix :: "(pystr \<times> pystr) list \<Rightarrow> pystr \<Rightarrow> pystr option" where
  "resolve_prefix path_by_module candidate =
     (if candidate = [] then None
      else case dict_get path_by_module candidate of
        Some path \<Rightarrow> Some path
      | None \<Rightarrow> resolve_prefix path_by_module (rpartition_head candidate))"
  by pat_completeness auto
termination
  by (relation "measure (\<lambda>(d, c). length c)") (auto simp: rpartition_head_shorter)

declare resolve_prefix.simps [simp del]

definition resolve_module_path :: "(pystr \<times> pystr) list \<Rightarrow> pystr \<Rightarrow> pystr option" where
  "resolve_module_path path_by_module module =
     (case resolve_prefix path_by_module module of
        Some path \<Rightarrow> Some path
      | None \<Rightarrow>
          (case sort (map snd (filter (\<lambda>(known, path). endswith known (''.'' @ module)) path_by_module)) of
             [path] \<Rightarrow> Some path
           | _ \<Rightarrow> None))"

section \<open>Symbols and imports\<close>

definition or_one :: "int option \<Rightarrow> int" where
  "or_one x = (case x of None \<Rightarrow> 1 | Some n \<Rightarrow> (if n = 0 then 1 else n))"

definition symbol_of_node :: "pystr \<Rightarrow> pystr \<Rightarrow> ast \<Rightarrow> pystr \<Rightarrow> pystr \<Rightarrow> pystr \<Rightarrow> source_symbol" where
  "symbol_of_node path module node name qualname kind =
     (let first = max 1 (or_one (a_line node));
          final = max first (case a_end node of None \<Rightarrow> first | Some n \<Rightarrow> (if n = 0 then first else n))
      in \<lparr>sy_symbol_id = path @ '':'' @ qualname, sy_path = path, sy_module = module, sy_name = name,
          sy_qualname = qualname, sy_kind = kind, sy_start_line = first, sy_end_line = final\<rparr>)"

definition collect_symbols :: "ast \<Rightarrow> pystr \<Rightarrow> pystr \<Rightarrow> source_symbol list" where
  "collect_symbols tree path module = concat (map (\<lambda>node.
     case a_kind node of
       FunctionDef name \<Rightarrow> [symbol_of_node path module node name name ''function'']
     | ClassDef name \<Rightarrow> symbol_of_node path module node name name ''class''
         # concat (map (\<lambda>child. case a_kind child of
             FunctionDef n \<Rightarrow> [symbol_of_node path module child n (name @ ''.'' @ n) ''method'']
           | _ \<Rightarrow> []) (a_body node))
     | _ \<Rightarrow> []) (a_body tree))"

definition bound_name :: "import_alias \<Rightarrow> pystr" where
  "bound_name a = or_else (snd a) (fst a)"

definition import_base :: "pystr list \<Rightarrow> pystr option \<Rightarrow> nat \<Rightarrow> pystr" where
  "import_base package_parts module level =
     (if level \<noteq> 0
      then (let keep = length package_parts - (level - 1); prefix = take keep package_parts in
            join ''.'' (case module of
                Some m \<Rightarrow> (if m \<noteq> [] then prefix @ split_char (CHR ''.'') m else prefix)
              | None \<Rightarrow> prefix))
      else or_else module [])"

definition imports_of_node :: "pystr list \<Rightarrow> ast \<Rightarrow> (pystr \<times> pystr) list" where
  "imports_of_node package_parts node = (case a_kind node of
     Import names \<Rightarrow> map (\<lambda>a. (fst a, bound_name a)) names
   | ImportFrom module names level \<Rightarrow>
       (let base = import_base package_parts module level in
        concat (map (\<lambda>a. (join ''.'' (filter (\<lambda>p. p \<noteq> []) [base, fst a]), bound_name a)
            # (if base \<noteq> [] then [(base, bound_name a)] else [])) names))
   | _ \<Rightarrow> [])"

definition collect_imports :: "ast \<Rightarrow> pystr \<Rightarrow> bool \<Rightarrow> (pystr \<times> pystr) list" where
  "collect_imports tree module is_package =
     (let parts = split_char (CHR ''.'') module;
          package_parts = (if is_package then parts else butlast parts)
      in concat (map (imports_of_node package_parts) (ast_walk [tree])))"

section \<open>Snapshots\<close>

type_synonym bytes = "char list"

definition utf8_char :: "char \<Rightarrow> bytes" where
  "utf8_char c = (if code c < 128 then [c] else [char_of (192 + code c div 64), char_of (128 + code c mod 64)])"

definition utf8 :: "pystr \<Rightarrow> bytes" where
  "utf8 s = concat (map utf8_char s)"

text \<open>\<open>n.to_bytes(k, "big")\<close> for a number that fits.\<close>

fun to_bytes :: "nat \<Rightarrow> nat \<Rightarrow> bytes" where
  "to_bytes 0 n = []"
| "to_bytes (Suc k) n = to_bytes k (n div 256) @ [char_of (n mod 256)]"

record indexer =
  ix_include_tests :: bool
  ix_max_files :: int
  ix_max_file_bytes :: int

definition indexer_init :: "bool \<Rightarrow> int \<Rightarrow> int \<Rightarrow> indexer" where
  "indexer_init include_tests max_files max_file_bytes =
     \<lparr>ix_include_tests = include_tests, ix_max_files = max 1 max_files, ix_max_file_bytes = max 1 max_file_bytes\<rparr>"

record snapshot =
  sn_fingerprint :: pystr
  sn_entries :: "(path \<times> bytes) list"
  sn_skipped :: int

text \<open>
  The loop over the files: the bytes given to the digest, the entries and the number of skipped
  files. \<open>read\<close> is the content of a file, \<^const>\<open>None\<close> where reading it raises \<open>OSError\<close>.
\<close>

fun snapshot_files :: "indexer \<Rightarrow> (path \<Rightarrow> bytes option) \<Rightarrow> (path \<times> bytes) list \<Rightarrow> path list \<Rightarrow>
    bytes \<times> (path \<times> bytes) list \<times> int" where
  "snapshot_files ix read entries [] = ([], entries, 0)"
| "snapshot_files ix read entries (relative # rest) =
     (let normalized = utf8 (as_posix relative);
          name = to_bytes 4 (length normalized) @ normalized;
          skip = (\<lambda>tag. case snapshot_files ix read entries rest of
            (m, es, n) \<Rightarrow> (name @ tag @ m, es, n + 1))
      in if ix_max_files ix \<le> int (length entries) then skip ''skipped:file-limit''
         else case read relative of
           None \<Rightarrow> skip ''skipped:read-error''
         | Some content \<Rightarrow>
             (if ix_max_file_bytes ix < int (length content)
              then skip (''skipped:byte-limit'' @ to_bytes 8 (length content))
              else case snapshot_files ix read (entries @ [(relative, content)]) rest of
                (m, es, n) \<Rightarrow> (name @ ''indexed'' @ to_bytes 8 (length content) @ content @ m, es, n)))"

definition str_bool :: "bool \<Rightarrow> pystr" where
  "str_bool b = (if b then ''True'' else ''False'')"

definition snapshot_material :: "indexer \<Rightarrow> (path \<Rightarrow> bytes option) \<Rightarrow> path list \<Rightarrow> bytes" where
  "snapshot_material ix read found = fst (snapshot_files ix read [] found)
     @ str_bool (ix_include_tests ix) @ str_int (ix_max_files ix) @ str_int (ix_max_file_bytes ix)"

definition take_snapshot :: "(bytes \<Rightarrow> pystr) \<Rightarrow> indexer \<Rightarrow> (path \<Rightarrow> bytes option) \<Rightarrow> source_tree \<Rightarrow> snapshot" where
  "take_snapshot sha ix read t =
     (let found = iter_python_files t (ix_include_tests ix);
          (m, es, n) = snapshot_files ix read [] found
      in \<lparr>sn_fingerprint = sha (snapshot_material ix read found), sn_entries = es, sn_skipped = n\<rparr>)"

section \<open>Building the index\<close>

text \<open>
  The parameters of the build: the digest, the decoder of UTF-8 (its message where the bytes are
  none), and the parser of Python (message and line of the \<open>SyntaxError\<close>).
\<close>

record python =
  py_sha256 :: "bytes \<Rightarrow> pystr"
  py_decode :: "bytes \<Rightarrow> pystr + pystr"
  py_parse :: "pystr \<Rightarrow> (pystr \<times> nat) + ast"

record build_state =
  bs_files :: "source_file list"
  bs_symbols :: "source_symbol list"
  bs_imports :: "(pystr \<times> (pystr \<times> pystr) list) list"

definition file_entry :: "pystr \<Rightarrow> pystr \<Rightarrow> pystr \<Rightarrow> bytes \<Rightarrow> int \<Rightarrow> pystr option \<Rightarrow> source_file" where
  "file_entry path module content_hash raw line_count parse_error =
     \<lparr>fr_path = path, fr_module = module, fr_sha256 = content_hash, fr_size_bytes = int (length raw),
      fr_line_count = line_count, fr_parse_error = parse_error\<rparr>"

definition index_entry :: "python \<Rightarrow> path \<times> bytes \<Rightarrow> build_state \<Rightarrow> build_state" where
  "index_entry py entry st =
     (case entry of (relative, raw) \<Rightarrow>
       (let path = as_posix relative; module = dotted_module_name relative;
            record_file = (\<lambda>n e. st\<lparr>bs_files := bs_files st @ [file_entry path module (py_sha256 py raw) raw n e]\<rparr>)
        in case py_decode py raw of
             Inl m \<Rightarrow> record_file 0 (Some (''UnicodeDecodeError: '' @ m))
           | Inr text \<Rightarrow>
               (let line_count = int (length (splitlines text)) in
                case py_parse py text of
                  Inl (m, line) \<Rightarrow>
                    record_file line_count (Some (''SyntaxError: '' @ m @ '' at line '' @ str_nat line))
                | Inr tree \<Rightarrow>
                    (record_file line_count None)
                      \<lparr>bs_symbols := bs_symbols st @ collect_symbols tree path module,
                       bs_imports := dict_set path
                         (collect_imports tree module (relative \<noteq> [] \<and> last relative = ''__init__.py''))
                         (bs_imports st)\<rparr>)))"

definition path_modules :: "(path \<times> bytes) list \<Rightarrow> (pystr \<times> pystr) list" where
  "path_modules entries = dict_of_pairs (map (\<lambda>(module, path). (path, module))
     (dict_of_pairs (map (\<lambda>(relative, raw). (as_posix relative, dotted_module_name relative)) entries)))"

text \<open>The loop over the imports; \<open>seen\<close> is the set of edges made so far.\<close>

fun import_edges ::
    "(pystr \<times> pystr) list \<Rightarrow> pystr \<Rightarrow> (pystr \<times> pystr) list \<Rightarrow> source_edge list \<Rightarrow> source_edge list" where
  "import_edges modules source_path [] edges = edges"
| "import_edges modules source_path ((module, imported_name) # rest) edges =
     import_edges modules source_path rest
       (case resolve_module_path modules module of
          None \<Rightarrow> edges
        | Some target \<Rightarrow>
            (if target = source_path then edges
             else if (source_path, target, imported_name)
                 \<in> set (map (\<lambda>e. (de_source_path e, de_target_path e, de_imported_name e)) edges) then edges
             else edges @ [\<lparr>de_source_path = source_path, de_target_path = target, de_kind = ''import'',
               de_imported_name = imported_name\<rparr>]))"

definition build_index :: "python \<Rightarrow> snapshot \<Rightarrow> source_index" where
  "build_index py snap =
     (let st = fold (index_entry py) (sn_entries snap) \<lparr>bs_files = [], bs_symbols = [], bs_imports = []\<rparr>;
          modules = path_modules (sn_entries snap);
          edges = fold (\<lambda>(source_path, imports) es. import_edges modules source_path imports es) (bs_imports st) []
      in \<lparr>ri_schema_version = ''1'', ri_fingerprint = sn_fingerprint snap,
          ri_files = sort_key fr_path (bs_files st),
          ri_symbols = sort_key (\<lambda>s. (sy_path s, sy_start_line s, sy_qualname s)) (bs_symbols st),
          ri_edges = sort_key (\<lambda>e. (de_source_path e, de_target_path e, de_imported_name e)) edges,
          ri_skipped_files = sn_skipped snap\<rparr>)"

section \<open>The service\<close>

record cache_answer =
  ca_hit :: bool
  ca_source :: pystr
  ca_fingerprint :: pystr
  ca_bypassed :: bool

text \<open>
  \<open>RepositoryIndexService.get\<close> after the snapshot, for any store given by its operations:
  \<open>cache_dir\<close> is \<^const>\<open>None\<close> without a store, and a store whose directory lies inside the
  workspace is bypassed. The time measurements of the answer are left out.
\<close>

definition service_get ::
    "('c \<Rightarrow> pystr \<Rightarrow> 'e + 'i option) \<Rightarrow> ('i \<Rightarrow> 'c \<Rightarrow> (exn + 'p) \<times> 'c) \<Rightarrow> ('i \<Rightarrow> pystr) \<Rightarrow> path option \<Rightarrow> path
     \<Rightarrow> pystr \<Rightarrow> 'i \<Rightarrow> 'c \<times> (pystr \<times> 'i) list \<Rightarrow> (('e + exn) + ('i \<times> cache_answer)) \<times> ('c \<times> (pystr \<times> 'i) list)" where
  "service_get load save fingerprint cache_dir root fp built s =
     (case s of (c, memory) \<Rightarrow>
       (let inside = (case cache_dir of None \<Rightarrow> False | Some dir \<Rightarrow> relative_to root dir \<noteq> None);
            stored = (cache_dir \<noteq> None \<and> \<not> inside);
            answer = (\<lambda>source idx c. (Inr (idx, \<lparr>ca_hit = source \<noteq> ''miss'', ca_source = source,
              ca_fingerprint = fingerprint idx, ca_bypassed = inside\<rparr>), (c, dict_set fp idx memory)));
            build = (if stored
              then (case save built c of
                (Inl e, c') \<Rightarrow> (Inl (Inr e), (c', memory)) | (Inr p, c') \<Rightarrow> answer ''miss'' built c')
              else answer ''miss'' built c)
        in case dict_get memory fp of
             Some idx \<Rightarrow> answer ''memory'' idx c
           | None \<Rightarrow>
               (if stored
                then (case load c fp of
                  Inl e \<Rightarrow> (Inl (Inl e), s) | Inr (Some idx) \<Rightarrow> answer ''disk'' idx c | Inr None \<Rightarrow> build)
                else build)))"

definition repository_get ::
    "pyvals \<Rightarrow> (json \<Rightarrow> index_error + int) \<Rightarrow> (fs \<Rightarrow> pystr) \<Rightarrow> python \<Rightarrow> indexer \<Rightarrow> path option \<Rightarrow> (path \<Rightarrow> bytes option)
     \<Rightarrow> source_tree \<Rightarrow> fs \<times> (pystr \<times> json_index) list
     \<Rightarrow> ((index_error + exn) + (json_index \<times> cache_answer)) \<times> (fs \<times> (pystr \<times> json_index) list)" where
  "repository_get vals conv pick py ix cache_dir read t s =
     (let snap = take_snapshot (py_sha256 py) ix read t; dir = (case cache_dir of None \<Rightarrow> [] | Some d \<Rightarrow> d) in
      service_get (store_load vals conv dir) (store_save pick dir) ri_fingerprint cache_dir (so_root t)
        (sn_fingerprint snap) (encode_index (build_index py snap)) s)"

section \<open>The digest input determines the entries\<close>

lemma length_to_bytes [simp]: "length (to_bytes k n) = k"
  by (induction k arbitrary: n) auto

lemma to_bytes_inj:
  "to_bytes k n = to_bytes k m \<Longrightarrow> n < 256 ^ k \<Longrightarrow> m < 256 ^ k \<Longrightarrow> n = m"
proof (induction k arbitrary: n m)
  case (Suc k)
  have "n mod 256 = m mod 256"
    using Suc.prems(1) by (simp add: char_of_eq_iff take_bit_eq_mod [of 8, simplified])
  moreover have "n div 256 = m div 256"
    by (rule Suc.IH) (use Suc.prems in \<open>auto simp: less_mult_imp_div_less mult.commute\<close>)
  ultimately show ?case by (metis div_mult_mod_eq)
qed simp

lemma hd_to_bytes:
  assumes "n < 256 ^ 3"
  shows "hd (to_bytes 4 n) = char_of (0::nat)"
proof -
  have four: "(4::nat) = Suc (Suc (Suc (Suc 0)))" by simp
  have "to_bytes 4 n = [char_of (n div 256 div 256 div 256 mod 256), char_of (n div 256 div 256 mod 256),
      char_of (n div 256 mod 256), char_of (n mod 256)]"
    unfolding four to_bytes.simps by simp
  moreover have "n div 256 div 256 div 256 = 0" using assms by (simp add: div_mult2_eq [symmetric])
  ultimately show ?thesis by simp
qed

lemma utf8_char_hd: "code (hd (utf8_char c)) = (if code c < 128 then code c else 192 + code c div 64)"
proof -
  have "code c < 256" by (simp add: code_def)
  then have "192 + code c div 64 < 256" by simp
  then have "code (char_of (192 + code c div 64)) = 192 + code c div 64" by (simp add: code_char_of)
  then show ?thesis by (simp add: utf8_char_def)
qed

lemma utf8_inj: "utf8 s = utf8 t \<Longrightarrow> s = t"
proof (induction s arbitrary: t)
  case Nil
  then show ?case by (cases t) (auto simp: utf8_def utf8_char_def split: if_splits)
next
  case (Cons c s)
  then obtain d u where t: "t = d # u" by (cases t) (auto simp: utf8_def utf8_char_def split: if_splits)
  have eq: "utf8_char c @ utf8 s = utf8_char d @ utf8 u" using Cons.prems by (simp add: utf8_def t)
  have b: "code c < 256" "code d < 256" by (simp_all add: code_def)
  have "hd (utf8_char c) = hd (utf8_char d)"
    using eq by (metis append_is_Nil_conv hd_append2 list.distinct(1) utf8_char_def)
  then have h: "(if code c < 128 then code c else 192 + code c div 64) = (if code d < 128 then code d else 192 + code d div 64)"
    using utf8_char_hd by metis
  have same: "code c < 128 \<longleftrightarrow> code d < 128" using h by (auto split: if_splits)
  have "utf8_char c = utf8_char d \<and> utf8 s = utf8 u"
    using eq same by (auto simp: utf8_char_def)
  moreover have "c = d"
  proof (cases "code c < 128")
    case True
    then show ?thesis using eq same by (simp add: utf8_char_def)
  next
    case False
    have "char_of (128 + code c mod 64) = (char_of (128 + code d mod 64) :: char)"
      using eq same False by (simp add: utf8_char_def)
    then have "code (char_of (128 + code c mod 64)) = code (char_of (128 + code d mod 64))" by simp
    then have "code c mod 64 = code d mod 64" by (simp add: code_def)
    moreover have "code c div 64 = code d div 64" using h same False by simp
    ultimately have "code c = code d" by (metis div_mult_mod_eq)
    then show ?thesis by (simp add: code_def)
  qed
  ultimately show ?case using Cons.IH t by blast
qed

lemma split_char_append: "d \<notin> set x \<Longrightarrow> split_char d (x @ d # r) = x # split_char d r"
  by (induction x) auto

lemma split_char_none: "d \<notin> set x \<Longrightarrow> split_char d x = [x]"
  by (induction x) auto

lemma split_join:
  "\<forall>p\<in>set (x # ps). d \<notin> set p \<Longrightarrow> split_char d (join [d] (x # ps)) = x # ps"
proof (induction ps arbitrary: x)
  case Nil
  then show ?case by (simp add: split_char_none)
next
  case (Cons y ps)
  then have "split_char d (join [d] (y # ps)) = y # ps" by simp
  then show ?case using split_char_append [of d x "join [d] (y # ps)"] Cons.prems by simp
qed

lemma as_posix_inj:
  assumes "as_posix p = as_posix q" and "p \<noteq> []" "q \<noteq> []"
    and "\<forall>n\<in>set p. CHR ''/'' \<notin> set n" "\<forall>n\<in>set q. CHR ''/'' \<notin> set n"
  shows "p = q"
  using assms split_join [of "hd p" "tl p" "CHR ''/''"] split_join [of "hd q" "tl q" "CHR ''/''"]
  by (simp add: as_posix_def)

text \<open>What the loop does with a file, and the bytes that record it.\<close>

type_synonym outcome = "bytes + bytes"

definition outcome_bytes :: "outcome \<Rightarrow> bytes" where
  "outcome_bytes r = (case r of Inl tag \<Rightarrow> tag | Inr content \<Rightarrow> ''indexed'' @ to_bytes 8 (length content) @ content)"

definition skip_tag :: "bytes \<Rightarrow> bool" where
  "skip_tag tag \<longleftrightarrow> tag = ''skipped:file-limit'' \<or> tag = ''skipped:read-error''
     \<or> (\<exists>b. length b = 8 \<and> tag = ''skipped:byte-limit'' @ b)"

definition fits :: "outcome \<Rightarrow> bool" where
  "fits r \<longleftrightarrow> (case r of Inl tag \<Rightarrow> skip_tag tag | Inr content \<Rightarrow> length content < 256 ^ 8)"

definition file_name :: "path \<Rightarrow> bytes" where
  "file_name r = to_bytes 4 (length (utf8 (as_posix r))) @ utf8 (as_posix r)"

lemma outcome_unique:
  assumes "fits r" "fits r'" and "outcome_bytes r @ x = outcome_bytes r' @ y"
  shows "r = r' \<and> x = y"
proof (cases r; cases r')
  fix a b assume "r = Inl a" "r' = Inl b"
  then show ?thesis using assms by (auto simp: fits_def outcome_bytes_def skip_tag_def)
next
  fix a b assume r: "r = Inr a" "r' = Inr b"
  then have l: "to_bytes 8 (length a) = to_bytes 8 (length b)" and rest: "a @ x = b @ y"
    using assms(3) by (simp_all add: outcome_bytes_def)
  have "length a = length b"
    by (rule to_bytes_inj [OF l]) (use assms(1,2) r in \<open>simp_all add: fits_def\<close>)
  with rest r show ?thesis by simp
qed (use assms in \<open>auto simp: fits_def outcome_bytes_def skip_tag_def\<close>)

lemma file_name_unique:
  assumes "file_name r @ x = file_name r' @ y"
    and "length (utf8 (as_posix r)) < 256 ^ 3" "length (utf8 (as_posix r')) < 256 ^ 3"
  shows "as_posix r = as_posix r' \<and> x = y"
proof -
  let ?n = "length (utf8 (as_posix r))" and ?n' = "length (utf8 (as_posix r'))"
  have l: "to_bytes 4 ?n = to_bytes 4 ?n'" and rest: "utf8 (as_posix r) @ x = utf8 (as_posix r') @ y"
    using assms(1) by (simp_all add: file_name_def)
  have "?n = ?n'" by (rule to_bytes_inj [OF l]) (use assms(2,3) in simp_all)
  with rest show ?thesis using utf8_inj by simp
qed

text \<open>One step of the loop.\<close>

lemma snapshot_step:
  assumes "snapshot_files ix read es (r # rest) = (m, es1, n)" and "ix_max_file_bytes ix < 256 ^ 8"
  obtains out m2 where "m = file_name r @ outcome_bytes out @ m2" and "fits out"
    and "\<And>tag. out = Inl tag \<Longrightarrow> snapshot_files ix read es rest = (m2, es1, n - 1)"
    and "\<And>content. out = Inr content \<Longrightarrow> snapshot_files ix read (es @ [(r, content)]) rest = (m2, es1, n)"
proof (cases "ix_max_files ix \<le> int (length es)")
  case True
  obtain m2 es2 n2 where rec: "snapshot_files ix read es rest = (m2, es2, n2)" by (rule prod_cases3)
  show ?thesis
    by (rule that [of "Inl ''skipped:file-limit''" m2])
      (use assms(1) True rec in \<open>auto simp: Let_def file_name_def outcome_bytes_def fits_def skip_tag_def\<close>)
next
  case enough: False
  show ?thesis
  proof (cases "read r")
    case None
    obtain m2 es2 n2 where rec: "snapshot_files ix read es rest = (m2, es2, n2)" by (rule prod_cases3)
    show ?thesis
      by (rule that [of "Inl ''skipped:read-error''" m2])
        (use assms(1) enough None rec in \<open>auto simp: Let_def file_name_def outcome_bytes_def fits_def skip_tag_def\<close>)
  next
    case (Some c)
    show ?thesis
    proof (cases "ix_max_file_bytes ix < int (length c)")
      case True
      obtain m2 es2 n2 where rec: "snapshot_files ix read es rest = (m2, es2, n2)" by (rule prod_cases3)
      show ?thesis
        by (rule that [of "Inl (''skipped:byte-limit'' @ to_bytes 8 (length c))" m2])
          (use assms(1) enough Some True rec in \<open>auto simp: Let_def file_name_def outcome_bytes_def fits_def skip_tag_def\<close>)
    next
      case False
      obtain m2 es2 n2 where rec: "snapshot_files ix read (es @ [(r, c)]) rest = (m2, es2, n2)" by (rule prod_cases3)
      have "int (length c) < 256 ^ 8" using False assms(2) by linarith
      then have "length c < 256 ^ 8" by (metis of_nat_less_iff of_nat_numeral of_nat_power)
      then show ?thesis
        by (intro that [of "Inr c" m2])
          (use assms(1) enough Some False rec in \<open>auto simp: Let_def file_name_def outcome_bytes_def fits_def\<close>)
    qed
  qed
qed

text \<open>The paths that a listing yields: relative, below the root, with short names.\<close>

definition listed_path :: "path \<Rightarrow> bool" where
  "listed_path r \<longleftrightarrow> r \<noteq> [] \<and> (\<forall>n\<in>set r. CHR ''/'' \<notin> set n) \<and> length (utf8 (as_posix r)) < 256 ^ 3"

lemma listed_path_eq: "listed_path r \<Longrightarrow> listed_path r' \<Longrightarrow> as_posix r = as_posix r' \<Longrightarrow> r = r'"
  using as_posix_inj by (auto simp: listed_path_def)

definition ends_names :: "bytes \<Rightarrow> bool" where
  "ends_names t \<longleftrightarrow> t \<noteq> [] \<and> hd t \<noteq> char_of (0::nat)"

lemma file_name_start:
  assumes "listed_path r"
  shows "\<not> ends_names (file_name r @ x)"
proof -
  have "to_bytes 4 (length (utf8 (as_posix r))) \<noteq> []" by (metis length_to_bytes list.size(3) zero_neq_numeral)
  then show ?thesis
    using hd_to_bytes assms by (simp add: ends_names_def file_name_def listed_path_def)
qed

lemma snapshot_files_unique:
  assumes "snapshot_files ix read es fs = (m, es1, n)" and "snapshot_files ix' read' es' fs' = (m', es1', n')"
    and "m @ t = m' @ t'" and "ends_names t" "ends_names t'"
    and "\<forall>r\<in>set fs. listed_path r" "\<forall>r\<in>set fs'. listed_path r"
    and "ix_max_file_bytes ix < 256 ^ 8" "ix_max_file_bytes ix' < 256 ^ 8"
  shows "\<exists>new. es1 = es @ new \<and> es1' = es' @ new \<and> n = n'"
  using assms(1-7)
proof (induction fs arbitrary: fs' es es' m m' n n')
  case Nil
  then show ?case
  proof (cases fs')
    case (Cons r rest)
    obtain out m2 where "m' = file_name r @ outcome_bytes out @ m2"
      using snapshot_step [OF Nil(2) [unfolded Cons] assms(9)] by blast
    then show ?thesis using Nil file_name_start [of r] by (simp add: Cons)
  qed simp
next
  case (Cons r rest)
  obtain out m2 where m: "m = file_name r @ outcome_bytes out @ m2" and out: "fits out"
    "\<And>tag. out = Inl tag \<Longrightarrow> snapshot_files ix read es rest = (m2, es1, n - 1)"
    "\<And>content. out = Inr content \<Longrightarrow> snapshot_files ix read (es @ [(r, content)]) rest = (m2, es1, n)"
    using snapshot_step [OF Cons.prems(1) assms(8)] by blast
  show ?case
  proof (cases fs')
    case Nil
    then have "t' = file_name r @ (outcome_bytes out @ m2 @ t)" using Cons.prems(2,3) m by simp
    moreover have "\<not> ends_names (file_name r @ (outcome_bytes out @ m2 @ t))"
      by (rule file_name_start) (use Cons.prems(6) in simp)
    ultimately show ?thesis using Cons.prems(5) by simp
  next
    case fs': (Cons r' rest')
    obtain out' m2' where m': "m' = file_name r' @ outcome_bytes out' @ m2'" and out': "fits out'"
      "\<And>tag. out' = Inl tag \<Longrightarrow> snapshot_files ix' read' es' rest' = (m2', es1', n' - 1)"
      "\<And>content. out' = Inr content \<Longrightarrow> snapshot_files ix' read' (es' @ [(r', content)]) rest' = (m2', es1', n')"
      using snapshot_step [OF Cons.prems(2) [unfolded fs'] assms(9)] by blast
    have names: "file_name r @ (outcome_bytes out @ m2 @ t) = file_name r' @ (outcome_bytes out' @ m2' @ t')"
      using Cons.prems(3) m m' by simp
    have listed: "listed_path r" "listed_path r'" using Cons.prems(6,7) fs' by simp_all
    from file_name_unique [OF names] listed_path_eq [OF listed] listed
    have "r = r'" and bytes: "outcome_bytes out @ m2 @ t = outcome_bytes out' @ m2' @ t'"
      by (auto simp: listed_path_def)
    from outcome_unique [OF out(1) out'(1) bytes] have same: "out = out'" "m2 @ t = m2' @ t'" by auto
    have rest: "\<forall>r\<in>set rest. listed_path r" "\<forall>r\<in>set rest'. listed_path r" using Cons.prems(6,7) fs' by simp_all
    show ?thesis
    proof (cases out)
      case (Inl tag)
      from Cons.IH [OF out(2) [OF this] out'(2) [OF this [unfolded same]] same(2) Cons.prems(4,5) rest]
      show ?thesis by auto
    next
      case (Inr c)
      from Cons.IH [OF out(3) [OF this] out'(3) [OF this [unfolded same]] same(2) Cons.prems(4,5) rest] \<open>r = r'\<close>
      show ?thesis by auto
    qed
  qed
qed

lemma ends_names_config: "ends_names (str_bool b @ s)"
proof -
  have "char_of (0::nat) = CHR 0x00" by code_simp
  then show ?thesis by (simp add: ends_names_def str_bool_def)
qed

lemma snapshot_unique:
  assumes "snapshot_material ix read found = snapshot_material ix' read' found'"
    and "\<forall>r\<in>set found. listed_path r" "\<forall>r\<in>set found'. listed_path r"
    and "ix_max_file_bytes ix < 256 ^ 8" "ix_max_file_bytes ix' < 256 ^ 8"
  shows "snd (snapshot_files ix read [] found) = snd (snapshot_files ix' read' [] found')"
proof -
  obtain m es n where f: "snapshot_files ix read [] found = (m, es, n)" by (rule prod_cases3)
  obtain m' es' n' where f': "snapshot_files ix' read' [] found' = (m', es', n')" by (rule prod_cases3)
  have "\<exists>new. es = [] @ new \<and> es' = [] @ new \<and> n = n'"
    by (rule snapshot_files_unique [OF f f' _ ends_names_config ends_names_config assms(2-5)])
      (use assms(1) f f' in \<open>simp add: snapshot_material_def\<close>)
  then show ?thesis by (auto simp: f f')
qed

text \<open>The listing of a workspace names files below the root, by paths of bounded length.\<close>

definition bounded_tree :: "source_tree \<Rightarrow> bool" where
  "bounded_tree t \<longleftrightarrow> (\<forall>b. \<forall>r\<in>set (iter_python_files t b). listed_path r)"

text \<open>What a call of the service sees: the settings of the indexer, the contents and the listing.\<close>

type_synonym sources = "indexer \<times> (path \<Rightarrow> bytes option) \<times> source_tree"

definition sources_material :: "sources \<Rightarrow> bytes" where
  "sources_material w = (case w of (ix, read, t) \<Rightarrow>
     snapshot_material ix read (iter_python_files t (ix_include_tests ix)))"

definition sources_snapshot :: "(bytes \<Rightarrow> pystr) \<Rightarrow> sources \<Rightarrow> snapshot" where
  "sources_snapshot sha w = (case w of (ix, read, t) \<Rightarrow> take_snapshot sha ix read t)"

definition bounded_sources :: "sources \<Rightarrow> bool" where
  "bounded_sources w = (case w of (ix, read, t) \<Rightarrow> ix_max_file_bytes ix < 256 ^ 8
     \<and> (\<forall>r\<in>set (iter_python_files t (ix_include_tests ix)). listed_path r))"

lemma same_fingerprint_same_snapshot:
  assumes "sn_fingerprint (sources_snapshot sha w) = sn_fingerprint (sources_snapshot sha w')"
    and "inj_on sha (sources_material ` W)" and "w \<in> W" "w' \<in> W"
    and "bounded_sources w" "bounded_sources w'"
  shows "sources_snapshot sha w = sources_snapshot sha w'"
proof -
  obtain ix read t where w: "w = (ix, read, t)" by (rule prod_cases3)
  obtain ix' read' t' where w': "w' = (ix', read', t')" by (rule prod_cases3)
  have fp: "sn_fingerprint (sources_snapshot sha v) = sha (sources_material v)" for v
    by (auto simp: sources_snapshot_def sources_material_def take_snapshot_def Let_def split: prod.split)
  have "sources_material w = sources_material w'"
    using assms(1-4) unfolding fp by (auto dest: inj_onD)
  then have m: "snapshot_material ix read (iter_python_files t (ix_include_tests ix))
      = snapshot_material ix' read' (iter_python_files t' (ix_include_tests ix'))"
    by (simp add: sources_material_def w w')
  from snapshot_unique [OF m] assms(5,6) m show ?thesis
    by (auto simp: w w' sources_snapshot_def take_snapshot_def Let_def bounded_sources_def split: prod.splits)
qed

section \<open>Fresh answers\<close>

context index_cache begin

text \<open>
  The service keeps: memory and store hold under a fingerprint only what satisfies \<open>P\<close> there. Its
  answer satisfies \<open>P\<close> too, if a new index does.
\<close>

definition memory_only :: "(pystr \<Rightarrow> 'i \<Rightarrow> bool) \<Rightarrow> (pystr \<times> 'i) list \<Rightarrow> bool" where
  "memory_only P memory \<longleftrightarrow> (\<forall>f i. dict_get memory f = Some i \<longrightarrow> P f i)"

lemma memory_only_set: "memory_only P memory \<Longrightarrow> P f i \<Longrightarrow> memory_only P (dict_set f i memory)"
  by (auto simp: memory_only_def dict_get_set)

lemma service_get_only:
  assumes "service_get load save fingerprint cache_dir root fp built (c, memory) = (r, (c', memory'))"
    and "only P c" and "memory_only P memory" and "valid built" and "fingerprint built = fp" and "P fp built"
  shows "only P c' \<and> memory_only P memory' \<and> (\<forall>i a. r = Inr (i, a) \<longrightarrow> P fp i)"
proof (cases "dict_get memory fp")
  case (Some i)
  then have "P fp i" using assms(3) by (simp add: memory_only_def)
  with Some assms(1-3) memory_only_set show ?thesis by (auto simp: service_get_def Let_def)
next
  case None
  show ?thesis
  proof (cases "cache_dir \<noteq> None \<and> \<not> (case cache_dir of None \<Rightarrow> False | Some dir \<Rightarrow> relative_to root dir \<noteq> None)")
    case stored: True
    show ?thesis
    proof (cases "load c fp")
      case (Inl e)
      with None stored assms(1-3) show ?thesis by (auto simp: service_get_def Let_def)
    next
      case loaded: (Inr x)
      show ?thesis
      proof (cases x)
        case (Some i)
        then have "P fp i" using loaded onlyD [OF assms(2)] by simp
        with None stored loaded Some assms(1-3) memory_only_set show ?thesis
          by (auto simp: service_get_def Let_def)
      next
        case miss: None
        obtain r1 c1 where s: "save built c = (r1, c1)" by (cases "save built c")
        have "only P c1" by (rule only_save [OF assms(2,4) _ s]) (use assms(5,6) in simp)
        with None stored loaded miss s assms(1,3,6) memory_only_set show ?thesis
          by (cases r1) (auto simp: service_get_def Let_def)
      qed
    qed
  next
    case False
    with None assms(1-3,6) memory_only_set show ?thesis by (auto simp: service_get_def Let_def)
  qed
qed

end

text \<open>A sequence of calls, with the changes of the workspace between them.\<close>

fun repository_gets ::
    "pyvals \<Rightarrow> (json \<Rightarrow> index_error + int) \<Rightarrow> (fs \<Rightarrow> pystr) \<Rightarrow> python \<Rightarrow> path option \<Rightarrow> sources list
     \<Rightarrow> fs \<times> (pystr \<times> json_index) list \<Rightarrow> ((index_error + exn) + (json_index \<times> cache_answer)) list" where
  "repository_gets vals conv pick py cache_dir [] s = []"
| "repository_gets vals conv pick py cache_dir ((ix, read, t) # ws) s =
     (case repository_get vals conv pick py ix cache_dir read t s of
        (r, s') \<Rightarrow> r # repository_gets vals conv pick py cache_dir ws s')"

definition fresh_in :: "python \<Rightarrow> sources set \<Rightarrow> pystr \<Rightarrow> json_index \<Rightarrow> bool" where
  "fresh_in py W fp i \<longleftrightarrow> (\<forall>w\<in>W. sn_fingerprint (sources_snapshot (py_sha256 py) w) = fp
     \<longrightarrow> i = encode_index (build_index py (sources_snapshot (py_sha256 py) w)))"

definition fresh_answer :: "python \<Rightarrow> sources \<Rightarrow> (index_error + exn) + (json_index \<times> cache_answer) \<Rightarrow> bool" where
  "fresh_answer py w r \<longleftrightarrow> (case r of
     Inl e \<Rightarrow> True
   | Inr (i, a) \<Rightarrow> i = encode_index (build_index py (sources_snapshot (py_sha256 py) w)))"

lemma snapshot_files_skipped: "0 \<le> snd (snd (snapshot_files ix read es fs))"
proof (induction fs arbitrary: es)
  case (Cons r rest)
  have n: "0 \<le> n" if "snapshot_files ix read es rest = (m, es1, n)" for es m es1 n
    using Cons.IH [of es] that by simp
  show ?case by (auto simp: Let_def dest: n split: prod.splits option.splits)
qed simp

lemma build_index_fields:
  "ri_schema_version (build_index py snap) = ''1''" "ri_fingerprint (build_index py snap) = sn_fingerprint snap"
  "ri_skipped_files (build_index py snap) = sn_skipped snap"
  by (simp_all only: build_index_def Let_def repository_index.simps)

lemma built_index:
  "storable (encode_index (build_index py (sources_snapshot sha w)))"
  "ri_fingerprint (encode_index (build_index py (sources_snapshot sha w))) = sn_fingerprint (sources_snapshot sha w)"
proof -
  have "0 \<le> sn_skipped (sources_snapshot sha w)"
    using snapshot_files_skipped
    by (auto simp: sources_snapshot_def take_snapshot_def Let_def split: prod.split) (metis snd_conv)
  then show "storable (encode_index (build_index py (sources_snapshot sha w)))"
    unfolding storable_def using build_index_fields by metis
  show "ri_fingerprint (encode_index (build_index py (sources_snapshot sha w))) = sn_fingerprint (sources_snapshot sha w)"
    by (simp add: build_index_fields encode_index_def)
qed

lemma repository_gets_fresh:
  assumes "inj_on (py_sha256 py) (sources_material ` W)" and "\<forall>w\<in>W. bounded_sources w"
    and "dir = (case cache_dir of None \<Rightarrow> [] | Some d \<Rightarrow> d)"
  shows "set ws \<subseteq> W \<Longrightarrow> index_file.only vals conv dir (fresh_in py W) F \<Longrightarrow>
    index_file.memory_only (fresh_in py W) memory \<Longrightarrow>
    list_all2 (fresh_answer py) ws (repository_gets vals conv pick py cache_dir ws (F, memory))"
proof (induction ws arbitrary: F memory)
  case (Cons w ws)
  obtain ix read t where w: "w = (ix, read, t)" by (rule prod_cases3)
  let ?snap = "sources_snapshot (py_sha256 py) w"
  obtain r F' memory' where get: "repository_get vals conv pick py ix cache_dir read t (F, memory) = (r, (F', memory'))"
    by (rule prod_cases3)
  then have g: "service_get (store_load vals conv dir) (store_save pick dir) ri_fingerprint cache_dir (so_root t)
      (sn_fingerprint ?snap) (encode_index (build_index py ?snap)) (F, memory) = (r, (F', memory'))"
    by (simp add: repository_get_def Let_def sources_snapshot_def w assms(3))
  have in_W: "w \<in> W" using Cons.prems(1) by simp
  have fresh: "fresh_in py W (sn_fingerprint ?snap) (encode_index (build_index py ?snap))"
    unfolding fresh_in_def using same_fingerprint_same_snapshot [OF _ assms(1) _ in_W] assms(2) in_W by metis
  from index_file.service_get_only [OF g Cons.prems(2,3) built_index fresh]
  have after: "index_file.only vals conv dir (fresh_in py W) F'" "index_file.memory_only (fresh_in py W) memory'"
    and "\<forall>i a. r = Inr (i, a) \<longrightarrow> fresh_in py W (sn_fingerprint ?snap) i" by blast+
  then have "fresh_answer py w r"
    using in_W by (auto simp: fresh_answer_def fresh_in_def split: sum.split)
  with Cons.IH [OF _ after] Cons.prems(1) get show ?case by (simp add: w)
qed simp

text \<open>Every entry is recorded once, and an edge joins two indexed files.\<close>

lemma index_entry_files:
  "map fr_path (bs_files (index_entry py entry st)) = map fr_path (bs_files st) @ [as_posix (fst entry)]"
  by (auto simp: index_entry_def Let_def file_entry_def split: prod.split sum.split)

lemma index_entries_files:
  "map fr_path (bs_files (fold (index_entry py) entries st)) = map fr_path (bs_files st) @ map (as_posix \<circ> fst) entries"
  by (induction entries arbitrary: st) (simp_all add: index_entry_files)

lemma index_entry_imports:
  "fst ` set (bs_imports (index_entry py entry st)) \<subseteq> insert (as_posix (fst entry)) (fst ` set (bs_imports st))"
  using keys_dict_set by (auto simp: index_entry_def Let_def split: prod.split sum.split) (fastforce simp: image_iff)+

lemma index_entries_imports:
  "fst ` set (bs_imports (fold (index_entry py) entries st)) \<subseteq> fst ` set (bs_imports st) \<union> (as_posix \<circ> fst) ` set entries"
proof (induction entries arbitrary: st)
  case (Cons e es)
  from Cons.IH [of "index_entry py e st"] index_entry_imports [of py e st] show ?case by auto
qed simp

lemma set_dict_of_pairs: "set (dict_of_pairs ps) \<subseteq> set ps"
proof (induction ps rule: rev_induct)
  case (snoc p ps)
  have d: "set (dict_set k v d) \<subseteq> insert (k, v) (set d)" for k v and d :: "('a \<times> 'b) list"
    by (induction k v d rule: dict_set.induct) auto
  show ?case using snoc d by (cases p) (fastforce simp: dict_of_pairs_def)
qed (simp add: dict_of_pairs_def)

lemma path_modules_paths: "snd ` set (path_modules entries) \<subseteq> (as_posix \<circ> fst) ` set entries"
proof -
  let ?named = "map (\<lambda>(relative, raw). (as_posix relative, dotted_module_name relative)) entries"
  let ?swapped = "map (\<lambda>(module, path). (path, module)) (dict_of_pairs ?named)"
  have "snd ` set (path_modules entries) \<subseteq> snd ` set ?swapped"
    unfolding path_modules_def by (rule image_mono [OF set_dict_of_pairs])
  also have "\<dots> = fst ` set (dict_of_pairs ?named)" by (force simp: image_iff)
  also have "\<dots> \<subseteq> fst ` set ?named" by (rule image_mono [OF set_dict_of_pairs])
  also have "\<dots> = (as_posix \<circ> fst) ` set entries" by (force simp: image_iff)
  finally show ?thesis .
qed

lemma resolve_module_path_paths:
  assumes "resolve_module_path modules module = Some p"
  shows "p \<in> snd ` set modules"
proof -
  have "resolve_prefix modules c = Some p \<Longrightarrow> p \<in> snd ` set modules" for c
  proof (induction modules c rule: resolve_prefix.induct)
    case (1 d c)
    then show ?case
      by (subst (asm) (2) resolve_prefix.simps) (force split: if_splits option.splits dest: map_of_SomeD)
  qed
  moreover have "p \<in> snd ` set modules"
    if "sort (map snd (filter (\<lambda>(known, path). endswith known (''.'' @ module)) modules)) = [p]"
  proof -
    have "p \<in> set (sort (map snd (filter (\<lambda>(known, path). endswith known (''.'' @ module)) modules)))"
      using that by simp
    then show ?thesis by auto
  qed
  ultimately show ?thesis using assms by (auto simp: resolve_module_path_def split: option.splits list.splits)
qed

definition edge_key :: "source_edge \<Rightarrow> pystr \<times> pystr \<times> pystr" where
  "edge_key e = (de_source_path e, de_target_path e, de_imported_name e)"

definition sound_edges :: "pystr set \<Rightarrow> source_edge list \<Rightarrow> bool" where
  "sound_edges paths es \<longleftrightarrow> distinct (map edge_key es) \<and>
     list_all (\<lambda>e. de_source_path e \<noteq> de_target_path e \<and> de_source_path e \<in> paths \<and> de_target_path e \<in> paths) es"

lemma import_edges_sound:
  "snd ` set modules \<subseteq> paths \<Longrightarrow> source \<in> paths \<Longrightarrow> sound_edges paths es \<Longrightarrow>
     sound_edges paths (import_edges modules source imps es)"
proof (induction modules source imps es rule: import_edges.induct)
  case (2 modules source module name rest es)
  have "sound_edges paths (es @ [\<lparr>de_source_path = source, de_target_path = target, de_kind = ''import'', de_imported_name = name\<rparr>])"
    if "resolve_module_path modules module = Some target" "target \<noteq> source"
      "(source, target, name) \<notin> set (map edge_key es)" for target
    using resolve_module_path_paths [OF that(1)] that 2(2-4) by (auto simp: sound_edges_def edge_key_def)
  then show ?case using 2 by (auto simp: edge_key_def [abs_def] split: option.split)
qed simp

lemma sound_edges_sort: "sound_edges paths (sort_key f es) \<longleftrightarrow> sound_edges paths es"
  by (simp add: sound_edges_def list_all_iff distinct_map)

lemma built_edges_sound:
  "sound_edges ((as_posix \<circ> fst) ` set (sn_entries snap)) (ri_edges (build_index py snap))"
proof -
  let ?paths = "(as_posix \<circ> fst) ` set (sn_entries snap)" and ?modules = "path_modules (sn_entries snap)"
  have modules: "snd ` set ?modules \<subseteq> ?paths" by (rule path_modules_paths)
  have "sound_edges ?paths (fold (\<lambda>(source, imps) es. import_edges ?modules source imps es) d es)"
    if "fst ` set d \<subseteq> ?paths" "sound_edges ?paths es" for d es
    using that
  proof (induction d arbitrary: es)
    case (Cons x d)
    obtain source imps where x: "x = (source, imps)" by (cases x)
    have "sound_edges ?paths (import_edges ?modules source imps es)"
      by (rule import_edges_sound [OF modules _ Cons.prems(2)]) (use Cons.prems(1) x in simp)
    from Cons.IH [OF _ this] Cons.prems(1) show ?case by (simp add: x)
  qed simp
  from this [OF _, of _ "[]"] index_entries_imports [of py "sn_entries snap" "\<lparr>bs_files = [], bs_symbols = [], bs_imports = []\<rparr>"]
  show ?thesis by (simp add: build_index_def Let_def sound_edges_sort) (simp add: sound_edges_def)
qed

section \<open>Properties\<close>


text \<open>
  C33 The import graph of an index is well-formed: every file of the snapshot is recorded exactly
  once, and an edge leads from one of these files to a different one, with no edge repeated.
\<close>

theorem built_index_well_formed:
  "mset (map fr_path (ri_files (build_index py snap))) = mset (map (as_posix \<circ> fst) (sn_entries snap))
   \<and> distinct (map edge_key (ri_edges (build_index py snap)))
   \<and> list_all (\<lambda>e. de_source_path e \<noteq> de_target_path e
        \<and> de_source_path e \<in> set (map fr_path (ri_files (build_index py snap)))
        \<and> de_target_path e \<in> set (map fr_path (ri_files (build_index py snap)))) (ri_edges (build_index py snap))"
proof -
  have files: "mset (map fr_path (ri_files (build_index py snap))) = mset (map (as_posix \<circ> fst) (sn_entries snap))"
    using index_entries_files [of py "sn_entries snap" "\<lparr>bs_files = [], bs_symbols = [], bs_imports = []\<rparr>"]
    by (simp add: build_index_def Let_def) (metis mset_map)
  then have paths: "set (map fr_path (ri_files (build_index py snap))) = (as_posix \<circ> fst) ` set (sn_entries snap)"
    by (metis mset_eq_setD set_map)
  from built_edges_sound [of snap py] files show ?thesis by (simp only: sound_edges_def paths)
qed

text \<open>A file that is edited between two calls and then restored, with a store outside the workspace.\<close>

definition demo_python :: python where
  "demo_python = \<lparr>py_sha256 = id, py_decode = Inr,
     py_parse = \<lambda>t. Inr (Ast OtherNode None None [] [Ast (FunctionDef ''f'') (Some 1) (Some 2) [] [] []] [])\<rparr>"

definition demo_sources :: "bytes \<Rightarrow> sources" where
  "demo_sources text = (indexer_init True 2000 1000000, \<lambda>_. Some text,
     \<lparr>so_root = [''w''], so_fs = demo_empty_fs, so_found = [[''w'', ''a.py'']]\<rparr>)"

lemma demo_sources_bounded: "bounded_sources (demo_sources text)"
  by (simp add: bounded_sources_def demo_sources_def indexer_init_def iter_python_files_def List.map_filter_def
      demo_empty_fs_def relative_to_def source_ignored_def source_ignored_dirs_def listed_path_def as_posix_def
      utf8_def utf8_char_def code_def)


end
