(* ===== verification/RepositoryContext.thy ===== *)
theory RepositoryContext
  imports ContextSelection RepositoryIndexer
begin

text \<open>
  \<open>context/repository.py\<close>: the neighbours of the selected files in the import graph, ranked, read
  and cut to the token budget; and \<open>context/provider.py\<close>, which puts the context of a prompt
  together. The index service is a parameter: its answer is an index with the facts about the
  cache that go to the metadata.
\<close>

record expander =
  ex_max_selected_tokens :: int
  ex_max_graph_depth :: nat
  ex_max_related_files :: int
  ex_max_snippet_lines :: int

definition expander_init :: "int \<Rightarrow> int \<Rightarrow> int \<Rightarrow> int \<Rightarrow> expander" where
  "expander_init tokens depth related lines =
     \<lparr>ex_max_selected_tokens = max 100 tokens, ex_max_graph_depth = nat (max 0 depth),
      ex_max_related_files = max 0 related, ex_max_snippet_lines = max 20 lines\<rparr>"

section \<open>Ranking the neighbours\<close>

record candidate_file =
  cf_path :: pystr
  cf_depth :: nat
  cf_reason :: pystr
  cf_score :: int
  cf_imported_name :: pystr

definition better :: "candidate_file \<Rightarrow> candidate_file \<Rightarrow> bool" where
  "better new old \<longleftrightarrow>
     (cf_score old, - int (cf_depth old), cf_reason old) < (cf_score new, - int (cf_depth new), cf_reason new)"

definition record_candidate :: "candidate_file \<Rightarrow> (pystr \<times> candidate_file) list \<Rightarrow> (pystr \<times> candidate_file) list" where
  "record_candidate c d =
     (case dict_get d (cf_path c) of
        None \<Rightarrow> dict_set (cf_path c) c d
      | Some old \<Rightarrow> (if better c old then dict_set (cf_path c) c d else d))"

record ranking =
  rk_queue :: "(pystr \<times> nat) list"
  rk_best :: "(pystr \<times> nat) list"
  rk_candidates :: "(pystr \<times> candidate_file) list"

text \<open>
  The edges at a file: first what it imports, then who imports it, each in the order of path and
  name. The flag tells the direction.
\<close>

definition outgoing_edges :: "source_edge list \<Rightarrow> pystr \<Rightarrow> (pystr \<times> pystr \<times> bool) list" where
  "outgoing_edges edges path = map (\<lambda>e. (de_target_path e, de_imported_name e, True))
     (sort_key (\<lambda>e. (de_target_path e, de_imported_name e)) (filter (\<lambda>e. de_source_path e = path) edges))"

definition incoming_edges :: "source_edge list \<Rightarrow> pystr \<Rightarrow> (pystr \<times> pystr \<times> bool) list" where
  "incoming_edges edges path = map (\<lambda>e. (de_source_path e, de_imported_name e, False))
     (sort_key (\<lambda>e. (de_source_path e, de_imported_name e)) (filter (\<lambda>e. de_target_path e = path) edges))"

definition neighbours :: "source_edge list \<Rightarrow> pystr \<Rightarrow> (pystr \<times> pystr \<times> bool) list" where
  "neighbours edges path = outgoing_edges edges path @ incoming_edges edges path"

definition visit :: "nat \<Rightarrow> nat \<Rightarrow> pystr \<times> pystr \<times> bool \<Rightarrow> ranking \<Rightarrow> ranking" where
  "visit max_depth next_depth edge st =
     (case edge of (path, name, imported) \<Rightarrow>
       (let c = \<lparr>cf_path = path, cf_depth = next_depth,
              cf_reason = (if imported then ''repository_import_dependency'' else ''repository_importer''),
              cf_score = (if imported then 800 else 600) - int next_depth * 100, cf_imported_name = name\<rparr>;
            st' = st\<lparr>rk_candidates := record_candidate c (rk_candidates st)\<rparr>;
            known = (case dict_get (rk_best st) path of None \<Rightarrow> max_depth + 1 | Some d \<Rightarrow> d)
        in if next_depth < known
           then st'\<lparr>rk_best := dict_set path next_depth (rk_best st), rk_queue := rk_queue st @ [(path, next_depth)]\<rparr>
           else st'))"

text \<open>The measure of the search: what the depths can still improve, and the work in the queue.\<close>

definition best_depth :: "nat \<Rightarrow> ranking \<Rightarrow> pystr \<Rightarrow> nat" where
  "best_depth max_depth st path = (case dict_get (rk_best st) path of None \<Rightarrow> max_depth + 1 | Some d \<Rightarrow> d)"

definition edge_paths :: "source_edge list \<Rightarrow> pystr list" where
  "edge_paths edges = remdups (map de_source_path edges @ map de_target_path edges)"

definition search_measure :: "source_edge list \<Rightarrow> nat \<Rightarrow> ranking \<Rightarrow> nat" where
  "search_measure edges max_depth st =
     2 * (\<Sum>p\<leftarrow>edge_paths edges. best_depth max_depth st p) + length (rk_queue st)"

lemma visit_best_depth:
  "best_depth D (visit D n (p, name, imported) st) q =
     (if q = p \<and> n < best_depth D st p then n else best_depth D st q)"
  by (auto simp: visit_def Let_def best_depth_def dict_get_set split: option.split)

lemma visit_queue:
  "rk_queue (visit D n (p, name, imported) st) = rk_queue st @ (if n < best_depth D st p then [(p, n)] else [])"
  by (auto simp: visit_def Let_def best_depth_def split: option.split)

lemma sum_list_less_at:
  fixes f g :: "'a \<Rightarrow> nat"
  assumes "distinct xs" and "p \<in> set xs" and "g p < f p" and "\<And>q. q \<noteq> p \<Longrightarrow> g q = f q"
  shows "sum_list (map g xs) < sum_list (map f xs)"
proof -
  have le: "g x \<le> f x" for x by (cases "x = p") (simp_all add: assms less_imp_le)
  have "sum g (set xs) < sum f (set xs)"
    by (rule sum_strict_mono_ex1) (use assms(2,3) le in auto)
  then show ?thesis using assms(1) by (simp add: sum_list_distinct_conv_sum_set)
qed

lemma visit_measure:
  assumes "p \<in> set (edge_paths edges)"
  shows "search_measure edges D (visit D n (p, name, imported) st) \<le> search_measure edges D st"
proof (cases "n < best_depth D st p")
  case True
  have "(\<Sum>q\<leftarrow>edge_paths edges. best_depth D (visit D n (p, name, imported) st) q) < (\<Sum>q\<leftarrow>edge_paths edges. best_depth D st q)"
    by (rule sum_list_less_at [OF _ assms]) (auto simp: visit_best_depth True edge_paths_def)
  then show ?thesis using True by (simp add: search_measure_def visit_queue)
next
  case False
  then show ?thesis by (simp add: search_measure_def visit_queue visit_best_depth)
qed

lemma neighbours_paths: "(q, name, imported) \<in> set (neighbours edges p) \<Longrightarrow> q \<in> set (edge_paths edges)"
  by (auto simp: neighbours_def outgoing_edges_def incoming_edges_def edge_paths_def)

lemma visits_measure:
  "\<forall>(q, name, imported)\<in>set es. q \<in> set (edge_paths edges) \<Longrightarrow>
     search_measure edges D (fold (visit D n) es st) \<le> search_measure edges D st"
proof (induction es arbitrary: st)
  case (Cons e es)
  obtain q name imported where e: "e = (q, name, imported)" by (rule prod_cases3)
  have "search_measure edges D (visit D n e st) \<le> search_measure edges D st"
    unfolding e by (rule visit_measure) (use Cons.prems e in auto)
  with Cons.IH [of "visit D n e st"] Cons.prems show ?case by simp
qed simp

function rank_search :: "source_edge list \<Rightarrow> nat \<Rightarrow> ranking \<Rightarrow> ranking" where
  "rank_search edges max_depth st =
     (case rk_queue st of
        [] \<Rightarrow> st
      | (path, depth) # rest \<Rightarrow>
          (let st' = st\<lparr>rk_queue := rest\<rparr> in
           if max_depth \<le> depth then rank_search edges max_depth st'
           else rank_search edges max_depth (fold (visit max_depth (depth + 1)) (neighbours edges path) st')))"
  by pat_completeness auto
termination
proof (relation "measure (\<lambda>(edges, D, st). search_measure edges D st)"; clarsimp)
  fix edges D and st :: ranking and path rest and depth
  assume q: "rk_queue st = (path, depth) # rest"
  have pop: "search_measure edges D (st\<lparr>rk_queue := rest\<rparr>) < search_measure edges D st"
    by (simp add: search_measure_def q best_depth_def)
  show "search_measure edges D (st\<lparr>rk_queue := rest\<rparr>) < search_measure edges D st" by (rule pop)
  have "search_measure edges D (fold (visit D (Suc depth)) (neighbours edges path) (st\<lparr>rk_queue := rest\<rparr>))
      \<le> search_measure edges D (st\<lparr>rk_queue := rest\<rparr>)"
    by (rule visits_measure) (auto dest: neighbours_paths)
  with pop show "search_measure edges D (fold (visit D (Suc depth)) (neighbours edges path) (st\<lparr>rk_queue := rest\<rparr>))
      < search_measure edges D st" by simp
qed

declare rank_search.simps [simp del]

definition rank_neighbours :: "nat \<Rightarrow> source_edge list \<Rightarrow> pystr list \<Rightarrow> candidate_file list" where
  "rank_neighbours max_depth edges seeds =
     (let st = rank_search edges max_depth
            \<lparr>rk_queue = map (\<lambda>s. (s, 0)) seeds, rk_best = dict_of_pairs (map (\<lambda>s. (s, 0)) seeds), rk_candidates = []\<rparr>
      in sort_key (\<lambda>c. (- cf_score c, cf_path c)) (map snd (rk_candidates st)))"

section \<open>Reading a neighbour\<close>

text \<open>
  \<open>str.casefold\<close> on Latin-1: lower case, with the sharp s as two letters (the micro sign, which
  leaves Latin-1, is kept).
\<close>

definition casefold :: "pystr \<Rightarrow> pystr" where
  "casefold s = concat (map (\<lambda>c. if code c = 223 then ''ss'' else [lower_char c]) s)"

definition word_count :: "pystr \<Rightarrow> pystr \<Rightarrow> nat" where
  "word_count name query = length (re_findall (seqs [WordBoundary, lit name, WordBoundary]) query)"

definition symbol_score :: "pystr \<Rightarrow> pystr \<Rightarrow> source_symbol \<Rightarrow> int" where
  "symbol_score query imported s =
     (let name = casefold (sy_name s) in
      (if imported \<noteq> [] \<and> name = imported then 100 else 0) + int (min 20 (word_count name query)) * 5)"

definition symbol_key :: "pystr \<Rightarrow> pystr \<Rightarrow> source_symbol \<Rightarrow> int \<times> int \<times> pystr" where
  "symbol_key query imported s =
     (symbol_score query imported s, - (sy_end_line s - sy_start_line s), sy_qualname s)"

text \<open>\<open>max(xs, key=f)\<close>: the first of the largest.\<close>

fun first_max :: "('a \<Rightarrow> 'b::linorder) \<Rightarrow> 'a \<Rightarrow> 'a list \<Rightarrow> 'a" where
  "first_max f x [] = x"
| "first_max f x (y # ys) = first_max f (if f x < f y then y else x) ys"

definition best_symbol :: "source_symbol list \<Rightarrow> pystr \<Rightarrow> pystr \<Rightarrow> source_symbol option" where
  "best_symbol symbols query_text imported_name =
     (let query = casefold query_text; imported = casefold imported_name in
      case filter (\<lambda>s. symbol_score query imported s \<noteq> 0) symbols of
        [] \<Rightarrow> None
      | s # ranked \<Rightarrow> Some (first_max (symbol_key query imported) s ranked))"

definition read_candidate ::
    "expander \<Rightarrow> source_tree \<Rightarrow> source_index \<Rightarrow> candidate_file \<Rightarrow> pystr \<Rightarrow> snippet option" where
  "read_candidate ex t idx c query_text =
     (let path = resolve (so_fs t) (so_root t @ path_names (cf_path c)) in
      case relative_to (so_root t) path of
        None \<Rightarrow> None
      | Some relative \<Rightarrow>
          (case read_source t relative of
             Inl e \<Rightarrow> None
           | Inr text \<Rightarrow>
               (let ls = splitlines text; symbols = filter (\<lambda>s. sy_path s = cf_path c) (ri_symbols idx) in
                if ls = [] then None
                else
                  (let symbol = best_symbol symbols query_text (cf_imported_name c);
                       first = (case symbol of Some s \<Rightarrow> max 1 (sy_start_line s - 2) | None \<Rightarrow> 1);
                       final = (case symbol of Some s \<Rightarrow> min (int (length ls)) (sy_end_line s + 2)
                         | None \<Rightarrow> min (int (length ls)) (ex_max_snippet_lines ex))
                   in Some \<lparr>ss_path = cf_path c, ss_reason = cf_reason c, ss_start_line = first, ss_end_line = final,
                        ss_content = code_lines first final ls, ss_score = Some (cf_score c),
                        ss_graph_distance = Some (int (cf_depth c)), ss_symbol = map_option sy_symbol_id symbol\<rparr>))))"

section \<open>The budget\<close>

text \<open>\<open>content.rsplit("\\n", 1)[0] + "\\n"\<close> where there is a line feed.\<close>

definition cut_to_line :: "pystr \<Rightarrow> pystr" where
  "cut_to_line content = (if nl \<in> set content then rev (dropWhile (\<lambda>c. c \<noteq> nl) (rev content)) else content)"

definition truncate_snippet :: "snippet \<Rightarrow> pystr \<Rightarrow> snippet" where
  "truncate_snippet s content =
     s\<lparr>ss_content := content,
       ss_end_line := max (ss_start_line s) (ss_start_line s + max 0 (int (count_list content nl) - 1))\<rparr>"

fun fit_snippets :: "int \<Rightarrow> snippet list \<Rightarrow> snippet list \<times> bool" where
  "fit_snippets remaining [] = ([], False)"
| "fit_snippets remaining (s # rest) =
     (if remaining \<le> 0 then ([], True)
      else if int (length (ss_content s)) \<le> remaining
      then (case fit_snippets (remaining - int (length (ss_content s))) rest of (fitted, shortened) \<Rightarrow> (s # fitted, shortened))
      else (let content = cut_to_line (take (nat remaining) (ss_content s)) in
            if content = [] then ([], True) else ([truncate_snippet s content], True)))"

definition estimate_tokens :: "int \<Rightarrow> int" where
  "estimate_tokens characters = (max 0 characters + 3) div 4"

definition content_chars :: "snippet list \<Rightarrow> int" where
  "content_chars ss = (\<Sum>s\<leftarrow>ss. int (length (ss_content s)))"

definition fit_budget :: "expander \<Rightarrow> snippet list \<Rightarrow> snippet list \<times> int \<times> bool" where
  "fit_budget ex snippets =
     (case fit_snippets (ex_max_selected_tokens ex * 4) snippets of
        (fitted, truncated) \<Rightarrow> (fitted, estimate_tokens (content_chars fitted), truncated))"

section \<open>Expansion\<close>

fun related_snippets ::
    "expander \<Rightarrow> source_tree \<Rightarrow> source_index \<Rightarrow> pystr \<Rightarrow> candidate_file list \<Rightarrow> pystr set \<Rightarrow> snippet list \<Rightarrow> snippet list" where
  "related_snippets ex t idx query [] selected related = related"
| "related_snippets ex t idx query (c # cs) selected related =
     (if ex_max_related_files ex \<le> int (length related) then related
      else if cf_path c \<in> selected then related_snippets ex t idx query cs selected related
      else case read_candidate ex t idx c query of
        None \<Rightarrow> related_snippets ex t idx query cs selected related
      | Some s \<Rightarrow> related_snippets ex t idx query cs (insert (cf_path c) selected) (related @ [s]))"

definition expand_context ::
    "expander \<Rightarrow> source_index \<times> (pystr \<times> json) list \<Rightarrow> source_tree \<Rightarrow> selected_context \<Rightarrow> pystr \<Rightarrow> selected_context" where
  "expand_context ex answer t base query_text =
     (case answer of (idx, cache) \<Rightarrow>
       (let seeds = map ss_path (sc_snippets base);
            candidates = rank_neighbours (ex_max_graph_depth ex) (ri_edges idx) seeds;
            query = joinlines (query_text # map ss_content (sc_snippets base));
            related = related_snippets ex t idx query candidates (set seeds) [];
            (fitted, tokens, truncated) = fit_budget ex (sc_snippets base @ related);
            included = length (filter (\<lambda>s. startswith (ss_reason s) ''repository_'') fitted);
            metadata = dict_of_pairs ([(''enabled'', JBool True), (''schema_version'', JStr (ri_schema_version idx))]
              @ cache
              @ [(''indexed_file_count'', JInt (int (length (ri_files idx)))),
                 (''symbol_count'', JInt (int (length (ri_symbols idx)))),
                 (''edge_count'', JInt (int (length (ri_edges idx)))),
                 (''parse_error_count'', JInt (int (length (parse_errors idx)))),
                 (''skipped_file_count'', JInt (ri_skipped_files idx)),
                 (''seed_paths'', JArr (map JStr seeds)),
                 (''related_file_count'', JInt (int included)),
                 (''max_graph_depth'', JInt (int (ex_max_graph_depth ex))),
                 (''max_selected_tokens'', JInt (ex_max_selected_tokens ex)),
                 (''estimated_selected_tokens'', JInt tokens),
                 (''budget_truncated'', JBool truncated)])
        in \<lparr>sc_strategy = sc_strategy base, sc_snippets = fitted, sc_fallback_used = sc_fallback_used base,
            sc_prompt_chars = sc_prompt_chars base, sc_repository = Some metadata\<rparr>))"

section \<open>The context of a prompt\<close>

record context_provider =
  pr_strategy :: pystr
  pr_line_window :: int
  pr_max_files :: int
  pr_fallback_to_full :: bool
  pr_include_tests :: bool
  pr_expander :: "expander option"

definition provider_init ::
    "pystr \<Rightarrow> int \<Rightarrow> int \<Rightarrow> bool \<Rightarrow> bool \<Rightarrow> expander option \<Rightarrow> exn + context_provider" where
  "provider_init strategy line_window n fallback include_tests ex =
     (if strategy \<notin> {''full'', ''traceback''}
      then Inl (ValueError (''context_strategy must be 'full' or 'traceback'' @ [CHR 0x27]))
      else Inr \<lparr>pr_strategy = strategy, pr_line_window = max 0 line_window, pr_max_files = max 1 n,
        pr_fallback_to_full = fallback, pr_include_tests = include_tests, pr_expander = ex\<rparr>)"

text \<open>
  \<open>read_python_files\<close>: every listed file in full. The listing is relative to the workspace as it
  is, without following links, and the rule for ignored parts is that of \<open>file_tools\<close>.
\<close>

fun python_sections :: "source_tree \<Rightarrow> path list \<Rightarrow> exn + pystr list" where
  "python_sections t [] = Inr []"
| "python_sections t (p # ps) =
     (case relative_to (so_root t) p of
        None \<Rightarrow> Inl (ValueError (as_posix p @ '' is not in the subpath of '' @ as_posix (so_root t)))
      | Some rel \<Rightarrow>
          (if list_ex (\<lambda>part. part \<in> set source_ignored_dirs) rel then python_sections t ps
           else case read_source t rel of
             Inl e \<Rightarrow> Inl e
           | Inr content \<Rightarrow>
               (case python_sections t ps of
                  Inl e \<Rightarrow> Inl e
                | Inr sections \<Rightarrow> Inr ((''--- '' @ as_posix rel @ '' ---'' @ [nl] @ content) # sections))))"

definition read_python_files :: "source_tree \<Rightarrow> exn + pystr" where
  "read_python_files t =
     (case python_sections t (so_found t) of
        Inl e \<Rightarrow> Inl (RuntimeError (''failed to read Python files in '' @ as_posix (so_root t) @ '': '' @ exn_message e))
      | Inr sections \<Rightarrow> Inr (join [nl, nl] sections))"

definition default_plan :: "context_provider \<Rightarrow> context_plan option \<Rightarrow> context_plan" where
  "default_plan pr plan = (case plan of Some p \<Rightarrow> p
     | None \<Rightarrow> \<lparr>cp_strategy = pr_strategy pr, cp_line_window = pr_line_window pr, cp_max_files = pr_max_files pr, cp_level = 0\<rparr>)"

definition json_text_opt :: "pystr option \<Rightarrow> json" where
  "json_text_opt x = (case x of None \<Rightarrow> JNull | Some s \<Rightarrow> JStr s)"

definition set_stat :: "pystr \<Rightarrow> json \<Rightarrow> (pystr \<times> json) list \<Rightarrow> (pystr \<times> json) list" where
  "set_stat key v d = (case dict_get d ''stats'' of
     Some (JObj stats) \<Rightarrow> dict_set ''stats'' (JObj (dict_set key v stats)) d | _ \<Rightarrow> d)"

definition build_context ::
    "(pystr \<Rightarrow> ast option) \<Rightarrow> context_provider \<Rightarrow> source_index \<times> (pystr \<times> json) list \<Rightarrow> source_tree \<Rightarrow> pystr
     \<Rightarrow> context_plan option \<Rightarrow> exn + (pystr \<times> json)" where
  "build_context parse pr answer t pytest_output plan =
     (let effective = default_plan pr plan; summary = parse_pytest_failure_output pytest_output in
      case select_context parse summary t (cp_strategy effective) (cp_line_window effective) (cp_max_files effective)
          (pr_fallback_to_full pr) (pr_include_tests pr) of
        Inl e \<Rightarrow> Inl e
      | Inr base \<Rightarrow>
          (let selected = (case pr_expander pr of
                Some ex \<Rightarrow> expand_context ex answer t base pytest_output | None \<Rightarrow> base) in
           case (if cp_strategy effective = ''full'' \<and> pr_expander pr = None then read_python_files t
                 else Inr (render_selected_context selected)) of
             Inl e \<Rightarrow> Inl e
           | Inr rendered \<Rightarrow>
               (let chars = JInt (int (length pytest_output));
                    metadata = context_trace_metadata (selected\<lparr>sc_prompt_chars := Some (int (length rendered))\<rparr>);
                    frames = map (\<lambda>f. JObj [(''path'', JStr (tf_path f)), (''line'', JInt (tf_line f)),
                      (''function'', json_text_opt (tf_function f))]) (fs_frames summary)
                in Inr (rendered, JObj (fold (\<lambda>(k, v). dict_set k v)
                     [(''failed_tests'', JArr (map JStr (fs_failed_tests summary))),
                      (''exception_type'', json_text_opt (fs_exception_type summary)),
                      (''error_message'', json_text_opt (fs_error_message summary)),
                      (''raw_traceback_frames'', JArr frames),
                      (''base_strategy'', JStr (pr_strategy pr)),
                      (''expansion_level'', JInt (cp_level effective)),
                      (''effective_line_window'', JInt (cp_line_window effective)),
                      (''effective_max_files'', JInt (cp_max_files effective))]
                     (set_stat ''pytest_output_chars'' chars (dict_set ''pytest_output_chars'' chars metadata)))))))"

section \<open>The search is complete\<close>

definition adjacent :: "source_edge list \<Rightarrow> pystr \<Rightarrow> pystr \<Rightarrow> bool" where
  "adjacent edges p q \<longleftrightarrow> (\<exists>e\<in>set edges. (de_source_path e = p \<and> de_target_path e = q)
     \<or> (de_source_path e = q \<and> de_target_path e = p))"

text \<open>The files at most so many steps from a seed, in either direction of the imports.\<close>

fun within :: "source_edge list \<Rightarrow> pystr list \<Rightarrow> nat \<Rightarrow> pystr set" where
  "within edges seeds 0 = set seeds"
| "within edges seeds (Suc d) =
     within edges seeds d \<union> {q. \<exists>p\<in>within edges seeds d. adjacent edges p q}"

lemma neighbours_adjacent: "fst ` set (neighbours edges p) = {q. adjacent edges p q}"
  by (force simp: neighbours_def outgoing_edges_def incoming_edges_def adjacent_def image_iff)

lemma set_dict_set_subset: "set (dict_set k v d) \<subseteq> insert (k, v) (set d)"
  by (induction k v d rule: dict_set.induct) auto

lemma record_candidate_keys: "fst ` set (record_candidate c d) = insert (cf_path c) (fst ` set d)"
proof -
  have keys: "fst ` set (dict_set k v d) = insert k (fst ` set d)" for k and v :: candidate_file
    using keys_dict_set [of k v d] by simp
  show ?thesis by (auto simp: record_candidate_def keys dest: map_of_SomeD split: option.split) (force dest: map_of_SomeD)
qed

lemma record_candidate_set: "set (record_candidate c d) \<subseteq> insert (cf_path c, c) (set d)"
  using set_dict_set_subset [of "cf_path c" c d] by (simp add: record_candidate_def subset_insertI split: option.split)

definition sound_candidate :: "source_edge list \<Rightarrow> pystr list \<Rightarrow> nat \<Rightarrow> pystr \<times> candidate_file \<Rightarrow> bool" where
  "sound_candidate edges seeds D kc \<longleftrightarrow> cf_path (snd kc) = fst kc \<and> 1 \<le> cf_depth (snd kc) \<and> cf_depth (snd kc) \<le> D
     \<and> (\<exists>p\<in>within edges seeds (cf_depth (snd kc) - 1). adjacent edges p (fst kc))"

lemma visit_best:
  "dict_get (rk_best (visit D n (p, name, imported) st)) q =
     (if q = p \<and> n < best_depth D st p then Some n else dict_get (rk_best st) q)"
  by (auto simp: visit_def Let_def best_depth_def dict_get_set split: option.split)

lemma visit_candidates:
  "\<exists>c. rk_candidates (visit D n (p, name, imported) st) = record_candidate c (rk_candidates st)
     \<and> cf_path c = p \<and> cf_depth c = n"
  by (auto simp: visit_def Let_def split: option.split)

text \<open>What visiting the neighbours of one file does to the search.\<close>

lemma visits_queue:
  "\<exists>new. rk_queue (fold (visit D n) es st) = rk_queue st @ new \<and> set new \<subseteq> (fst ` set es) \<times> {n}"
proof (induction es arbitrary: st)
  case (Cons e es)
  obtain p name imported where e: "e = (p, name, imported)" by (rule prod_cases3)
  obtain new where "rk_queue (fold (visit D n) es (visit D n e st)) = rk_queue (visit D n e st) @ new"
    "set new \<subseteq> (fst ` set es) \<times> {n}" using Cons.IH by blast
  then show ?case
    by (intro exI [of _ "(if n < best_depth D st p then [(p, n)] else []) @ new"]) (auto simp: e visit_queue)
qed simp

lemma visits_known:
  "n \<le> D \<Longrightarrow> q \<in> fst ` set es \<or> best_depth D st q \<le> n \<Longrightarrow> best_depth D (fold (visit D n) es st) q \<le> n"
proof (induction es arbitrary: st)
  case (Cons e es)
  obtain p name imported where e: "e = (p, name, imported)" by (rule prod_cases3)
  show ?case unfolding fold_simps
    by (rule Cons.IH [OF Cons.prems(1)]) (use Cons.prems(2) in \<open>auto simp: e visit_best_depth\<close>)
qed simp

lemma visits_best:
  "dict_get (rk_best (fold (visit D n) es st)) q = dict_get (rk_best st) q
   \<or> (dict_get (rk_best (fold (visit D n) es st)) q = Some n
      \<and> (q, n) \<in> set (rk_queue (fold (visit D n) es st)) \<and> q \<in> fst ` set es \<and> n < best_depth D st q)"
proof (induction es arbitrary: st)
  case (Cons e es)
  obtain p name imported where e: "e = (p, name, imported)" by (rule prod_cases3)
  obtain new where new: "rk_queue (fold (visit D n) es (visit D n e st)) = rk_queue (visit D n e st) @ new"
    using visits_queue by blast
  show ?case
  proof (cases "q = p \<and> n < best_depth D st p")
    case True
    have "\<not> n < best_depth D (visit D n e st) q" using True by (simp add: e visit_best_depth)
    then have "dict_get (rk_best (fold (visit D n) es (visit D n e st))) q = dict_get (rk_best (visit D n e st)) q"
      using Cons.IH [of "visit D n e st"] by blast
    moreover have "(q, n) \<in> set (rk_queue (fold (visit D n) es (visit D n e st)))"
      unfolding new using True by (simp add: e visit_queue)
    ultimately show ?thesis using True by (simp add: e visit_best)
  next
    case False
    have "best_depth D (visit D n e st) q = best_depth D st q" "dict_get (rk_best (visit D n e st)) q = dict_get (rk_best st) q"
      using False by (auto simp: e visit_best_depth visit_best)
    then show ?thesis using Cons.IH [of "visit D n e st"] by auto
  qed
qed simp

lemma visits_candidates:
  "fst ` set (rk_candidates (fold (visit D n) es st)) = fst ` set (rk_candidates st) \<union> fst ` set es"
proof (induction es arbitrary: st)
  case (Cons e es)
  obtain p name imported where e: "e = (p, name, imported)" by (rule prod_cases3)
  have "fst ` set (rk_candidates (visit D n e st)) = insert p (fst ` set (rk_candidates st))"
    using visit_candidates [of D n p name imported st] unfolding e by (metis record_candidate_keys)
  then show ?case by (simp add: Cons.IH e)
qed simp

lemma visits_sound:
  assumes "1 \<le> n" "n \<le> D" and "\<forall>q\<in>fst ` set es. \<exists>p\<in>within edges seeds (n - 1). adjacent edges p q"
  shows "list_all (sound_candidate edges seeds D) (rk_candidates st) \<Longrightarrow>
    list_all (sound_candidate edges seeds D) (rk_candidates (fold (visit D n) es st))"
  using assms(3)
proof (induction es arbitrary: st)
  case (Cons e es)
  obtain p name imported where e: "e = (p, name, imported)" by (rule prod_cases3)
  obtain c where c: "rk_candidates (visit D n e st) = record_candidate c (rk_candidates st)" "cf_path c = p" "cf_depth c = n"
    using visit_candidates e by blast
  have "sound_candidate edges seeds D (cf_path c, c)"
    using assms(1,2) Cons.prems(2) by (simp add: sound_candidate_def c e)
  then have "list_all (sound_candidate edges seeds D) (rk_candidates (visit D n e st))"
    using record_candidate_set [of c "rk_candidates st"] Cons.prems(1) unfolding c list_all_iff by blast
  then show ?case using Cons by simp
qed simp

text \<open>The invariant of the search.\<close>

definition search_inv :: "source_edge list \<Rightarrow> pystr list \<Rightarrow> nat \<Rightarrow> ranking \<Rightarrow> bool" where
  "search_inv edges seeds D st \<longleftrightarrow>
     (\<forall>(p, d)\<in>set (rk_queue st). p \<in> within edges seeds d)
     \<and> (\<forall>s\<in>set seeds. dict_get (rk_best st) s = Some 0)
     \<and> (\<forall>p d. dict_get (rk_best st) p = Some d \<longrightarrow> (p, d) \<in> set (rk_queue st) \<or> D \<le> d
          \<or> (\<forall>q. adjacent edges p q \<longrightarrow> q \<in> fst ` set (rk_candidates st) \<and> best_depth D st q \<le> Suc d))
     \<and> list_all (sound_candidate edges seeds D) (rk_candidates st)"

lemma visits_search_inv:
  assumes inv: "search_inv edges seeds D st" and q: "rk_queue st = (path, depth) # rest" and d: "depth < D"
  shows "search_inv edges seeds D (fold (visit D (Suc depth)) (neighbours edges path) (st\<lparr>rk_queue := rest\<rparr>))"
proof -
  let ?es = "neighbours edges path" and ?s = "st\<lparr>rk_queue := rest\<rparr>"
  let ?s' = "fold (visit D (Suc depth)) ?es ?s"
  have path: "path \<in> within edges seeds depth" using inv q by (auto simp: search_inv_def)
  have es: "fst ` set ?es = {q. adjacent edges path q}" by (rule neighbours_adjacent)
  obtain new where new: "rk_queue ?s' = rest @ new" "set new \<subseteq> {q. adjacent edges path q} \<times> {Suc depth}"
    using visits_queue [of D "Suc depth" ?es ?s] by (auto simp: es)
  have cands: "fst ` set (rk_candidates ?s') = fst ` set (rk_candidates st) \<union> {q. adjacent edges path q}"
    by (simp add: visits_candidates es)
  have mono: "best_depth D ?s' r \<le> best_depth D st r" for r
    using visits_best [of D "Suc depth" ?es ?s r] by (auto simp: best_depth_def)
  have "\<forall>(p, d)\<in>set (rk_queue ?s'). p \<in> within edges seeds d"
    using inv q new path by (fastforce simp: search_inv_def)
  moreover have "dict_get (rk_best ?s') s = Some 0" if "s \<in> set seeds" for s
    using visits_best [of D "Suc depth" ?es ?s s] inv that by (auto simp: search_inv_def best_depth_def)
  moreover have "(p, e) \<in> set (rk_queue ?s') \<or> D \<le> e
      \<or> (\<forall>q. adjacent edges p q \<longrightarrow> q \<in> fst ` set (rk_candidates ?s') \<and> best_depth D ?s' q \<le> Suc e)"
    if best: "dict_get (rk_best ?s') p = Some e" for p e
  proof (cases "dict_get (rk_best ?s') p = dict_get (rk_best ?s) p")
    case False
    then show ?thesis using visits_best [of D "Suc depth" ?es ?s p] best by auto
  next
    case same: True
    then have old: "(p, e) \<in> set (rk_queue st) \<or> D \<le> e
        \<or> (\<forall>q. adjacent edges p q \<longrightarrow> q \<in> fst ` set (rk_candidates st) \<and> best_depth D st q \<le> Suc e)"
      using inv best by (simp add: search_inv_def)
    show ?thesis
    proof (cases "(p, e) = (path, depth)")
      case True
      have "best_depth D ?s' q \<le> Suc depth" if "adjacent edges path q" for q
        by (rule visits_known) (use that d es in auto)
      then show ?thesis using True cands by auto
    next
      case False
      then show ?thesis using old q new cands by (auto intro: le_trans [OF mono])
    qed
  qed
  moreover have "list_all (sound_candidate edges seeds D) (rk_candidates ?s')"
    by (rule visits_sound) (use d path inv in \<open>auto simp: es search_inv_def\<close>)
  ultimately show ?thesis by (simp add: search_inv_def)
qed

lemma rank_search_inv:
  "search_inv edges seeds D st \<Longrightarrow> search_inv edges seeds D (rank_search edges D st) \<and> rk_queue (rank_search edges D st) = []"
proof (induction edges D st rule: rank_search.induct)
  case (1 edges D st)
  show ?case
  proof (cases "rk_queue st")
    case Nil
    with 1 show ?thesis by (simp add: rank_search.simps [of edges D st])
  next
    case (Cons pd rest)
    obtain path depth where pd: "pd = (path, depth)" by (cases pd)
    note q = Cons [unfolded pd]
    show ?thesis
    proof (cases "D \<le> depth")
      case True
      have "search_inv edges seeds D (st\<lparr>rk_queue := rest\<rparr>)"
        unfolding search_inv_def
      proof (intro conjI allI impI)
        fix p d assume "dict_get (rk_best (st\<lparr>rk_queue := rest\<rparr>)) p = Some d"
        then have "(p, d) \<in> set (rk_queue st) \<or> D \<le> d
            \<or> (\<forall>q. adjacent edges p q \<longrightarrow> q \<in> fst ` set (rk_candidates st) \<and> best_depth D st q \<le> Suc d)"
          using 1(3) by (simp add: search_inv_def)
        then show "(p, d) \<in> set (rk_queue (st\<lparr>rk_queue := rest\<rparr>)) \<or> D \<le> d
            \<or> (\<forall>q. adjacent edges p q \<longrightarrow> q \<in> fst ` set (rk_candidates (st\<lparr>rk_queue := rest\<rparr>))
              \<and> best_depth D (st\<lparr>rk_queue := rest\<rparr>) q \<le> Suc d)"
          using q True by (auto simp: best_depth_def)
      qed (use 1(3) q in \<open>auto simp: search_inv_def\<close>)
      from 1(1) [OF q refl refl True this] show ?thesis
        by (simp add: rank_search.simps [of edges D st] q True)
    next
      case False
      from 1(2) [OF q refl refl False] visits_search_inv [OF 1(3) q] False show ?thesis
        by (simp add: rank_search.simps [of edges D st] q)
    qed
  qed
qed

lemma search_reaches:
  assumes inv: "search_inv edges seeds D st" and finished: "rk_queue st = []"
  shows "p \<in> within edges seeds d \<Longrightarrow> d \<le> D \<Longrightarrow> best_depth D st p \<le> d"
proof (induction d arbitrary: p)
  case 0
  then show ?case using inv by (simp add: search_inv_def best_depth_def)
next
  case (Suc d)
  show ?case
  proof (cases "p \<in> within edges seeds d")
    case True
    then show ?thesis using Suc.IH [OF True] Suc.prems(2) by simp
  next
    case False
    then obtain p' where p': "p' \<in> within edges seeds d" "adjacent edges p' p" using Suc.prems(1) by auto
    have b: "best_depth D st p' \<le> d" using Suc.IH [OF p'(1)] Suc.prems(2) by simp
    then obtain e where e: "dict_get (rk_best st) p' = Some e" "e \<le> d"
      using Suc.prems(2) by (auto simp: best_depth_def split: option.splits)
    then have "best_depth D st p \<le> Suc e"
      using inv finished p'(2) Suc.prems(2) by (fastforce simp: search_inv_def)
    then show ?thesis using e(2) by simp
  qed
qed

lemma search_candidates:
  assumes inv: "search_inv edges seeds D st" and finished: "rk_queue st = []"
  shows "fst ` set (rk_candidates st) = {q. \<exists>d p. d < D \<and> p \<in> within edges seeds d \<and> adjacent edges p q}"
proof (intro equalityI subsetI)
  fix q assume "q \<in> fst ` set (rk_candidates st)"
  then obtain c where "(q, c) \<in> set (rk_candidates st)" by auto
  then have "sound_candidate edges seeds D (q, c)" using inv by (auto simp: search_inv_def list_all_iff)
  then obtain p where "p \<in> within edges seeds (cf_depth c - 1)" "adjacent edges p q" "cf_depth c - 1 < D"
    by (auto simp: sound_candidate_def)
  then show "q \<in> {q. \<exists>d p. d < D \<and> p \<in> within edges seeds d \<and> adjacent edges p q}" by blast
next
  fix q assume "q \<in> {q. \<exists>d p. d < D \<and> p \<in> within edges seeds d \<and> adjacent edges p q}"
  then obtain d p where d: "d < D" and p: "p \<in> within edges seeds d" "adjacent edges p q" by blast
  have "best_depth D st p \<le> d" by (rule search_reaches [OF inv finished p(1)]) (use d in simp)
  then obtain e where "dict_get (rk_best st) p = Some e" "e < D"
    using d by (auto simp: best_depth_def split: option.splits)
  then show "q \<in> fst ` set (rk_candidates st)"
    using inv finished p(2) by (fastforce simp: search_inv_def)
qed

lemma seeds_depth: "s \<in> set seeds \<Longrightarrow> dict_get (dict_of_pairs (map (\<lambda>s. (s, 0::nat)) seeds)) s = Some 0"
proof -
  have "dict_get (fold (\<lambda>(k, v) d. dict_set k v d) (map (\<lambda>s. (s, 0::nat)) xs) d) s
      = (if s \<in> set xs then Some 0 else dict_get d s)" for xs d
    by (induction xs arbitrary: d) (auto simp: dict_get_set)
  then show "s \<in> set seeds \<Longrightarrow> ?thesis" by (simp add: dict_of_pairs_def)
qed

lemma distinct_rank_candidates:
  "distinct (map fst (rk_candidates st)) \<Longrightarrow> distinct (map fst (rk_candidates (rank_search edges D st)))"
proof (induction edges D st rule: rank_search.induct)
  case (1 edges D st)
  have rc: "distinct (map fst (record_candidate c d))" if "distinct (map fst d)" for c d
    using distinct_dict_set [OF that] that by (simp add: record_candidate_def split: option.split)
  have "distinct (map fst (rk_candidates (visit D n e s)))" if "distinct (map fst (rk_candidates s))" for n e s
  proof -
    obtain p name imported where e: "e = (p, name, imported)" by (rule prod_cases3)
    obtain c where "rk_candidates (visit D n e s) = record_candidate c (rk_candidates s)"
      using visit_candidates e by blast
    then show ?thesis using rc [OF that] by simp
  qed
  then have v: "distinct (map fst (rk_candidates (fold (visit D n) es s)))" if "distinct (map fst (rk_candidates s))" for n es s
    using that by (induction es arbitrary: s) auto
  show ?case
    by (subst rank_search.simps) (use 1 v in \<open>auto simp: Let_def split: list.split\<close>)
qed

lemma rank_neighbours_sound:
  "set (map cf_path (rank_neighbours D edges seeds)) = {q. \<exists>d p. d < D \<and> p \<in> within edges seeds d \<and> adjacent edges p q}"
  "distinct (map cf_path (rank_neighbours D edges seeds))"
  "list_all (\<lambda>c. sound_candidate edges seeds D (cf_path c, c)) (rank_neighbours D edges seeds)"
proof -
  let ?init = "\<lparr>rk_queue = map (\<lambda>s. (s, 0)) seeds, rk_best = dict_of_pairs (map (\<lambda>s. (s, 0)) seeds), rk_candidates = []\<rparr>"
  let ?st = "rank_search edges D ?init"
  have zero: "d = 0 \<and> p \<in> set seeds" if "dict_get (dict_of_pairs (map (\<lambda>s. (s, 0::nat)) seeds)) p = Some d" for p d
  proof -
    have "(p, d) \<in> set (dict_of_pairs (map (\<lambda>s. (s, 0::nat)) seeds))" using that by (rule map_of_SomeD)
    then show ?thesis using set_dict_of_pairs by fastforce
  qed
  have "search_inv edges seeds D ?init"
    using zero by (auto simp: search_inv_def seeds_depth)
  note st = rank_search_inv [OF this]
  have keys: "map fst (rk_candidates ?st) = map cf_path (map snd (rk_candidates ?st))"
    using st by (auto simp: search_inv_def list_all_iff sound_candidate_def)
  have sorted: "mset (rank_neighbours D edges seeds) = mset (map snd (rk_candidates ?st))"
    by (simp add: rank_neighbours_def)
  have "set (map cf_path (rank_neighbours D edges seeds)) = set (map fst (rk_candidates ?st))"
    unfolding keys using mset_eq_setD [OF sorted] by (simp add: image_image)
  then show "set (map cf_path (rank_neighbours D edges seeds)) = {q. \<exists>d p. d < D \<and> p \<in> within edges seeds d \<and> adjacent edges p q}"
    using search_candidates st by simp
  have paths: "mset (map cf_path (rank_neighbours D edges seeds)) = mset (map fst (rk_candidates ?st))"
    unfolding keys using sorted by (metis mset_map)
  then show "distinct (map cf_path (rank_neighbours D edges seeds))"
    using distinct_rank_candidates [of ?init edges D] unfolding mset_eq_imp_distinct_iff [OF paths] by simp
  show "list_all (\<lambda>c. sound_candidate edges seeds D (cf_path c, c)) (rank_neighbours D edges seeds)"
    using st mset_eq_setD [OF sorted] by (auto simp: search_inv_def list_all_iff sound_candidate_def)
qed

section \<open>The budget holds\<close>

lemma cut_to_line_prefix: "\<exists>r. content = cut_to_line content @ r"
proof -
  have "content = rev (dropWhile (\<lambda>c. c \<noteq> nl) (rev content)) @ rev (takeWhile (\<lambda>c. c \<noteq> nl) (rev content))"
    by (metis rev_append rev_rev_ident takeWhile_dropWhile_id)
  then show ?thesis unfolding cut_to_line_def by (metis append_Nil2)
qed

text \<open>A snippet that was kept shows a first part of the original.\<close>

definition shortens :: "snippet \<Rightarrow> snippet \<Rightarrow> bool" where
  "shortens f s \<longleftrightarrow> ss_path f = ss_path s \<and> ss_reason f = ss_reason s \<and> ss_start_line f = ss_start_line s
     \<and> startswith (ss_content s) (ss_content f)"

lemma shortens_refl: "shortens s s"
  by (simp add: shortens_def startswith_iff)

lemma fit_snippets_sound:
  "0 \<le> n \<Longrightarrow> fit_snippets n ss = (fitted, truncated) \<Longrightarrow>
     content_chars fitted \<le> n \<and> length fitted \<le> length ss
     \<and> list_all2 shortens fitted (take (length fitted) ss) \<and> (truncated \<or> fitted = ss)"
proof (induction n ss arbitrary: fitted truncated rule: fit_snippets.induct)
  case (2 n s ss)
  show ?case
  proof (cases "0 < n \<and> int (length (ss_content s)) \<le> n")
    case True
    obtain fitted' where rec: "fit_snippets (n - int (length (ss_content s))) ss = (fitted', truncated)"
      and f: "fitted = s # fitted'"
      using 2(3) True by (auto split: prod.splits)
    have le: "\<not> n \<le> 0" "int (length (ss_content s)) \<le> n" "0 \<le> n - int (length (ss_content s))" using True by simp_all
    from 2(1) [OF le rec] show ?thesis by (auto simp: f content_chars_def shortens_refl)
  next
    case False
    let ?c = "cut_to_line (take (nat n) (ss_content s))"
    show ?thesis
    proof (cases "n \<le> 0 \<or> ?c = []")
      case True
      then have "fitted = []" "truncated" using 2(3) False by (auto simp: Let_def split: if_splits)
      then show ?thesis using 2(2) by (simp add: content_chars_def)
    next
      case cut: False
      then have f: "fitted = [truncate_snippet s ?c]" "truncated"
        using 2(3) False by (auto simp: Let_def split: if_splits)
      obtain r where r: "take (nat n) (ss_content s) = ?c @ r" using cut_to_line_prefix by blast
      have "length ?c \<le> length (take (nat n) (ss_content s))" by (subst r) simp
      then have "length ?c \<le> nat n" by simp
      then have "int (length ?c) \<le> n" using cut by arith
      moreover have "ss_content s = ?c @ (r @ drop (nat n) (ss_content s))"
        using r by (metis append.assoc append_take_drop_id)
      ultimately show ?thesis
        by (auto simp: f content_chars_def truncate_snippet_def shortens_def startswith_iff)
    qed
  qed
qed (simp add: content_chars_def)

lemma related_snippets_sound:
  assumes "distinct (map ss_path related)" and "set (map ss_path related) \<subseteq> selected" and "int (length related) \<le> max 0 (ex_max_related_files ex)"
  shows "distinct (map ss_path (related_snippets ex t idx query cs selected related))
    \<and> int (length (related_snippets ex t idx query cs selected related)) \<le> max 0 (ex_max_related_files ex)
    \<and> set (map ss_path (related_snippets ex t idx query cs selected related))
        \<subseteq> set (map ss_path related) \<union> (set (map cf_path cs) - selected)"
  using assms
proof (induction cs arbitrary: selected related)
  case (Cons c cs)
  show ?case
  proof (cases "ex_max_related_files ex \<le> int (length related) \<or> cf_path c \<in> selected \<or> read_candidate ex t idx c query = None")
    case True
    then show ?thesis using Cons.IH [OF Cons.prems] Cons.prems by (auto split: option.split)
  next
    case False
    then obtain s where s: "read_candidate ex t idx c query = Some s" by blast
    have p: "ss_path s = cf_path c"
      using s by (auto simp: read_candidate_def Let_def split: option.splits sum.splits if_splits)
    have d: "distinct (map ss_path (related @ [s]))" "set (map ss_path (related @ [s])) \<subseteq> insert (cf_path c) selected"
      "int (length (related @ [s])) \<le> max 0 (ex_max_related_files ex)"
      using Cons.prems False p by auto
    from Cons.IH [OF d] False s p show ?thesis by auto
  qed
qed simp

section \<open>Properties\<close>

text \<open>
  C29 The neighbours are exactly the files within reach: searching the import graph, against and
  along its edges, ends, and the files it ranks are those adjacent to a file fewer than the
  maximal number of steps from a seed, each once, with a depth of at most the maximum at which
  the file can be reached.
\<close>

theorem ranked_neighbours_complete:
  "set (map cf_path (rank_neighbours depth edges seeds))
      = {q. \<exists>d p. d < depth \<and> p \<in> within edges seeds d \<and> adjacent edges p q}
   \<and> distinct (map cf_path (rank_neighbours depth edges seeds))
   \<and> list_all (\<lambda>c. cf_depth c \<le> depth \<and> cf_path c \<in> within edges seeds (cf_depth c)) (rank_neighbours depth edges seeds)"
proof (intro conjI)
  have "cf_path c \<in> within edges seeds (cf_depth c)" if "sound_candidate edges seeds depth (cf_path c, c)" for c
    using that by (cases "cf_depth c") (auto simp: sound_candidate_def)
  then show "list_all (\<lambda>c. cf_depth c \<le> depth \<and> cf_path c \<in> within edges seeds (cf_depth c)) (rank_neighbours depth edges seeds)"
    using rank_neighbours_sound(3) [of edges seeds depth] by (auto simp: list_all_iff sound_candidate_def)
qed (rule rank_neighbours_sound)+

text \<open>
  The expanded context keeps the token budget: its estimated size is within the maximum, the
  snippets are those of the base selection followed by neighbours, cut only at the end and
  without changing their order, and the flag of the metadata is not set unless all of them are
  there in full.
\<close>

theorem expansion_within_budget:
  assumes "ex = expander_init tokens depth related_files lines"
    and "fit_budget ex snippets = (fitted, estimate, truncated)"
  shows "estimate \<le> ex_max_selected_tokens ex \<and> content_chars fitted \<le> 4 * ex_max_selected_tokens ex
    \<and> list_all2 shortens fitted (take (length fitted) snippets) \<and> (truncated \<or> fitted = snippets)"
proof -
  have pos: "0 \<le> ex_max_selected_tokens ex * 4" by (simp add: assms(1) expander_init_def)
  have fit: "fit_snippets (ex_max_selected_tokens ex * 4) snippets = (fitted, truncated)"
    and est: "estimate = estimate_tokens (content_chars fitted)"
    using assms(2) by (auto simp: fit_budget_def split: prod.splits)
  from fit_snippets_sound [OF pos fit] have c: "content_chars fitted \<le> ex_max_selected_tokens ex * 4" by blast
  have "estimate \<le> ex_max_selected_tokens ex"
    unfolding est estimate_tokens_def using c pos by linarith
  with c fit_snippets_sound [OF pos fit] show ?thesis by (simp add: mult.commute)
qed

theorem expansion_within_budget_witness:
  "4 * 100 \<ge> content_chars (fst (fit_budget (expander_init 1 2 6 20)
     [plain_snippet ''a.py'' ''r'' (1, 1, replicate 300 (CHR ''a'')), plain_snippet ''b.py'' ''r'' (1, 1, replicate 300 (CHR ''b''))]))"
proof -
  let ?ex = "expander_init 1 2 6 20"
  let ?ss = "[plain_snippet ''a.py'' ''r'' (1, 1, replicate 300 (CHR ''a'')), plain_snippet ''b.py'' ''r'' (1, 1, replicate 300 (CHR ''b''))]"
  obtain fitted n b where r: "fit_budget ?ex ?ss = (fitted, n, b)" by (rule prod_cases3)
  from expansion_within_budget [OF refl r] have "content_chars fitted \<le> 4 * ex_max_selected_tokens ?ex" by blast
  then show ?thesis unfolding r by (simp add: expander_init_def)
qed

end
