(* ===== verification/Agent.thy ===== *)
theory Agent
  imports Configuration EngineCandidate Prompting RepositoryContext
begin

text \<open>
  The facade \<open>DefaultAgent\<close> (\<open>agent/default_agent.py\<close>): it checks and clamps its settings, and it
  assembles the engine from the modelled components: the session of the workspace, the test
  runner on the sandbox that the factory built, the context provider, the prompts, the two
  backends, the retry policy and the semantic review.
\<close>

section \<open>The agent\<close>

text \<open>The arguments of the constructor.\<close>

record agent_options =
  ao_patch_output_dir :: pystr
  ao_max_iterations :: int
  ao_initial_mode :: json
  ao_context_strategy :: json
  ao_line_window :: int
  ao_max_files :: int
  ao_max_expansion_level :: int
  ao_fallback_to_full :: bool
  ao_include_tests :: bool
  ao_require_clean :: bool
  ao_allowed_paths :: "json list"
  ao_max_changed_files :: int
  ao_max_changed_lines :: int
  ao_isolate :: bool
  ao_test_commands :: "pystr list list option"
  ao_review_enabled :: bool
  ao_review_max_revisions :: int
  ao_review_parse_retries :: int
  ao_review_model_retries :: int
  ao_review_max_context_chars :: int
  ao_review_max_feedback_chars :: int
  ao_review_max_risks :: int
  ao_review_max_contracts :: int
  ao_repository_enabled :: bool
  ao_cache_dir :: "pystr option"
  ao_index_max_files :: int
  ao_index_max_file_bytes :: int
  ao_max_graph_depth :: int
  ao_max_related_files :: int
  ao_max_snippet_lines :: int
  ao_max_selected_tokens :: int

record default_agent =
  da_sandbox :: "local_sandbox + container_sandbox"
  da_options :: agent_options
  da_initial_mode :: pystr
  da_context_strategy :: pystr
  da_test_commands :: "pystr list list"
  da_cache_dir :: pystr
  da_edit_policy :: edit_policy

text \<open>A value that must be one of some texts; a list or a mapping has no hash.\<close>

definition choice_of :: "pystr list \<Rightarrow> pystr \<Rightarrow> json \<Rightarrow> start_error + pystr" where
  "choice_of allowed m v = (case v of
     JStr s \<Rightarrow> (if s \<in> set allowed then Inr s else Inl (Refused (ValueError m)))
   | JArr _ \<Rightarrow> Inl (BadSetting IndexTypeError)
   | JObj _ \<Rightarrow> Inl (BadSetting IndexTypeError)
   | _ \<Rightarrow> Inl (Refused (ValueError m)))"

definition quoted_choice :: "pystr \<Rightarrow> pystr \<Rightarrow> pystr \<Rightarrow> pystr" where
  "quoted_choice name a b = (let q = [CHR 0x27] in name @ '' must be '' @ q @ a @ q @ '' or '' @ q @ b @ q)"

text \<open>
  An allowed path that is no text fails only when the first edit is checked; here it ends the
  construction.
\<close>

definition text_items :: "json list \<Rightarrow> start_error + pystr list" where
  "text_items xs = map_result (\<lambda>v. case v of JStr s \<Rightarrow> Inr s | _ \<Rightarrow> Inl (BadSetting IndexAttributeError)) xs"

definition clamped_options :: "agent_options \<Rightarrow> agent_options" where
  "clamped_options o' = o'\<lparr>
     ao_max_iterations := max 1 (ao_max_iterations o'),
     ao_line_window := max 0 (ao_line_window o'),
     ao_max_files := max 1 (ao_max_files o'),
     ao_max_expansion_level := max 0 (ao_max_expansion_level o'),
     ao_max_changed_files := max 1 (ao_max_changed_files o'),
     ao_max_changed_lines := max 1 (ao_max_changed_lines o'),
     ao_review_max_revisions := max 0 (ao_review_max_revisions o'),
     ao_review_parse_retries := max 0 (ao_review_parse_retries o'),
     ao_review_model_retries := max 0 (ao_review_model_retries o'),
     ao_review_max_context_chars := max 1000 (ao_review_max_context_chars o'),
     ao_review_max_feedback_chars := max 200 (ao_review_max_feedback_chars o'),
     ao_review_max_risks := max 1 (ao_review_max_risks o'),
     ao_review_max_contracts := max 1 (ao_review_max_contracts o'),
     ao_index_max_files := max 1 (ao_index_max_files o'),
     ao_index_max_file_bytes := max 1 (ao_index_max_file_bytes o'),
     ao_max_graph_depth := max 0 (ao_max_graph_depth o'),
     ao_max_related_files := max 0 (ao_max_related_files o'),
     ao_max_snippet_lines := max 20 (ao_max_snippet_lines o'),
     ao_max_selected_tokens := max 100 (ao_max_selected_tokens o')\<rparr>"

definition path_parent :: "pystr \<Rightarrow> pystr" where
  "path_parent s = or_text (path_root s @ as_posix (butlast (path_names s))) ''.''"

definition built_workspace :: "local_sandbox + container_sandbox \<Rightarrow> pystr" where
  "built_workspace sb = case_sum ls_workspace cs_workspace sb"

definition default_agent_init ::
    "pyvals \<Rightarrow> local_sandbox + container_sandbox \<Rightarrow> agent_options \<Rightarrow> start_error + default_agent" where
  "default_agent_init py sb o' =
     res_bind (choice_of [''patch'', ''replacement''] (quoted_choice ''initial_mode'' ''patch'' ''replacement'')
       (ao_initial_mode o')) (\<lambda>mode.
     res_bind (choice_of [''full'', ''traceback''] (quoted_choice ''context_strategy'' ''full'' ''traceback'')
       (ao_context_strategy o')) (\<lambda>strategy.
     if \<not> isl sb \<and> \<not> ao_isolate o'
     then Inl (Refused (ValueError ''container sandbox requires an isolated temporary Git worktree''))
     else res_bind (map_sum Refused id (normalize_test_commands py (case ao_test_commands o' of
         None \<Rightarrow> JNull | Some cs \<Rightarrow> JArr (map (\<lambda>c. JArr (map JStr c)) cs)))) (\<lambda>commands.
     res_bind (text_items (ao_allowed_paths o')) (\<lambda>allowed.
     let c = clamped_options o' in
     Inr \<lparr>da_sandbox = sb, da_options = c, da_initial_mode = mode, da_context_strategy = strategy, da_test_commands = commands,
       da_cache_dir = (case ao_cache_dir o' of Some d \<Rightarrow> d | None \<Rightarrow> path_parent (ao_patch_output_dir o') @ ''/index''),
       da_edit_policy = default_edit_policy\<lparr>allowed_paths := allowed, max_files := ao_max_changed_files c,
         max_changed_lines := ao_max_changed_lines c\<rparr>\<rparr>))))"

section \<open>The engine of an agent\<close>

text \<open>
  What the engine uses and the model leaves open: the two model clients, the prompt templates,
  the listing and the index of the sources of a workspace, and the parser \<open>ast.parse\<close>. The test
  runner keeps the sandbox that it used last; \<open>pt_sandbox\<close> and \<open>pt_put_sandbox\<close> read and set it,
  with the part of the world that the commands see.
\<close>

record ('v, 'w) agent_parts =
  pt_os :: "'w os"
  pt_sandbox_os :: "'v os"
  pt_container :: "'v container_system"
  pt_sandbox :: "'w \<Rightarrow> (local_sandbox + container_sandbox) \<times> 'v"
  pt_put_sandbox :: "(local_sandbox + container_sandbox) \<times> 'v \<Rightarrow> 'w \<Rightarrow> 'w"
  pt_model :: "'w model"
  pt_review_model :: "'w model option"
  pt_python :: pyvals
  pt_parse :: "pystr \<Rightarrow> ast option"
  pt_index :: "'w \<Rightarrow> pystr \<Rightarrow> source_index \<times> (pystr \<times> json) list"
  pt_sources :: "'w \<Rightarrow> pystr \<Rightarrow> source_tree"
  pt_prompt :: "repair_mode \<Rightarrow> pystr \<Rightarrow> nat \<Rightarrow> int \<Rightarrow> pystr \<Rightarrow> pystr \<Rightarrow> pystr \<Rightarrow> pystr \<Rightarrow> pystr \<Rightarrow> pystr"
  pt_system_prompt :: pystr
  pt_review_context ::
    "int \<Rightarrow> bool \<Rightarrow> expander option \<Rightarrow> 'w \<Rightarrow> pystr \<Rightarrow> pystr \<Rightarrow> exn + (pystr \<times> json \<times> structural_cue list)"
  pt_review_prompt :: "pystr \<Rightarrow> pystr \<Rightarrow> pystr \<Rightarrow> pystr \<Rightarrow> nat \<Rightarrow> pystr"
  pt_review_system_prompt :: pystr
  pt_retry_prompt :: "pystr \<Rightarrow> pystr \<Rightarrow> pystr"

definition agent_expander :: "default_agent \<Rightarrow> expander option" where
  "agent_expander ag =
     (let c = da_options ag in
      if \<not> ao_repository_enabled c then None
      else Some (expander_init (ao_max_selected_tokens c) (ao_max_graph_depth c) (ao_max_related_files c)
        (ao_max_snippet_lines c)))"

text \<open>The sandbox that the factory built, behind the interface of the test runner.\<close>

definition built_ops :: "'v os \<Rightarrow> 'v container_system \<Rightarrow> (local_sandbox + container_sandbox, 'v) sandbox_ops" where
  "built_ops os cn = \<lparr>
     sb_run = (\<lambda>sb c w. case sb of
         Inl ls \<Rightarrow> apsnd (apfst Inl) (sb_run (local_ops os) ls c w)
       | Inr cs \<Rightarrow> apsnd (apfst Inr) (sb_run (container_ops cn) cs c w)),
     sb_with_workspace = (\<lambda>sb p. map_sum (\<lambda>ls. local_with_workspace ls p) (\<lambda>cs. container_with_workspace cs p) sb),
     sb_workspace = built_workspace,
     sb_basetemp = (\<lambda>sb root i. case sb of
         Inl ls \<Rightarrow> local_basetemp ls root i | Inr cs \<Rightarrow> container_basetemp cs root i)\<rparr>"

definition agent_runner ::
    "('v, 'w) agent_parts \<Rightarrow> pystr list list \<Rightarrow> local_sandbox + container_sandbox \<Rightarrow> (local_sandbox + container_sandbox, 'v) test_runner" where
  "agent_runner pt commands sb = \<lparr>tr_ops = built_ops (pt_sandbox_os pt) (pt_container pt), tr_sandbox = sb,
     tr_commands = commands, tr_resolve = resolve_path (pt_sandbox_os pt),
     tr_temporary_root = (\<lambda>v. gettempdir (pt_sandbox_os pt))\<rparr>"

definition agent_run_tests :: "('v, 'w) agent_parts \<Rightarrow> pystr list list \<Rightarrow> pystr \<Rightarrow> ('w, test_execution) io" where
  "agent_run_tests pt commands ws = (\<lambda>w. case pt_sandbox pt w of (sb, v) \<Rightarrow>
     (case run_tests ws (agent_runner pt commands sb, v) of
        (r, (tr, v')) \<Rightarrow> (r, pt_put_sandbox pt (tr_sandbox tr, v') w)))"

definition agent_services :: "('v, 'w) agent_parts \<Rightarrow> default_agent \<Rightarrow> pystr list list \<Rightarrow> context_provider \<Rightarrow> 'w services" where
  "agent_services pt ag commands pr =
     (let c = da_options ag in
      \<lparr>sv_os = pt_os pt, sv_run_tests = agent_run_tests pt commands,
       sv_strategy = pr_strategy pr, sv_line_window = pr_line_window pr, sv_max_files = pr_max_files pr,
       sv_allow_full = pr_fallback_to_full pr,
       sv_build_context = (\<lambda>w ws out plan. build_context (pt_parse pt) pr (pt_index pt w ws) (pt_sources pt w ws) out (Some plan)),
       sv_prompt = pt_prompt pt, sv_system_prompt = pt_system_prompt pt, sv_model = pt_model pt,
       sv_policy = da_edit_policy ag, sv_decode_error = decode_message (pt_python pt),
       sv_review_enabled = ao_review_enabled c,
       sv_review_context = pt_review_context pt (ao_review_max_context_chars c) (ao_include_tests c) (agent_expander ag),
       sv_review_prompt = pt_review_prompt pt,
       sv_reviewer = \<lparr>rv_model = (case pt_review_model pt of Some m \<Rightarrow> m | None \<Rightarrow> pt_model pt),
         rv_parser = parser_init (ao_review_max_risks c) (ao_review_max_feedback_chars c) (ao_review_max_contracts c),
         rv_max_parse_retries = ao_review_parse_retries c, rv_max_model_retries = ao_review_model_retries c,
         rv_system_prompt = pt_review_system_prompt pt, rv_retry_prompt = pt_retry_prompt pt, rv_python = pt_python pt\<rparr>,
       sv_max_semantic_revisions = max 0 (ao_review_max_revisions c),
       sv_review_max_feedback_chars = ao_review_max_feedback_chars c\<rparr>)"

definition agent_session :: "('v, 'w) agent_parts \<Rightarrow> default_agent \<Rightarrow> 'w \<Rightarrow> session" where
  "agent_session pt ag w = session_init (pt_os pt) w (built_workspace (da_sandbox ag)) (ao_patch_output_dir (da_options ag))
     (ao_require_clean (da_options ag)) (ao_isolate (da_options ag))"

definition build_engine :: "('v, 'w) agent_parts \<Rightarrow> default_agent \<Rightarrow> exn + 'w services \<times> retry" where
  "build_engine pt ag =
     res_bind (test_runner_init (da_test_commands ag)) (\<lambda>commands.
     res_bind (provider_init (da_context_strategy ag) (ao_line_window (da_options ag)) (ao_max_files (da_options ag))
       (ao_fallback_to_full (da_options ag)) (ao_include_tests (da_options ag)) (agent_expander ag)) (\<lambda>pr.
     res_bind (retry_init (da_initial_mode ag)) (\<lambda>rp.
     Inr (agent_services pt ag commands pr, rp))))"

definition agent_request :: "default_agent \<Rightarrow> pystr \<Rightarrow> repair_request" where
  "agent_request ag task = \<lparr>rq_task = task, rq_workspace = built_workspace (da_sandbox ag),
     rq_max_iterations = ao_max_iterations (da_options ag)\<rparr>"

definition agent_run :: "('v, 'w) agent_parts \<Rightarrow> default_agent \<Rightarrow> pystr \<Rightarrow> ('w, agent_result) io" where
  "agent_run pt ag task = (\<lambda>w. case build_engine pt ag of
     Inl e \<Rightarrow> (Inl e, w)
   | Inr (sv, rp) \<Rightarrow>
       (let w0 = pt_put_sandbox pt (da_sandbox ag, snd (pt_sandbox pt w)) w; rq = agent_request ag task in
        case engine_run sv rq (engine_start sv rq (agent_session pt ag w0) rp
          (context_policy_init (ao_max_expansion_level (da_options ag))) w0) of
        (r, s) \<Rightarrow> (r, en_world s)))"

section \<open>The agent is well formed\<close>

lemma validate_test_command_id: "validate_test_command c = Inr c' \<Longrightarrow> c' = c"
  by (auto simp: validate_test_command_def Let_def split: if_splits)

lemma validate_test_command_again: "validate_test_command c = Inr c' \<Longrightarrow> validate_test_command c' = Inr c'"
  by (frule validate_test_command_id) simp

lemma default_command_valid [simp]: "validate_test_command default_test_command = Inr default_test_command"
  by code_simp

lemma normalized_validates:
  "map_result (normalize_test_command py) xs = Inr cs \<Longrightarrow> map_result validate_test_command cs = Inr cs"
  by (induction xs arbitrary: cs)
    (auto simp: normalize_test_command_def split: sum.splits json.splits dest: validate_test_command_again)

text \<open>The commands that pass the normalization pass the test runner unchanged.\<close>

lemma normalized_commands_kept:
  assumes "normalize_test_commands py v = Inr cs"
  shows "test_runner_init cs = Inr cs" and "cs \<noteq> []"
proof -
  have "map_result validate_test_command cs = Inr cs \<and> cs \<noteq> []"
  proof (cases v)
    case (JArr raws)
    then have raws: "raws \<noteq> []" "map_result (normalize_test_command py) raws = Inr cs"
      using assms by (auto simp: normalize_test_commands_def split: if_splits)
    with normalized_validates map_result_length [OF raws(2)] show ?thesis by auto
  qed (use assms in \<open>auto simp: normalize_test_commands_def\<close>)
  then show "test_runner_init cs = Inr cs" "cs \<noteq> []" by (simp_all add: test_runner_init_def)
qed

definition well_formed_agent :: "default_agent \<Rightarrow> bool" where
  "well_formed_agent ag \<longleftrightarrow> (let c = da_options ag in
     da_initial_mode ag \<in> {''patch'', ''replacement''} \<and> da_context_strategy ag \<in> {''full'', ''traceback''}
     \<and> test_runner_init (da_test_commands ag) = Inr (da_test_commands ag) \<and> da_test_commands ag \<noteq> []
     \<and> (isl (da_sandbox ag) \<or> ao_isolate c)
     \<and> 1 \<le> ao_max_iterations c \<and> 0 \<le> ao_max_expansion_level c \<and> 0 \<le> ao_review_max_revisions c
     \<and> 1 \<le> max_files (da_edit_policy ag) \<and> 1 \<le> max_changed_lines (da_edit_policy ag))"

lemma choice_of_Inr: "choice_of xs m v = Inr y \<longleftrightarrow> v = JStr y \<and> y \<in> set xs"
  by (auto simp: choice_of_def split: json.splits if_splits)

lemma map_sum_result [simp]: "map_sum f g r = Inr y \<longleftrightarrow> (\<exists>x. r = Inr x \<and> y = g x)"
  by (cases r) auto

lemma agent_init_well_formed:
  assumes "default_agent_init py sb o' = Inr ag"
  shows "well_formed_agent ag" and "da_sandbox ag = sb" and "da_options ag = clamped_options o'"
  using assms
  by (auto simp: default_agent_init_def well_formed_agent_def clamped_options_def choice_of_Inr Let_def
      normalized_commands_kept split: if_splits)

text \<open>A well-formed agent always has its engine.\<close>

lemma well_formed_engine:
  assumes "well_formed_agent ag"
  obtains pr rp where "build_engine pt ag = Inr (agent_services pt ag (da_test_commands ag) pr, rp)"
    and "provider_init (da_context_strategy ag) (ao_line_window (da_options ag)) (ao_max_files (da_options ag))
       (ao_fallback_to_full (da_options ag)) (ao_include_tests (da_options ag)) (agent_expander ag) = Inr pr"
    and "retry_init (da_initial_mode ag) = Inr rp"
  using assms
  by (auto simp: well_formed_agent_def Let_def build_engine_def provider_init_def retry_init_def)

lemma agent_services_fields [simp]:
  "sv_review_enabled (agent_services pt ag cs pr) = ao_review_enabled (da_options ag)"
  "sv_os (agent_services pt ag cs pr) = pt_os pt"
  "sv_policy (agent_services pt ag cs pr) = da_edit_policy ag"
  "sv_run_tests (agent_services pt ag cs pr) = agent_run_tests pt cs"
  "sv_max_semantic_revisions (agent_services pt ag cs pr) = max 0 (ao_review_max_revisions (da_options ag))"
  by (simp_all add: agent_services_def Let_def)

section \<open>Either sandbox is a sandbox\<close>

lemma built_run_cases:
  assumes "sb_run (built_ops os cn) s c w = (r, s', w')"
  obtains (local) ls ls' where "s = Inl ls" "s' = Inl ls'" "sb_run (local_ops os) ls c w = (r, ls', w')"
  | (container) cs cs' where "s = Inr cs" "s' = Inr cs'" "sb_run (container_ops cn) cs c w = (r, cs', w')"
  using assms
  by (cases s) (auto simp: built_ops_def apsnd_def apfst_def map_prod_def split: prod.splits)

lemma built_workspace_ops:
  "sb_workspace (built_ops os cn) (Inl ls) = sb_workspace (local_ops os) ls"
  "sb_workspace (built_ops os cn) (Inr cs) = sb_workspace (container_ops cn) cs"
  by (simp_all add: built_ops_def built_workspace_def local_ops_def container_ops_def)

interpretation built: sandbox "built_ops os cn" for os cn
proof unfold_locales
  fix c s w r s' w'
  assume run: "sb_run (built_ops os cn) s c w = (r, s', w')"
  show "s' = s \<and> w' = w \<and> cr_exit_code r = 126 \<and> cr_infrastructure_error r" if "\<not> fst (is_command_allowed c)"
    using run by (cases rule: built_run_cases)
      (blast dest: local_sandbox.forbidden [OF that] container.forbidden [OF that])+
  show "clean_success r" if "cr_exit_code r = 0"
    using run by (cases rule: built_run_cases)
      (blast intro: local_sandbox.success_clean [OF _ that] container.success_clean [OF _ that])+
  show "sb_workspace (built_ops os cn) s' = sb_workspace (built_ops os cn) s"
    using run by (cases rule: built_run_cases)
      (simp_all add: built_workspace_ops local_sandbox.run_workspace container.run_workspace)
next
  fix s p
  show "sb_workspace (built_ops os cn) (sb_with_workspace (built_ops os cn) s p) = p"
    by (cases s) (simp_all add: built_ops_def built_workspace_def local_with_workspace_def
        container_with_workspace_def container_sandbox_init_def)
qed

lemma begin_isolated:
  assumes "tx_begin os tx st w = (Inr (a, tx'), w')" and "tx_isolate tx"
  shows "aw_isolated a" and "tx_active tx' = Some a"
    and "\<exists>root rel v. tx_temporary_root tx' = Some root
       \<and> aw_workspace a = resolve_path os v (path_join (path_join root [''repo'']) rel)"
  using assms
  by (auto simp: tx_begin_def io_defs Let_def split: if_splits option.splits prod.splits sum.splits) blast+

lemma prepare_isolated:
  assumes "prepare os (w, se) = (Inr p, (w', se'))" and "pw_error p = None" and "tx_isolate (se_tx se)"
  shows "pw_strategy p = worktree_strategy"
    and "\<exists>a root rel v. tx_active (se_tx se') = Some a \<and> aw_isolated a \<and> pw_workspace p = aw_workspace a
      \<and> tx_temporary_root (se_tx se') = Some root
      \<and> aw_workspace a = resolve_path os v (path_join (path_join root [''repo'']) rel)"
proof -
  obtain st w1 a tx w2 where t: "tx_begin os (se_tx se) st w1 = (Inr (a, tx), w2)"
    and p: "se_tx se' = tx" "pw_workspace p = aw_workspace a" "pw_strategy p = strategy_of se"
    using assms(1,2)
    by (auto simp: prepare_def not_prepared_def Let_def split: exn.splits prod.splits sum.splits if_splits)
  show "pw_strategy p = worktree_strategy" using p assms(3) by (simp add: strategy_of_def)
  show "\<exists>a root rel v. tx_active (se_tx se') = Some a \<and> aw_isolated a \<and> pw_workspace p = aw_workspace a
      \<and> tx_temporary_root (se_tx se') = Some root
      \<and> aw_workspace a = resolve_path os v (path_join (path_join root [''repo'']) rel)"
    using begin_isolated [OF t assms(3)] p by auto
qed

section \<open>Properties\<close>

text \<open>
  C13 The verdict on the visible tests of an agent, whichever sandbox it was built with: the run
  is a success exactly when every configured command ran with the exit status 0, and then none
  of them timed out, broke a policy or hit an infrastructure error; the sandbox that the agent
  keeps is bound to the workspace of the run.
\<close>

theorem agent_tests_verdict:
  assumes "agent_run_tests pt commands ws w = (Inr t, w')" and "commands \<noteq> []"
  shows "(te_success t \<longleftrightarrow> length (te_command_results t) = length commands
        \<and> (\<forall>r\<in>set (te_command_results t). cr_exit_code r = 0))
    \<and> (te_success t \<longrightarrow> \<not> te_infrastructure_error t)
    \<and> (\<exists>sb v'. w' = pt_put_sandbox pt (sb, v') w
        \<and> resolve_path (pt_sandbox_os pt) (snd (pt_sandbox pt w)) (built_workspace sb)
            = resolve_path (pt_sandbox_os pt) (snd (pt_sandbox pt w)) ws)"
proof -
  obtain sb v where sb: "pt_sandbox pt w = (sb, v)" by fastforce
  obtain tr v' where run: "run_tests ws (agent_runner pt commands sb, v) = (Inr t, (tr, v'))"
    and w': "w' = pt_put_sandbox pt (tr_sandbox tr, v') w"
    using assms(1) sb by (auto simp: agent_run_tests_def split: prod.splits)
  have "tr_ops (agent_runner pt commands sb) = built_ops (pt_sandbox_os pt) (pt_container pt)"
    "tr_commands (agent_runner pt commands sb) \<noteq> []" using assms(2) by (simp_all add: agent_runner_def)
  note v = built.run_tests_verdict [OF this run]
  show ?thesis using v(1,2,4) w' sb by (auto simp: agent_runner_def built_ops_def)
qed

definition demo_parts :: "(demo_world \<Rightarrow> command_process) \<Rightarrow> (demo_world, demo_world) agent_parts" where
  "demo_parts p = \<lparr>pt_os = demo_os\<lparr>git := edit_git\<rparr>, pt_sandbox_os = demo_os\<lparr>spawn := \<lambda>w d c t. (p w, w)\<rparr>,
     pt_container = undefined, pt_sandbox = \<lambda>w. (Inl \<lparr>ls_workspace = ''/r'', ls_timeout_seconds = 30\<rparr>, w),
     pt_put_sandbox = \<lambda>(sb, v) w. v, pt_model = sv_model demo_services,
     pt_review_model = Some (\<lambda>w a b. (Inr (demo_review_text, JNull), w)), pt_python = demo_py,
     pt_parse = \<lambda>s. None, pt_index = \<lambda>w ws. (demo_index, []),
     pt_sources = \<lambda>w ws. \<lparr>so_root = [''r''], so_fs = demo_fs, so_found = []\<rparr>,
     pt_prompt = \<lambda>m t i n f a b c d. ''prompt'', pt_system_prompt = ''system'',
     pt_review_context = \<lambda>n b e w ws d. Inr ([], JNull, []), pt_review_prompt = \<lambda>a b c d e. ''review'',
     pt_review_system_prompt = ''system'', pt_retry_prompt = \<lambda>a b. ''retry''\<rparr>"

theorem agent_tests_verdict_witness:
  "te_success (projr (fst (agent_run_tests (demo_parts (\<lambda>w. Ran 0 ''ok'' [])) [[''pytest'']] ''/w'' demo_state)))
    \<and> \<not> te_infrastructure_error (projr (fst (agent_run_tests (demo_parts (\<lambda>w. Ran 0 ''ok'' [])) [[''pytest'']] ''/w'' demo_state)))"
proof -
  let ?r = "agent_run_tests (demo_parts (\<lambda>w. Ran 0 ''ok'' [])) [[''pytest'']] ''/w'' demo_state"
  have "\<not> isl (fst ?r)" and ok: "te_success (projr (fst ?r))" by code_simp+
  then have r: "?r = (Inr (projr (fst ?r)), snd ?r)" by (simp add: prod_eq_iff)
  from agent_tests_verdict [OF r] ok show ?thesis by simp
qed

end
