(* ===== verification/Program.thy ===== *)
theory Program
  imports Agent
begin

text \<open>
  The program (\<open>main.py\<close>): the environment file, the two models, the agent of the settings, the
  run, the trace that is saved, and the exit status.
\<close>

section \<open>The environment file\<close>

definition split_assignment :: "pystr \<Rightarrow> (pystr \<times> pystr) option" where
  "split_assignment line =
     (let s = strip line in
      if s = [] \<or> startswith s ''#'' \<or> CHR ''='' \<notin> set s then None
      else (let key = takeWhile (\<lambda>c. c \<noteq> CHR ''='') s; v = drop (Suc (length key)) s in
        Some (strip key, strip_by (\<lambda>c. c = CHR 0x27) (strip_by (\<lambda>c. c = CHR 0x22) (strip v)))))"

text \<open>\<open>os.environ.setdefault\<close>: a name that is set keeps its value; an empty name cannot be set.\<close>

fun set_defaults :: "pystr list \<Rightarrow> (pystr \<times> pystr) list \<Rightarrow> exn + (pystr \<times> pystr) list" where
  "set_defaults [] env = Inr env"
| "set_defaults (line # ls) env =
     (case split_assignment line of
        None \<Rightarrow> set_defaults ls env
      | Some (key, v) \<Rightarrow>
          (if dict_get env key \<noteq> None then set_defaults ls env
           else if key = [] then Inl (OSError ''[Errno 22] Invalid argument'')
           else if CHR 0x00 \<in> set (key @ v) then Inl (ValueError ''embedded null byte'')
           else set_defaults ls (env @ [(key, v)])))"

definition load_dotenv_file :: "(exn + pystr) option \<Rightarrow> (pystr \<times> pystr) list \<Rightarrow> exn + (pystr \<times> pystr) list" where
  "load_dotenv_file content env = (case content of
     None \<Rightarrow> Inr env | Some (Inl e) \<Rightarrow> Inl e | Some (Inr s) \<Rightarrow> set_defaults (splitlines s) env)"

section \<open>The models\<close>

record model_settings =
  ml_name :: json
  ml_api_base :: json
  ml_api_key :: "pystr option"
  ml_temperature :: pystr
  ml_max_tokens :: int
  ml_timeout_seconds :: int
  ml_extra_body :: "(pystr \<times> json) list"
  ml_system_prompt_as_user :: bool

definition litellm_model_name :: "pyvals \<Rightarrow> (pystr \<times> json) list \<Rightarrow> json" where
  "litellm_model_name py d =
     (let name = jget_or d ''name'' (JStr ''gpt-4o-mini''); provider = jget d ''provider'' in
      if provider = JStr ''openai_compatible'' then JStr (''openai/'' @ json_str py name)
      else if json_truthy py provider then JStr (json_str py provider @ ''/'' @ json_str py name) else name)"

definition setting_int :: "number_ops \<Rightarrow> json \<Rightarrow> start_error + int" where
  "setting_int num v = map_sum BadSetting id (py_int (nm_int num) v)"

definition model_extra_body :: "pyvals \<Rightarrow> number_ops \<Rightarrow> (pystr \<times> json) list \<Rightarrow> start_error + (pystr \<times> json) list" where
  "model_extra_body py num d =
     (let thinking = (''enable_thinking'', JBool (as_bool py (jget_or d ''enable_thinking'' (JBool False))));
          budget = jget d ''thinking_budget'' in
      if budget = JNull then Inr [thinking]
      else res_bind (setting_int num budget) (\<lambda>n. Inr [thinking, (''thinking_budget'', JInt (max 1 n))]))"

definition dict_pop :: "pystr \<Rightarrow> (pystr \<times> json) list \<Rightarrow> (pystr \<times> json) list" where
  "dict_pop key d = filter (\<lambda>(k, v). k \<noteq> key) d"

definition review_model_config ::
    "pyvals \<Rightarrow> number_ops \<Rightarrow> (pystr \<times> json) list \<Rightarrow> (pystr \<times> json) list \<Rightarrow> start_error + (pystr \<times> json) list" where
  "review_model_config py num d rv =
     res_bind (setting_int num (jget_or rv ''max_output_tokens'' (JInt 3072))) (\<lambda>tokens.
     let enabled = as_bool py (jget_or rv ''enable_thinking'' (jget_or d ''enable_thinking'' (JBool False)));
         c = dict_set ''enable_thinking'' (JBool enabled) (dict_set ''max_tokens'' (JInt (max 256 tokens)) d);
         budget = jget rv ''thinking_budget'' in
     if enabled \<and> budget \<noteq> JNull
     then res_bind (setting_int num budget) (\<lambda>n. Inr (dict_set ''thinking_budget'' (JInt (max 1 n)) c))
     else Inr (dict_pop ''thinking_budget'' c))"

definition build_model ::
    "pyvals \<Rightarrow> number_ops \<Rightarrow> (pystr \<times> pystr) list \<Rightarrow> int \<Rightarrow> (pystr \<times> json) list \<Rightarrow> start_error + model_settings" where
  "build_model py num env default_max_tokens d =
     (let key_env = jget d ''api_key_env'' in
      res_bind (if \<not> json_truthy py key_env then Inr None
        else (case key_env of JStr k \<Rightarrow> Inr (dict_get env k) | _ \<Rightarrow> Inl (BadSetting IndexTypeError))) (\<lambda>api_key.
      res_bind (map_sum BadSetting id (nm_float num (jget_or d ''temperature'' (JFloat ''0.0'')))) (\<lambda>temperature.
      res_bind (setting_int num (jget_or d ''max_tokens'' (JInt default_max_tokens))) (\<lambda>tokens.
      res_bind (setting_int num (jget_or d ''timeout_seconds'' (JInt 60))) (\<lambda>t.
      res_bind (model_extra_body py num d) (\<lambda>extra.
      Inr \<lparr>ml_name = litellm_model_name py d, ml_api_base = jget d ''api_base'', ml_api_key = api_key,
        ml_temperature = temperature, ml_max_tokens = tokens, ml_timeout_seconds = t, ml_extra_body = extra,
        ml_system_prompt_as_user = as_bool py (jget_or d ''system_prompt_as_user'' (JBool False))\<rparr>))))))"

text \<open>A section that is no mapping ends the start; which exception it raises is not kept.\<close>

definition build_models ::
    "pyvals \<Rightarrow> number_ops \<Rightarrow> (pystr \<times> pystr) list \<Rightarrow> (pystr \<times> json) list \<Rightarrow> start_error + model_settings \<times> model_settings" where
  "build_models py num env config =
     (case (config_section config ''model'', config_section config ''semantic_review'') of
        (JObj d, JObj rv) \<Rightarrow>
          res_bind (review_model_config py num d rv) (\<lambda>reviewer.
          res_bind (build_model py num env 2000 d) (\<lambda>m.
          res_bind (build_model py num env 3072 reviewer) (\<lambda>r. Inr (m, r))))
      | _ \<Rightarrow> Inl (BadSetting IndexAttributeError))"

section \<open>The agent of the settings\<close>

text \<open>The agent that the command line builds.\<close>

definition options_of_config :: "run_config \<Rightarrow> agent_options" where
  "options_of_config rn =
     (let a = rn_agent rn; x = rn_context rn; s = rn_safety rn; v = rn_review rn; g = rn_repository rn in
      \<lparr>ao_patch_output_dir = ps_patch_output_dir (rn_paths rn), ao_max_iterations = as_max_iterations a,
       ao_initial_mode = as_initial_mode a, ao_context_strategy = xs_strategy x, ao_line_window = xs_line_window x,
       ao_max_files = xs_max_files x, ao_max_expansion_level = xs_max_expansion_level x,
       ao_fallback_to_full = xs_fallback_to_full x, ao_include_tests = xs_include_tests x,
       ao_require_clean = ss_require_clean s, ao_allowed_paths = ss_allowed_paths s,
       ao_max_changed_files = ss_max_changed_files s, ao_max_changed_lines = ss_max_changed_lines s,
       ao_isolate = ss_isolate s, ao_test_commands = Some (rn_tests rn), ao_review_enabled = vs_enabled v,
       ao_review_max_revisions = vs_max_revisions v, ao_review_parse_retries = vs_parse_retries v,
       ao_review_model_retries = vs_model_retries v, ao_review_max_context_chars = vs_max_context_chars v,
       ao_review_max_feedback_chars = vs_max_feedback_chars v, ao_review_max_risks = vs_max_risks v,
       ao_review_max_contracts = vs_max_contracts v, ao_repository_enabled = gs_enabled g,
       ao_cache_dir = Some (gs_cache_dir g), ao_index_max_files = gs_max_files g,
       ao_index_max_file_bytes = gs_max_file_bytes g, ao_max_graph_depth = gs_max_graph_depth g,
       ao_max_related_files = gs_max_related_files g, ao_max_snippet_lines = gs_max_snippet_lines g,
       ao_max_selected_tokens = xs_max_selected_tokens x\<rparr>)"

definition build_agent :: "pyvals \<Rightarrow> number_ops \<Rightarrow> run_config \<Rightarrow> start_error + default_agent" where
  "build_agent py num rn =
     (case bs_config (rn_sandbox rn) of
        JObj d \<Rightarrow>
          res_bind (map_sum BadSetting id (build_sandbox py num (ps_workspace (rn_paths rn)) d
            (Some (bs_backend (rn_sandbox rn))) (bs_container_image (rn_sandbox rn)))) (\<lambda>sb.
          default_agent_init py sb (options_of_config rn))
      | _ \<Rightarrow> Inl (BadSetting IndexTypeError))"

section \<open>The program\<close>

text \<open>
  \<open>save_trace\<close>; \<open>dump\<close> stands for \<open>asdict\<close> of the result, \<open>sha\<close> for the digest of the markers,
  and \<open>dirs\<close> for the current and the home directory.
\<close>

definition save_trace ::
    "(pystr \<Rightarrow> pystr) \<Rightarrow> pyvals \<Rightarrow> pystr \<times> pystr \<Rightarrow> (agent_result \<Rightarrow> (pystr \<times> json) list) \<Rightarrow> 'w os \<Rightarrow> pystr \<Rightarrow> pystr
      \<Rightarrow> agent_result \<Rightarrow> ('w, pystr) io" where
  "save_trace sha py dirs dump os mode dir res = (\<lambda>w.
     case redactor_mode mode of
       Inl e \<Rightarrow> (Inl e, w)
     | Inr m \<Rightarrow>
         (let p = path_join dir [''run_'' @ now os w @ ''.json''];
              rs = path_replacements (resolve_path os w) (fst dirs) (snd dirs) (Some (a_workspace (res_state res)));
              content = json_pretty False False 0 (JObj (redact sha py m rs (dump res))) in
          case write_text os w p content of
            (Some e, w') \<Rightarrow> (Inl (OSError e), w') | (None, w') \<Rightarrow> (Inr p, w')))"

definition result_exit_code :: "agent_result \<Rightarrow> int" where
  "result_exit_code res =
     (let a = res_state res in
      if a_success a then 0
      else if a_visible_success a \<and> a_acceptance_status a \<notin> {''disabled'', ''not_run''} then 2 else 1)"

record ('v, 'w) program =
  pg_py :: pyvals
  pg_numbers :: number_ops
  pg_root :: pystr
  pg_env :: "(pystr \<times> pystr) list"
  pg_env_file :: "(exn + pystr) option"
  pg_load_yaml :: "pystr \<Rightarrow> exn + json"
  pg_parts :: "model_settings \<Rightarrow> model_settings \<Rightarrow> ('v, 'w) agent_parts"
  pg_sha :: "pystr \<Rightarrow> pystr"
  pg_dirs :: "pystr \<times> pystr"
  pg_dump :: "agent_result \<Rightarrow> (pystr \<times> json) list"

text \<open>Everything before the run: the settings, the parts and the agent.\<close>

definition start_program ::
    "('v, 'w) program \<Rightarrow> cli_args \<Rightarrow> start_error + run_config \<times> ('v, 'w) agent_parts \<times> default_agent" where
  "start_program pg args =
     res_bind (map_sum Refused id (load_dotenv_file (pg_env_file pg) (pg_env pg))) (\<lambda>env.
     res_bind (resolve_setting_path (pg_root pg) (JStr (ca_config args))) (\<lambda>path.
     res_bind (load_config path (pg_py pg) (pg_load_yaml pg path)) (\<lambda>d.
     res_bind (resolve_run_config (pg_py pg) (pg_numbers pg) (pg_root pg) args d) (\<lambda>rn.
     res_bind (build_models (pg_py pg) (pg_numbers pg) env d) (\<lambda>(m, r).
     res_bind (build_agent (pg_py pg) (pg_numbers pg) rn) (\<lambda>ag.
     Inr (rn, pg_parts pg m r, ag)))))))"

definition finish_program ::
    "('v, 'w) program \<Rightarrow> run_config \<Rightarrow> ('v, 'w) agent_parts \<Rightarrow> agent_result \<Rightarrow> ('w, int) io" where
  "finish_program pg rn pt res =
     then_io (save_trace (pg_sha pg) (pg_py pg) (pg_dirs pg) (pg_dump pg) (pt_os pt) (rn_trace_redaction rn)
       (ps_trace_output_dir (rn_paths rn)) res)
     (ret (result_exit_code res))"

definition program_main :: "('v, 'w) program \<Rightarrow> cli_args \<Rightarrow> 'w \<Rightarrow> (start_error + int) \<times> 'w" where
  "program_main pg args w =
     (case start_program pg args of
        Inl e \<Rightarrow> (Inl e, w)
      | Inr (rn, pt, ag) \<Rightarrow>
          (case bind_io (agent_run pt ag (json_str (pg_py pg) (as_task (rn_agent rn)))) (finish_program pg rn pt) w of
             (r, w') \<Rightarrow> (map_sum Refused id r, w')))"

section \<open>What the start guarantees\<close>

text \<open>A variable of the environment keeps its value; an unset one takes its first assignment of the file.\<close>

lemma dict_get_append: "dict_get (xs @ ys) k = (case dict_get xs k of None \<Rightarrow> dict_get ys k | Some v \<Rightarrow> Some v)"
  by (induction xs) auto

lemma set_defaults_lookup:
  "set_defaults ls env = Inr env' \<Longrightarrow>
     dict_get env' k = (case dict_get env k of Some v \<Rightarrow> Some v | None \<Rightarrow> dict_get (List.map_filter split_assignment ls) k)"
proof (induction ls arbitrary: env)
  case Nil
  then show ?case by (simp split: option.split)
next
  case (Cons line ls)
  show ?case
  proof (cases "split_assignment line")
    case None
    with Cons.prems Cons.IH [of env] show ?thesis by (simp split: option.splits)
  next
    case (Some kv)
    obtain key v where kv: "kv = (key, v)" by fastforce
    show ?thesis
    proof (cases "dict_get env key")
      case None
      with Cons.prems Cons.IH [of "env @ [(key, v)]"] Some kv show ?thesis
        by (auto simp: dict_get_append split: if_splits option.splits)
    next
      case (Some u)
      with Cons.prems Cons.IH [of env] \<open>split_assignment line = Some kv\<close> kv show ?thesis
        by (auto split: option.splits)
    qed
  qed
qed

lemma start_agent:
  assumes "start_program pg args = Inr (rn, pt, ag)"
  shows "build_agent (pg_py pg) (pg_numbers pg) rn = Inr ag"
  using assms by (auto simp: start_program_def)

lemma built_agent:
  assumes "build_agent py num rn = Inr ag"
  shows "well_formed_agent ag" and "da_options ag = clamped_options (options_of_config rn)"
    and "bs_backend (rn_sandbox rn) = ''container'' \<Longrightarrow> \<not> isl (da_sandbox ag)"
proof -
  obtain d sb where sb: "build_sandbox py num (ps_workspace (rn_paths rn)) d (Some (bs_backend (rn_sandbox rn)))
      (bs_container_image (rn_sandbox rn)) = Inr sb"
    and ag: "default_agent_init py sb (options_of_config rn) = Inr ag"
    using assms by (auto simp: build_agent_def split: json.splits)
  note i = agent_init_well_formed [OF ag]
  show "well_formed_agent ag" "da_options ag = clamped_options (options_of_config rn)" by (fact i)+
  show "\<not> isl (da_sandbox ag)" if b: "bs_backend (rn_sandbox rn) = ''container''"
  proof -
    have "lower (strip ''container'') = ''container''" by code_simp
    then show ?thesis using sb b i(2)
      by (auto simp: build_sandbox_def Let_def truthy_def split: if_splits sum.splits json.splits)
  qed
qed

lemma agent_run_engine:
  assumes "agent_run pt ag task w = (Inr res, w')"
  obtains sv rp se cx w0 s' where "build_engine pt ag = Inr (sv, rp)"
    and "engine_run sv (agent_request ag task) (engine_start sv (agent_request ag task) se rp cx w0) = (Inr res, s')"
  using assms by (auto simp: agent_run_def Let_def split: sum.splits prod.splits)

lemma program_main_result:
  assumes "program_main pg args w = (Inr rc, w')"
  obtains rn pt ag res w1 where "start_program pg args = Inr (rn, pt, ag)"
    and "agent_run pt ag (json_str (pg_py pg) (as_task (rn_agent rn))) w = (Inr res, w1)"
    and "rc = result_exit_code res"
proof -
  obtain rn pt ag where s: "start_program pg args = Inr (rn, pt, ag)"
    using assms by (auto simp: program_main_def split: sum.splits)
  obtain r w1 where r: "agent_run pt ag (json_str (pg_py pg) (as_task (rn_agent rn))) w = (r, w1)" by fastforce
  with assms s show ?thesis
    by (cases r) (auto simp: program_main_def bind_io_def finish_program_def then_io_def ret_def
        split: prod.splits sum.splits intro!: that [OF s])
qed

section \<open>Properties\<close>

definition accepted_run :: "bool \<Rightarrow> agent_state \<Rightarrow> bool" where
  "accepted_run rv a \<longleftrightarrow> a_visible_success a
     \<and> (a_iterations a = [] \<and> a_acceptance_status a = ''not_run''
        \<or> (if rv then a_acceptance_status a \<in> accepted_statuses \<and> (a_iterations a \<noteq> [] \<longrightarrow> last_review_accepts a)
            else a_acceptance_status a = ''disabled''))"

lemma agent_run_accepted:
  assumes "agent_run pt ag task w = (Inr res, w')" and ok: "a_success (res_state res)"
  shows "accepted_run (ao_review_enabled (da_options ag)) (res_state res)"
proof -
  obtain sv rp se cx w0 s' where e: "build_engine pt ag = Inr (sv, rp)"
    and er: "engine_run sv (agent_request ag task) (engine_start sv (agent_request ag task) se rp cx w0) = (Inr res, s')"
    by (rule agent_run_engine [OF assms(1)])
  have "sv_review_enabled sv = ao_review_enabled (da_options ag)" using e by (auto simp: build_engine_def)
  then show ?thesis
    using engine_run_justified [OF er ok] engine_run_reviewed [OF er ok]
    by (auto simp: accepted_run_def success_justified_def split: if_splits)
qed


text \<open>
  C12 Container tests run in a temporary worktree only: when the settings choose the container,
  the agent is isolated whatever the command line and the configuration say, and a workspace
  that is prepared without error is a checkout below a fresh temporary directory.
\<close>

theorem container_agent_isolated:
  assumes "start_program pg args = Inr (rn, pt, ag)" and "bs_backend (rn_sandbox rn) = ''container''"
    and "prepare (pt_os pt) (w, agent_session pt ag w0) = (Inr p, (w1, se1))" and "pw_error p = None"
  shows "pw_strategy p = worktree_strategy
    \<and> (\<exists>a root rel v. tx_active (se_tx se1) = Some a \<and> aw_isolated a \<and> pw_workspace p = aw_workspace a
        \<and> tx_temporary_root (se_tx se1) = Some root
        \<and> aw_workspace a = resolve_path (pt_os pt) v (path_join (path_join root [''repo'']) rel))"
proof -
  note a = built_agent [OF start_agent [OF assms(1)]]
  have "ao_isolate (da_options ag)" using a(1) a(3) [OF assms(2)] by (simp add: well_formed_agent_def Let_def)
  then have "tx_isolate (se_tx (agent_session pt ag w0))" by (simp add: agent_session_def session_init_def)
  from prepare_isolated [OF assms(3,4) this] show ?thesis by blast
qed

text \<open>
  A redaction mode that does not exist is found out too late: the start accepts it, the whole
  run with its model calls and edits takes place, and only then the program ends with the error
  of the mode, without a trace and without the exit status of the run.
\<close>

theorem redaction_mode_checked_after_run:
  assumes "start_program pg args = Inr (rn, pt, ag)" and "redactor_mode (rn_trace_redaction rn) = Inl e"
    and "agent_run pt ag (json_str (pg_py pg) (as_task (rn_agent rn))) w = (Inr res, w1)"
  shows "program_main pg args w = (Inl (Refused e), w1)"
  using assms by (simp add: program_main_def bind_io_def finish_program_def then_io_def save_trace_def)

text \<open>A program that can be computed, on the repository of the engine's demonstration.\<close>

definition demo_args :: cli_args where
  "demo_args = \<lparr>ca_config = ''c.yaml'', ca_workspace = Some ''/r'', ca_task = Some ''fix'', ca_mode = Some ''patch'',
     ca_context_strategy = None, ca_max_iterations = None, ca_allow_dirty = False, ca_in_place = False,
     ca_sandbox_backend = Some ''local'', ca_container_image = None, ca_allowed_paths = None,
     ca_semantic_review = None, ca_repository_context = Some False, ca_trace_redaction = None\<rparr>"

definition demo_program :: "(pystr \<times> json) list \<Rightarrow> (demo_world, demo_world) program" where
  "demo_program d = \<lparr>pg_py = demo_py, pg_numbers = demo_numbers, pg_root = ''/p'', pg_env = [],
     pg_env_file = Some (Inr ''KEY=x''), pg_load_yaml = \<lambda>p. Inr (JObj d),
     pg_parts = \<lambda>m r. demo_parts (\<lambda>v. if d_disk v = ''good'' then Ran 0 ''ok'' [] else Ran 1 ''x'' []),
     pg_sha = \<lambda>s. s, pg_dirs = (''/p'', ''/h''), pg_dump = \<lambda>r. []\<rparr>"

lemma engine_run_returns:
  assumes "engine_body sv rq s0 = (Inr (), s1)" and "tx_active (se_tx (en_session s1)) \<noteq> None"
    and "export_final_patch (sv_os sv) (en_session s1) (en_world s1) = (Inr pp, w1)"
    and "tx_close (sv_os sv) (se_tx (en_session s1)) w1 = (Inr (), w2)"
  shows "\<exists>res s'. engine_run sv rq s0 = (Inr res, s') \<and> a_success (res_state res) = a_success (en_agent s1)
    \<and> a_iterations (res_state res) = a_iterations (en_agent s1)"
  using assms
  by (cases pp) (auto simp: engine_run_def engine_catch_def to_result_def close_workspace_def on_world_def
      set_agent_def result_of_def io_defs Let_def split: option.splits)

definition demo_passing :: "(demo_world, demo_world) agent_parts" where
  "demo_passing = demo_parts (\<lambda>w. Ran 0 ''ok'' [])"

definition passing_program :: "(pystr \<times> json) list \<Rightarrow> (demo_world, demo_world) program" where
  "passing_program d = (demo_program d)\<lparr>pg_parts := \<lambda>m r. demo_passing\<rparr>"

definition demo_settings :: "(pystr \<times> json) list \<Rightarrow> run_config" where
  "demo_settings d = fst (projr (start_program (passing_program d) demo_args))"

definition demo_agent :: "(pystr \<times> json) list \<Rightarrow> default_agent" where
  "demo_agent d = snd (snd (projr (start_program (passing_program d) demo_args)))"

lemma passing_parts: "start_program (passing_program d) demo_args = Inr (rn, pt, ag) \<Longrightarrow> pt = demo_passing"
  by (auto simp: start_program_def passing_program_def)

text \<open>The settings without a file, and with an unknown redaction mode.\<close>

definition demo_unredacted :: "(pystr \<times> json) list" where
  "demo_unredacted = [(''trace'', JObj [(''redaction_mode'', JStr ''full'')])]"

lemma demo_starts:
  "start_program (passing_program []) demo_args = Inr (demo_settings [], demo_passing, demo_agent [])"
  "start_program (passing_program demo_unredacted) demo_args
     = Inr (demo_settings demo_unredacted, demo_passing, demo_agent demo_unredacted)"
proof -
  have s: "start_program (passing_program d) demo_args = Inr (demo_settings d, demo_passing, demo_agent d)"
    if ok: "\<not> isl (start_program (passing_program d) demo_args)" for d
  proof -
    obtain rn pt ag where r: "start_program (passing_program d) demo_args = Inr (rn, pt, ag)"
      using ok by (cases "start_program (passing_program d) demo_args") auto
    with passing_parts [OF r] show ?thesis by (simp add: demo_settings_def demo_agent_def)
  qed
  show "start_program (passing_program []) demo_args = Inr (demo_settings [], demo_passing, demo_agent [])"
    by (rule s) code_simp
  show "start_program (passing_program demo_unredacted) demo_args
     = Inr (demo_settings demo_unredacted, demo_passing, demo_agent demo_unredacted)"
    by (rule s) code_simp
qed

definition runs_through :: "default_agent \<Rightarrow> bool" where
  "runs_through ag = (case build_engine demo_passing ag of Inl e \<Rightarrow> False | Inr (sv, rp) \<Rightarrow>
    (let rq = agent_request ag ''fix'' in
     case engine_body sv rq (engine_start sv rq (agent_session demo_passing ag demo_fresh) rp
       (context_policy_init (ao_max_expansion_level (da_options ag))) demo_fresh) of
     (r, s1) \<Rightarrow> r = Inr () \<and> a_success (en_agent s1) \<and> a_iterations (en_agent s1) = [] \<and> tx_active (se_tx (en_session s1)) \<noteq> None
       \<and> (case export_final_patch (sv_os sv) (en_session s1) (en_world s1) of
          (r', w1) \<Rightarrow> \<not> isl r' \<and> fst (tx_close (sv_os sv) (se_tx (en_session s1)) w1) = Inr ())))"

lemma runs_through_run:
  assumes "runs_through ag"
  obtains res w' where "agent_run demo_passing ag ''fix'' demo_fresh = (Inr res, w')" and "a_success (res_state res)"
    and "a_iterations (res_state res) = []"
proof -
  let ?rq = "agent_request ag ''fix''"
  obtain sv rp where e: "build_engine demo_passing ag = Inr (sv, rp)"
    using assms by (auto simp: runs_through_def split: sum.splits)
  let ?s0 = "engine_start sv ?rq (agent_session demo_passing ag demo_fresh) rp
    (context_policy_init (ao_max_expansion_level (da_options ag))) demo_fresh"
  obtain r s1 where b: "engine_body sv ?rq ?s0 = (r, s1)" by fastforce
  obtain r' w1 where x: "export_final_patch (sv_os sv) (en_session s1) (en_world s1) = (r', w1)" by fastforce
  have f: "r = Inr ()" "a_success (en_agent s1)" "a_iterations (en_agent s1) = []" "tx_active (se_tx (en_session s1)) \<noteq> None"
    "\<not> isl r'" "fst (tx_close (sv_os sv) (se_tx (en_session s1)) w1) = Inr ()"
    using assms by (simp_all add: runs_through_def e b x Let_def)
  obtain pp where pp: "r' = Inr pp" using f(5) by (cases r') auto
  obtain w2 where w2: "tx_close (sv_os sv) (se_tx (en_session s1)) w1 = (Inr (), w2)"
    using f(6) by (cases "tx_close (sv_os sv) (se_tx (en_session s1)) w1") auto
  obtain res s' where "engine_run sv ?rq ?s0 = (Inr res, s')" "a_success (res_state res)" "a_iterations (res_state res) = []"
    using engine_run_returns [OF b [unfolded f(1)] f(4) x [unfolded pp] w2] f(2,3) by auto
  moreover have "pt_put_sandbox demo_passing (sb, snd (pt_sandbox demo_passing w)) w = w" for sb w
    by (simp add: demo_passing_def demo_parts_def)
  ultimately show ?thesis by (intro that) (simp_all add: agent_run_def e Let_def)
qed

lemma demo_runs: "runs_through (demo_agent [])" "runs_through (demo_agent demo_unredacted)"
  by code_simp+

lemma demo_task: "json_str (pg_py (passing_program d)) (as_task (rn_agent (demo_settings []))) = ''fix''"
  "json_str (pg_py (passing_program d)) (as_task (rn_agent (demo_settings demo_unredacted))) = ''fix''"
  by (simp_all add: passing_program_def demo_program_def) code_simp+

lemma demo_passing_write [simp]: "write_text (pt_os demo_passing) w p t = (None, w)"
  by (simp add: demo_passing_def demo_parts_def demo_os_def)

lemma demo_program_exit: "fst (program_main (passing_program []) demo_args demo_fresh) = Inr 0"
proof -
  obtain res w' where r: "agent_run demo_passing (demo_agent []) ''fix'' demo_fresh = (Inr res, w')"
    and ok: "a_success (res_state res)" by (rule runs_through_run [OF demo_runs(1)])
  have m: "redactor_mode (rn_trace_redaction (demo_settings [])) = Inr ''paths''" by code_simp
  show ?thesis
    by (simp add: program_main_def demo_starts demo_task r finish_program_def save_trace_def m bind_io_def then_io_def
        ret_def Let_def result_exit_code_def ok)
qed


theorem redaction_mode_checked_after_run_witness:
  "isl (fst (program_main (passing_program demo_unredacted) demo_args demo_fresh))"
proof -
  obtain res w' where r: "agent_run demo_passing (demo_agent demo_unredacted) ''fix'' demo_fresh = (Inr res, w')"
    by (rule runs_through_run [OF demo_runs(2)])
  have "isl (redactor_mode (rn_trace_redaction (demo_settings demo_unredacted)))" by code_simp
  then obtain e where m: "redactor_mode (rn_trace_redaction (demo_settings demo_unredacted)) = Inl e"
    by (auto simp: isl_def)
  show ?thesis
    using redaction_mode_checked_after_run [OF demo_starts(2) m, of demo_fresh res w'] r by (simp add: demo_task)
qed

definition container_args :: cli_args where
  "container_args = demo_args\<lparr>ca_sandbox_backend := Some ''container''\<rparr>"

theorem container_agent_isolated_witness:
  "\<exists>p s. prepare (demo_os\<lparr>git := edit_git\<rparr>) (demo_fresh, agent_session demo_passing
       (snd (snd (projr (start_program (passing_program []) container_args)))) demo_fresh) = (Inr p, s)
     \<and> pw_strategy p = worktree_strategy"
proof -
  let ?st = "start_program (passing_program []) container_args"
  let ?ag = "snd (snd (projr ?st))"
  let ?p = "prepare (pt_os demo_passing) (demo_fresh, agent_session demo_passing ?ag demo_fresh)"
  have "\<not> isl ?st" by code_simp
  then obtain rn pt ag where r: "?st = Inr (rn, pt, ag)" by (cases ?st) auto
  have pt: "pt = demo_passing" using r by (auto simp: start_program_def passing_program_def)
  have b: "bs_backend (rn_sandbox (fst (projr ?st))) = ''container''" by code_simp
  have "\<not> isl (fst ?p)" by code_simp
  then obtain pw s1 where p: "?p = (Inr pw, s1)" by (cases ?p; cases "fst ?p") auto
  have "pw_error (projr (fst ?p)) = None" by code_simp
  then have e: "pw_error pw = None" by (simp add: p)
  have "pw_strategy pw = worktree_strategy"
    using container_agent_isolated [OF r, unfolded pt, of demo_fresh demo_fresh pw "fst s1" "snd s1"] b p e r by simp
  then show ?thesis using p by (auto simp: demo_passing_def demo_parts_def)
qed
end
