(* ===== verification/PyFloat.thy ===== *)
theory PyFloat
  imports Complex_Main
begin

text \<open>
  Python's floats as the rationals they stand for: a division of integers is the exact quotient
  rounded to the nearest number with 53 significant bits, ties to even, and \<open>round(x, n)\<close> is the
  exact value of the float rounded to \<open>n\<close> decimals, ties to even, and back to a float. The
  range of the exponent is not limited; the counts of a report stay far inside it.
\<close>

section \<open>Rounding\<close>

definition round_even :: "rat \<Rightarrow> int" where
  "round_even x = (let f = \<lfloor>x\<rfloor>; r = x - of_int f in
     if r < 1/2 then f else if r > 1/2 then f + 1 else if even f then f else f + 1)"

lemma round_even_parts:
  assumes "0 \<le> r" "r < 1"
  shows "round_even (of_int f + r) = (if r < 1/2 then f else if r > 1/2 then f + 1 else if even f then f else f + 1)"
proof -
  have "\<lfloor>of_int f + r\<rfloor> = f" using assms by (simp add: floor_unique)
  then show ?thesis by (simp add: round_even_def Let_def)
qed

lemma round_even_int [simp]: "round_even (of_int n) = n"
  by (simp add: round_even_def)

lemma round_even_le: "x \<le> of_int n \<Longrightarrow> round_even x \<le> n"
  using floor_correct [of x] floor_mono [of x "of_int n"]
  by (cases "\<lfloor>x\<rfloor> = n") (auto simp: round_even_def Let_def)

lemma round_even_ge: "of_int n \<le> x \<Longrightarrow> n \<le> round_even x"
  using floor_correct [of x] le_floor_iff [of n x] by (auto simp: round_even_def Let_def)

lemma round_even_mono:
  assumes "x \<le> y"
  shows "round_even x \<le> round_even y"
proof (cases "\<lfloor>x\<rfloor> = \<lfloor>y\<rfloor>")
  case True
  then show ?thesis using assms by (auto simp: round_even_def Let_def)
next
  case False
  then have "\<lfloor>x\<rfloor> + 1 \<le> \<lfloor>y\<rfloor>" using floor_mono [OF assms] by simp
  moreover have "round_even x \<le> \<lfloor>x\<rfloor> + 1" "\<lfloor>y\<rfloor> \<le> round_even y" by (auto simp: round_even_def Let_def)
  ultimately show ?thesis by linarith
qed

lemma round_even_minus: "round_even (- x) = - round_even x"
proof -
  define f where "f = \<lfloor>x\<rfloor>"
  define r where "r = x - of_int f"
  have r: "0 \<le> r" "r < 1" and x: "x = of_int f + r"
    using floor_correct [of x] by (auto simp: f_def r_def)
  show ?thesis
  proof (cases "r = 0")
    case True
    then show ?thesis using round_even_int [of f] round_even_int [of "- f"] by (simp add: x)
  next
    case False
    have "- x = of_int (- f - 1) + (1 - r)" by (simp add: x)
    then have "round_even (- x) = (if 1 - r < 1/2 then - f - 1 else if 1 - r > 1/2 then - f - 1 + 1
        else if even (- f - 1) then - f - 1 else - f - 1 + 1)"
      using round_even_parts [of "1 - r" "- f - 1"] r False by simp
    then show ?thesis using round_even_parts [OF r, of f] by (auto simp: x)
  qed
qed

section \<open>Floats\<close>

function bit_length :: "int \<Rightarrow> nat" where
  "bit_length n = (if n \<le> 0 then 0 else Suc (bit_length (n div 2)))"
  by pat_completeness auto
termination by (relation "measure nat") auto

declare bit_length.simps [simp del]

lemma bit_length_bounds: "n > 0 \<Longrightarrow> 0 < bit_length n \<and> 2 ^ (bit_length n - 1) \<le> n \<and> n < 2 ^ bit_length n"
proof (induction n rule: bit_length.induct)
  case (1 n)
  show ?case
  proof (cases "n div 2 = 0")
    case True
    then have "n = 1" using "1.prems" by auto
    then show ?thesis by (simp add: bit_length.simps [of 1] bit_length.simps [of 0])
  next
    case False
    have pos: "0 < n div 2" using False "1.prems" by auto
    have ih: "0 < bit_length (n div 2)" "2 ^ (bit_length (n div 2) - 1) \<le> n div 2" "n div 2 < 2 ^ bit_length (n div 2)"
      using "1.IH" [OF _ pos] "1.prems" by auto
    then obtain k where k: "bit_length (n div 2) = Suc k" by (cases "bit_length (n div 2)") auto
    show ?thesis using ih "1.prems" by (subst (1 2 3) bit_length.simps) (auto simp: k)
  qed
qed

definition binade :: "rat \<Rightarrow> int" where
  "binade x = (case quotient_of \<bar>x\<bar> of (p, q) \<Rightarrow>
     let e = int (bit_length p) - int (bit_length q) in if 2 powi e \<le> \<bar>x\<bar> then e else e - 1)"

lemma powi_2_nat: "(2::rat) powi int n = 2 ^ n"
  by (simp add: power_int_def)

lemma binade_bounds:
  assumes "x \<noteq> 0"
  shows "2 powi binade x \<le> \<bar>x\<bar>" and "\<bar>x\<bar> < 2 powi (binade x + 1)"
proof -
  obtain p q where pq: "quotient_of \<bar>x\<bar> = (p, q)" by fastforce
  have q: "q > 0" and x: "\<bar>x\<bar> = of_int p / of_int q"
    using quotient_of_denom_pos [OF pq] quotient_of_div [OF pq] by auto
  have "0 < \<bar>x\<bar>" using assms by simp
  then have p: "p > 0" using q unfolding x by (simp add: zero_less_divide_iff)
  obtain a b where a: "bit_length p = Suc a" and b: "bit_length q = Suc b"
    using bit_length_bounds [OF p] bit_length_bounds [OF q] by (metis gr0_implies_Suc)
  have ip: "2 ^ a \<le> p" "p < 2 ^ Suc a" and iq: "2 ^ b \<le> q" "q < 2 ^ Suc b"
    using bit_length_bounds [OF p] bit_length_bounds [OF q] by (simp_all add: a b)
  have rp: "(2::rat) ^ a \<le> of_int p" "of_int p < (2::rat) ^ Suc a" and rq: "(2::rat) ^ b \<le> of_int q" "of_int q < (2::rat) ^ Suc b"
    using ip iq by (simp_all del: power_Suc)
  define e where "e = int a - int b"
  have up: "\<bar>x\<bar> < 2 powi (e + 1)"
  proof -
    have "\<bar>x\<bar> < 2 ^ Suc a / 2 ^ b" unfolding x using rp rq q p by (intro frac_less) auto
    also have "\<dots> = 2 powi (int (Suc a) - int b)" by (simp add: power_int_diff powi_2_nat del: of_nat_Suc)
    finally show ?thesis by (simp add: e_def algebra_simps)
  qed
  have low: "2 powi (e - 1) \<le> \<bar>x\<bar>"
  proof -
    have "2 powi (int a - int (Suc b)) = (2::rat) ^ a / 2 ^ Suc b" by (simp add: power_int_diff powi_2_nat del: of_nat_Suc)
    also have "\<dots> \<le> \<bar>x\<bar>" unfolding x using rp rq q p by (intro frac_le) auto
    finally show ?thesis by (simp add: e_def algebra_simps)
  qed
  have "binade x = (if 2 powi e \<le> \<bar>x\<bar> then e else e - 1)" by (simp add: binade_def pq a b e_def Let_def)
  then show "2 powi binade x \<le> \<bar>x\<bar>" "\<bar>x\<bar> < 2 powi (binade x + 1)" using up low by (auto split: if_splits)
qed

definition to_double :: "rat \<Rightarrow> rat" where
  "to_double x = (if x = 0 then 0 else let k = 52 - binade x in of_int (round_even (x * 2 powi k)) / 2 powi k)"

lemma binade_minus [simp]: "binade (- x) = binade x"
  by (simp add: binade_def)

lemma to_double_minus: "to_double (- x) = - to_double x"
  by (simp add: to_double_def Let_def round_even_minus)

lemma to_double_0 [simp]: "to_double 0 = 0"
  by (simp add: to_double_def)

lemma to_double_nonneg: "0 \<le> x \<Longrightarrow> 0 \<le> to_double x"
  using round_even_ge [of 0] by (auto simp: to_double_def Let_def)

lemma to_double_le_1:
  assumes "x \<le> 1"
  shows "to_double x \<le> 1"
proof (cases "x \<le> 0")
  case True
  then show ?thesis using to_double_nonneg [of "- x"] by (simp add: to_double_minus)
next
  case False
  then have x: "0 < x" "x \<noteq> 0" by auto
  have "(2::rat) powi binade x \<le> 1" using binade_bounds(1) [OF x(2)] x assms by auto
  then have b: "binade x \<le> 0" using power_int_strict_increasing [of 0 "binade x" "2::rat"] by (cases "binade x \<le> 0") auto
  define k where "k = 52 - binade x"
  have "k = int (nat k)" using b by (simp add: k_def)
  then have k: "(2::rat) powi k = 2 ^ nat k" by (metis powi_2_nat)
  have "x * 2 powi k \<le> of_int (2 ^ nat k)" using assms by (simp add: k)
  then have "round_even (x * 2 powi k) \<le> 2 ^ nat k" by (rule round_even_le)
  then have "(of_int (round_even (x * 2 powi k)) :: rat) \<le> 2 powi k"
    unfolding k by simp
  then show ?thesis using x by (simp add: to_double_def Let_def flip: k_def)
qed

lemma to_double_ge_1:
  assumes "1 \<le> x"
  shows "1 \<le> to_double x"
proof -
  have x: "0 < x" "x \<noteq> 0" using assms by auto
  have b: "0 \<le> binade x"
    using binade_bounds(2) [OF x(2)] assms x power_int_increasing [of "binade x + 1" 0 "2::rat"]
    by (cases "0 \<le> binade x") auto
  define k where "k = 52 - binade x"
  have split: "(2::rat) powi 52 = 2 powi binade x * 2 powi k" by (simp add: k_def flip: power_int_add)
  have "2 powi binade x * 2 powi k \<le> x * 2 powi k"
    using binade_bounds(1) [OF x(2)] x by (intro mult_right_mono) auto
  then have "2 powi 52 \<le> x * 2 powi k" unfolding split .
  then have "of_int (2 ^ 52) \<le> x * 2 powi k" by simp
  then have "2 ^ 52 \<le> round_even (x * 2 powi k)" by (rule round_even_ge)
  then have "(2::rat) powi 52 \<le> of_int (round_even (x * 2 powi k))"
    by simp
  moreover have "(2::rat) powi k \<le> 2 powi 52" using b by (intro power_int_increasing) (simp_all add: k_def)
  ultimately have "(2::rat) powi k \<le> of_int (round_even (x * 2 powi k))" by simp
  then show ?thesis using x by (simp add: to_double_def Let_def flip: k_def)
qed

lemma to_double_bounds:
  assumes "0 < x"
  shows "2 powi binade x \<le> to_double x" and "to_double x \<le> 2 powi (binade x + 1)"
proof -
  define k where "k = 52 - binade x"
  have x: "x \<noteq> 0" "\<bar>x\<bar> = x" using assms by auto
  have k: "(2::rat) powi binade x * 2 powi k = of_int (2 ^ 52)" "(2::rat) powi (binade x + 1) * 2 powi k = of_int (2 ^ 53)"
    by (simp_all add: k_def flip: power_int_add)
  have t: "to_double x = of_int (round_even (x * 2 powi k)) / 2 powi k" using x by (simp add: to_double_def Let_def k_def)
  have "of_int (2 ^ 52) \<le> x * 2 powi k" "x * 2 powi k \<le> of_int (2 ^ 53)"
    using binade_bounds [OF x(1)] by (simp_all only: x(2) flip: k) simp_all
  then have "(2::int) ^ 52 \<le> round_even (x * 2 powi k)" "round_even (x * 2 powi k) \<le> 2 ^ 53"
    by (auto intro: round_even_ge round_even_le)
  then have "(of_int (2 ^ 52) :: rat) \<le> of_int (round_even (x * 2 powi k))" "(of_int (round_even (x * 2 powi k)) :: rat) \<le> of_int (2 ^ 53)"
    by (simp_all only: of_int_le_iff)
  then show "2 powi binade x \<le> to_double x" "to_double x \<le> 2 powi (binade x + 1)"
    unfolding t k [symmetric] by (simp_all add: le_divide_eq divide_le_eq)
qed

lemma to_double_mono:
  assumes "0 \<le> x" and "x \<le> y"
  shows "to_double x \<le> to_double y"
proof (cases "x = 0")
  case True
  then show ?thesis using assms to_double_nonneg [of y] by simp
next
  case False
  then have x: "0 < x" and y: "0 < y" using assms by auto
  have "(2::rat) powi binade x < 2 powi (binade y + 1)"
    using binade_bounds(1) [of x] binade_bounds(2) [of y] x y assms(2) by simp
  then have b: "binade x \<le> binade y"
    using power_int_increasing [of "binade y + 1" "binade x" "2::rat"] by (cases "binade x \<le> binade y") auto
  show ?thesis
  proof (cases "binade x = binade y")
    case True
    then show ?thesis using x y assms(2) round_even_mono [of "x * 2 powi (52 - binade y)" "y * 2 powi (52 - binade y)"]
      by (simp add: to_double_def Let_def divide_right_mono)
  next
    case False
    have "to_double x \<le> 2 powi (binade x + 1)" by (rule to_double_bounds(2) [OF x])
    also have "\<dots> \<le> 2 powi binade y" using False b by (intro power_int_increasing) auto
    also have "\<dots> \<le> to_double y" by (rule to_double_bounds(1) [OF y])
    finally show ?thesis .
  qed
qed

text \<open>\<open>a / b\<close> of two integers, and \<open>round(x, n)\<close>.\<close>

definition int_div :: "int \<Rightarrow> int \<Rightarrow> rat" where
  "int_div a b = to_double (of_int a / of_int b)"

definition round_digits :: "nat \<Rightarrow> rat \<Rightarrow> rat" where
  "round_digits n x = to_double (of_int (round_even (x * 10 ^ n)) / 10 ^ n)"

lemma round_digits_minus: "round_digits n (- x) = - round_digits n x"
  by (simp add: round_digits_def round_even_minus to_double_minus)

lemma round_digits_0 [simp]: "round_digits n 0 = 0"
  using round_even_int [of 0] by (simp add: round_digits_def)

lemma round_digits_nonneg: "0 \<le> x \<Longrightarrow> 0 \<le> round_digits n x"
  unfolding round_digits_def by (rule to_double_nonneg) (use round_even_ge [of 0 "x * 10 ^ n"] in simp)

lemma round_digits_mono: "0 \<le> x \<Longrightarrow> x \<le> y \<Longrightarrow> round_digits n x \<le> round_digits n y"
  unfolding round_digits_def
  by (intro to_double_mono divide_right_mono)
    (use round_even_ge [of 0 "x * 10 ^ n"] round_even_mono [of "x * 10 ^ n" "y * 10 ^ n"] in \<open>simp_all add: mult_right_mono\<close>)

lemma round_digits_le_1:
  assumes "x \<le> 1"
  shows "round_digits n x \<le> 1"
  unfolding round_digits_def
proof (rule to_double_le_1)
  have "round_even (x * 10 ^ n) \<le> 10 ^ n" by (rule round_even_le) (use assms in simp)
  then show "of_int (round_even (x * 10 ^ n)) / (10::rat) ^ n \<le> 1"
    by simp
qed

lemma int_div_unit: "0 \<le> a \<Longrightarrow> a \<le> b \<Longrightarrow> 0 \<le> int_div a b \<and> int_div a b \<le> 1"
  by (cases "b = 0") (auto simp: int_div_def intro!: to_double_nonneg to_double_le_1 divide_nonneg_nonneg)

end
