(* ===== verification/Comparison.thy ===== *)
theory Comparison
  imports Container PyFloat "HOL-Library.Product_Lexorder"
begin

text \<open>
  The comparison of two benchmark reports (\<open>benchmarking/comparison.py\<close>) and the rates that
  \<open>metrics.py\<close> shares with it: trials are paired by their identity, counted as wins, losses and
  ties, and tested with the exact paired test of McNemar. A report is the JSON value that was
  read; the sums of durations and the Markdown text are left out. The JSON equality of two
  protocol values (Python's \<open>==\<close>) is the parameter \<open>same\<close>.
\<close>

section \<open>Trials\<close>

type_synonym run_key = "pystr \<times> pystr \<times> pystr \<times> int"
type_synonym run_data = "(pystr \<times> json) list"

definition run_key :: "pyvals \<Rightarrow> number_ops \<Rightarrow> run_data \<Rightarrow> index_error + run_key" where
  "run_key py num d =
     (case py_int (nm_int num) (jget_or d ''repetition'' (JInt 1)) of
        Inl e \<Rightarrow> Inl e
      | Inr n \<Rightarrow> Inr (json_str py (jget_or d ''case_id'' (JStr [])), json_str py (jget_or d ''strategy'' (JStr [])),
          json_str py (jget_or d ''variant'' (JStr ''default'')), n))"

definition render_key :: "run_key \<Rightarrow> json" where
  "render_key = (\<lambda>(c, s, v, n). JObj [(''case_id'', JStr c), (''strategy'', JStr s), (''variant'', JStr v),
     (''repetition'', JInt n)])"

fun index_runs ::
    "pyvals \<Rightarrow> number_ops \<Rightarrow> pystr \<Rightarrow> (run_key \<times> run_data) list \<Rightarrow> json list \<Rightarrow> index_error + (run_key \<times> run_data) list" where
  "index_runs py num label acc [] = Inr acc"
| "index_runs py num label acc (JObj d # rs) =
     (case run_key py num d of
        Inl e \<Rightarrow> Inl e
      | Inr k \<Rightarrow>
          (if k \<in> fst ` set acc
           then Inl (IndexValueError (''duplicate '' @ label @ '' trial identity: '' @ json_str py (render_key k)))
           else index_runs py num label (acc @ [(k, d)]) rs))"
| "index_runs py num label acc (_ # rs) = Inl IndexAttributeError"

definition succeeded :: "pyvals \<Rightarrow> run_data \<Rightarrow> bool" where
  "succeeded py d = json_truthy py (jget d ''success'')"

definition run_tokens :: "number_ops \<Rightarrow> run_data \<Rightarrow> index_error + int" where
  "run_tokens num d =
     (case py_int (nm_int num) (jget_or d ''input_tokens'' (JInt 0)) of
        Inl e \<Rightarrow> Inl e
      | Inr a \<Rightarrow> map_sum id (\<lambda>b. a + b) (py_int (nm_int num) (jget_or d ''output_tokens'' (JInt 0))))"

section \<open>Statistics\<close>

definition rate :: "int \<Rightarrow> int \<Rightarrow> rat" where
  "rate a b = (if b \<noteq> 0 then round_digits 4 (int_div a b) else 0)"

definition mcnemar_exact :: "nat \<Rightarrow> nat \<Rightarrow> rat" where
  "mcnemar_exact wins losses =
     (let discordant = wins + losses in
      if discordant = 0 then 1
      else (let tail = sum_list (map (\<lambda>i. discordant choose i) [0..<min wins losses + 1])
        in round_digits 6 (min 1 (int_div (2 * int tail) (2 ^ discordant)))))"

definition failure_of :: "pyvals \<Rightarrow> run_data \<Rightarrow> pystr" where
  "failure_of py d = str_or py (jget d ''failure_type'') ''success''"

definition failure_delta :: "pyvals \<Rightarrow> (run_data \<times> run_data) list \<Rightarrow> (pystr \<times> int) list" where
  "failure_delta py pairs =
     (let before = map (failure_of py \<circ> fst) pairs; after = map (failure_of py \<circ> snd) pairs;
          delta = (\<lambda>k. int (count_list after k) - int (count_list before k))
      in map (\<lambda>k. (k, delta k)) (filter (\<lambda>k. delta k \<noteq> 0) (sort (remdups (before @ after)))))"

section \<open>Protocols\<close>

datatype protocol_difference = MissingField pystr | Differs pystr json json

definition protocol_fields :: "pystr list" where
  "protocol_fields = [''manifest_sha256'', ''case_ids'', ''repeat'', ''strategies'', ''repository_modes'']"

definition context_fields :: "pystr list" where
  "context_fields = [''project_revision'', ''project_dirty'', ''config_sha256'', ''model'', ''review_model'',
     ''sandbox_backend'', ''container_engine'', ''container_image'', ''python'', ''platform'']"

definition field_difference ::
    "(json \<Rightarrow> json \<Rightarrow> bool) \<Rightarrow> run_data \<Rightarrow> run_data \<Rightarrow> pystr \<Rightarrow> protocol_difference option" where
  "field_difference same before after f =
     (case (dict_get before f, dict_get after f) of
        (Some a, Some b) \<Rightarrow> (if same a b then None else Some (Differs f a b))
      | _ \<Rightarrow> Some (MissingField f))"

text \<open>A protocol that is no mapping raises; which exception it is depends on its type and is not kept.\<close>

definition protocol_compatibility ::
    "(json \<Rightarrow> json \<Rightarrow> bool) \<Rightarrow> run_data \<Rightarrow> run_data \<Rightarrow> index_error + protocol_difference list \<times> protocol_difference list" where
  "protocol_compatibility same baseline candidate =
     (case (jget_or baseline ''protocol'' (JObj []), jget_or candidate ''protocol'' (JObj [])) of
        (JObj before, JObj after) \<Rightarrow>
          Inr (List.map_filter (field_difference same before after) protocol_fields,
            map (\<lambda>f. Differs f (jget before f) (jget after f))
              (filter (\<lambda>f. \<not> same (jget before f) (jget after f)) context_fields))
      | _ \<Rightarrow> Inl IndexTypeError)"

section \<open>The comparison\<close>

record comparison =
  cp_differences :: "protocol_difference list"
  cp_context_differences :: "protocol_difference list"
  cp_matched :: nat
  cp_complete :: bool
  cp_wins :: nat
  cp_losses :: nat
  cp_ties :: int
  cp_pvalue :: rat
  cp_baseline_rate :: rat
  cp_candidate_rate :: rat
  cp_rate_delta :: rat
  cp_baseline_tokens :: int
  cp_candidate_tokens :: int
  cp_token_delta :: int
  cp_failure_delta :: "(pystr \<times> int) list"
  cp_baseline_only :: "run_key list"
  cp_candidate_only :: "run_key list"

definition report_runs :: "pyvals \<Rightarrow> number_ops \<Rightarrow> pystr \<Rightarrow> run_data \<Rightarrow> index_error + (run_key \<times> run_data) list" where
  "report_runs py num label report =
     (case json_items (jget_or report ''runs'' (JArr [])) of
        Inl e \<Rightarrow> Inl e | Inr runs \<Rightarrow> index_runs py num label [] runs)"

definition sum_tokens :: "number_ops \<Rightarrow> run_data list \<Rightarrow> index_error + int" where
  "sum_tokens num ds = map_sum id sum_list (map_result (run_tokens num) ds)"

definition matched_pairs :: "(run_key \<times> run_data) list \<Rightarrow> (run_key \<times> run_data) list \<Rightarrow> (run_data \<times> run_data) list" where
  "matched_pairs b c = map (\<lambda>k. (the (map_of b k), the (map_of c k))) (sort (filter (\<lambda>k. k \<in> fst ` set c) (map fst b)))"

definition unmatched :: "(run_key \<times> run_data) list \<Rightarrow> (run_key \<times> run_data) list \<Rightarrow> run_key list" where
  "unmatched b c = sort (filter (\<lambda>k. k \<notin> fst ` set c) (map fst b))"

definition wins_of :: "pyvals \<Rightarrow> (run_data \<times> run_data) list \<Rightarrow> nat" where
  "wins_of py pairs = length (filter (\<lambda>(x, y). \<not> succeeded py x \<and> succeeded py y) pairs)"

definition losses_of :: "pyvals \<Rightarrow> (run_data \<times> run_data) list \<Rightarrow> nat" where
  "losses_of py pairs = length (filter (\<lambda>(x, y). succeeded py x \<and> \<not> succeeded py y) pairs)"

definition rate_of :: "pyvals \<Rightarrow> run_data list \<Rightarrow> rat" where
  "rate_of py ds = rate (int (length (filter (succeeded py) ds))) (int (length ds))"

definition comparison_of ::
    "pyvals \<Rightarrow> (run_data \<times> run_data) list \<Rightarrow> run_key list \<Rightarrow> run_key list \<Rightarrow> protocol_difference list
      \<Rightarrow> protocol_difference list \<Rightarrow> int \<Rightarrow> int \<Rightarrow> comparison" where
  "comparison_of py pairs baseline_only candidate_only ds cs t u =
     (let wins = wins_of py pairs; losses = losses_of py pairs;
          before = rate_of py (map fst pairs); after = rate_of py (map snd pairs)
      in \<lparr>cp_differences = ds, cp_context_differences = cs, cp_matched = length pairs,
        cp_complete = (pairs \<noteq> [] \<and> baseline_only = [] \<and> candidate_only = []),
        cp_wins = wins, cp_losses = losses, cp_ties = int (length pairs) - int wins - int losses,
        cp_pvalue = mcnemar_exact wins losses, cp_baseline_rate = before, cp_candidate_rate = after,
        cp_rate_delta = round_digits 4 (to_double (after - before)),
        cp_baseline_tokens = t, cp_candidate_tokens = u, cp_token_delta = u - t,
        cp_failure_delta = failure_delta py pairs,
        cp_baseline_only = baseline_only, cp_candidate_only = candidate_only\<rparr>)"

definition compare_reports ::
    "pyvals \<Rightarrow> number_ops \<Rightarrow> (json \<Rightarrow> json \<Rightarrow> bool) \<Rightarrow> run_data \<Rightarrow> run_data \<Rightarrow> index_error + comparison" where
  "compare_reports py num same baseline candidate =
     (case report_runs py num ''baseline'' baseline of Inl e \<Rightarrow> Inl e | Inr b \<Rightarrow>
     (case report_runs py num ''candidate'' candidate of Inl e \<Rightarrow> Inl e | Inr c \<Rightarrow>
       (let pairs = matched_pairs b c
        in case sum_tokens num (map fst pairs) of Inl e \<Rightarrow> Inl e | Inr t \<Rightarrow>
           (case sum_tokens num (map snd pairs) of Inl e \<Rightarrow> Inl e | Inr u \<Rightarrow>
           (case protocol_compatibility same baseline candidate of Inl e \<Rightarrow> Inl e | Inr (ds, cs) \<Rightarrow>
             Inr (comparison_of py pairs (unmatched b c) (unmatched c b) ds cs t u))))))"

section \<open>Lemmas\<close>

lemma index_runs_keys:
  "index_runs py num label acc rs = Inr b \<Longrightarrow> distinct (map fst acc) \<Longrightarrow>
     distinct (map fst b) \<and> length b = length acc + length rs"
  by (induction py num label acc rs rule: index_runs.induct) (auto split: sum.splits if_splits)

lemma report_runs_distinct: "report_runs py num label r = Inr b \<Longrightarrow> distinct (map fst b)"
  by (auto simp: report_runs_def split: sum.splits dest: index_runs_keys)

lemma sort_set_unique: "distinct xs \<Longrightarrow> distinct ys \<Longrightarrow> set xs = set ys \<Longrightarrow> sort xs = sort (ys :: 'a :: linorder list)"
  by (intro sorted_distinct_set_unique) auto

lemma matched_pairs_swap:
  assumes "distinct (map fst b)" and "distinct (map fst c)"
  shows "matched_pairs c b = map prod.swap (matched_pairs b c)"
proof -
  have "sort (filter (\<lambda>k. k \<in> fst ` set b) (map fst c)) = sort (filter (\<lambda>k. k \<in> fst ` set c) (map fst b))"
    by (rule sort_set_unique) (use assms in auto)
  then show ?thesis by (simp add: matched_pairs_def)
qed

lemma length_filter_matched:
  assumes "distinct (map fst b)"
  shows "length (filter P (matched_pairs b c))
    = card {k. \<exists>d e. map_of b k = Some d \<and> map_of c k = Some e \<and> P (d, e)}"
proof -
  let ?f = "\<lambda>k. (the (map_of b k), the (map_of c k))"
  let ?ks = "sort (filter (\<lambda>k. k \<in> fst ` set c) (map fst b))"
  have d: "distinct (filter (\<lambda>k. P (?f k)) ?ks)" using assms by simp
  have "length (filter P (matched_pairs b c)) = length (filter (\<lambda>k. P (?f k)) ?ks)"
    by (simp add: matched_pairs_def filter_map comp_def)
  also have "\<dots> = card (set (filter (\<lambda>k. P (?f k)) ?ks))" by (rule distinct_card [OF d, symmetric])
  also have "set (filter (\<lambda>k. P (?f k)) ?ks) = {k. \<exists>d e. map_of b k = Some d \<and> map_of c k = Some e \<and> P (d, e)}"
    by (auto simp: image_iff map_of_eq_None_iff [unfolded not_Some_eq [symmetric]] intro: Some_eq_map_of_iff)
      (force simp: weak_map_of_SomeI dest: map_of_SomeD)+
  finally show ?thesis .
qed

lemma matched_unmatched: "length (matched_pairs b c) + length (unmatched b c) = length b"
  using sum_length_filter_compl [of "\<lambda>k. k \<in> fst ` set c" "map fst b"]
  by (simp add: matched_pairs_def unmatched_def)

lemma rate_nonneg: "0 \<le> a \<Longrightarrow> a \<le> b \<Longrightarrow> 0 \<le> rate a b \<and> rate a b \<le> 1"
  using int_div_unit [of a b] by (simp add: rate_def round_digits_nonneg round_digits_le_1)

lemma negated_entries:
  assumes "\<And>k. g k = - (f k :: int)"
  shows "map (\<lambda>k. (k, g k)) (filter (\<lambda>k. g k \<noteq> 0) ks)
    = map (\<lambda>(k, n). (k, - n)) (map (\<lambda>k. (k, f k)) (filter (\<lambda>k. f k \<noteq> 0) ks))"
  by (simp add: assms)

lemma failure_delta_swap:
  "failure_delta py (map prod.swap pairs) = map (\<lambda>(k, n). (k, - n)) (failure_delta py pairs)"
proof -
  let ?F = "map (failure_of py \<circ> fst) pairs" and ?S = "map (failure_of py \<circ> snd) pairs"
  have keys: "sort (remdups (?S @ ?F)) = sort (remdups (?F @ ?S))" by (rule sort_set_unique) auto
  have f: "map (failure_of py \<circ> fst) (map prod.swap pairs) = ?S" "map (failure_of py \<circ> snd) (map prod.swap pairs) = ?F"
    by simp_all
  show ?thesis unfolding failure_delta_def f keys Let_def by (rule negated_entries) simp
qed

section \<open>The exact test\<close>

text \<open>
  The two-sided tail of the binomial distribution: the outcomes of \<open>n\<close> fair trials whose smaller
  side is at most \<open>m\<close>.
\<close>

definition two_sided :: "nat \<Rightarrow> nat \<Rightarrow> nat" where
  "two_sided n m = (\<Sum>k\<in>{k. k \<le> n \<and> min k (n - k) \<le> m}. n choose k)"

lemma lower_tail: "sum_list (map (\<lambda>i. n choose i) [0..<Suc m]) = (\<Sum>k\<le>m. n choose k)"
  by (simp add: interv_sum_list_conv_sum_set_nat atLeast0LessThan lessThan_Suc_atMost del: upt_Suc)

lemma upper_tail:
  assumes "m \<le> n"
  shows "(\<Sum>k\<in>{n - m..n}. n choose k) = (\<Sum>k\<le>m. n choose k)"
  by (rule sum.reindex_bij_witness [of _ "\<lambda>k. n - k" "\<lambda>k. n - k"])
    (use assms in \<open>auto simp: binomial_symmetric [symmetric]\<close>)

lemma two_sided_less:
  assumes "2 * m < n"
  shows "two_sided n m = 2 * (\<Sum>k\<le>m. n choose k)"
proof -
  have "{k. k \<le> n \<and> min k (n - k) \<le> m} = {..m} \<union> {n - m..n}" using assms by (auto simp: min_def split: if_splits)
  moreover have "{..m} \<inter> {n - m..n} = {}" using assms by auto
  ultimately show ?thesis using upper_tail [of m n] assms by (simp add: two_sided_def sum.union_disjoint)
qed

lemma two_sided_all:
  assumes "n \<le> 2 * m"
  shows "two_sided n m = 2 ^ n"
proof -
  have "{k. k \<le> n \<and> min k (n - k) \<le> m} = {..n}" using assms by (auto simp: min_def)
  then show ?thesis by (simp add: two_sided_def choose_row_sum)
qed

lemma two_sided_le: "two_sided n m \<le> 2 ^ n"
  unfolding two_sided_def choose_row_sum [symmetric] by (rule sum_mono2) auto

section \<open>What a comparison holds\<close>

lemma compare_reports_fields:
  assumes "compare_reports py num same baseline candidate = Inr x"
    and "report_runs py num ''baseline'' baseline = Inr b" and "report_runs py num ''candidate'' candidate = Inr c"
  obtains t u ds cs where "sum_tokens num (map fst (matched_pairs b c)) = Inr t"
    and "sum_tokens num (map snd (matched_pairs b c)) = Inr u"
    and "x = comparison_of py (matched_pairs b c) (unmatched b c) (unmatched c b) ds cs t u"
  using assms by (auto simp: compare_reports_def Let_def comparison_of_def split: sum.splits prod.splits)

lemma index_runs_label: "index_runs py num l acc rs = Inr b \<Longrightarrow> index_runs py num l' acc rs = Inr b"
  by (induction py num l acc rs rule: index_runs.induct) (auto split: sum.splits if_splits)

lemma report_runs_label: "report_runs py num l r = Inr b \<Longrightarrow> report_runs py num l' r = Inr b"
  by (auto simp: report_runs_def split: sum.splits intro: index_runs_label)

lemma wins_losses_swap:
  "wins_of py (map prod.swap ps) = losses_of py ps" "losses_of py (map prod.swap ps) = wins_of py ps"
  by (induction ps) (auto simp: wins_of_def losses_of_def)

lemma wins_losses_le: "wins_of py ps + losses_of py ps \<le> length ps"
  by (induction ps) (auto simp: wins_of_def losses_of_def)

lemma rate_of_unit: "0 \<le> rate_of py ds \<and> rate_of py ds \<le> 1"
  using rate_nonneg [of "int (length (filter (succeeded py) ds))" "int (length ds)"] by (simp add: rate_of_def)

lemma mcnemar_commute: "mcnemar_exact l w = mcnemar_exact w l"
  unfolding mcnemar_exact_def by (simp only: add.commute [of l w] min.commute [of l w])

section \<open>Properties\<close>

text \<open>
  C21 The p-value of a comparison is the exact two-sided binomial test: of the discordant pairs,
  each a win with probability one half, it is the probability of a split at least as uneven as
  the observed one, rounded to six decimals; so it does not depend on which report is the
  baseline, and it is a probability.
\<close>

theorem mcnemar_is_two_sided:
  assumes "wins + losses \<noteq> 0"
  shows "mcnemar_exact wins losses
      = round_digits 6 (int_div (int (two_sided (wins + losses) (min wins losses))) (2 ^ (wins + losses)))
    \<and> mcnemar_exact losses wins = mcnemar_exact wins losses
    \<and> 0 \<le> mcnemar_exact wins losses \<and> mcnemar_exact wins losses \<le> 1"
proof -
  define n m where "n = wins + losses" and "m = min wins losses"
  define t where "t = (\<Sum>k\<le>m. n choose k)"
  have code: "mcnemar_exact wins losses = round_digits 6 (min 1 (int_div (2 * int t) (2 ^ n)))"
    using assms lower_tail [of n m] by (auto simp: mcnemar_exact_def Let_def n_def m_def t_def simp del: upt_Suc)
  have two: "min 1 (int_div (2 * int t) (2 ^ n)) = int_div (int (two_sided n m)) (2 ^ n)"
  proof (cases "2 * m < n")
    case True
    then have s: "two_sided n m = 2 * t" by (simp add: two_sided_less t_def)
    then have "int_div (2 * int t) (2 ^ n) \<le> 1"
      using int_div_unit [of "2 * int t" "2 ^ n"] two_sided_le [of n m] by (simp add: of_nat_le_iff [symmetric, where 'a = int])
    then show ?thesis by (simp add: s)
  next
    case False
    then have full: "two_sided n m = 2 ^ n" by (intro two_sided_all) simp
    have n: "n = 2 * m" using False by (auto simp: n_def m_def min_def split: if_splits)
    then have "{..n} = {..m} \<union> {n - m..n}" by auto
    then have "2 ^ n \<le> 2 * t"
      using choose_row_sum [of n] sum_Un_nat [of "{..m}" "{n - m..n}" "\<lambda>k. n choose k"] upper_tail [of m n] n
      by (simp add: t_def)
    then have "(of_nat (2 ^ n) :: rat) \<le> of_nat (2 * t)" by (simp only: of_nat_le_iff)
    then have "1 \<le> (of_int (2 * int t) / of_int (2 ^ n) :: rat)" by (simp add: le_divide_eq)
    then have "1 \<le> int_div (2 * int t) (2 ^ n)" unfolding int_div_def by (rule to_double_ge_1)
    moreover have "int_div (2 ^ n) (2 ^ n) = 1"
      using to_double_ge_1 [of 1] to_double_le_1 [of 1] by (simp add: int_div_def)
    ultimately show ?thesis by (simp add: full)
  qed
  have top: "int (two_sided n m) \<le> int (2 ^ n)" using two_sided_le [of n m] by (simp only: of_nat_le_iff)
  have unit: "0 \<le> int_div (int (two_sided n m)) (2 ^ n) \<and> int_div (int (two_sided n m)) (2 ^ n) \<le> 1"
    by (rule int_div_unit) (use top in simp_all)
  show ?thesis
    using unit by (simp add: mcnemar_commute [of losses wins] code two n_def [symmetric] m_def [symmetric] round_digits_nonneg round_digits_le_1)
qed

text \<open>
  C22 A comparison counts every matched trial once: the matched trials are those whose identity
  both reports have, every other trial is listed as unmatched, wins and losses are the matched
  trials where exactly one side succeeded, the success rates differ by them, and the rates are
  between 0 and 1.
\<close>

theorem comparison_counts:
  assumes "compare_reports py num same baseline candidate = Inr x"
    and "report_runs py num ''baseline'' baseline = Inr b" and "report_runs py num ''candidate'' candidate = Inr c"
  shows "cp_wins x = card {k. \<exists>d e. map_of b k = Some d \<and> map_of c k = Some e \<and> \<not> succeeded py d \<and> succeeded py e}
    \<and> cp_losses x = card {k. \<exists>d e. map_of b k = Some d \<and> map_of c k = Some e \<and> succeeded py d \<and> \<not> succeeded py e}
    \<and> cp_matched x = card {k. map_of b k \<noteq> None \<and> map_of c k \<noteq> None}
    \<and> cp_matched x + length (cp_baseline_only x) = length b
    \<and> cp_matched x + length (cp_candidate_only x) = length c
    \<and> 0 \<le> cp_ties x \<and> int (cp_wins x) + int (cp_losses x) + cp_ties x = int (cp_matched x)
    \<and> 0 \<le> cp_baseline_rate x \<and> cp_baseline_rate x \<le> 1 \<and> 0 \<le> cp_candidate_rate x \<and> cp_candidate_rate x \<le> 1"
proof -
  have d: "distinct (map fst b)" "distinct (map fst c)" using assms(2,3) by (auto dest: report_runs_distinct)
  let ?P = "matched_pairs b c"
  have both: "length ?P = card {k. map_of b k \<noteq> None \<and> map_of c k \<noteq> None}"
    using length_filter_matched [OF d(1), of "\<lambda>_. True" c] by (auto intro!: arg_cong [where f = card])
  have swapped: "length ?P = length (matched_pairs c b)" using matched_pairs_swap [OF d] by simp
  obtain t u ds cs where x: "x = comparison_of py ?P (unmatched b c) (unmatched c b) ds cs t u"
    by (rule compare_reports_fields [OF assms])
  show ?thesis
    using length_filter_matched [OF d(1), of "\<lambda>(x, y). \<not> succeeded py x \<and> succeeded py y" c]
      length_filter_matched [OF d(1), of "\<lambda>(x, y). succeeded py x \<and> \<not> succeeded py y" c]
      matched_unmatched [of b c] matched_unmatched [of c b] both swapped wins_losses_le [of py ?P]
      rate_of_unit [of py "map fst ?P"] rate_of_unit [of py "map snd ?P"]
    by (simp add: x comparison_of_def Let_def wins_of_def losses_of_def)
qed

text \<open>
  Swapping the two reports swaps the verdict: the same trials are matched with the same
  p-value, wins become losses, and the differences of the rates, the tokens and the failure
  counts change their sign.
\<close>

theorem comparison_swapped:
  assumes "compare_reports py num same baseline candidate = Inr x"
    and "compare_reports py num same candidate baseline = Inr y"
  shows "cp_matched y = cp_matched x \<and> cp_complete y = cp_complete x
    \<and> cp_wins y = cp_losses x \<and> cp_losses y = cp_wins x \<and> cp_ties y = cp_ties x \<and> cp_pvalue y = cp_pvalue x
    \<and> cp_baseline_rate y = cp_candidate_rate x \<and> cp_rate_delta y = - cp_rate_delta x
    \<and> cp_baseline_tokens y = cp_candidate_tokens x \<and> cp_token_delta y = - cp_token_delta x
    \<and> cp_failure_delta y = map (\<lambda>(k, n). (k, - n)) (cp_failure_delta x)
    \<and> cp_baseline_only y = cp_candidate_only x"
proof -
  obtain b c where b: "report_runs py num ''baseline'' baseline = Inr b" and c: "report_runs py num ''candidate'' candidate = Inr c"
    using assms(1) by (auto simp: compare_reports_def split: sum.splits)
  note b' = report_runs_label [OF b, of "''candidate''"] and c' = report_runs_label [OF c, of "''baseline''"]
  have d: "distinct (map fst b)" "distinct (map fst c)" using b c by (auto dest: report_runs_distinct)
  note P = matched_pairs_swap [OF d]
  obtain t u ds cs where t: "sum_tokens num (map fst (matched_pairs b c)) = Inr t"
      "sum_tokens num (map snd (matched_pairs b c)) = Inr u"
    and x: "x = comparison_of py (matched_pairs b c) (unmatched b c) (unmatched c b) ds cs t u"
    by (rule compare_reports_fields [OF assms(1) b c])
  obtain ds' cs' where y: "y = comparison_of py (map prod.swap (matched_pairs b c)) (unmatched c b) (unmatched b c) ds' cs' u t"
    by (rule compare_reports_fields [OF assms(2) c' b']) (use t in \<open>simp add: P comp_def\<close>)
  have "to_double (rate_of py (map fst (matched_pairs b c)) - rate_of py (map snd (matched_pairs b c)))
      = - to_double (rate_of py (map snd (matched_pairs b c)) - rate_of py (map fst (matched_pairs b c)))"
    by (subst to_double_minus [symmetric]) simp
  then show ?thesis
    by (auto simp: x y comparison_of_def Let_def wins_losses_swap failure_delta_swap mcnemar_commute comp_def
        round_digits_minus)
qed

theorem mcnemar_is_two_sided_witness:
  "0 \<le> mcnemar_exact 5 1 \<and> mcnemar_exact 1 5 = mcnemar_exact 5 1"
  using mcnemar_is_two_sided [of 5 1] by simp

text \<open>Two small reports: one trial won, one tied, one unmatched.\<close>

definition demo_trial :: "pystr \<Rightarrow> bool \<Rightarrow> json" where
  "demo_trial c ok = JObj [(''case_id'', JStr c), (''success'', JBool ok), (''input_tokens'', JInt 7)]"

definition demo_baseline :: run_data where
  "demo_baseline = [(''runs'', JArr [demo_trial ''a'' False, demo_trial ''b'' True])]"

definition demo_candidate :: run_data where
  "demo_candidate = [(''runs'', JArr [demo_trial ''b'' True, demo_trial ''a'' True, demo_trial ''c'' False])]"

lemma demo_comparison:
  "map_sum id (\<lambda>x. (cp_wins x, cp_losses x, cp_ties x, cp_rate_delta x)) (compare_reports demo_py demo_numbers (=)
     demo_baseline demo_candidate) = Inr (1, 0, 1, 1/2)"
  by code_simp

theorem comparison_counts_witness:
  "\<exists>x. compare_reports demo_py demo_numbers (=) demo_baseline demo_candidate = Inr x
     \<and> int (cp_wins x) + int (cp_losses x) + cp_ties x = int (cp_matched x)"
proof -
  obtain x where x: "compare_reports demo_py demo_numbers (=) demo_baseline demo_candidate = Inr x"
    using demo_comparison by (cases "compare_reports demo_py demo_numbers (=) demo_baseline demo_candidate") auto
  then obtain b c where "report_runs demo_py demo_numbers ''baseline'' demo_baseline = Inr b"
      "report_runs demo_py demo_numbers ''candidate'' demo_candidate = Inr c"
    by (auto simp: compare_reports_def split: sum.splits)
  from comparison_counts [OF x this] x show ?thesis by blast
qed

theorem comparison_swapped_witness:
  "\<exists>x y. compare_reports demo_py demo_numbers (=) demo_baseline demo_candidate = Inr x
     \<and> compare_reports demo_py demo_numbers (=) demo_candidate demo_baseline = Inr y
     \<and> cp_losses y = cp_wins x \<and> cp_rate_delta y = - cp_rate_delta x"
proof -
  have "\<not> isl (compare_reports demo_py demo_numbers (=) demo_baseline demo_candidate)"
    "\<not> isl (compare_reports demo_py demo_numbers (=) demo_candidate demo_baseline)" by code_simp+
  then obtain x y where x: "compare_reports demo_py demo_numbers (=) demo_baseline demo_candidate = Inr x"
    and y: "compare_reports demo_py demo_numbers (=) demo_candidate demo_baseline = Inr y"
    by (metis isl_def sum.exhaust_sel sum.disc(1))
  from comparison_swapped [OF x y] x y show ?thesis by blast
qed

end
