(* ===== verification/Benchmark.thy ===== *)
theory Benchmark
  imports Program Comparison
begin

text \<open>
  The benchmark (\<open>benchmarking/contracts.py\<close>, \<open>workspace.py\<close>, \<open>runner.py\<close>): every trial gets a
  fresh Git baseline, runs the agent on it, materializes the exported candidate, runs the
  holdout tests that the agent never saw, and keeps a record; a trial that fails is recorded,
  it does not end the benchmark. Durations are left out, as are the token and repository
  metrics of a record.
\<close>

section \<open>Cases\<close>

record benchmark_case =
  bc_case_id :: pystr
  bc_allowed_paths :: "pystr list"
  bc_strategies :: "pystr list"
  bc_mode :: pystr
  bc_max_iterations :: int
  bc_fixture :: "pystr option"
  bc_holdout_path :: "pystr option"
  bc_workspace :: "pystr option"
  bc_reset_command :: "pystr list"
  bc_task :: "pystr option"
  bc_tags :: "pystr list"
  bc_required_paths :: "pystr list"
  bc_relevant_paths :: "pystr list"
  bc_distractor_paths :: "pystr list"

definition build_generic_task :: "pystr list \<Rightarrow> pystr" where
  "build_generic_task paths =
     (let scope = (if paths \<noteq> []
        then ''Only modify Python files under '' @ join '', '' (map (\<lambda>p. p @ ''/'') paths) @ ''. ''
        else ''Only modify Python source files. '')
      in ''Fix all failing tests. '' @ scope @ ''Do not modify tests/.'')"

definition agent_task :: "benchmark_case \<Rightarrow> pystr" where
  "agent_task bc = (if truthy (bc_task bc) then the (bc_task bc) else build_generic_task (bc_allowed_paths bc))"

section \<open>The outside\<close>

text \<open>
  What a trial needs beyond the parts of an agent: the factories of its models, of which only the
  exception matters that they may raise, the sandbox factory, the copying of files, directories
  below a given one, and what \<open>save_trace\<close> needs.
\<close>

record ('v, 'w) bench_system =
  bn_parts :: "('v, 'w) agent_parts"
  bn_model :: "exn option"
  bn_review_model :: "exn option"
  bn_factory :: "pystr \<Rightarrow> exn + (local_sandbox + container_sandbox)"
  bn_mkdir :: "'w \<Rightarrow> pystr \<Rightarrow> pystr option \<times> 'w"
  bn_copytree :: "'w \<Rightarrow> pystr \<Rightarrow> pystr \<Rightarrow> pystr option \<times> 'w"
  bn_copy :: "'w \<Rightarrow> pystr \<Rightarrow> pystr \<Rightarrow> pystr option \<times> 'w"
  bn_mkdtemp :: "'w \<Rightarrow> pystr \<Rightarrow> (exn + pystr) \<times> 'w"
  bn_sha :: "pystr \<Rightarrow> pystr"
  bn_dirs :: "pystr \<times> pystr"
  bn_dump :: "agent_result \<Rightarrow> (pystr \<times> json) list"

text \<open>An operation that returns the message of its \<open>OSError\<close>; \<open>shutil.Error\<close> is one too.\<close>

definition may_fail :: "('w \<Rightarrow> pystr option \<times> 'w) \<Rightarrow> ('w, unit) io" where
  "may_fail f = (\<lambda>w. case f w of (Some m, w') \<Rightarrow> (Inl (OSError m), w') | (None, w') \<Rightarrow> (Inr (), w'))"

definition lift_result :: "exn + 'a \<Rightarrow> ('w, 'a) io" where
  "lift_result r = (\<lambda>w. (r, w))"

text \<open>\<open>try ... finally\<close>: the last block runs in any case, and its own exception wins.\<close>

definition finally_io :: "('w, 'a) io \<Rightarrow> ('w, unit) io \<Rightarrow> ('w, 'a) io" where
  "finally_io m f = (\<lambda>w. case m w of (r, w') \<Rightarrow>
     (case f w' of (Inl e, w'') \<Rightarrow> (Inl e, w'') | (Inr _, w'') \<Rightarrow> (r, w'')))"

lemma finally_io_Inr:
  assumes "finally_io m f w = (Inr x, w'')"
  obtains w' where "m w = (Inr x, w')"
  using assms by (auto simp: finally_io_def split: prod.splits sum.splits)

section \<open>Workspaces\<close>

definition bench_safe_remove :: "'w os \<Rightarrow> pystr \<Rightarrow> pystr \<Rightarrow> ('w, unit) io" where
  "bench_safe_remove os out p = bind_io (gets (\<lambda>w. resolve_path os w p)) (\<lambda>resolved.
     if relative_to (path_parts out) (path_parts resolved) = None
     then throw (RuntimeError (''refusing to remove benchmark path outside output directory: '' @ p))
     else bind_io (gets (\<lambda>w. path_exists os w resolved)) (\<lambda>there.
       when_io there (may_fail (\<lambda>w. rmtree os w resolved))))"

definition run_checked :: "'w os \<Rightarrow> pystr \<Rightarrow> pystr list \<Rightarrow> ('w, unit) io" where
  "run_checked os cwd args = bind_io (run_git os cwd args) (\<lambda>(rc, out, err).
     if rc \<noteq> 0 then throw (RuntimeError (''command failed: git '' @ join '' '' args @ '': '' @ strip err)) else ret ())"

text \<open>The message of \<open>TimeoutExpired\<close> shows the command as a list.\<close>

definition run_reset :: "pyvals \<Rightarrow> 'w os \<Rightarrow> pystr \<Rightarrow> benchmark_case \<Rightarrow> ('w, unit) io" where
  "run_reset py os proj bc = (\<lambda>w. case spawn os w proj (bc_reset_command bc) 60 of
     (Ran rc out err, w') \<Rightarrow>
       (if rc \<noteq> 0
        then (Inl (RuntimeError (''reset failed for '' @ bc_case_id bc @ '': '' @ or_text (strip err) (strip out))), w')
        else (Inr (), w'))
   | (RanOut _ _, w') \<Rightarrow>
       (Inl (TimeoutExpired (''Command '' @ [CHR 0x27] @ json_str py (JArr (map JStr (bc_reset_command bc))) @ [CHR 0x27]
          @ '' timed out after 60 seconds'')), w')
   | (NotRun m, w') \<Rightarrow> (Inl (OSError m), w'))"

text \<open>\<open>a / b\<close>: an absolute second path replaces the first.\<close>

definition joined_path :: "pystr \<Rightarrow> pystr \<Rightarrow> pystr" where
  "joined_path a b = (if path_is_absolute b then b else path_join a [b])"

definition trial_workspace :: "pystr \<Rightarrow> benchmark_case \<Rightarrow> pystr \<Rightarrow> nat \<Rightarrow> pystr \<Rightarrow> pystr" where
  "trial_workspace out bc strategy repetition variant =
     foldl joined_path out [''workspaces'', bc_case_id bc, strategy, variant, ''run_'' @ str_nat repetition]"

definition init_baseline :: "'w os \<Rightarrow> pystr \<Rightarrow> ('w, unit) io" where
  "init_baseline os ws =
     then_io (run_checked os ws [''init''])
     (then_io (run_checked os ws [''config'', ''user.email'', ''benchmark@pyfixagent.local''])
     (then_io (run_checked os ws [''config'', ''user.name'', ''PyFixAgent Benchmark''])
     (then_io (run_checked os ws [''add'', ''.''])
     (run_checked os ws [''commit'', ''-m'', ''benchmark: failing baseline'']))))"

text \<open>\<open>except (OSError, RuntimeError, shutil.Error, subprocess.SubprocessError)\<close>.\<close>

definition handled_failure :: "exn \<Rightarrow> bool" where
  "handled_failure e = (case e of OSError _ \<Rightarrow> True | RuntimeError _ \<Rightarrow> True | TimeoutExpired _ \<Rightarrow> True | _ \<Rightarrow> False)"

definition prepare_trial ::
    "pyvals \<Rightarrow> ('v, 'w) bench_system \<Rightarrow> pystr \<Rightarrow> pystr \<Rightarrow> benchmark_case \<Rightarrow> pystr \<Rightarrow> nat \<Rightarrow> pystr \<Rightarrow> ('w, pystr) io" where
  "prepare_trial py bn proj out bc strategy repetition variant =
     (let os = pt_os (bn_parts bn) in
      case bc_fixture bc of
        None \<Rightarrow> (case bc_workspace bc of
           None \<Rightarrow> throw (ValueError (''case '' @ bc_case_id bc @ '' has no fixture or workspace''))
         | Some ws \<Rightarrow> then_io (run_reset py os proj bc) (ret ws))
      | Some fixture \<Rightarrow>
          (let ws = trial_workspace out bc strategy repetition variant in
           then_io (bench_safe_remove os out ws)
           (then_io (may_fail (\<lambda>w. bn_mkdir bn w (path_parent ws)))
           (then_io (may_fail (\<lambda>w. bn_copytree bn w fixture ws))
           (\<lambda>w. case init_baseline os ws w of
              (Inr _, w') \<Rightarrow> (Inr ws, w')
            | (Inl e, w') \<Rightarrow>
                (if handled_failure e then then_io (bench_safe_remove os out ws) (throw e) w' else (Inl e, w')))))))"

definition cleanup_trial ::
    "pyvals \<Rightarrow> ('v, 'w) bench_system \<Rightarrow> pystr \<Rightarrow> pystr \<Rightarrow> benchmark_case \<Rightarrow> pystr \<Rightarrow> 'w \<Rightarrow> (exn + pystr option) \<times> 'w" where
  "cleanup_trial py bn proj out bc ws w =
     (case (if bc_fixture bc \<noteq> None then bench_safe_remove (pt_os (bn_parts bn)) out ws
            else run_reset py (pt_os (bn_parts bn)) proj bc) w of
        (Inr _, w') \<Rightarrow> (Inr None, w')
      | (Inl e, w') \<Rightarrow> (if handled_failure e then (Inr (Some (exn_message e)), w') else (Inl e, w')))"

section \<open>Holdout tests\<close>

record holdout =
  ho_evaluated :: bool
  ho_success :: "bool option"
  ho_exit_code :: "int option"
  ho_output :: stream_text

definition with_timeout :: "int \<Rightarrow> local_sandbox + container_sandbox \<Rightarrow> local_sandbox + container_sandbox" where
  "with_timeout t sb = (if t = 0 then sb
     else map_sum (\<lambda>ls. ls\<lparr>ls_timeout_seconds := t\<rparr>) (\<lambda>cs. cs\<lparr>cs_timeout_seconds := t\<rparr>) sb)"

text \<open>\<open>(stdout + stderr)[-8000:]\<close>: text and bytes cannot be joined.\<close>

definition last_chars :: "nat \<Rightarrow> pystr \<Rightarrow> pystr" where
  "last_chars n s = drop (length s - n) s"

definition joined_output :: "stream_text \<Rightarrow> stream_text \<Rightarrow> exn + stream_text" where
  "joined_output out err = (case (out, err) of
     (Str a, Str b) \<Rightarrow> Inr (Str (last_chars 8000 (a @ b)))
   | (Bytes a, Bytes b) \<Rightarrow> Inr (Bytes (last_chars 8000 (a @ b)))
   | (Str a, Bytes b) \<Rightarrow> Inl (TypeError ''can only concatenate str (not \"bytes\") to str'')
   | (Bytes a, Str b) \<Rightarrow> Inl (TypeError ''can't concat str to bytes''))"

definition holdout_command :: "local_sandbox + container_sandbox \<Rightarrow> pystr \<Rightarrow> pystr \<Rightarrow> pystr list" where
  "holdout_command sb temporary_root target =
     [''python'', ''-m'', ''pytest'', ''-q'', ''-p'', ''no:cacheprovider'',
      ''--basetemp='' @ (case sb of Inl ls \<Rightarrow> local_basetemp ls temporary_root 0
         | Inr cs \<Rightarrow> container_basetemp cs temporary_root 0), target]"

definition run_in_sandbox ::
    "('v, 'w) agent_parts \<Rightarrow> local_sandbox + container_sandbox \<Rightarrow> pystr list \<Rightarrow> ('w, command_result) io" where
  "run_in_sandbox pt sb command = (\<lambda>w.
     case sb_run (built_ops (pt_sandbox_os pt) (pt_container pt)) sb command (snd (pt_sandbox pt w)) of
       (r, sb', v) \<Rightarrow> (Inr r, pt_put_sandbox pt (sb', v) w))"

text \<open>The tests are copied below the workspace, run, and removed whatever happens.\<close>

definition holdout_tests ::
    "('v, 'w) bench_system \<Rightarrow> int \<Rightarrow> pystr \<Rightarrow> pystr \<Rightarrow> pystr \<Rightarrow> ('w, holdout) io" where
  "holdout_tests bn timeout source ws temporary_root =
     (let target = path_join temporary_root [path_name source]; pt = bn_parts bn in
      bind_io (gets (\<lambda>w. is_dir (pt_os pt) w source)) (\<lambda>dir.
      then_io (may_fail (\<lambda>w. if dir then bn_copytree bn w source target else bn_copy bn w source target))
      (bind_io (lift_result (bn_factory bn ws)) (\<lambda>sb.
      (case relative_to (path_parts ws) (path_parts target) of
         None \<Rightarrow> throw (ValueError (target @ '' is not in the subpath of '' @ ws))
       | Some rel \<Rightarrow>
           bind_io (run_in_sandbox pt (with_timeout timeout sb) (holdout_command sb temporary_root (as_posix rel))) (\<lambda>r.
           bind_io (lift_result (joined_output (cr_stdout r) (cr_stderr r))) (\<lambda>out.
           ret \<lparr>ho_evaluated = True, ho_success = Some (cr_exit_code r = 0), ho_exit_code = Some (cr_exit_code r),
             ho_output = out\<rparr>)))))))"

definition run_holdout :: "('v, 'w) bench_system \<Rightarrow> int \<Rightarrow> benchmark_case \<Rightarrow> pystr \<Rightarrow> ('w, holdout) io" where
  "run_holdout bn timeout bc workspace =
     (let os = pt_os (bn_parts bn) in
      case bc_holdout_path bc of
        None \<Rightarrow> ret \<lparr>ho_evaluated = False, ho_success = None, ho_exit_code = None, ho_output = Str []\<rparr>
      | Some source \<Rightarrow>
          bind_io (gets (\<lambda>w. resolve_path os w workspace)) (\<lambda>ws.
          bind_io (\<lambda>w. bn_mkdtemp bn w ws) (\<lambda>dir.
          bind_io (gets (\<lambda>w. resolve_path os w dir)) (\<lambda>temporary_root.
          finally_io (holdout_tests bn timeout source ws temporary_root)
            (\<lambda>w. when_io (path_exists os w temporary_root) (may_fail (\<lambda>w. rmtree os w temporary_root)) w)))))"

section \<open>Records\<close>

record variant =
  bv_case :: benchmark_case
  bv_strategy :: pystr
  bv_repetition :: nat
  bv_repository_enabled :: bool

definition variant_label :: "variant \<Rightarrow> pystr" where
  "variant_label v = (if bv_repository_enabled v then ''repository'' else ''legacy'')"

definition trial_failure_type :: "agent_state \<Rightarrow> bool \<Rightarrow> bool option \<Rightarrow> pystr option \<Rightarrow> pystr option" where
  "trial_failure_type a visible hs last_type =
     (if a_success a \<and> a_acceptance_status a \<in> {''accepted'', ''accepted_with_warnings''}
      then (if hs = Some False then Some ''false_accept'' else last_type)
      else if \<not> a_success a \<and> visible \<and> hs = Some True then Some ''false_reject''
      else if visible \<and> hs = Some False
      then Some (if a_acceptance_status a = ''rejected'' then ''semantic_rejected'' else ''holdout_failed'')
      else last_type)"

definition last_failure_type :: "agent_state \<Rightarrow> pystr option" where
  "last_failure_type a = (if a_iterations a = [] then None
     else Some (ir_failure_type (it_iteration_result (last (a_iterations a)))))"

definition violates_policy :: "iteration_record \<Rightarrow> bool" where
  "violates_policy it =
     (contains (or_else (ai_error (it_apply it)) []) ''EDIT_POLICY_REJECTED''
      \<or> contains (or_else (it_replacement_error it) []) ''outside allowed paths''
      \<or> contains (or_else (it_replacement_error it) []) ''forbidden path'')"

text \<open>\<open>(record.context or {}).get(key, default)\<close>.\<close>

definition context_get :: "pyvals \<Rightarrow> iteration_record \<Rightarrow> pystr \<Rightarrow> json \<Rightarrow> index_error + json" where
  "context_get py it key dflt =
     (if \<not> json_truthy py (it_context it) then Inr dflt
      else (case it_context it of JObj d \<Rightarrow> Inr (jget_or d key dflt) | _ \<Rightarrow> Inl IndexAttributeError))"

definition context_chars :: "pyvals \<Rightarrow> number_ops \<Rightarrow> pystr \<Rightarrow> iteration_record \<Rightarrow> index_error + int" where
  "context_chars py num key it = res_bind (context_get py it ''stats'' (JObj [])) (\<lambda>v. case v of
     JObj d \<Rightarrow> py_int (nm_int num) (if json_truthy py (jget d key) then jget d key else JInt 0)
   | _ \<Rightarrow> Inl IndexAttributeError)"

definition selected_path :: "pyvals \<Rightarrow> json \<Rightarrow> index_error + pystr list" where
  "selected_path py item = (case item of
     JObj d \<Rightarrow> Inr (if json_truthy py (jget d ''path'') then [slashes (json_str py (jget d ''path''))] else [])
   | _ \<Rightarrow> Inl IndexAttributeError)"

definition selected_context_paths :: "pyvals \<Rightarrow> agent_state \<Rightarrow> index_error + pystr list" where
  "selected_context_paths py a =
     map_sum id (\<lambda>xs. sort (remdups (concat (concat xs))))
       (map_result (\<lambda>it. res_bind (context_get py it ''selected_files'' (JArr [])) (\<lambda>v.
          res_bind (json_items v) (map_result (selected_path py)))) (a_iterations a))"

text \<open>The hits among the required, the relevant and the distracting files, and their shares.\<close>

record context_quality =
  cq_required_hits :: nat
  cq_required_recall :: "rat option"
  cq_relevant_hits :: nat
  cq_precision :: "rat option"
  cq_distractor_hits :: nat
  cq_distractor_rate :: "rat option"

definition quality_of :: "benchmark_case \<Rightarrow> pystr list \<Rightarrow> context_quality" where
  "quality_of bc selected =
     (let required = remdups (bc_required_paths bc); relevant = remdups (bc_relevant_paths bc);
          distractors = remdups (bc_distractor_paths bc);
          hits = (\<lambda>xs. length (filter (\<lambda>x. x \<in> set selected) xs));
          share = (\<lambda>a b. round_digits 4 (int_div (int a) (int b)))
      in \<lparr>cq_required_hits = hits required,
        cq_required_recall = (if required \<noteq> [] then Some (share (hits required) (length required)) else None),
        cq_relevant_hits = hits relevant,
        cq_precision = (if relevant \<noteq> [] \<and> selected \<noteq> [] then Some (share (hits relevant) (length selected)) else None),
        cq_distractor_hits = hits distractors,
        cq_distractor_rate =
          (if distractors \<noteq> [] then Some (share (hits distractors) (length distractors)) else None)\<rparr>)"

record trial_record =
  tr_case_id :: pystr
  tr_strategy :: pystr
  tr_variant :: pystr
  tr_repository_enabled :: bool
  tr_repetition :: nat
  tr_success :: bool
  tr_candidate_success :: bool
  tr_visible_success :: bool
  tr_agent_accepted :: bool
  tr_acceptance_status :: pystr
  tr_holdout_success :: "bool option"
  tr_holdout_exit_code :: "int option"
  tr_holdout_output :: stream_text
  tr_error :: "pystr option"
  tr_failure_type :: "pystr option"
  tr_cleanup_error :: "pystr option"
  tr_iterations :: nat
  tr_iteration_failure_types :: "pystr list"
  tr_policy_violations :: nat
  tr_prompt_chars :: int
  tr_selected_context_chars :: int
  tr_trace_path :: "pystr option"
  tr_workspace :: "pystr option"
  tr_workspace_strategy :: pystr
  tr_selected_paths :: "pystr list"
  tr_quality :: "context_quality option"

definition run_identity :: "variant \<Rightarrow> pystr \<times> pystr \<times> pystr \<times> bool \<times> nat" where
  "run_identity v = (bc_case_id (bv_case v), bv_strategy v, variant_label v, bv_repository_enabled v, bv_repetition v)"

text \<open>A key that a record of a failed trial does not have is empty here.\<close>

definition build_runner_error :: "variant \<Rightarrow> exn \<Rightarrow> trial_record" where
  "build_runner_error v e = (case run_identity v of (c, s, l, b, n) \<Rightarrow>
     \<lparr>tr_case_id = c, tr_strategy = s, tr_variant = l, tr_repository_enabled = b, tr_repetition = n,
      tr_success = False, tr_candidate_success = False, tr_visible_success = False, tr_agent_accepted = False,
      tr_acceptance_status = [], tr_holdout_success = None, tr_holdout_exit_code = None, tr_holdout_output = Str [],
      tr_error = Some (exn_message e), tr_failure_type = Some ''runner_error'', tr_cleanup_error = None,
      tr_iterations = 0, tr_iteration_failure_types = [], tr_policy_violations = 0, tr_prompt_chars = 0,
      tr_selected_context_chars = 0, tr_trace_path = None, tr_workspace = None, tr_workspace_strategy = [],
      tr_selected_paths = [], tr_quality = None\<rparr>)"

text \<open>An exception of reading the metadata of a context; only a \<open>ValueError\<close> keeps its message.\<close>

definition index_exn :: "index_error \<Rightarrow> exn" where
  "index_exn e = (case e of IndexValueError m \<Rightarrow> ValueError m | _ \<Rightarrow> TypeError [])"

definition build_run_record ::
    "pyvals \<Rightarrow> number_ops \<Rightarrow> variant \<Rightarrow> agent_result \<Rightarrow> holdout \<Rightarrow> pystr \<Rightarrow> pystr \<Rightarrow> index_error + trial_record" where
  "build_run_record py num v res ho trace_path workspace =
     (let a = res_state res; visible = a_visible_success a; hs = ho_success ho in
      res_bind (selected_context_paths py a) (\<lambda>selected.
      res_bind (map_result (context_chars py num ''prompt_chars'') (a_iterations a)) (\<lambda>prompts.
      res_bind (map_result (context_chars py num ''selected_context_chars'') (a_iterations a)) (\<lambda>contexts.
      case run_identity v of (c, s, l, b, n) \<Rightarrow>
      Inr \<lparr>tr_case_id = c, tr_strategy = s, tr_variant = l, tr_repository_enabled = b, tr_repetition = n,
        tr_success = (a_success a \<and> hs \<noteq> Some False), tr_candidate_success = (visible \<and> hs \<noteq> Some False),
        tr_visible_success = visible, tr_agent_accepted = a_success a, tr_acceptance_status = a_acceptance_status a,
        tr_holdout_success = hs, tr_holdout_exit_code = ho_exit_code ho, tr_holdout_output = ho_output ho,
        tr_error = a_error a, tr_failure_type = trial_failure_type a visible hs (last_failure_type a),
        tr_cleanup_error = None, tr_iterations = length (a_iterations a),
        tr_iteration_failure_types = map (\<lambda>it. ir_failure_type (it_iteration_result it)) (a_iterations a),
        tr_policy_violations = length (filter violates_policy (a_iterations a)),
        tr_prompt_chars = sum_list prompts, tr_selected_context_chars = sum_list contexts,
        tr_trace_path = Some trace_path, tr_workspace = Some workspace,
        tr_workspace_strategy = a_workspace_strategy a, tr_selected_paths = selected,
        tr_quality = Some (quality_of (bv_case v) selected)\<rparr>))))"

section \<open>Trials\<close>

record bench_options =
  bo_project_root :: pystr
  bo_output_dir :: pystr
  bo_repeat :: int
  bo_strategy_override :: "pystr list"
  bo_keep_workspaces :: bool
  bo_sandbox_timeout :: int
  bo_line_window :: int
  bo_context_max_files :: int
  bo_max_expansion_level :: int
  bo_max_changed_files :: int
  bo_max_changed_lines :: int
  bo_test_commands :: "pystr list list option"
  bo_review_enabled :: bool
  bo_review_max_revisions :: int
  bo_review_parse_retries :: int
  bo_review_max_context_chars :: int
  bo_review_max_feedback_chars :: int
  bo_review_max_risks :: int
  bo_review_max_contracts :: int
  bo_repository_enabled :: bool
  bo_repository_modes :: "bool list option"
  bo_repository_max_files :: int
  bo_repository_max_file_bytes :: int
  bo_repository_max_graph_depth :: int
  bo_repository_max_related_files :: int
  bo_repository_max_snippet_lines :: int
  bo_max_selected_tokens :: int
  bo_trace_redaction_mode :: pystr

text \<open>The arguments that the runner leaves out have the defaults of the constructor.\<close>

definition bench_agent_options :: "bench_options \<Rightarrow> variant \<Rightarrow> agent_options" where
  "bench_agent_options ops v =
     \<lparr>ao_patch_output_dir = path_join (bo_output_dir ops) [''patches''],
      ao_max_iterations = bc_max_iterations (bv_case v), ao_initial_mode = JStr (bc_mode (bv_case v)),
      ao_context_strategy = JStr (bv_strategy v), ao_line_window = bo_line_window ops,
      ao_max_files = bo_context_max_files ops, ao_max_expansion_level = bo_max_expansion_level ops,
      ao_fallback_to_full = True, ao_include_tests = True, ao_require_clean = True,
      ao_allowed_paths = map JStr (bc_allowed_paths (bv_case v)), ao_max_changed_files = bo_max_changed_files ops,
      ao_max_changed_lines = bo_max_changed_lines ops, ao_isolate = True, ao_test_commands = bo_test_commands ops,
      ao_review_enabled = bo_review_enabled ops, ao_review_max_revisions = bo_review_max_revisions ops,
      ao_review_parse_retries = bo_review_parse_retries ops, ao_review_model_retries = 2,
      ao_review_max_context_chars = bo_review_max_context_chars ops,
      ao_review_max_feedback_chars = bo_review_max_feedback_chars ops, ao_review_max_risks = bo_review_max_risks ops,
      ao_review_max_contracts = bo_review_max_contracts ops, ao_repository_enabled = bv_repository_enabled v,
      ao_cache_dir = Some (path_join (bo_output_dir ops) [''index'']), ao_index_max_files = bo_repository_max_files ops,
      ao_index_max_file_bytes = bo_repository_max_file_bytes ops,
      ao_max_graph_depth = bo_repository_max_graph_depth ops,
      ao_max_related_files = bo_repository_max_related_files ops,
      ao_max_snippet_lines = bo_repository_max_snippet_lines ops, ao_max_selected_tokens = bo_max_selected_tokens ops\<rparr>"

definition start_exn :: "start_error \<Rightarrow> exn" where
  "start_exn e = (case e of LoadFailed m \<Rightarrow> RuntimeError m | BadSetting i \<Rightarrow> index_exn i | Refused x \<Rightarrow> x)"

definition bench_agent ::
    "pyvals \<Rightarrow> ('v, 'w) bench_system \<Rightarrow> bench_options \<Rightarrow> variant \<Rightarrow> pystr \<Rightarrow> exn + default_agent" where
  "bench_agent py bn ops v ws = (case bn_model bn of
     Some e \<Rightarrow> Inl e
   | None \<Rightarrow> res_bind (bn_factory bn ws) (\<lambda>sb. case bn_review_model bn of
       Some e \<Rightarrow> Inl e
     | None \<Rightarrow> map_sum start_exn id (default_agent_init py sb (bench_agent_options ops v))))"

fun apply_steps :: "'w os \<Rightarrow> pystr \<Rightarrow> pystr \<Rightarrow> pystr list list \<Rightarrow> ('w, unit) io" where
  "apply_steps os ws patch [] = ret ()"
| "apply_steps os ws patch (args # rest) = (\<lambda>w. case git os w ws args patch of
     (Completed rc out err, w') \<Rightarrow>
       (if rc \<noteq> 0
        then (Inl (RuntimeError (''exported patch could not be materialized: '' @ or_text (strip err) (strip out))), w')
        else apply_steps os ws patch rest w')
   | (TimedOut m, w') \<Rightarrow> (Inl (TimeoutExpired m), w')
   | (Unstarted m, w') \<Rightarrow> (Inl (OSError m), w'))"

definition apply_exported_patch :: "'w os \<Rightarrow> pystr \<Rightarrow> pystr \<Rightarrow> ('w, unit) io" where
  "apply_exported_patch os ws patch = apply_steps os ws patch [[''apply'', ''--check'', ''-''], [''apply'', ''-'']]"

definition run_prepared_trial ::
    "pyvals \<Rightarrow> number_ops \<Rightarrow> ('v, 'w) bench_system \<Rightarrow> bench_options \<Rightarrow> variant \<Rightarrow> pystr \<Rightarrow> ('w, trial_record) io" where
  "run_prepared_trial py num bn ops v ws =
     (let pt = bn_parts bn in
      bind_io (lift_result (bench_agent py bn ops v ws)) (\<lambda>ag.
      bind_io (agent_run pt ag (agent_task (bv_case v))) (\<lambda>res.
      let candidate = or_text (a_candidate_patch (res_state res)) (a_patch (res_state res)) in
      then_io (when_io (a_visible_success (res_state res) \<and> candidate \<noteq> [])
        (apply_exported_patch (pt_os pt) ws candidate))
      (bind_io (run_holdout bn (bo_sandbox_timeout ops) (bv_case v) ws) (\<lambda>ho.
       bind_io (save_trace (bn_sha bn) py (bn_dirs bn) (bn_dump bn) (pt_os pt) (bo_trace_redaction_mode ops)
         (path_join (bo_output_dir ops) [''traces'']) res) (\<lambda>trace_path.
       lift_result (map_sum index_exn id (build_run_record py num v res ho trace_path ws))))))))"

definition cleanup_variant ::
    "pyvals \<Rightarrow> ('v, 'w) bench_system \<Rightarrow> bench_options \<Rightarrow> variant \<Rightarrow> pystr option \<Rightarrow> trial_record \<Rightarrow> ('w, trial_record) io" where
  "cleanup_variant py bn ops v workspace rec =
     (case workspace of
        None \<Rightarrow> ret rec
      | Some ws \<Rightarrow>
          if bo_keep_workspaces ops then ret rec
          else bind_io (cleanup_trial py bn (bo_project_root ops) (bo_output_dir ops) (bv_case v) ws) (\<lambda>e.
            if \<not> truthy e then ret rec
            else ret (rec\<lparr>tr_success := False, tr_failure_type := Some ''cleanup_error'', tr_cleanup_error := e,
              tr_error := Some (join ''; '' (filter (\<lambda>x. x \<noteq> []) [or_else (tr_error rec) [], the e]))\<rparr>)))"

text \<open>\<open>except Exception\<close>: every failure of a trial becomes its record.\<close>

definition run_variant ::
    "pyvals \<Rightarrow> number_ops \<Rightarrow> ('v, 'w) bench_system \<Rightarrow> bench_options \<Rightarrow> variant \<Rightarrow> ('w, trial_record) io" where
  "run_variant py num bn ops v = (\<lambda>w.
     case prepare_trial py bn (bo_project_root ops) (bo_output_dir ops) (bv_case v) (bv_strategy v) (bv_repetition v)
         (variant_label v) w of
       (Inl e, w1) \<Rightarrow> cleanup_variant py bn ops v None (build_runner_error v e) w1
     | (Inr ws, w1) \<Rightarrow>
         (case run_prepared_trial py num bn ops v ws w1 of
            (Inl e, w2) \<Rightarrow> cleanup_variant py bn ops v (Some ws) (build_runner_error v e) w2
          | (Inr rec, w2) \<Rightarrow> cleanup_variant py bn ops v (Some ws) rec w2))"

definition repository_modes :: "bench_options \<Rightarrow> bool list" where
  "repository_modes ops = dedupe (case bo_repository_modes ops of
     Some (m # ms) \<Rightarrow> m # ms | _ \<Rightarrow> [bo_repository_enabled ops])"

definition variants_of :: "bench_options \<Rightarrow> benchmark_case list \<Rightarrow> variant list" where
  "variants_of ops cases =
     concat (map (\<lambda>bc. concat (map (\<lambda>s. concat (map (\<lambda>m. map (\<lambda>n.
         \<lparr>bv_case = bc, bv_strategy = s, bv_repetition = n, bv_repository_enabled = m\<rparr>)
       [1..<nat (bo_repeat ops) + 1]) (repository_modes ops)))
     (if bo_strategy_override ops \<noteq> [] then bo_strategy_override ops else bc_strategies bc))) cases)"

fun run_trials ::
    "pyvals \<Rightarrow> number_ops \<Rightarrow> ('v, 'w) bench_system \<Rightarrow> bench_options \<Rightarrow> variant list \<Rightarrow> ('w, trial_record list) io" where
  "run_trials py num bn ops [] = ret []"
| "run_trials py num bn ops (v # vs) =
     bind_io (run_variant py num bn ops v) (\<lambda>r. bind_io (run_trials py num bn ops vs) (\<lambda>rs. ret (r # rs)))"

text \<open>The output directory is resolved once, when the runner is built.\<close>

definition run_benchmark ::
    "pyvals \<Rightarrow> number_ops \<Rightarrow> ('v, 'w) bench_system \<Rightarrow> bench_options \<Rightarrow> benchmark_case list \<Rightarrow> ('w, trial_record list) io" where
  "run_benchmark py num bn ops cases =
     (if bo_repeat ops < 1 then throw (ValueError ''repeat must be at least 1'')
      else bind_io (gets (\<lambda>w. resolve_path (pt_os (bn_parts bn)) w (bo_output_dir ops))) (\<lambda>out.
        then_io (may_fail (\<lambda>w. bn_mkdir bn w out))
        (run_trials py num bn (ops\<lparr>bo_output_dir := out\<rparr>) (variants_of ops cases))))"

section \<open>Every trial is recorded\<close>

definition record_identity :: "trial_record \<Rightarrow> pystr \<times> pystr \<times> pystr \<times> bool \<times> nat" where
  "record_identity r = (tr_case_id r, tr_strategy r, tr_variant r, tr_repository_enabled r, tr_repetition r)"

lemma runner_error_fields [simp]:
  "record_identity (build_runner_error v e) = run_identity v" "\<not> tr_success (build_runner_error v e)"
  by (simp_all add: build_runner_error_def record_identity_def run_identity_def)

lemma run_record_fields:
  assumes "build_run_record py num v res ho p ws = Inr r"
  shows "record_identity r = run_identity v" and "tr_success r \<longleftrightarrow> a_success (res_state res) \<and> ho_success ho \<noteq> Some False"
    and "tr_holdout_success r = ho_success ho" and "tr_holdout_exit_code r = ho_exit_code ho"
    and "tr_cleanup_error r = None"
  using assms
  by (auto simp: build_run_record_def Let_def record_identity_def run_identity_def)

lemma may_fail_Inl: "may_fail f w = (Inl e, w') \<Longrightarrow> handled_failure e"
  by (auto simp: may_fail_def handled_failure_def split: prod.splits option.splits)

lemma bench_safe_remove_Inl: "bench_safe_remove os out p w = (Inl e, w') \<Longrightarrow> handled_failure e"
  by (auto simp: bench_safe_remove_def io_defs handled_failure_def [of "RuntimeError _"] split: if_splits dest: may_fail_Inl)

lemma run_reset_Inl: "run_reset py os proj bc w = (Inl e, w') \<Longrightarrow> handled_failure e"
  by (auto simp: run_reset_def handled_failure_def split: prod.splits command_process.splits if_splits)

lemma cleanup_trial_returns: "\<exists>e w'. cleanup_trial py bn proj out bc ws w = (Inr e, w')"
proof -
  obtain r w' where r: "(if bc_fixture bc \<noteq> None then bench_safe_remove (pt_os (bn_parts bn)) out ws
      else run_reset py (pt_os (bn_parts bn)) proj bc) w = (r, w')" by fastforce
  have "handled_failure e" if "r = Inl e" for e
    using r that by (auto split: if_splits dest: bench_safe_remove_Inl run_reset_Inl)
  then show ?thesis using r by (cases r) (auto simp: cleanup_trial_def)
qed

lemma cleanup_variant_returns:
  "\<exists>r w'. cleanup_variant py bn ops v ws rec w = (Inr r, w') \<and> record_identity r = record_identity rec
     \<and> (tr_success r \<longrightarrow> r = rec)"
proof (cases ws)
  case None
  then show ?thesis by (simp add: cleanup_variant_def ret_def)
next
  case (Some p)
  obtain e w' where "cleanup_trial py bn (bo_project_root ops) (bo_output_dir ops) (bv_case v) p w = (Inr e, w')"
    using cleanup_trial_returns [of py bn "bo_project_root ops" "bo_output_dir ops" "bv_case v" p w] by auto
  with Some show ?thesis by (auto simp: cleanup_variant_def bind_io_def ret_def record_identity_def)
qed

lemma prepared_trial_identity:
  "run_prepared_trial py num bn ops v ws w = (Inr r, w') \<Longrightarrow> record_identity r = run_identity v"
  by (auto simp: run_prepared_trial_def Let_def bind_io_Inr then_io_def lift_result_def split: sum.splits
      dest: run_record_fields(1))

text \<open>A trial never raises, and a successful record is the one that its run built.\<close>

lemma run_variant_returns:
  "\<exists>r w'. run_variant py num bn ops v w = (Inr r, w') \<and> record_identity r = run_identity v
     \<and> (tr_success r \<longrightarrow> (\<exists>ws w1 w2. run_prepared_trial py num bn ops v ws w1 = (Inr r, w2)))"
proof -
  obtain p w1 where p: "prepare_trial py bn (bo_project_root ops) (bo_output_dir ops) (bv_case v) (bv_strategy v)
      (bv_repetition v) (variant_label v) w = (p, w1)" by fastforce
  show ?thesis
  proof (cases p)
    case (Inl e)
    with p cleanup_variant_returns [of py bn ops v None "build_runner_error v e" w1] show ?thesis
      by (auto simp: run_variant_def)
  next
    case (Inr ws)
    obtain q w2 where q: "run_prepared_trial py num bn ops v ws w1 = (q, w2)" by fastforce
    show ?thesis
    proof (cases q)
      case (Inl e)
      with p q Inr cleanup_variant_returns [of py bn ops v "Some ws" "build_runner_error v e" w2] show ?thesis
        by (auto simp: run_variant_def)
    next
      case (Inr rec)
      with p q \<open>p = Inr ws\<close> cleanup_variant_returns [of py bn ops v "Some ws" rec w2] prepared_trial_identity show ?thesis
        by (fastforce simp: run_variant_def)
    qed
  qed
qed

lemma length_concat_map: "length (concat (map f xs)) = (\<Sum>x\<leftarrow>xs. length (f x))"
  by (simp add: length_concat comp_def)

lemma length_variants:
  "length (variants_of ops cases) =
     (\<Sum>bc\<leftarrow>cases. length (if bo_strategy_override ops \<noteq> [] then bo_strategy_override ops else bc_strategies bc)
        * length (repository_modes ops) * nat (bo_repeat ops))"
  unfolding variants_of_def length_concat_map length_map length_upt sum_list_triv of_nat_id
  by (simp add: mult.assoc del: upt_Suc)

lemma holdout_verdict:
  assumes "run_holdout bn t bc ws w = (Inr ho, w')"
  shows "(bc_holdout_path bc = None \<and> ho_success ho = None)
    \<or> (\<exists>rc. ho_exit_code ho = Some rc \<and> ho_success ho = Some (rc = 0))"
proof (cases "bc_holdout_path bc")
  case None
  then show ?thesis using assms by (auto simp: run_holdout_def ret_def)
next
  case (Some source)
  then obtain ws' dir f w1 where "finally_io (holdout_tests bn t source ws' dir) f w1 = (Inr ho, w')"
    using assms by (auto simp: run_holdout_def Let_def bind_io_Inr)
  then obtain w2 where "holdout_tests bn t source ws' dir w1 = (Inr ho, w2)" by (rule finally_io_Inr)
  then show ?thesis
    by (auto simp: holdout_tests_def Let_def bind_io_Inr then_io_def split: option.splits)
qed

section \<open>Properties\<close>

text \<open>What stands behind a successful record.\<close>

definition justified_trial ::
    "pyvals \<Rightarrow> ('v, 'w) bench_system \<Rightarrow> bench_options \<Rightarrow> variant \<Rightarrow> trial_record \<Rightarrow> bool" where
  "justified_trial py bn ops v r \<longleftrightarrow>
     (\<exists>ws ag res w0 w1. bench_agent py bn ops v ws = Inr ag
    \<and> agent_run (bn_parts bn) ag (agent_task (bv_case v)) w0 = (Inr res, w1)
    \<and> accepted_run (bo_review_enabled ops) (res_state res)
    \<and> (or_text (a_candidate_patch (res_state res)) (a_patch (res_state res)) = []
       \<or> fst (apply_exported_patch (pt_os (bn_parts bn)) ws
            (or_text (a_candidate_patch (res_state res)) (a_patch (res_state res))) w1) = Inr ())
    \<and> (bc_holdout_path (bv_case v) = None \<or> tr_holdout_exit_code r = Some 0)
    \<and> tr_cleanup_error r = None)"

lemma trial_success_justified:
  assumes "run_variant py num bn ops v w = (Inr r, w')" and "tr_success r"
  shows "justified_trial py bn ops v r"
proof -
  obtain ws wa wb where "run_prepared_trial py num bn ops v ws wa = (Inr r, wb)"
    using run_variant_returns [of py num bn ops v w] assms by auto
  then obtain ag w0 res w1 w2 ho w3 p where ag: "bench_agent py bn ops v ws = Inr ag"
    and run: "agent_run (bn_parts bn) ag (agent_task (bv_case v)) w0 = (Inr res, w1)"
    and patch: "when_io (a_visible_success (res_state res)
        \<and> or_text (a_candidate_patch (res_state res)) (a_patch (res_state res)) \<noteq> [])
        (apply_exported_patch (pt_os (bn_parts bn)) ws
          (or_text (a_candidate_patch (res_state res)) (a_patch (res_state res)))) w1 = (Inr (), w2)"
    and ho: "run_holdout bn (bo_sandbox_timeout ops) (bv_case v) ws w2 = (Inr ho, w3)"
    and r: "build_run_record py num v res ho p ws = Inr r"
    by (auto simp: run_prepared_trial_def Let_def bind_io_Inr then_io_def lift_result_def)
  note f = run_record_fields [OF r]
  have ok: "a_success (res_state res)" and hs: "ho_success ho \<noteq> Some False" using f(2) assms(2) by auto
  have o: "ao_review_enabled (da_options ag) = bo_review_enabled ops"
    using ag by (auto simp: bench_agent_def clamped_options_def bench_agent_options_def split: option.splits
        dest!: agent_init_well_formed(3))
  have acc: "accepted_run (bo_review_enabled ops) (res_state res)" using agent_run_accepted [OF run ok] o by simp
  then have "a_visible_success (res_state res)" by (simp add: accepted_run_def)
  with patch have "or_text (a_candidate_patch (res_state res)) (a_patch (res_state res)) = []
      \<or> fst (apply_exported_patch (pt_os (bn_parts bn)) ws
          (or_text (a_candidate_patch (res_state res)) (a_patch (res_state res))) w1) = Inr ()"
    by (auto simp: when_io_def split: if_splits)
  moreover have "bc_holdout_path (bv_case v) = None \<or> tr_holdout_exit_code r = Some 0"
    using holdout_verdict [OF ho] hs f(4) by auto
  ultimately show ?thesis using ag run acc f(5) unfolding justified_trial_def by blast
qed


section \<open>A trial that can be computed\<close>

definition demo_bench :: "(demo_world, demo_world) bench_system" where
  "demo_bench = \<lparr>bn_parts = demo_passing, bn_model = None, bn_review_model = None,
     bn_factory = (\<lambda>p. Inr (Inl \<lparr>ls_workspace = p, ls_timeout_seconds = 30\<rparr>)), bn_mkdir = (\<lambda>w p. (None, w)),
     bn_copytree = (\<lambda>w a b. (None, w)), bn_copy = (\<lambda>w a b. (None, w)),
     bn_mkdtemp = (\<lambda>w p. (Inr (p @ ''/.holdout''), w)), bn_sha = (\<lambda>s. s), bn_dirs = (''/p'', ''/h''),
     bn_dump = (\<lambda>r. [])\<rparr>"

definition demo_options :: bench_options where
  "demo_options = \<lparr>bo_project_root = ''/p'', bo_output_dir = ''/p/out'', bo_repeat = 1, bo_strategy_override = [],
     bo_keep_workspaces = False, bo_sandbox_timeout = 30, bo_line_window = 25, bo_context_max_files = 6,
     bo_max_expansion_level = 2, bo_max_changed_files = 8, bo_max_changed_lines = 400, bo_test_commands = None,
     bo_review_enabled = True, bo_review_max_revisions = 1, bo_review_parse_retries = 1,
     bo_review_max_context_chars = 16000, bo_review_max_feedback_chars = 3000, bo_review_max_risks = 5,
     bo_review_max_contracts = 3, bo_repository_enabled = False, bo_repository_modes = None,
     bo_repository_max_files = 2000, bo_repository_max_file_bytes = 1000000, bo_repository_max_graph_depth = 2,
     bo_repository_max_related_files = 6, bo_repository_max_snippet_lines = 200, bo_max_selected_tokens = 12000,
     bo_trace_redaction_mode = ''paths''\<rparr>"

definition demo_case :: benchmark_case where
  "demo_case = \<lparr>bc_case_id = ''c'', bc_allowed_paths = [''src''], bc_strategies = [''traceback''], bc_mode = ''patch'',
     bc_max_iterations = 3, bc_fixture = None, bc_holdout_path = Some ''/h/holdout'', bc_workspace = Some ''/r'',
     bc_reset_command = [''reset''], bc_task = Some ''fix'', bc_tags = [], bc_required_paths = [], bc_relevant_paths = [],
     bc_distractor_paths = []\<rparr>"

definition demo_variant :: variant where
  "demo_variant = \<lparr>bv_case = demo_case, bv_strategy = ''traceback'', bv_repetition = 1, bv_repository_enabled = False\<rparr>"

definition demo_trial_agent :: default_agent where
  "demo_trial_agent = projr (bench_agent demo_py demo_bench demo_options demo_variant ''/r'')"

lemma demo_trial_agent: "bench_agent demo_py demo_bench demo_options demo_variant ''/r'' = Inr demo_trial_agent"
proof -
  have "\<not> isl (bench_agent demo_py demo_bench demo_options demo_variant ''/r'')" by code_simp
  then show ?thesis by (simp add: demo_trial_agent_def)
qed

lemma demo_trial_runs: "runs_through demo_trial_agent"
  by code_simp

lemma demo_os_constant [simp]:
  "resolve_path (pt_os demo_passing) w p = p" "path_exists (pt_os demo_passing) w p"
  "is_dir (pt_os demo_passing) w p" "spawn (pt_os demo_passing) w d c t = (Ran 0 [] [], w)"
  "rmtree (pt_os demo_passing) w p = (None, w\<lparr>d_disk := []\<rparr>)"
  by (simp_all add: demo_passing_def demo_parts_def demo_os_def)

lemma demo_caches: "clean_python_bytecode_cache (pt_sandbox_os demo_passing) p w = (Inr (), w)"
  by (simp add: clean_python_bytecode_cache_def demo_passing_def demo_parts_def demo_os_def io_defs Let_def)

lemma demo_local_run:
  assumes "is_command_allowed c = (True, None)"
  shows "\<exists>r. local_run (pt_sandbox_os demo_passing) ls c w = (r, w) \<and> cr_exit_code r = 0 \<and> cr_stdout r = Str ''ok''
    \<and> cr_stderr r = Str []"
proof -
  have "spawn (pt_sandbox_os demo_passing) v p d t = (Ran 0 ''ok'' [], v)" for v p d t
    by (simp add: demo_passing_def demo_parts_def demo_os_def)
  then show ?thesis
    by (simp add: local_run_def assms demo_caches command_result_of_def Let_def ret_def)
qed

lemma demo_holdout_command:
  "is_command_allowed [''python'', ''-m'', ''pytest'', ''-q'', ''-p'', ''no:cacheprovider'',
     ''--basetemp=/r/.holdout/command-0'', ''.holdout/holdout''] = (True, None)"
  by code_simp

lemma demo_holdout_target:
  "relative_to (path_parts ''/r'') (path_parts (path_join ''/r/.holdout'' [path_name ''/h/holdout'']))
     = Some [''.holdout'', ''holdout'']"
  "as_posix [''.holdout'', ''holdout''] = ''.holdout/holdout''" "local_basetemp ls ''/r/.holdout'' 0 = ''/r/.holdout/command-0''"
  by (code_simp, code_simp, simp add: local_basetemp_def, code_simp)

lemma demo_holdout:
  "\<exists>ho w'. run_holdout demo_bench 30 demo_case ''/r'' w = (Inr ho, w') \<and> ho_success ho = Some True \<and> ho_exit_code ho = Some 0"
proof -
  obtain r where r: "local_run (pt_sandbox_os demo_passing) \<lparr>ls_workspace = ''/r'', ls_timeout_seconds = 30\<rparr>
      [''python'', ''-m'', ''pytest'', ''-q'', ''-p'', ''no:cacheprovider'',
     ''--basetemp=/r/.holdout/command-0'', ''.holdout/holdout''] w = (r, w)" "cr_exit_code r = 0" "cr_stdout r = Str ''ok''"
     "cr_stderr r = Str []"
    using demo_local_run [OF demo_holdout_command] by blast
  have p: "pt_sandbox demo_passing v = (Inl \<lparr>ls_workspace = ''/r'', ls_timeout_seconds = 30\<rparr>, v)"
    "pt_put_sandbox demo_passing (sb, u) v = u" for sb u v
    by (simp_all add: demo_passing_def demo_parts_def)
  have b: "bn_parts demo_bench = demo_passing" "bn_copytree demo_bench v a b = (None, v)"
    "bn_mkdtemp demo_bench v a = (Inr (a @ ''/.holdout''), v)"
    "bn_factory demo_bench a = Inr (Inl \<lparr>ls_workspace = a, ls_timeout_seconds = 30\<rparr>)" for v a b
    by (simp_all add: demo_bench_def)
  show ?thesis
    by (simp add: run_holdout_def demo_case_def b Let_def holdout_tests_def run_in_sandbox_def p built_ops_def local_ops_def
        with_timeout_def holdout_command_def demo_holdout_target r joined_output_def finally_io_def io_defs may_fail_def
        lift_result_def)
qed

lemma demo_patch_applies: "\<exists>w'. apply_exported_patch (pt_os demo_passing) ws patch w = (Inr (), w')"
  by (simp add: apply_exported_patch_def demo_passing_def demo_parts_def edit_git_def demo_git_def ret_def)

lemma demo_trial_text: "redactor_mode (bo_trace_redaction_mode demo_options) = Inr ''paths''"
  "agent_task (bv_case demo_variant) = ''fix''"
  by code_simp+

lemma demo_trial_prepared: "\<exists>r w'. run_prepared_trial demo_py demo_numbers demo_bench demo_options demo_variant ''/r'' demo_fresh = (Inr r, w')
  \<and> tr_success r"
proof -
  obtain res w1 where run: "agent_run demo_passing demo_trial_agent ''fix'' demo_fresh = (Inr res, w1)"
    and ok: "a_success (res_state res)" and its: "a_iterations (res_state res) = []"
    by (rule runs_through_run [OF demo_trial_runs])
  obtain w2 where patch: "when_io (a_visible_success (res_state res)
        \<and> or_text (a_candidate_patch (res_state res)) (a_patch (res_state res)) \<noteq> [])
        (apply_exported_patch (pt_os demo_passing) ''/r''
          (or_text (a_candidate_patch (res_state res)) (a_patch (res_state res)))) w1 = (Inr (), w2)"
    using demo_patch_applies [of "''/r''" "or_text (a_candidate_patch (res_state res)) (a_patch (res_state res))" w1]
    by (cases "a_visible_success (res_state res)
        \<and> or_text (a_candidate_patch (res_state res)) (a_patch (res_state res)) \<noteq> []") (auto simp: when_io_def ret_def)
  obtain ho w3 where ho: "run_holdout demo_bench 30 demo_case ''/r'' w2 = (Inr ho, w3)" "ho_success ho = Some True"
    using demo_holdout [of w2] by blast
  have p: "bn_parts demo_bench = demo_passing" "bo_sandbox_timeout demo_options = 30" "bv_case demo_variant = demo_case"
    by (simp_all add: demo_bench_def demo_options_def demo_variant_def)
  have "\<exists>t. save_trace (bn_sha demo_bench) demo_py (bn_dirs demo_bench) (bn_dump demo_bench) (pt_os demo_passing)
      (bo_trace_redaction_mode demo_options) (path_join (bo_output_dir demo_options) [''traces'']) res w3 = (Inr t, w3)"
    by (simp add: save_trace_def demo_trial_text Let_def)
  then obtain t where t: "save_trace (bn_sha demo_bench) demo_py (bn_dirs demo_bench) (bn_dump demo_bench) (pt_os demo_passing)
      (bo_trace_redaction_mode demo_options) (path_join (bo_output_dir demo_options) [''traces'']) res w3 = (Inr t, w3)" ..
  obtain r where r: "build_run_record demo_py demo_numbers demo_variant res ho t ''/r'' = Inr r"
    by (auto simp: build_run_record_def selected_context_paths_def its Let_def run_identity_def)
  have "run_prepared_trial demo_py demo_numbers demo_bench demo_options demo_variant ''/r'' demo_fresh = (Inr r, w3)"
    using run patch ho t demo_trial_text(2)
    by (simp add: run_prepared_trial_def p demo_trial_agent lift_result_def bind_io_def then_io_def Let_def r)
  with run_record_fields(2) [OF r] ok ho(2) show ?thesis by auto
qed

lemma demo_variant_run:
  "\<exists>r w'. run_variant demo_py demo_numbers demo_bench demo_options demo_variant demo_fresh = (Inr r, w') \<and> tr_success r"
proof -
  obtain r w1 where r: "run_prepared_trial demo_py demo_numbers demo_bench demo_options demo_variant ''/r'' demo_fresh = (Inr r, w1)"
    and ok: "tr_success r" using demo_trial_prepared by blast
  have reset: "run_reset demo_py (pt_os demo_passing) proj demo_case w = (Inr (), w)" for proj w
    by (simp add: run_reset_def)
  have p: "bn_parts demo_bench = demo_passing" "bv_case demo_variant = demo_case" "bc_fixture demo_case = None"
    "bc_workspace demo_case = Some ''/r''" "\<not> bo_keep_workspaces demo_options"
    by (simp_all add: demo_bench_def demo_options_def demo_variant_def demo_case_def)
  show ?thesis
    by (simp add: run_variant_def prepare_trial_def p reset then_io_def bind_io_def ret_def Let_def r cleanup_variant_def
        cleanup_trial_def truthy_def ok)
qed

end
