(* ===== verification/Manifest.thy ===== *)
theory Manifest
  imports Benchmark
begin

text \<open>
  The benchmark manifest (\<open>benchmarking/manifest.py\<close>, \<open>paths.py\<close>): reading the cases of a YAML file
  with their checks, and the validation of the cases before a benchmark. The file system is
  that of \<open>os\<close> in one world, as the reading changes nothing.
\<close>

section \<open>Paths\<close>

definition refuse :: "pystr \<Rightarrow> start_error + 'a" where
  "refuse m = Inl (Refused (ValueError m))"

definition inside_root :: "'w os \<Rightarrow> 'w \<Rightarrow> pystr \<Rightarrow> pystr \<Rightarrow> start_error + pystr" where
  "inside_root os w proj p =
     (let resolved = resolve_path os w p in
      if relative_to (path_parts proj) (path_parts resolved) = None
      then refuse (''benchmark path escapes project root: '' @ p) else Inr resolved)"

definition existing_directory :: "'w os \<Rightarrow> 'w \<Rightarrow> pystr \<Rightarrow> json \<Rightarrow> pystr \<Rightarrow> start_error + pystr" where
  "existing_directory os w proj v label =
     (let wrong = refuse (label @ '' must be a project-relative directory'') in
      case v of
        JStr s \<Rightarrow>
          (if strip s = [] then wrong
           else res_bind (inside_root os w proj (joined_path proj s)) (\<lambda>p.
             if is_dir os w p then Inr p else refuse (label @ '' does not exist: '' @ p)))
      | _ \<Rightarrow> wrong)"

definition is_within :: "'w os \<Rightarrow> 'w \<Rightarrow> pystr \<Rightarrow> pystr \<Rightarrow> bool" where
  "is_within os w p parent \<longleftrightarrow>
     relative_to (path_parts (resolve_path os w parent)) (path_parts (resolve_path os w p)) \<noteq> None"

section \<open>Fields of a case\<close>

text \<open>The representation of a text is that of a list with this text, without its brackets.\<close>

definition text_repr :: "pyvals \<Rightarrow> pystr \<Rightarrow> pystr" where
  "text_repr py s = butlast (tl (json_str py (JArr [JStr s])))"

definition filled_text :: "json \<Rightarrow> pystr option" where
  "filled_text v = (case v of JStr s \<Rightarrow> (if strip s \<noteq> [] then Some s else None) | _ \<Rightarrow> None)"

definition string_tuple :: "json \<Rightarrow> pystr \<Rightarrow> start_error + pystr list" where
  "string_tuple v name = (case v of
     JArr xs \<Rightarrow>
       (if list_all (\<lambda>x. filled_text x \<noteq> None) xs
        then Inr (dedupe (map (\<lambda>x. strip (the (filled_text x))) xs)) else refuse (name @ '' must be a string list''))
   | _ \<Rightarrow> refuse (name @ '' must be a string list''))"

definition relative_path :: "pystr \<Rightarrow> bool" where
  "relative_path p \<longleftrightarrow> p \<noteq> [] \<and> \<not> path_is_absolute p \<and> ''..'' \<notin> set (path_parts p)"

definition path_tuple :: "json \<Rightarrow> pystr \<Rightarrow> start_error + pystr list" where
  "path_tuple v name = res_bind (string_tuple v name) (\<lambda>items.
     map_result (\<lambda>item. let p = rstrip_by (\<lambda>c. c = CHR ''/'') (slashes item) in
       if relative_path p then Inr p else refuse (name @ '' must contain workspace-relative paths'')) items)"

definition setting_items :: "json \<Rightarrow> start_error + json list" where
  "setting_items v = map_sum BadSetting id (json_items v)"

text \<open>An item that is a list or a mapping has no hash.\<close>

definition strategy_item :: "pystr \<Rightarrow> json \<Rightarrow> start_error + pystr" where
  "strategy_item case_id v = (case v of
     JStr s \<Rightarrow> (if s \<in> {''traceback'', ''full''} then Inr s
        else refuse (''case '' @ case_id @ '' contains an unsupported context strategy''))
   | JArr _ \<Rightarrow> Inl (BadSetting IndexTypeError)
   | JObj _ \<Rightarrow> Inl (BadSetting IndexTypeError)
   | _ \<Rightarrow> refuse (''case '' @ case_id @ '' contains an unsupported context strategy''))"

text \<open>The version is one of the integers 1 to 3; in Python also \<open>True\<close> and the floats are equal to them.\<close>

definition schema_version :: "json \<Rightarrow> start_error + int" where
  "schema_version v =
     (let wrong = refuse ''benchmark manifest schema_version must be 1, 2, or 3'' in
      case v of
        JInt n \<Rightarrow> (if n \<in> {1, 2, 3} then Inr n else wrong)
      | JBool True \<Rightarrow> Inr 1
      | JFloat s \<Rightarrow> (if s = ''1.0'' then Inr 1 else if s = ''2.0'' then Inr 2 else if s = ''3.0'' then Inr 3 else wrong)
      | JArr _ \<Rightarrow> Inl (BadSetting IndexTypeError)
      | JObj _ \<Rightarrow> Inl (BadSetting IndexTypeError)
      | _ \<Rightarrow> wrong)"

definition iterations_of :: "number_ops \<Rightarrow> run_data \<Rightarrow> int \<Rightarrow> start_error + int" where
  "iterations_of num d dflt =
     map_sum BadSetting (\<lambda>n. max 1 n) (py_int (nm_int num) (jget_or d ''max_iterations'' (JInt dflt)))"

section \<open>The manifest\<close>

text \<open>The identifier, which must be new, and the fields that all schemas share.\<close>

definition case_id_of :: "pyvals \<Rightarrow> pystr list \<Rightarrow> run_data \<Rightarrow> start_error + pystr" where
  "case_id_of py seen d =
     (let i = strip (json_str py (jget_or d ''id'' (JStr []))) in
      if i = [] \<or> i \<in> set seen
      then refuse (''benchmark case id is empty or duplicated: '' @ text_repr py i) else Inr i)"

definition shared_fields :: "pyvals \<Rightarrow> pystr \<Rightarrow> run_data \<Rightarrow> start_error + benchmark_case" where
  "shared_fields py i d =
     (let name = (\<lambda>s. ''case '' @ i @ '' '' @ s); given = jget d ''strategies'' in
      res_bind (res_bind (setting_items (if json_truthy py given then given else JArr [JStr ''traceback'']))
        (map_result (strategy_item i))) (\<lambda>strategies.
      let mode = json_str py (jget_or d ''mode'' (JStr ''replacement'')) in
      if mode \<notin> {''replacement'', ''patch''} then refuse (name ''contains an unsupported mode'')
      else res_bind (setting_items (jget_or d ''allowed_paths'' (JArr []))) (\<lambda>allowed.
      res_bind (string_tuple (jget_or d ''tags'' (JArr [])) (name ''tags'')) (\<lambda>tags.
      res_bind (path_tuple (jget_or d ''context_required_paths'' (JArr [])) (name ''context_required_paths'')) (\<lambda>required.
      res_bind (path_tuple (jget_or d ''context_relevant_paths'' (JArr [])) (name ''context_relevant_paths'')) (\<lambda>relevant.
      res_bind (path_tuple (jget_or d ''context_distractor_paths'' (JArr [])) (name ''context_distractor_paths'')) (\<lambda>distractors.
      Inr \<lparr>bc_case_id = i,
        bc_allowed_paths = map (\<lambda>x. strip_by (\<lambda>c. c = CHR ''/'' \<or> c = CHR 0x5C) (json_str py x)) allowed,
        bc_strategies = strategies, bc_mode = mode, bc_max_iterations = 1, bc_fixture = None, bc_holdout_path = None,
        bc_workspace = None, bc_reset_command = [], bc_task = None, bc_tags = tags, bc_required_paths = required,
        bc_relevant_paths = relevant, bc_distractor_paths = distractors\<rparr>))))))) "

definition check_context :: "int \<Rightarrow> benchmark_case \<Rightarrow> start_error + benchmark_case" where
  "check_context version bc =
     (let name = (\<lambda>s. ''case '' @ bc_case_id bc @ '' '' @ s) in
      if version < 3 \<and> (bc_tags bc \<noteq> [] \<or> bc_required_paths bc \<noteq> [] \<or> bc_relevant_paths bc \<noteq> []
           \<or> bc_distractor_paths bc \<noteq> [])
      then refuse (name ''context metadata requires manifest schema v3'')
      else if bc_relevant_paths bc \<noteq> [] \<and> \<not> set (bc_required_paths bc) \<subseteq> set (bc_relevant_paths bc)
      then refuse (name ''required context paths must also be relevant'')
      else if set (bc_relevant_paths bc) \<inter> set (bc_distractor_paths bc) \<noteq> {}
      then refuse (name ''context paths cannot be both relevant and distractors'')
      else Inr bc)"

definition isolated_case ::
    "number_ops \<Rightarrow> 'w os \<Rightarrow> 'w \<Rightarrow> pystr \<Rightarrow> run_data \<Rightarrow> benchmark_case \<Rightarrow> start_error + benchmark_case" where
  "isolated_case num os w proj d bc =
     (if dict_get d ''task'' \<noteq> None
      then refuse (''case '' @ bc_case_id bc @ '' must not contain task hints in schema v2+'')
      else res_bind (iterations_of num d 5) (\<lambda>n.
        res_bind (existing_directory os w proj (jget d ''fixture'') (''case '' @ bc_case_id bc @ '' fixture'')) (\<lambda>fixture.
        res_bind (existing_directory os w proj (jget d ''holdout'') (''case '' @ bc_case_id bc @ '' holdout'')) (\<lambda>holdout.
        Inr (bc\<lparr>bc_max_iterations := n, bc_fixture := Some fixture, bc_holdout_path := Some holdout\<rparr>)))))"

definition reset_items :: "json \<Rightarrow> pystr list option" where
  "reset_items v = (case v of
     JArr xs \<Rightarrow>
       (if xs \<noteq> [] \<and> list_all (\<lambda>x. case x of JStr _ \<Rightarrow> True | _ \<Rightarrow> False) xs
        then Some (map (\<lambda>x. case x of JStr s \<Rightarrow> s | _ \<Rightarrow> []) xs) else None)
   | _ \<Rightarrow> None)"

definition legacy_case ::
    "pyvals \<Rightarrow> number_ops \<Rightarrow> 'w os \<Rightarrow> 'w \<Rightarrow> pystr \<Rightarrow> run_data \<Rightarrow> benchmark_case \<Rightarrow> start_error + benchmark_case" where
  "legacy_case py num os w proj d bc =
     res_bind (inside_root os w proj (joined_path proj (json_str py (jget_or d ''workspace'' (JStr []))))) (\<lambda>ws.
     (case reset_items (jget d ''reset_command'') of
        None \<Rightarrow> refuse (''case '' @ bc_case_id bc @ '' reset_command must be a non-empty string list'')
      | Some reset \<Rightarrow>
          res_bind (iterations_of num d 3) (\<lambda>n.
          Inr (bc\<lparr>bc_max_iterations := n, bc_workspace := Some ws, bc_reset_command := reset,
            bc_task := Some (json_str py (jget_or d ''task'' (JStr ''Fix the failing tests.'')))\<rparr>))))"

definition load_case ::
    "pyvals \<Rightarrow> number_ops \<Rightarrow> 'w os \<Rightarrow> 'w \<Rightarrow> pystr \<Rightarrow> int \<Rightarrow> pystr list \<Rightarrow> json \<Rightarrow> start_error + benchmark_case" where
  "load_case py num os w proj version seen raw = (case raw of
     JObj d \<Rightarrow>
       res_bind (case_id_of py seen d) (\<lambda>i.
       res_bind (shared_fields py i d) (\<lambda>bc.
       res_bind (check_context version bc) (\<lambda>bc.
       if version \<in> {2, 3} then isolated_case num os w proj d bc else legacy_case py num os w proj d bc)))
   | _ \<Rightarrow> refuse ''each benchmark case must be a mapping'')"

fun load_cases ::
    "pyvals \<Rightarrow> number_ops \<Rightarrow> 'w os \<Rightarrow> 'w \<Rightarrow> pystr \<Rightarrow> int \<Rightarrow> benchmark_case list \<Rightarrow> json list
      \<Rightarrow> start_error + benchmark_case list" where
  "load_cases py num os w proj version acc [] = Inr acc"
| "load_cases py num os w proj version acc (raw # raws) =
     res_bind (load_case py num os w proj version (map bc_case_id acc) raw) (\<lambda>bc.
       load_cases py num os w proj version (acc @ [bc]) raws)"

definition load_manifest ::
    "pyvals \<Rightarrow> number_ops \<Rightarrow> 'w os \<Rightarrow> 'w \<Rightarrow> pystr \<Rightarrow> exn + json \<Rightarrow> pystr \<Rightarrow> start_error + benchmark_case list" where
  "load_manifest py num os w path loaded project =
     res_bind (load_config path py loaded) (\<lambda>d.
     res_bind (schema_version (jget d ''schema_version'')) (\<lambda>version.
     (case jget d ''cases'' of
        JArr (raw # raws) \<Rightarrow>
          load_cases py num os w (resolve_path os w project) version [] (raw # raws)
      | _ \<Rightarrow> refuse ''benchmark manifest must contain a non-empty cases list'')))"

section \<open>The validation of the cases\<close>

text \<open>
  What the validation needs of the outside: the interpreter that runs it, and \<open>subprocess.run\<close> with
  changed variables of the environment.
\<close>

record 'w validator =
  vd_os :: "'w os"
  vd_executable :: pystr
  vd_run :: "'w \<Rightarrow> pystr \<Rightarrow> (pystr \<times> pystr) list \<Rightarrow> pystr list \<Rightarrow> int \<Rightarrow> command_process \<times> 'w"

definition context_reason :: "'w os \<Rightarrow> 'w \<Rightarrow> pystr \<Rightarrow> pystr \<Rightarrow> pystr list" where
  "context_reason os w fixture expected =
     (let candidate = joined_path fixture expected in
      if \<not> is_within os w candidate fixture then [''context expectation path escapes fixture: '' @ expected]
      else if \<not> is_file os w candidate then [''context expectation path is missing: '' @ expected] else [])"

definition context_paths :: "benchmark_case \<Rightarrow> pystr list" where
  "context_paths bc = bc_required_paths bc @ bc_relevant_paths bc @ bc_distractor_paths bc"

definition fixture_reasons :: "'w os \<Rightarrow> 'w \<Rightarrow> benchmark_case \<Rightarrow> pystr \<Rightarrow> pystr list" where
  "fixture_reasons os w bc fixture =
     map (\<lambda>p. ''allowed path does not exist: '' @ p)
       (filter (\<lambda>p. \<not> is_dir os w (joined_path fixture p)) (bc_allowed_paths bc))
     @ (if is_dir os w (joined_path fixture ''tests'') then [] else [''visible tests directory is missing''])
     @ (if path_exists os w (joined_path fixture ''.git'') then [''fixture must not contain a Git repository''] else [])
     @ (case bc_holdout_path bc of
          None \<Rightarrow> [''holdout tests are missing'']
        | Some h \<Rightarrow> if is_within os w h fixture then [''holdout tests must be outside the agent fixture''] else [])
     @ concat (map (context_reason os w fixture) (context_paths bc))"

definition baseline_env :: "pystr \<Rightarrow> pystr \<Rightarrow> (pystr \<times> pystr) list" where
  "baseline_env dir seed = [(''PYTHONDONTWRITEBYTECODE'', ''1''),
     (''PYTHONPYCACHEPREFIX'', joined_path dir ''pycache''), (''PYTHONHASHSEED'', seed)]"

definition baseline_command :: "pystr \<Rightarrow> pystr \<Rightarrow> pystr \<Rightarrow> pystr list" where
  "baseline_command exe dir seed =
     [exe, ''-m'', ''pytest'', ''-q'', ''-p'', ''no:cacheprovider'', ''--basetemp='' @ joined_path dir seed]"

definition baseline_reasons :: "'w validator \<Rightarrow> int \<Rightarrow> pystr \<Rightarrow> pystr \<Rightarrow> pystr \<Rightarrow> ('w, pystr list) io" where
  "baseline_reasons vd t fixture dir seed = (\<lambda>w. let hash = '' with PYTHONHASHSEED='' @ seed in
     case vd_run vd w fixture (baseline_env dir seed) (baseline_command (vd_executable vd) dir seed) t of
       (RanOut _ _, w') \<Rightarrow> (Inr [''visible tests timed out after '' @ str_int t @ ''s'' @ hash], w')
     | (NotRun m, w') \<Rightarrow> (Inl (OSError m), w')
     | (Ran rc _ _, w') \<Rightarrow>
         (Inr (if rc = 0 then [''failing baseline unexpectedly passes visible tests'' @ hash]
           else if rc \<noteq> 1 then [''visible tests could not run'' @ hash @ '' (exit '' @ str_int rc @ '')''] else []), w'))"

record case_validity =
  cv_case_id :: pystr
  cv_valid :: bool
  cv_reason :: pystr

definition validity_of :: "benchmark_case \<Rightarrow> pystr list \<Rightarrow> case_validity" where
  "validity_of bc reasons = \<lparr>cv_case_id = bc_case_id bc, cv_valid = (reasons = []),
     cv_reason = (if reasons \<noteq> [] then join ''; '' reasons else ''isolated failing baseline with external holdout'')\<rparr>"

definition validate_benchmark_case :: "'w validator \<Rightarrow> int \<Rightarrow> benchmark_case \<Rightarrow> ('w, case_validity) io" where
  "validate_benchmark_case vd t bc =
     (case bc_fixture bc of
        None \<Rightarrow> ret (validity_of bc [''legacy workspace case is not isolated''])
      | Some fixture \<Rightarrow>
          bind_io (gets (\<lambda>w. fixture_reasons (vd_os vd) w bc fixture)) (\<lambda>structural.
          bind_io (\<lambda>w. mkdtemp (vd_os vd) w (''pyfixagent-'' @ bc_case_id bc @ ''-'')) (\<lambda>dir.
          finally_io
            (bind_io (baseline_reasons vd t fixture dir ''0'') (\<lambda>r0.
             bind_io (baseline_reasons vd t fixture dir ''1'') (\<lambda>r1.
             ret (validity_of bc (structural @ r0 @ r1)))))
            (may_fail (\<lambda>w. rmtree (vd_os vd) w dir)))))"

fun validate_benchmark_cases :: "'w validator \<Rightarrow> int \<Rightarrow> benchmark_case list \<Rightarrow> ('w, case_validity list) io" where
  "validate_benchmark_cases vd t [] = ret []"
| "validate_benchmark_cases vd t (bc # bcs) =
     bind_io (validate_benchmark_case vd t bc) (\<lambda>v.
     bind_io (validate_benchmark_cases vd t bcs) (\<lambda>vs. ret (v # vs)))"

section \<open>Loaded cases\<close>

definition project_directory :: "'w os \<Rightarrow> 'w \<Rightarrow> pystr \<Rightarrow> pystr \<Rightarrow> bool" where
  "project_directory os w proj p \<longleftrightarrow> relative_to (path_parts proj) (path_parts p) \<noteq> None \<and> is_dir os w p"

definition valid_metadata :: "benchmark_case \<Rightarrow> bool" where
  "valid_metadata bc \<longleftrightarrow>
     bc_case_id bc \<noteq> [] \<and> bc_strategies bc \<noteq> [] \<and> set (bc_strategies bc) \<subseteq> {''traceback'', ''full''}
     \<and> bc_mode bc \<in> {''replacement'', ''patch''} \<and> list_all relative_path (context_paths bc)
     \<and> (bc_relevant_paths bc = [] \<or> set (bc_required_paths bc) \<subseteq> set (bc_relevant_paths bc))
     \<and> set (bc_relevant_paths bc) \<inter> set (bc_distractor_paths bc) = {}"

text \<open>An isolated case has a fixture and a holdout, a legacy one a workspace and a reset command.\<close>

definition valid_case :: "'w os \<Rightarrow> 'w \<Rightarrow> pystr \<Rightarrow> benchmark_case \<Rightarrow> bool" where
  "valid_case os w proj bc \<longleftrightarrow> valid_metadata bc \<and> 1 \<le> bc_max_iterations bc
     \<and> (case (bc_fixture bc, bc_holdout_path bc, bc_workspace bc) of
          (Some f, Some h, None) \<Rightarrow> project_directory os w proj f \<and> project_directory os w proj h \<and> bc_task bc = None
        | (None, None, Some ws) \<Rightarrow> relative_to (path_parts proj) (path_parts ws) \<noteq> None \<and> bc_reset_command bc \<noteq> []
            \<and> bc_task bc \<noteq> None \<and> context_paths bc = []
        | _ \<Rightarrow> False)"

lemma inside_root_Inr: "inside_root os w proj p = Inr q \<Longrightarrow> relative_to (path_parts proj) (path_parts q) \<noteq> None"
  by (auto simp: inside_root_def refuse_def Let_def split: if_splits)

lemma existing_directory_Inr: "existing_directory os w proj v l = Inr p \<Longrightarrow> project_directory os w proj p"
  by (auto simp: existing_directory_def project_directory_def refuse_def Let_def split: json.splits if_splits
      dest: inside_root_Inr)

lemma map_result_all: "map_result f xs = Inr ys \<Longrightarrow> (\<And>x y. f x = Inr y \<Longrightarrow> P y) \<Longrightarrow> list_all P ys"
  by (induction xs arbitrary: ys) (auto split: sum.splits)

lemma path_tuple_Inr: "path_tuple v name = Inr ps \<Longrightarrow> list_all relative_path ps"
  by (auto simp: path_tuple_def refuse_def Let_def split: if_splits intro: map_result_all)

lemma strategy_item_Inr: "strategy_item i v = Inr s \<Longrightarrow> s \<in> {''traceback'', ''full''}"
  by (auto simp: strategy_item_def refuse_def split: json.splits if_splits)

lemma truthy_items:
  assumes "json_items v = Inr xs" and "json_truthy py v"
  shows "xs \<noteq> []"
  using assms by (auto simp: json_items_def json_truthy_def split: json.splits)

lemma shared_fields_Inr:
  assumes "shared_fields py i d = Inr bc"
  shows "bc_case_id bc = i" and "bc_strategies bc \<noteq> []" and "set (bc_strategies bc) \<subseteq> {''traceback'', ''full''}"
    and "bc_mode bc \<in> {''replacement'', ''patch''}" and "list_all relative_path (context_paths bc)"
    and "bc_fixture bc = None" "bc_holdout_path bc = None" "bc_workspace bc = None" "bc_reset_command bc = []"
      "bc_task bc = None"
proof -
  let ?v = "jget d ''strategies''"
  let ?items = "if json_truthy py ?v then ?v else JArr [JStr ''traceback'']"
  obtain xs ss allowed tags q r s where xs: "json_items ?items = Inr xs" and ss: "map_result (strategy_item i) xs = Inr ss"
    and paths: "list_all relative_path q" "list_all relative_path r" "list_all relative_path s"
    and m: "json_str py (jget_or d ''mode'' (JStr ''replacement'')) \<in> {''replacement'', ''patch''}"
    and bc: "bc = \<lparr>bc_case_id = i, bc_allowed_paths = allowed,
        bc_strategies = ss, bc_mode = json_str py (jget_or d ''mode'' (JStr ''replacement'')), bc_max_iterations = 1,
        bc_fixture = None, bc_holdout_path = None, bc_workspace = None, bc_reset_command = [], bc_task = None,
        bc_tags = tags, bc_required_paths = q, bc_relevant_paths = r, bc_distractor_paths = s\<rparr>"
    using assms
    by (auto simp: shared_fields_def setting_items_def refuse_def Let_def split: if_splits
        dest!: path_tuple_Inr)
  have "json_truthy py ?items" by (simp add: json_truthy_def)
  then have "xs \<noteq> []" by (rule truthy_items [OF xs])
  then have "ss \<noteq> []" using map_result_length [OF ss] by auto
  moreover have "list_all (\<lambda>s. s \<in> {''traceback'', ''full''}) ss"
    by (rule map_result_all [OF ss]) (rule strategy_item_Inr)
  ultimately show "bc_case_id bc = i" "bc_strategies bc \<noteq> []" "set (bc_strategies bc) \<subseteq> {''traceback'', ''full''}"
    "bc_mode bc \<in> {''replacement'', ''patch''}" "list_all relative_path (context_paths bc)"
    "bc_fixture bc = None" "bc_holdout_path bc = None" "bc_workspace bc = None" "bc_reset_command bc = []"
    "bc_task bc = None"
    using paths m by (auto simp: bc list_all_iff context_paths_def)
qed

lemma check_context_Inr:
  assumes "check_context version bc = Inr bc'"
  shows "bc' = bc" and "version < 3 \<Longrightarrow> context_paths bc = []"
    and "bc_relevant_paths bc = [] \<or> set (bc_required_paths bc) \<subseteq> set (bc_relevant_paths bc)"
    and "set (bc_relevant_paths bc) \<inter> set (bc_distractor_paths bc) = {}"
  using assms by (simp_all add: check_context_def refuse_def context_paths_def Let_def split: if_splits)

lemma iterations_of_Inr: "iterations_of num d n = Inr k \<Longrightarrow> 1 \<le> k"
  by (auto simp: iterations_of_def)

lemma reset_items_Some: "reset_items v = Some xs \<Longrightarrow> xs \<noteq> []"
  by (auto simp: reset_items_def split: json.splits if_splits)

lemma load_case_valid:
  assumes "load_case py num os w proj version seen raw = Inr bc" and "version \<in> {1, 2, 3}"
  shows "valid_case os w proj bc" and "bc_case_id bc \<notin> set seen"
proof -
  obtain d i c where i: "case_id_of py seen d = Inr i" and c: "shared_fields py i d = Inr c"
    and k: "check_context version c = Inr c"
    and l: "(if version \<in> {2, 3} then isolated_case num os w proj d c else legacy_case py num os w proj d c) = Inr bc"
    using assms(1) by (auto simp: load_case_def refuse_def simp del: insert_iff split: json.splits dest: check_context_Inr(1))
  have new: "i \<noteq> []" "i \<notin> set seen" using i by (auto simp: case_id_of_def refuse_def Let_def split: if_splits)
  note f = shared_fields_Inr [OF c] and m = check_context_Inr(3,4) [OF k]
  have c': "valid_metadata c" using new(1) f(1-5) m by (simp add: valid_metadata_def)
  show "valid_case os w proj bc"
  proof (cases "version \<in> {2, 3}")
    case True
    then have "isolated_case num os w proj d c = Inr bc" using l by simp
    then obtain n fx h where bc: "bc = c\<lparr>bc_max_iterations := n, bc_fixture := Some fx, bc_holdout_path := Some h\<rparr>"
      and n: "iterations_of num d 5 = Inr n" "project_directory os w proj fx" "project_directory os w proj h"
      by (auto simp: isolated_case_def refuse_def split: if_splits dest!: existing_directory_Inr)
    from c' f(8,10) n(2,3) iterations_of_Inr [OF n(1)] show ?thesis
      by (simp add: bc valid_case_def valid_metadata_def context_paths_def)
  next
    case False
    then have "context_paths c = []" using check_context_Inr(2) [OF k] assms(2) by auto
    then have none: "context_paths c = []" .
    have "legacy_case py num os w proj d c = Inr bc" using l False by simp
    then obtain n ws reset task where bc: "bc = c\<lparr>bc_max_iterations := n, bc_workspace := Some ws,
        bc_reset_command := reset, bc_task := Some task\<rparr>"
      and n: "iterations_of num d 3 = Inr n" "relative_to (path_parts proj) (path_parts ws) \<noteq> None" "reset \<noteq> []"
      by (cases "reset_items (jget d ''reset_command'')")
        (auto simp: legacy_case_def refuse_def dest!: inside_root_Inr reset_items_Some)
    from c' f(6,7) n(2,3) none iterations_of_Inr [OF n(1)] show ?thesis
      by (simp add: bc valid_case_def valid_metadata_def context_paths_def)
  qed
  show "bc_case_id bc \<notin> set seen"
    using l f(1) new(2) by (auto simp: isolated_case_def legacy_case_def refuse_def split: if_splits option.splits)
qed

lemma load_cases_valid:
  assumes "load_cases py num os w proj version acc raws = Inr cases" and "version \<in> {1, 2, 3}"
    and "distinct (map bc_case_id acc)" and "list_all (valid_case os w proj) acc"
  shows "distinct (map bc_case_id cases) \<and> list_all (valid_case os w proj) cases \<and> length cases = length acc + length raws"
  using assms
proof (induction raws arbitrary: acc)
  case (Cons raw raws)
  then obtain bc where bc: "load_case py num os w proj version (map bc_case_id acc) raw = Inr bc"
    and l: "load_cases py num os w proj version (acc @ [bc]) raws = Inr cases" by auto
  note v = load_case_valid [OF bc Cons.prems(2)]
  have "distinct (map bc_case_id (acc @ [bc]))" "list_all (valid_case os w proj) (acc @ [bc])"
    using v Cons.prems(3,4) by simp_all
  from Cons.IH [OF l Cons.prems(2) this] show ?case by simp
qed simp

lemma schema_version_Inr: "schema_version v = Inr n \<Longrightarrow> n \<in> {1, 2, 3}"
  by (auto simp: schema_version_def refuse_def Let_def split: json.splits if_splits bool.splits)

section \<open>Properties\<close>

text \<open>
  C19 A manifest that loads is usable: it has cases, their identifiers are distinct, and every case
  is well formed: known strategies and mode, at least one iteration, metadata of relative paths
  only, and either an isolated fixture and a holdout that are directories inside the project, or
  a workspace inside the project with a reset command.
\<close>

theorem loaded_cases_valid:
  assumes "load_manifest py num os w path loaded project = Inr cases"
  shows "cases \<noteq> [] \<and> distinct (map bc_case_id cases)
    \<and> list_all (valid_case os w (resolve_path os w project)) cases"
proof -
  obtain d version where v: "schema_version (jget d ''schema_version'') = Inr version"
    and c: "(case jget d ''cases'' of
        JArr (raw # raws) \<Rightarrow> load_cases py num os w (resolve_path os w project) version [] (raw # raws)
      | _ \<Rightarrow> refuse ''benchmark manifest must contain a non-empty cases list'') = Inr cases"
    using assms by (auto simp: load_manifest_def simp del: load_cases.simps)
  obtain raw raws where l: "load_cases py num os w (resolve_path os w project) version [] (raw # raws) = Inr cases"
    using c by (cases "jget d ''cases''") (auto simp: refuse_def simp del: load_cases.simps split: list.splits)
  from load_cases_valid [OF l schema_version_Inr [OF v]] show ?thesis by auto
qed

text \<open>
  C20 A case that the validation accepts is an isolated failing baseline: its fixture has the
  allowed directories and the visible tests, and no repository, the holdout tests lie outside of
  it, the expected context files are in it, and the visible tests fail there, with the status of
  failed tests, under both hash seeds.
\<close>

theorem validated_case_fails:
  assumes "validate_benchmark_case vd t bc w = (Inr v, w')" and "cv_valid v"
  shows "\<exists>f h dir w0. bc_fixture bc = Some f \<and> bc_holdout_path bc = Some h
    \<and> \<not> is_within (vd_os vd) w h f \<and> is_dir (vd_os vd) w (joined_path f ''tests'')
    \<and> \<not> path_exists (vd_os vd) w (joined_path f ''.git'')
    \<and> (\<forall>p \<in> set (bc_allowed_paths bc). is_dir (vd_os vd) w (joined_path f p))
    \<and> (\<forall>p \<in> set (context_paths bc). is_file (vd_os vd) w (joined_path f p) \<and> is_within (vd_os vd) w (joined_path f p) f)
    \<and> (\<exists>o0 e0 w1 o1 e1 w2.
         vd_run vd w0 f (baseline_env dir ''0'') (baseline_command (vd_executable vd) dir ''0'') t = (Ran 1 o0 e0, w1)
       \<and> vd_run vd w1 f (baseline_env dir ''1'') (baseline_command (vd_executable vd) dir ''1'') t = (Ran 1 o1 e1, w2))"
proof (cases "bc_fixture bc")
  case None
  with assms show ?thesis by (auto simp: validate_benchmark_case_def ret_def validity_of_def)
next
  case (Some f)
  let ?s = "fixture_reasons (vd_os vd) w bc f"
  obtain dir w0 fin where "finally_io
        (bind_io (baseline_reasons vd t f dir ''0'') (\<lambda>r0.
         bind_io (baseline_reasons vd t f dir ''1'') (\<lambda>r1. ret (validity_of bc (?s @ r0 @ r1))))) fin w0 = (Inr v, w')"
    using assms(1) Some by (auto simp: validate_benchmark_case_def bind_io_Inr gets_def)
  then obtain r0 w1 r1 w2 where r: "baseline_reasons vd t f dir ''0'' w0 = (Inr r0, w1)"
    "baseline_reasons vd t f dir ''1'' w1 = (Inr r1, w2)" and v: "v = validity_of bc (?s @ r0 @ r1)"
    by (elim finally_io_Inr) (auto simp: bind_io_Inr ret_def)
  have e: "?s = []" "r0 = []" "r1 = []" using v assms(2) by (simp_all add: validity_of_def)
  have run: "\<exists>out err. vd_run vd u f (baseline_env dir seed) (baseline_command (vd_executable vd) dir seed) t = (Ran 1 out err, u')"
    if "baseline_reasons vd t f dir seed u = (Inr [], u')" for seed u u'
    using that by (auto simp: baseline_reasons_def Let_def split: prod.splits command_process.splits if_splits)
  obtain h where h: "bc_holdout_path bc = Some h" "\<not> is_within (vd_os vd) w h f"
    using e(1) by (auto simp: fixture_reasons_def split: option.splits if_splits)
  have s: "is_dir (vd_os vd) w (joined_path f ''tests'')" "\<not> path_exists (vd_os vd) w (joined_path f ''.git'')"
    "\<forall>p \<in> set (bc_allowed_paths bc). is_dir (vd_os vd) w (joined_path f p)"
    "\<forall>p \<in> set (context_paths bc). context_reason (vd_os vd) w f p = []"
    using e(1) by (auto simp: fixture_reasons_def filter_empty_conv split: if_splits)
  have "is_file (vd_os vd) w (joined_path f p) \<and> is_within (vd_os vd) w (joined_path f p) f" if "p \<in> set (context_paths bc)" for p
    using s(4) that by (auto simp: context_reason_def Let_def split: if_splits)
  with Some h s run [OF r(1) [unfolded e]] run [OF r(2) [unfolded e]] show ?thesis by blast
qed

text \<open>A manifest and a validation that can be computed.\<close>

definition demo_manifest :: "start_error + benchmark_case list" where
  "demo_manifest = load_manifest demo_py demo_numbers demo_os demo_fresh ''m.yaml''
     (Inr (JObj [(''schema_version'', JInt 3),
       (''cases'', JArr [JObj [(''id'', JStr '' a ''), (''fixture'', JStr ''fx''), (''holdout'', JStr ''ho''),
          (''max_iterations'', JInt 0), (''allowed_paths'', JArr [JStr ''src/'']), (''context_required_paths'', JArr [JStr ''src/m.py'']),
          (''context_relevant_paths'', JArr [JStr ''src/m.py'', JStr ''src/n.py''])],
        JObj [(''id'', JStr ''b''), (''fixture'', JStr ''fx''), (''holdout'', JStr ''ho''),
          (''strategies'', JArr [JStr ''full'', JStr ''traceback'']), (''mode'', JStr ''patch'')]])])) ''/p''"

theorem loaded_cases_valid_witness:
  "\<exists>cs. demo_manifest = Inr cs \<and> cs \<noteq> [] \<and> distinct (map bc_case_id cs) \<and> list_all (valid_case demo_os demo_fresh ''/p'') cs"
proof -
  have "\<not> isl demo_manifest" by code_simp
  then obtain cs where cs: "demo_manifest = Inr cs" by (metis sum.collapse(2))
  have "resolve_path demo_os demo_fresh ''/p'' = ''/p''" by (simp add: demo_os_def)
  with loaded_cases_valid [OF cs [unfolded demo_manifest_def]] cs show ?thesis by (intro exI [of _ cs]) simp
qed

definition demo_validator :: "demo_world validator" where
  "demo_validator = \<lparr>vd_os = demo_os\<lparr>path_exists := \<lambda>w p. False\<rparr>, vd_executable = ''python'',
     vd_run = \<lambda>w d e c t. (Ran 1 ''1 failed'' [], w)\<rparr>"

theorem validated_case_fails_witness:
  "\<exists>v w'. validate_benchmark_case demo_validator 120 (hd (projr demo_manifest)) demo_fresh = (Inr v, w') \<and> cv_valid v
     \<and> bc_fixture (hd (projr demo_manifest)) \<noteq> None"
proof -
  let ?r = "validate_benchmark_case demo_validator 120 (hd (projr demo_manifest)) demo_fresh"
  have "\<not> isl (fst ?r)" by code_simp
  then have r: "?r = (Inr (projr (fst ?r)), snd ?r)" by (simp add: prod_eq_iff)
  have v: "cv_valid (projr (fst ?r))" by code_simp
  from validated_case_fails [OF r v] r v show ?thesis by blast
qed

end
