(* ===== verification/BenchmarkReport.thy ===== *)
theory BenchmarkReport
  imports Manifest
begin

text \<open>
  The results of a benchmark: the summary of its records (\<open>benchmarking/metrics.py\<close>, without the
  intervals of Wilson, the durations, the tokens and the averages of the context), the program that
  runs a benchmark (\<open>cli.py\<close>) and the one that compares two reports (\<open>compare_cli.py\<close>).
\<close>

section \<open>Metrics\<close>

definition count_of :: "(trial_record \<Rightarrow> bool) \<Rightarrow> trial_record list \<Rightarrow> int" where
  "count_of P runs = int (length (filter P runs))"

definition rate_where :: "(trial_record \<Rightarrow> bool) \<Rightarrow> trial_record list \<Rightarrow> rat" where
  "rate_where P runs = rate (count_of P runs) (int (length runs))"

definition case_key :: "trial_record \<Rightarrow> pystr \<times> pystr \<times> pystr" where
  "case_key r = (tr_case_id r, tr_strategy r, tr_variant r)"

definition case_keys :: "trial_record list \<Rightarrow> (pystr \<times> pystr \<times> pystr) list" where
  "case_keys runs = remdups (map case_key runs)"

record outcome_summary =
  os_runs :: nat
  os_successful_runs :: int
  os_success_rate :: rat
  os_visible_success_rate :: rat
  os_candidate_success_rate :: rat
  os_review_acceptance_rate :: rat
  os_holdout_success_rate :: rat
  os_case_strategy_pairs :: nat
  os_pass_at_k :: rat
  os_success_at_1 :: rat

definition outcome_summary_of :: "trial_record list \<Rightarrow> outcome_summary" where
  "outcome_summary_of runs =
     (let keys = case_keys runs;
          passed = filter (\<lambda>k. \<exists>r \<in> set runs. case_key r = k \<and> tr_success r) keys
      in \<lparr>os_runs = length runs, os_successful_runs = count_of tr_success runs,
        os_success_rate = rate_where tr_success runs,
        os_visible_success_rate = rate_where tr_visible_success runs,
        os_candidate_success_rate = rate_where tr_candidate_success runs,
        os_review_acceptance_rate = rate_where tr_agent_accepted runs,
        os_holdout_success_rate =
          rate_where (\<lambda>r. tr_holdout_success r = Some True) (filter (\<lambda>r. tr_holdout_success r \<noteq> None) runs),
        os_case_strategy_pairs = length keys,
        os_pass_at_k = rate (int (length passed)) (int (length keys)),
        os_success_at_1 = rate_where tr_success (filter (\<lambda>r. tr_repetition r = 1) runs)\<rparr>)"

record execution_summary =
  es_average_iterations :: rat
  es_regression_rate :: rat
  es_no_progress_rate :: rat
  es_failure_counts :: "(pystr \<times> nat) list"
  es_policy_violations :: nat
  es_false_accepts :: int
  es_false_rejects :: int

definition execution_summary_of :: "trial_record list \<Rightarrow> execution_summary" where
  "execution_summary_of runs =
     (let results = concat (map tr_iteration_failure_types runs);
          share = (\<lambda>t. rate (int (count_list results t)) (int (length results)));
          failures = map (\<lambda>r. or_else (tr_failure_type r) ''unknown'') (filter (\<lambda>r. \<not> tr_success r) runs)
      in \<lparr>es_average_iterations = (if runs \<noteq> []
            then round_digits 3 (int_div (int (sum_list (map tr_iterations runs))) (int (length runs))) else 0),
        es_regression_rate = share ''regression'', es_no_progress_rate = share ''no_progress'',
        es_failure_counts = map (\<lambda>t. (t, count_list failures t)) (sort (remdups failures)),
        es_policy_violations = sum_list (map tr_policy_violations runs),
        es_false_accepts = count_of (\<lambda>r. tr_failure_type r = Some ''false_accept'') runs,
        es_false_rejects = count_of (\<lambda>r. tr_failure_type r = Some ''false_reject'') runs\<rparr>)"

definition variant_success_rate :: "trial_record list \<Rightarrow> rat option" where
  "variant_success_rate runs = (if runs \<noteq> [] then Some (rate_where tr_success runs) else None)"

text \<open>
  Trials of both repository modes with the same case, strategy and repetition make a pair; of
  several records of one mode the last one counts.
\<close>

type_synonym pair_key = "pystr \<times> pystr \<times> nat"
type_synonym mode_pair = "trial_record option \<times> trial_record option"

definition pair_key :: "trial_record \<Rightarrow> pair_key" where
  "pair_key r = (tr_case_id r, tr_strategy r, tr_repetition r)"

definition put_run :: "(pair_key \<times> mode_pair) list \<Rightarrow> trial_record \<Rightarrow> (pair_key \<times> mode_pair) list" where
  "put_run pairs r =
     (let old = (case dict_get pairs (pair_key r) of None \<Rightarrow> (None, None) | Some p \<Rightarrow> p)
      in dict_set (pair_key r) (if tr_repository_enabled r then (Some r, snd old) else (fst old, Some r)) pairs)"

record ab_summary =
  ab_pairs :: nat
  ab_wins :: nat
  ab_losses :: nat
  ab_ties :: int

definition complete_pairs :: "trial_record list \<Rightarrow> (trial_record \<times> trial_record) list" where
  "complete_pairs runs = List.map_filter (\<lambda>(k, p). case p of (Some a, Some b) \<Rightarrow> Some (a, b) | _ \<Rightarrow> None)
     (foldl put_run [] runs)"

definition ab_summary_of :: "trial_record list \<Rightarrow> ab_summary" where
  "ab_summary_of runs =
     (let complete = complete_pairs runs;
          wins = length (filter (\<lambda>(a, b). tr_success a \<and> \<not> tr_success b) complete);
          losses = length (filter (\<lambda>(a, b). \<not> tr_success a \<and> tr_success b) complete)
      in \<lparr>ab_pairs = length complete, ab_wins = wins, ab_losses = losses,
        ab_ties = int (length complete) - int wins - int losses\<rparr>)"

section \<open>The benchmark program\<close>

text \<open>The options that \<open>argparse\<close> returns; a list that was not given is empty.\<close>

record bench_args =
  ba_manifest :: pystr
  ba_config :: pystr
  ba_case_ids :: "pystr list"
  ba_tags :: "pystr list"
  ba_strategies :: "pystr list"
  ba_repeat :: int
  ba_output_dir :: pystr
  ba_list_cases :: bool
  ba_validate_cases :: bool
  ba_validation_timeout :: int
  ba_keep_workspaces :: bool
  ba_repository_modes :: "pystr list"
  ba_trace_redaction :: "pystr option"
  ba_sandbox_backend :: "pystr option"
  ba_container_image :: "pystr option"

definition select_ids :: "pystr list \<Rightarrow> benchmark_case list \<Rightarrow> start_error + benchmark_case list" where
  "select_ids ids cases =
     (let chosen = filter (\<lambda>bc. bc_case_id bc \<in> set ids) cases;
          missing = filter (\<lambda>i. i \<notin> bc_case_id ` set chosen) ids
      in if ids = [] then Inr cases
         else if missing \<noteq> [] then refuse (''unknown benchmark cases: '' @ join '', '' (sort (remdups missing)))
         else Inr chosen)"

definition select_tags :: "pystr list \<Rightarrow> benchmark_case list \<Rightarrow> start_error + benchmark_case list" where
  "select_tags tags cases =
     (let chosen = filter (\<lambda>bc. set tags \<subseteq> set (bc_tags bc)) cases
      in if tags = [] then Inr cases
         else if chosen = [] then refuse (''no benchmark cases match tags: '' @ join '', '' (sort (remdups tags)))
         else Inr chosen)"

definition bench_backend :: "bench_args \<Rightarrow> json \<Rightarrow> start_error + json" where
  "bench_backend args v = text_or_setting (ba_sandbox_backend args) v ''backend'' ''container''"

definition bench_options_of ::
    "pyvals \<Rightarrow> number_ops \<Rightarrow> pystr \<Rightarrow> bench_args \<Rightarrow> pystr \<Rightarrow> run_data \<Rightarrow> start_error + bench_options" where
  "bench_options_of py num proj args out d =
     (let sandbox = config_section d ''sandbox''; context = config_section d ''context''; safety = config_section d ''safety'';
          rv = config_section d ''semantic_review''; repo = config_section d ''repository'' in
      res_bind (int_setting num sandbox ''timeout_seconds'' 30) (\<lambda>t.
      res_bind (int_setting num context ''line_window'' 25) (\<lambda>window.
      res_bind (int_setting num context ''max_files'' 6) (\<lambda>nfiles.
      res_bind (int_setting num context ''max_expansion_level'' 2) (\<lambda>level.
      res_bind (int_setting num safety ''max_changed_files'' 8) (\<lambda>cfiles.
      res_bind (int_setting num safety ''max_changed_lines'' 400) (\<lambda>clines.
      res_bind (resolve_tests py (config_section d ''test'')) (\<lambda>commands.
      res_bind (bool_setting py rv ''enabled'' True) (\<lambda>enabled.
      res_bind (int_setting num rv ''max_semantic_revisions'' 2) (\<lambda>revisions.
      res_bind (int_setting num rv ''max_parse_retries'' 1) (\<lambda>retries.
      res_bind (int_setting num rv ''max_context_chars'' 16000) (\<lambda>cchars.
      res_bind (int_setting num rv ''max_feedback_chars'' 3000) (\<lambda>fchars.
      res_bind (int_setting num rv ''max_risks'' 3) (\<lambda>risks.
      res_bind (int_setting num rv ''max_contracts'' 3) (\<lambda>contracts.
      res_bind (bool_setting py repo ''enabled'' True) (\<lambda>repo_on.
      res_bind (int_setting num repo ''max_files'' 2000) (\<lambda>rfiles.
      res_bind (int_setting num repo ''max_file_bytes'' 1000000) (\<lambda>rbytes.
      res_bind (int_setting num repo ''max_graph_depth'' 2) (\<lambda>depth.
      res_bind (int_setting num repo ''max_related_files'' 6) (\<lambda>related.
      res_bind (int_setting num repo ''max_snippet_lines'' 200) (\<lambda>slines.
      res_bind (int_setting num context ''max_selected_tokens'' 12000) (\<lambda>tokens.
      res_bind (text_or_setting (ba_trace_redaction args) (config_section d ''trace'') ''redaction_mode'' ''paths'') (\<lambda>redaction.
      Inr \<lparr>bo_project_root = proj, bo_output_dir = out, bo_repeat = ba_repeat args,
        bo_strategy_override = ba_strategies args, bo_keep_workspaces = ba_keep_workspaces args, bo_sandbox_timeout = t,
        bo_line_window = window, bo_context_max_files = nfiles, bo_max_expansion_level = level,
        bo_max_changed_files = cfiles, bo_max_changed_lines = clines, bo_test_commands = Some commands,
        bo_review_enabled = enabled, bo_review_max_revisions = revisions, bo_review_parse_retries = retries,
        bo_review_max_context_chars = cchars, bo_review_max_feedback_chars = fchars, bo_review_max_risks = risks,
        bo_review_max_contracts = contracts, bo_repository_enabled = repo_on,
        bo_repository_modes = (if ba_repository_modes args \<noteq> []
          then Some (map (\<lambda>m. m = ''on'') (ba_repository_modes args)) else None),
        bo_repository_max_files = rfiles, bo_repository_max_file_bytes = rbytes, bo_repository_max_graph_depth = depth,
        bo_repository_max_related_files = related, bo_repository_max_snippet_lines = slines,
        bo_max_selected_tokens = tokens, bo_trace_redaction_mode = json_str py redaction\<rparr>)))))))))))))))))))))))"

text \<open>
  What the program takes from the outside; \<open>bp_report\<close> stands for the two texts of a report, and
  \<open>bp_system\<close> for the parts of an agent on the settings of its models.
\<close>

record ('v, 'w) bench_program =
  bp_py :: pyvals
  bp_numbers :: number_ops
  bp_root :: pystr
  bp_env :: "(pystr \<times> pystr) list"
  bp_env_file :: "(exn + pystr) option"
  bp_load_yaml :: "pystr \<Rightarrow> exn + json"
  bp_validator :: "'w validator"
  bp_system :: "start_error + model_settings \<Rightarrow> start_error + model_settings \<Rightarrow> ('v, 'w) bench_system"
  bp_report :: "trial_record list \<Rightarrow> pystr \<times> pystr"

definition failed_start :: "start_error + 'a \<Rightarrow> exn option" where
  "failed_start r = (case r of Inl e \<Rightarrow> Some (start_exn e) | Inr _ \<Rightarrow> None)"

definition bench_factory ::
    "pyvals \<Rightarrow> number_ops \<Rightarrow> bench_args \<Rightarrow> json \<Rightarrow> pystr \<Rightarrow> exn + (local_sandbox + container_sandbox)" where
  "bench_factory py num args v ws = (case v of
     JObj d \<Rightarrow> map_sum index_exn id (build_sandbox py num ws d (ba_sandbox_backend args) (ba_container_image args))
   | _ \<Rightarrow> Inl (TypeError []))"

text \<open>
  The settings of a benchmark. The models are built by every trial, so that a setting that only
  they read fails in each trial and not here.
\<close>

definition bench_start ::
    "('v, 'w) bench_program \<Rightarrow> bench_args \<Rightarrow> start_error + ('v, 'w) bench_system \<times> bench_options" where
  "bench_start pg args =
     (let py = bp_py pg; num = bp_numbers pg in
      res_bind (map_sum Refused id (load_dotenv_file (bp_env_file pg) (bp_env pg))) (\<lambda>env.
      res_bind (resolve_setting_path (bp_root pg) (JStr (ba_config args))) (\<lambda>path.
      res_bind (load_config path py (bp_load_yaml pg path)) (\<lambda>d.
      res_bind (bench_backend args (config_section d ''sandbox'')) (\<lambda>backend.
      (case (config_section d ''model'', config_section d ''semantic_review'') of
         (JObj m, JObj rv) \<Rightarrow>
           res_bind (review_model_config py num m rv) (\<lambda>reviewer.
           res_bind (resolve_setting_path (bp_root pg) (JStr (ba_output_dir args))) (\<lambda>out.
           res_bind (bench_options_of py num (bp_root pg) args out d) (\<lambda>ops.
           let first = build_model py num env 2000 m; second = build_model py num env 3072 reviewer in
           Inr ((bp_system pg first second)\<lparr>bn_model := failed_start first, bn_review_model := failed_start second,
               bn_factory := bench_factory py num args (config_section d ''sandbox'')\<rparr>, ops))))
       | _ \<Rightarrow> Inl (BadSetting IndexAttributeError)))))))"

definition bench_status :: "trial_record list \<Rightarrow> int" where
  "bench_status runs = (if os_success_rate (outcome_summary_of runs) = 1 then 0 else 1)"

definition write_file :: "'w os \<Rightarrow> pystr \<Rightarrow> pystr \<Rightarrow> ('w, unit) io" where
  "write_file os p s = may_fail (\<lambda>w. write_text os w p s)"

definition run_and_report ::
    "('v, 'w) bench_program \<Rightarrow> ('v, 'w) bench_system \<Rightarrow> bench_options \<Rightarrow> benchmark_case list \<Rightarrow> ('w, int) io" where
  "run_and_report pg bn ops cases =
     (let os = pt_os (bn_parts bn); out = bo_output_dir ops in
      bind_io (run_benchmark (bp_py pg) (bp_numbers pg) bn ops cases) (\<lambda>runs.
      then_io (may_fail (\<lambda>w. bn_mkdir bn w out))
      (then_io (write_file os (path_join out [''report.json'']) (fst (bp_report pg runs)))
      (then_io (write_file os (path_join out [''report.md'']) (snd (bp_report pg runs)))
      (ret (bench_status runs))))))"

definition selected_cases :: "('v, 'w) bench_program \<Rightarrow> bench_args \<Rightarrow> 'w \<Rightarrow> start_error + benchmark_case list" where
  "selected_cases pg args w =
     res_bind (resolve_setting_path (bp_root pg) (JStr (ba_manifest args))) (\<lambda>path.
     res_bind (load_manifest (bp_py pg) (bp_numbers pg) (vd_os (bp_validator pg)) w path (bp_load_yaml pg path) (bp_root pg)) (\<lambda>cases.
     res_bind (select_ids (ba_case_ids args) cases) (select_tags (ba_tags args))))"

definition validation_status :: "case_validity list \<Rightarrow> int" where
  "validation_status vs = (if list_all cv_valid vs then 0 else 1)"

definition bench_main :: "('v, 'w) bench_program \<Rightarrow> bench_args \<Rightarrow> 'w \<Rightarrow> (start_error + int) \<times> 'w" where
  "bench_main pg args w =
     (case selected_cases pg args w of
        Inl e \<Rightarrow> (Inl e, w)
      | Inr cases \<Rightarrow>
          if ba_list_cases args then (Inr 0, w)
          else if ba_validate_cases args
          then apfst (map_sum Refused validation_status)
            (validate_benchmark_cases (bp_validator pg) (max 1 (ba_validation_timeout args)) cases w)
          else (case bench_start pg args of
             Inl e \<Rightarrow> (Inl e, w)
           | Inr (bn, ops) \<Rightarrow> apfst (map_sum Refused id) (run_and_report pg bn ops cases w)))"

section \<open>The comparison program\<close>

text \<open>
  The two reports as they were read, the texts of the comparison, and the directory to write it
  to; an exception of the comparison ends the program. \<open>drift\<close> and \<open>unmatched_ok\<close> are the two allowances.
\<close>

definition compare_status :: "bool \<Rightarrow> bool \<Rightarrow> comparison \<Rightarrow> int" where
  "compare_status drift unmatched_ok x =
     (if cp_differences x \<noteq> [] \<and> \<not> drift then 2 else if \<not> cp_complete x \<and> \<not> unmatched_ok then 3 else 0)"

definition compare_loaded ::
    "pyvals \<Rightarrow> number_ops \<Rightarrow> (json \<Rightarrow> json \<Rightarrow> bool) \<Rightarrow> exn + json \<Rightarrow> exn + json \<Rightarrow> start_error + comparison" where
  "compare_loaded py num same first second =
     res_bind (map_sum Refused id first) (\<lambda>b.
     res_bind (map_sum Refused id second) (\<lambda>c.
     (case (b, c) of
        (JObj b, JObj c) \<Rightarrow> map_sum BadSetting id (compare_reports py num same b c)
      | _ \<Rightarrow> Inl (BadSetting IndexAttributeError))))"

definition compare_main ::
    "pyvals \<Rightarrow> number_ops \<Rightarrow> (json \<Rightarrow> json \<Rightarrow> bool) \<Rightarrow> 'w os \<Rightarrow> ('w \<Rightarrow> pystr \<Rightarrow> pystr option \<times> 'w)
      \<Rightarrow> (comparison \<Rightarrow> pystr \<times> pystr) \<Rightarrow> exn + json \<Rightarrow> exn + json \<Rightarrow> pystr option \<Rightarrow> bool \<Rightarrow> bool
      \<Rightarrow> 'w \<Rightarrow> (start_error + int) \<times> 'w" where
  "compare_main py num same os mkdir texts first second dir drift unmatched_ok w =
     (case compare_loaded py num same first second of
        Inl e \<Rightarrow> (Inl e, w)
      | Inr x \<Rightarrow> apfst (map_sum Refused id)
          (then_io (case dir of
              None \<Rightarrow> ret ()
            | Some d \<Rightarrow>
                then_io (may_fail (\<lambda>w. mkdir w d))
                (then_io (write_file os (path_join d [''comparison.json'']) (fst (texts x)))
                (write_file os (path_join d [''comparison.md'']) (snd (texts x)))))
            (ret (compare_status drift unmatched_ok x)) w))"

section \<open>Pairs of both modes\<close>

text \<open>The last record of a mode with a key.\<close>

definition last_run :: "bool \<Rightarrow> pair_key \<Rightarrow> trial_record list \<Rightarrow> trial_record option" where
  "last_run mode k runs =
     (case rev (filter (\<lambda>r. pair_key r = k \<and> tr_repository_enabled r = mode) runs) of [] \<Rightarrow> None | r # rs \<Rightarrow> Some r)"

lemma last_run_snoc:
  "last_run mode k (runs @ [r]) =
     (if pair_key r = k \<and> tr_repository_enabled r = mode then Some r else last_run mode k runs)"
  by (simp add: last_run_def)

lemma last_run_in: "last_run mode k runs = Some r \<Longrightarrow> r \<in> set runs \<and> pair_key r = k \<and> tr_repository_enabled r = mode"
  by (induction runs rule: rev_induct) (auto simp: last_run_snoc split: if_splits, simp add: last_run_def)

lemma last_run_new: "k \<notin> pair_key ` set runs \<Longrightarrow> last_run mode k runs = None"
  using last_run_in [of mode k runs] by (cases "last_run mode k runs") auto

lemma put_run_lookup:
  "dict_get (put_run d r) k = (if k = pair_key r
     then (let p = (case dict_get d k of None \<Rightarrow> (None, None) | Some p \<Rightarrow> p)
       in Some (if tr_repository_enabled r then (Some r, snd p) else (fst p, Some r)))
     else dict_get d k)"
  by (simp add: put_run_def Let_def dict_get_set)

lemma put_runs_lookup:
  "dict_get (foldl put_run [] runs) k =
     (if k \<in> pair_key ` set runs then Some (last_run True k runs, last_run False k runs) else None)"
proof (induction runs arbitrary: k rule: rev_induct)
  case Nil
  then show ?case by simp
next
  case (snoc r runs)
  then show ?case
    using last_run_new [of "pair_key r" runs]
    by (cases "pair_key r \<in> pair_key ` set runs") (auto simp: put_run_lookup Let_def last_run_snoc)
qed

lemma distinct_put_runs: "distinct (map fst (foldl put_run [] runs))"
  by (induction runs rule: rev_induct) (simp_all add: put_run_def Let_def distinct_dict_set)

lemma dict_get_key: "dict_get d k = Some v \<Longrightarrow> k \<in> fst ` set d"
  by (induction d) (auto split: if_splits)

lemma length_filter_entries:
  assumes "distinct (map fst d)"
  shows "length (filter P (List.map_filter (\<lambda>(k, v). g v) d))
    = card {k. \<exists>v x. dict_get d k = Some v \<and> g v = Some x \<and> P x}"
  using assms
proof (induction d)
  case Nil
  then show ?case by (simp add: List.map_filter_def)
next
  case (Cons kv d)
  obtain k v where kv: "kv = (k, v)" by fastforce
  let ?S = "{k. \<exists>v x. dict_get d k = Some v \<and> g v = Some x \<and> P x}"
  have new: "k \<notin> fst ` set d" using Cons.prems kv by auto
  then have none: "dict_get d k = None" by (simp add: map_of_eq_None_iff)
  then have k: "k \<notin> ?S" by simp
  have "?S \<subseteq> fst ` set d" by (auto dest: dict_get_key)
  then have fin: "finite ?S" by (rule finite_subset) simp
  have "{k. \<exists>v x. dict_get (kv # d) k = Some v \<and> g v = Some x \<and> P x}
      = (if \<exists>x. g v = Some x \<and> P x then insert k ?S else ?S)"
    using none kv by (auto split: if_splits)
  then show ?case using Cons k fin kv by (auto simp: List.map_filter_simps split: option.split)
qed

lemma length_complete_pairs:
  "length (filter P (complete_pairs runs))
     = card {k. \<exists>a b. last_run True k runs = Some a \<and> last_run False k runs = Some b \<and> P (a, b)}"
proof -
  let ?g = "\<lambda>p :: mode_pair. case p of (Some a, Some b) \<Rightarrow> Some (a, b) | _ \<Rightarrow> None"
  have "complete_pairs runs = List.map_filter (\<lambda>(k, p). ?g p) (foldl put_run [] runs)" by (simp add: complete_pairs_def)
  moreover have "(\<exists>v x. dict_get (foldl put_run [] runs) k = Some v \<and> ?g v = Some x \<and> P x)
      \<longleftrightarrow> (\<exists>a b. last_run True k runs = Some a \<and> last_run False k runs = Some b \<and> P (a, b))" for k
    by (auto simp: put_runs_lookup split: option.splits dest: last_run_in)
  ultimately show ?thesis using length_filter_entries [OF distinct_put_runs, of P ?g] by simp
qed

section \<open>Properties\<close>

lemma rate_one:
  assumes "0 \<le> s" and "s \<le> n" and "n < 20000"
  shows "rate s n = 1 \<longleftrightarrow> n \<noteq> 0 \<and> s = n"
proof (cases "n = 0 \<or> s = n")
  case True
  have "to_double 1 = 1" by code_simp
  moreover have "round_digits 4 1 = 1" by code_simp
  ultimately show ?thesis using True by (auto simp: rate_def int_div_def)
next
  case False
  then have n: "0 < n" and s: "s \<le> n - 1" using assms by auto
  have "(of_int s :: rat) / of_int n \<le> of_int (n - 1) / of_int n" using s n by (intro divide_right_mono) simp_all
  also have "\<dots> = 1 - 1 / of_int n" using n by (simp add: field_simps)
  also have "\<dots> \<le> 1 - 1 / 19999"
  proof -
    have "(of_int n :: rat) \<le> 19999" using assms(3) by linarith
    then show ?thesis using n by (simp add: field_simps)
  qed
  finally have le: "(of_int s :: rat) / of_int n \<le> 19998 / 19999" by simp
  have pos: "0 \<le> (of_int s :: rat) / of_int n" using assms(1) n by simp
  have "rate s n \<le> round_digits 4 (to_double (19998 / 19999))"
    using n pos le by (simp add: rate_def int_div_def round_digits_mono to_double_mono to_double_nonneg)
  also have "\<dots> < 1" by code_simp
  finally show ?thesis using False by simp
qed

lemma count_of_le: "0 \<le> count_of P runs" "count_of P runs \<le> int (length runs)"
  by (simp_all add: count_of_def)

lemma count_of_all: "count_of P runs = int (length runs) \<longleftrightarrow> list_all P runs"
proof -
  have "length (filter P runs) = length runs \<longleftrightarrow> list_all P runs"
  proof (induction runs)
    case (Cons r runs)
    moreover have "length (filter P runs) \<noteq> Suc (length runs)" by (metis Suc_n_not_le_n length_filter_le)
    ultimately show ?case by simp
  qed simp
  then show ?thesis by (simp add: count_of_def)
qed

lemma run_trials_records:
  "run_trials py num bn ops vs w = (Inr rs, w') \<Longrightarrow>
     list_all2 (\<lambda>v r. \<exists>w1 w2. run_variant py num bn ops v w1 = (Inr r, w2)) vs rs"
proof (induction vs arbitrary: rs w)
  case Nil
  then show ?case by (simp add: ret_def)
next
  case (Cons v vs)
  from Cons.prems obtain r w1 rs' where "run_variant py num bn ops v w = (Inr r, w1)"
    and "run_trials py num bn ops vs w1 = (Inr rs', w')" and "rs = r # rs'"
    by (auto simp: bind_io_Inr ret_def)
  with Cons.IH show ?case by auto
qed

lemma success_rate_exact:
  assumes "length runs < 20000"
  shows "bench_status runs = 0 \<longleftrightarrow> runs \<noteq> [] \<and> list_all tr_success runs"
proof -
  have "rate_where tr_success runs = 1 \<longleftrightarrow> int (length runs) \<noteq> 0 \<and> count_of tr_success runs = int (length runs)"
    unfolding rate_where_def by (rule rate_one) (use assms in \<open>simp_all add: count_of_le\<close>)
  then show ?thesis by (simp add: bench_status_def outcome_summary_of_def Let_def count_of_all)
qed

text \<open>
  C16 The exit status 0 of a benchmark of fewer than 20000 trials is earned in every trial: there
  is a trial, and each trial's agent, built for its variant, ended with an accepted result
  (visible tests passed, semantic review as configured), its candidate patch applied cleanly to
  the untouched baseline, the holdout tests, where the case has them, ran there and returned 0,
  and the cleanup reported no error.
\<close>

theorem benchmark_success_justified:
  assumes "run_benchmark py num bn ops cases w = (Inr runs, w')" and "bench_status runs = 0" and "length runs < 20000"
  shows "runs \<noteq> []
    \<and> list_all2 (justified_trial py bn (ops\<lparr>bo_output_dir := resolve_path (pt_os (bn_parts bn)) w (bo_output_dir ops)\<rparr>))
        (variants_of ops cases) runs"
proof -
  let ?ops = "ops\<lparr>bo_output_dir := resolve_path (pt_os (bn_parts bn)) w (bo_output_dir ops)\<rparr>"
  obtain w1 where "run_trials py num bn ?ops (variants_of ops cases) w1 = (Inr runs, w')"
    using assms(1) by (auto simp: run_benchmark_def bind_io_Inr then_io_def gets_def split: if_splits)
  then have "list_all2 (\<lambda>v r. \<exists>w1 w2. run_variant py num bn ?ops v w1 = (Inr r, w2)) (variants_of ops cases) runs"
    by (rule run_trials_records)
  note l2 = this
  then have len: "length (variants_of ops cases) = length runs" by (rule list_all2_lengthD)
  have run: "\<exists>w1 w2. run_variant py num bn ?ops (variants_of ops cases ! i) w1 = (Inr (runs ! i), w2)" if "i < length runs" for i
    using l2 that by (simp add: list_all2_conv_all_nth)
  have ok: "runs \<noteq> []" "list_all tr_success runs" using success_rate_exact [OF assms(3)] assms(2) by auto
  have "justified_trial py bn ?ops (variants_of ops cases ! i) (runs ! i)" if i: "i < length runs" for i
  proof -
    obtain w1 w2 where "run_variant py num bn ?ops (variants_of ops cases ! i) w1 = (Inr (runs ! i), w2)" using run [OF i] by blast
    moreover have "tr_success (runs ! i)" using ok(2) i by (simp add: list_all_length)
    ultimately show ?thesis by (rule trial_success_justified)
  qed
  with ok(1) len show ?thesis by (cases runs) (auto simp: list_all2_conv_all_nth)
qed

text \<open>
  C18 The exit status of a benchmark: below 20000 trials it is 0 exactly when there is a trial and
  every trial is a success; with 20001 trials a failed one goes unnoticed, for the rate that is
  compared with 1 is rounded to four digits.
\<close>

theorem benchmark_status_exact:
  "(length runs < 20000 \<longrightarrow> (bench_status runs = 0 \<longleftrightarrow> runs \<noteq> [] \<and> list_all tr_success runs))
   \<and> (tr_success r \<longrightarrow> bench_status (replicate 20000 r @ [r\<lparr>tr_success := False\<rparr>]) = 0)"
proof (intro conjI impI)
  assume "length runs < 20000"
  then show "bench_status runs = 0 \<longleftrightarrow> runs \<noteq> [] \<and> list_all tr_success runs" by (rule success_rate_exact)
next
  assume r: "tr_success r"
  let ?runs = "replicate 20000 r @ [r\<lparr>tr_success := False\<rparr>]"
  have "count_of tr_success ?runs = 20000" "int (length ?runs) = 20001"
    using r by (simp_all add: count_of_def filter_replicate del: replicate.simps)
  then have "rate_where tr_success ?runs = rate 20000 20001" by (simp only: rate_where_def)
  also have "\<dots> = 1" by code_simp
  finally show "bench_status ?runs = 0" by (simp add: bench_status_def outcome_summary_of_def Let_def)
qed

text \<open>
  The paired comparison of the two repository modes: the pairs are exactly the case, strategy
  and repetition with a record in both modes, each once, with the last record of either mode; the
  wins, losses and ties count the pairs.
\<close>

theorem ab_summary_counts:
  "ab_pairs (ab_summary_of runs)
     = card {k. \<exists>a b. last_run True k runs = Some a \<and> last_run False k runs = Some b}
   \<and> ab_wins (ab_summary_of runs)
     = card {k. \<exists>a b. last_run True k runs = Some a \<and> last_run False k runs = Some b \<and> tr_success a \<and> \<not> tr_success b}
   \<and> ab_losses (ab_summary_of runs)
     = card {k. \<exists>a b. last_run True k runs = Some a \<and> last_run False k runs = Some b \<and> \<not> tr_success a \<and> tr_success b}
   \<and> 0 \<le> ab_ties (ab_summary_of runs)"
proof -
  note n = length_complete_pairs [of _ runs]
  have ties: "length (filter (\<lambda>(a, b). tr_success a \<and> \<not> tr_success b) ps)
      + length (filter (\<lambda>(a, b). \<not> tr_success a \<and> tr_success b) ps) \<le> length ps" for ps :: "(trial_record \<times> trial_record) list"
    by (induction ps) auto
  show ?thesis
    using n [of "\<lambda>_. True"] n [of "\<lambda>(a, b). tr_success a \<and> \<not> tr_success b"]
      n [of "\<lambda>(a, b). \<not> tr_success a \<and> tr_success b"] ties [of "complete_pairs runs"]
    by (simp add: ab_summary_of_def Let_def)
qed

text \<open>A record that can be computed.\<close>

definition demo_record :: trial_record where
  "demo_record = (build_runner_error demo_variant (OSError ''x''))\<lparr>tr_success := True\<rparr>"

theorem benchmark_status_exact_witness: "bench_status [demo_record] = 0"
proof -
  have "tr_success demo_record" by (simp add: demo_record_def)
  then show ?thesis using benchmark_status_exact [of "[demo_record]" demo_record] by simp
qed

lemma demo_variants: "variants_of demo_options [demo_case] = [demo_variant]"
  by (simp add: variants_of_def repository_modes_def demo_options_def demo_case_def demo_variant_def dedupe_def)

theorem benchmark_success_justified_witness:
  "\<exists>r w'. run_benchmark demo_py demo_numbers demo_bench demo_options [demo_case] demo_fresh = (Inr [r], w')
     \<and> bench_status [r] = 0 \<and> tr_holdout_exit_code r = Some 0"
proof -
  obtain r w' where r: "run_variant demo_py demo_numbers demo_bench demo_options demo_variant demo_fresh = (Inr r, w')"
    and ok: "tr_success r" using demo_variant_run by blast
  have o: "demo_options\<lparr>bo_output_dir := bo_output_dir demo_options\<rparr> = demo_options" "bo_repeat demo_options = 1"
    by (simp_all add: demo_options_def)
  have p: "bn_parts demo_bench = demo_passing" "bn_mkdir demo_bench w d = (None, w)" for w d
    by (simp_all add: demo_bench_def)
  have run: "run_benchmark demo_py demo_numbers demo_bench demo_options [demo_case] demo_fresh = (Inr [r], w')"
    by (simp add: run_benchmark_def o p demo_variants bind_io_def then_io_def gets_def may_fail_def ret_def r)
  have status: "bench_status [r] = 0" using success_rate_exact [of "[r]"] ok by simp
  have "bc_holdout_path (bv_case demo_variant) \<noteq> None" by (simp add: demo_variant_def demo_case_def)
  with benchmark_success_justified [OF run status] run status show ?thesis
    by (auto simp: demo_variants justified_trial_def)
qed

end
