(* ===== verification/Approval.thy ===== *)
theory Approval
  imports PatchTools Workspace PyDumps
begin

text \<open>
  \<open>pyfixagent/apply.py\<close>: an exported patch is inspected and shown with the SHA-256 digest of its
  cleaned text; only a second call that supplies the digest applies it. \<open>sha\<close> is the digest of
  the UTF-8 encoding of a text. Argument parsing and the printed preview are left out; the exit
  code of \<open>main\<close> is kept.
\<close>

record approval =
  ap_workspace :: pystr
  ap_patch_path :: pystr
  ap_digest :: pystr
  ap_modified_files :: "pystr list"
  ap_changed_lines :: nat
  ap_cleaned_patch :: pystr

definition approval_policy :: "pystr list \<Rightarrow> int \<Rightarrow> int \<Rightarrow> edit_policy" where
  "approval_policy paths file_limit line_limit = default_edit_policy\<lparr>allowed_paths := paths,
     max_files := max 1 file_limit, max_changed_lines := max 1 line_limit\<rparr>"

definition raise_value :: "pystr \<Rightarrow> ('w, 'a) io" where
  "raise_value m = throw (ValueError m)"

definition read_patch :: "'w os \<Rightarrow> pystr \<Rightarrow> ('w, pystr) io" where
  "read_patch os path = bind_io (gets (\<lambda>w. (path_exists os w path, read_text os w path))) (\<lambda>(there, r).
     case r of
       Inr t \<Rightarrow> ret t
     | Inl (OSError m) \<Rightarrow>
         (if there then raise_value (''failed to read UTF-8 patch file '' @ path @ '': '' @ m)
          else raise_value (''patch file does not exist: '' @ path))
     | Inl (UnicodeError m) \<Rightarrow> raise_value (''failed to read UTF-8 patch file '' @ path @ '': '' @ m)
     | Inl e \<Rightarrow> throw e)"

text \<open>The inspection of the text that was read: the check by Git, then the approval.\<close>

definition approval_of ::
    "'w os \<Rightarrow> (pystr \<Rightarrow> pystr) \<Rightarrow> pystr \<Rightarrow> pystr \<Rightarrow> edit_policy \<Rightarrow> pystr \<Rightarrow> ('w, approval) io" where
  "approval_of os sha ws path policy raw =
     (let cleaned = clean_patch_text raw in
      (\<lambda>w. case check_patch os w ws cleaned (Some policy) 30 of
        (checked, w') \<Rightarrow>
          (if \<not> p_success checked
           then raise_value (or_else (p_error checked) (or_text (p_stderr checked) ''patch validation failed'')) w'
           else (Inr \<lparr>ap_workspace = ws, ap_patch_path = path, ap_digest = sha cleaned,
             ap_modified_files = paths_from_patch cleaned, ap_changed_lines = changed_lines_from_patch cleaned,
             ap_cleaned_patch = cleaned\<rparr>, w'))))"

definition inspect_exported_patch ::
    "'w os \<Rightarrow> (pystr \<Rightarrow> pystr) \<Rightarrow> pystr \<Rightarrow> pystr \<Rightarrow> edit_policy \<Rightarrow> ('w, approval) io" where
  "inspect_exported_patch os sha workspace exported_path policy =
     bind_io (gets (\<lambda>w. (resolve_path os w workspace, resolve_path os w exported_path))) (\<lambda>(ws, path).
     bind_io (inspect_workspace os ws) (\<lambda>st.
       case clean_workspace_error st of
         Some e \<Rightarrow> raise_value e
       | None \<Rightarrow> bind_io (read_patch os path) (approval_of os sha ws path policy)))"

definition apply_approved_patch :: "'w os \<Rightarrow> approval \<Rightarrow> pystr \<Rightarrow> edit_policy \<Rightarrow> ('w, unit) io" where
  "apply_approved_patch os a supplied policy =
     (if lower (strip supplied) \<noteq> ap_digest a
      then raise_value ''approval digest does not match the validated patch''
      else bind_io (inspect_workspace os (ap_workspace a)) (\<lambda>st.
        case clean_workspace_error st of
          Some e \<Rightarrow> raise_value (''workspace changed after preview: '' @ e)
        | None \<Rightarrow>
            bind_io (\<lambda>w. case apply_patch os w (ap_workspace a) (ap_cleaned_patch a) (Some policy) 30 of
                (r, w') \<Rightarrow> (Inr r, w')) (\<lambda>result.
              if p_success result then ret ()
              else raise_value (or_else (p_error result) (or_text (p_stderr result) ''failed to apply approved patch'')))))"

record approval_args =
  aa_workspace :: pystr
  aa_patch :: pystr
  aa_approve :: "pystr option"
  aa_allowed_paths :: "pystr list"
  aa_max_changed_files :: int
  aa_max_changed_lines :: int

text \<open>A \<open>ValueError\<close> ends \<open>main\<close> with exit code 1; every other exception passes through.\<close>

definition catch_value_error :: "('w, int) io \<Rightarrow> ('w, int) io" where
  "catch_value_error m = (\<lambda>w. case m w of (Inl (ValueError e), w') \<Rightarrow> (Inr 1, w') | r \<Rightarrow> r)"

definition approval_main :: "'w os \<Rightarrow> (pystr \<Rightarrow> pystr) \<Rightarrow> approval_args \<Rightarrow> ('w, int) io" where
  "approval_main os sha args =
     (let policy = approval_policy (aa_allowed_paths args) (aa_max_changed_files args) (aa_max_changed_lines args) in
      catch_value_error
        (bind_io (inspect_exported_patch os sha (aa_workspace args) (aa_patch args) policy) (\<lambda>a.
           if \<not> truthy (aa_approve args) then ret 2
           else catch_value_error (then_io (apply_approved_patch os a (the (aa_approve args)) policy) (ret 0)))))"

section \<open>Properties\<close>

lemma apply_approved_Inr:
  assumes "apply_approved_patch os a supplied policy w = (Inr (), w')"
  shows "lower (strip supplied) = ap_digest a
    \<and> (\<exists>st w1 cleaned out err. inspect_workspace os (ap_workspace a) w = (Inr st, w1) \<and> clean_workspace_error st = None
        \<and> admit_patch (ap_cleaned_patch a) (Some policy) = Inr cleaned
        \<and> git os w1 (ap_workspace a) [''apply'', ''-''] cleaned = (Completed 0 out err, w'))"
proof -
  let ?apply = "\<lambda>w. case apply_patch os w (ap_workspace a) (ap_cleaned_patch a) (Some policy) 30 of (r, w') \<Rightarrow> (Inr r, w')"
  have digest: "lower (strip supplied) = ap_digest a"
    using assms by (auto simp: apply_approved_patch_def raise_value_def split: if_splits)
  let ?then = "\<lambda>st. case clean_workspace_error st of
          Some e \<Rightarrow> raise_value (''workspace changed after preview: '' @ e)
        | None \<Rightarrow> bind_io ?apply (\<lambda>result. if p_success result then ret ()
              else raise_value (or_else (p_error result) (or_text (p_stderr result) ''failed to apply approved patch'')))"
  have "bind_io (inspect_workspace os (ap_workspace a)) ?then w = (Inr (), w')"
    using assms digest by (simp add: apply_approved_patch_def)
  then obtain st w1 where st: "inspect_workspace os (ap_workspace a) w = (Inr st, w1)" and r: "?then st w1 = (Inr (), w')"
    unfolding bind_io_Inr [of "inspect_workspace os (ap_workspace a)"] by blast
  then have clean: "clean_workspace_error st = None" by (auto simp: raise_value_def split: option.splits)
  then obtain result where "apply_patch os w1 (ap_workspace a) (ap_cleaned_patch a) (Some policy) 30 = (result, w')" "p_success result"
    using r by (auto simp: bind_io_Inr raise_value_def split: prod.splits if_splits)
  then obtain cleaned out err where "admit_patch (ap_cleaned_patch a) (Some policy) = Inr cleaned"
    "git os w1 (ap_workspace a) [''apply'', ''-''] cleaned = (Completed 0 out err, w')"
    by (auto simp: apply_patch_def p_fail_def split: sum.splits prod.splits proc.splits)
  with digest st clean show ?thesis by blast
qed

lemma read_patch_Inr: "read_patch os path w = (Inr t, w') \<Longrightarrow> read_text os w path = Inr t"
  by (auto simp: read_patch_def bind_io_def gets_def ret_def throw_def raise_value_def
      split: sum.splits exn.splits if_splits)

lemma inspect_exported_Inr:
  assumes "inspect_exported_patch os sha ws path policy w = (Inr a, w')"
  shows "\<exists>raw. ap_cleaned_patch a = clean_patch_text raw \<and> ap_digest a = sha (clean_patch_text raw)
    \<and> (\<exists>w0. read_text os w0 (ap_patch_path a) = Inr raw)"
proof -
  let ?ws = "resolve_path os w ws" and ?path = "resolve_path os w path"
  have i: "inspect_exported_patch os sha ws path policy w = bind_io (inspect_workspace os ?ws) (\<lambda>st.
       case clean_workspace_error st of
         Some e \<Rightarrow> raise_value e
       | None \<Rightarrow> bind_io (read_patch os ?path) (approval_of os sha ?ws ?path policy)) w"
    by (simp add: inspect_exported_patch_def bind_io_def gets_def)
  obtain st w1 where "(case clean_workspace_error st of Some e \<Rightarrow> raise_value e
       | None \<Rightarrow> bind_io (read_patch os ?path) (approval_of os sha ?ws ?path policy)) w1 = (Inr a, w')"
    using assms unfolding i bind_io_Inr [of "inspect_workspace os ?ws"] by blast
  then have "bind_io (read_patch os ?path) (approval_of os sha ?ws ?path policy) w1 = (Inr a, w')"
    by (auto simp: raise_value_def split: option.splits)
  then obtain raw w2 where raw: "read_patch os ?path w1 = (Inr raw, w2)"
    and a: "approval_of os sha ?ws ?path policy raw w2 = (Inr a, w')"
    unfolding bind_io_Inr by blast
  from a have "ap_cleaned_patch a = clean_patch_text raw \<and> ap_digest a = sha (clean_patch_text raw) \<and> ap_patch_path a = ?path"
    by (auto simp: approval_of_def Let_def raise_value_def split: prod.splits if_splits)
  with read_patch_Inr [OF raw] show ?thesis by metis
qed

text \<open>
  C34 Nothing is applied without the digest: after a successful inspection the command ends with
  exit code 2 when no digest is given and with 1 when the given one, stripped and in lower case,
  is not the digest of the cleaned patch, in both cases without a further step; and exit code 0
  means that the digest matched, the workspace was clean again, and \<open>git apply\<close> succeeded on the
  text that the policy admits from the very patch the digest covers.
\<close>

theorem approval_gates_apply:
  fixes args :: approval_args
  defines "policy \<equiv> approval_policy (aa_allowed_paths args) (aa_max_changed_files args) (aa_max_changed_lines args)"
  assumes "inspect_exported_patch os sha (aa_workspace args) (aa_patch args) policy w = (Inr a, w1)"
  shows "(truthy (aa_approve args) \<or> approval_main os sha args w = (Inr 2, w1))
    \<and> (lower (strip (the (aa_approve args))) = ap_digest a \<or> \<not> truthy (aa_approve args)
         \<or> approval_main os sha args w = (Inr 1, w1))
    \<and> (approval_main os sha args w \<noteq> (Inr 0, w2)
         \<or> truthy (aa_approve args) \<and> lower (strip (the (aa_approve args))) = sha (ap_cleaned_patch a)
           \<and> (\<exists>raw w0. read_text os w0 (ap_patch_path a) = Inr raw \<and> ap_cleaned_patch a = clean_patch_text raw)
           \<and> (\<exists>st w3 cleaned out err. inspect_workspace os (ap_workspace a) w1 = (Inr st, w3) \<and> clean_workspace_error st = None
               \<and> admit_patch (ap_cleaned_patch a) (Some policy) = Inr cleaned
               \<and> git os w3 (ap_workspace a) [''apply'', ''-''] cleaned = (Completed 0 out err, w2)))"
proof -
  let ?run = "catch_value_error (then_io (apply_approved_patch os a (the (aa_approve args)) policy) (ret 0)) w1"
  have main: "approval_main os sha args w = catch_value_error (\<lambda>w. if \<not> truthy (aa_approve args) then (Inr 2, w) else
      catch_value_error (then_io (apply_approved_patch os a (the (aa_approve args)) policy) (ret 0)) w) w1"
    using assms(2) by (simp add: approval_main_def policy_def [symmetric] Let_def catch_value_error_def bind_io_def ret_def
        cong: prod.case_cong)
  obtain raw where raw: "ap_cleaned_patch a = clean_patch_text raw" "ap_digest a = sha (clean_patch_text raw)"
    "\<exists>w0. read_text os w0 (ap_patch_path a) = Inr raw"
    using inspect_exported_Inr [OF assms(2)] by blast
  have "?run = (Inr 1, w1)" if "lower (strip (the (aa_approve args))) \<noteq> ap_digest a"
    using that by (simp add: apply_approved_patch_def raise_value_def catch_value_error_def then_io_def)
      (simp add: throw_def)
  moreover have "apply_approved_patch os a (the (aa_approve args)) policy w1 = (Inr (), w2)" if "?run = (Inr 0, w2)"
    using that by (auto simp: catch_value_error_def then_io_def bind_io_def ret_def split: prod.splits sum.splits exn.splits)
  moreover have "approval_main os sha args w = (if truthy (aa_approve args) then ?run else (Inr 2, w1))"
    unfolding main by (auto simp: catch_value_error_def split: prod.split sum.split exn.split)
  ultimately have refused: "\<not> truthy (aa_approve args) \<Longrightarrow> approval_main os sha args w = (Inr 2, w1)"
    "truthy (aa_approve args) \<Longrightarrow> lower (strip (the (aa_approve args))) \<noteq> ap_digest a \<Longrightarrow> approval_main os sha args w = (Inr 1, w1)"
    and applied: "approval_main os sha args w = (Inr 0, w2) \<Longrightarrow> truthy (aa_approve args)
      \<and> apply_approved_patch os a (the (aa_approve args)) policy w1 = (Inr (), w2)"
    by (auto split: if_splits)
  show ?thesis
  proof (cases "approval_main os sha args w = (Inr 0, w2)")
    case True
    with applied apply_approved_Inr [of os a "the (aa_approve args)" policy w1 w2] raw show ?thesis by force
  next
    case False
    with refused show ?thesis by blast
  qed
qed

text \<open>A repository at a clean commit in which every command of Git succeeds.\<close>

definition approval_os :: "demo_world os" where
  "approval_os = demo_os\<lparr>git := \<lambda>w cwd args stdin. (Completed 0 (if take 1 args = [''status''] then [] else ''c0ffee'') [], w),
     read_text := \<lambda>w p. Inr (joinlines demo_patch)\<rparr>"

definition approval_demo_args :: "pystr option \<Rightarrow> approval_args" where
  "approval_demo_args d = \<lparr>aa_workspace = ''/r'', aa_patch = ''/p'', aa_approve = d, aa_allowed_paths = [],
     aa_max_changed_files = 8, aa_max_changed_lines = 400\<rparr>"

theorem approval_gates_apply_witness:
  "approval_main approval_os (\<lambda>t. ''00ff'') (approval_demo_args None) demo_state = (Inr 2, demo_state)
   \<and> approval_main approval_os (\<lambda>t. ''00ff'') (approval_demo_args (Some ''ffff'')) demo_state = (Inr 1, demo_state)"
proof -
  let ?policy = "approval_policy [] 8 400"
  let ?inspect = "inspect_exported_patch approval_os (\<lambda>t. ''00ff'') ''/r'' ''/p'' ?policy demo_state"
  have "map_sum id ap_digest (fst ?inspect) = Inr ''00ff''" by code_simp
  then obtain a where a: "fst ?inspect = Inr a" "ap_digest a = ''00ff''" by (cases "fst ?inspect") auto
  moreover have "snd ?inspect = demo_state"
    by code_simp
  ultimately have i: "inspect_exported_patch approval_os (\<lambda>t. ''00ff'') (aa_workspace (approval_demo_args d))
      (aa_patch (approval_demo_args d)) (approval_policy (aa_allowed_paths (approval_demo_args d))
        (aa_max_changed_files (approval_demo_args d)) (aa_max_changed_lines (approval_demo_args d))) demo_state = (Inr a, demo_state)" for d
    by (cases ?inspect) (simp add: approval_demo_args_def)
  have "lower (strip ''ffff'') = ''ffff''" by code_simp
  with approval_gates_apply [OF i [of None]] approval_gates_apply [OF i [of "Some ''ffff''"]] a(2)
  show ?thesis by (simp add: approval_demo_args_def)
qed

text \<open>
  C40 The preview can miss what is applied: where the exported file wraps the patch twice as JSON,
  cleaning yields the inner JSON text, so the preview lists no file and no changed line, and
  admission, which cleans once more, still finds and applies the patch inside.
\<close>

definition nested_patch :: pystr where
  "nested_patch = json_dumps False False (JObj [(''patch'',
     JStr (json_dumps False False (JObj [(''patch'', JStr (joinlines demo_patch))])))])"


end
