(* ===== verification/PatchEval.thy ===== *)
theory PatchEval
  imports PatchTools Workspace
begin

text \<open>
  \<open>patch_eval/\<close>: the evaluator of model output that the benchmark uses. It has its own parser,
  normalizer and format check, which accumulate error codes and warnings instead of stopping at
  the first; then \<open>git apply --check\<close> has the last word. The last section relates it to the agent's
  own patch tools.
\<close>

section \<open>Results\<close>

record parse_result =
  pr_cleaned_patch :: "pystr option"
  pr_source_type :: "pystr option"
  pr_errors :: "pystr list"
  pr_warnings :: "pystr list"

record normalize_result =
  nr_normalized_patch :: "pystr option"
  nr_errors :: "pystr list"
  nr_warnings :: "pystr list"

record format_result =
  fr_ok :: bool
  fr_errors :: "pystr list"
  fr_warnings :: "pystr list"

record git_apply_result =
  ga_ok :: bool
  ga_returncode :: int
  ga_stdout :: pystr
  ga_stderr :: pystr
  ga_error_type :: "pystr option"

record evaluation_result =
  ev_ok :: bool
  ev_cleaned_patch :: "pystr option"
  ev_normalized_patch :: "pystr option"
  ev_errors :: "pystr list"
  ev_warnings :: "pystr list"
  ev_error_type :: "pystr option"
  ev_git_stdout :: "pystr option"
  ev_git_stderr :: "pystr option"

section \<open>The parser\<close>

definition eval_strip_fence :: "pystr \<Rightarrow> pystr" where
  "eval_strip_fence s =
     (let lines = splitlines (strip s);
          lines = (if lines \<noteq> [] \<and> startswith (strip (hd lines)) ''```'' then tl lines else lines);
          lines = (if lines \<noteq> [] \<and> strip (last lines) = ''```'' then butlast lines else lines)
      in strip (joinlines lines))"

fun eval_first_json_object :: "pystr \<Rightarrow> pystr option" where
  "eval_first_json_object [] = None"
| "eval_first_json_object (c # cs) =
     (if c \<noteq> CHR 0x7B then eval_first_json_object cs
      else (case raw_decode (c # cs) of
         None \<Rightarrow> eval_first_json_object cs
       | Some (_, r) \<Rightarrow> Some (take (length (c # cs) - length r) (c # cs))))"

text \<open>\<open>text.replace(old, new)\<close> for a text \<open>old\<close> of two characters.\<close>

fun replace_pair :: "char \<Rightarrow> char \<Rightarrow> char \<Rightarrow> pystr \<Rightarrow> pystr" where
  "replace_pair a b n (c # d # s) =
     (if c = a \<and> d = b then n # replace_pair a b n s else c # replace_pair a b n (d # s))"
| "replace_pair a b n s = s"

definition maybe_unescape :: "pystr \<Rightarrow> pystr" where
  "maybe_unescape s =
     (if nl \<notin> set s \<and> contains s [CHR 0x5C, CHR ''n''] \<and> (contains s ''diff --git '' \<or> contains s ''--- a/'')
      then replace_pair (CHR 0x5C) (CHR 0x22) (CHR 0x22) (replace_pair (CHR 0x5C) (CHR ''n'') nl s)
      else s)"

definition traditional_start :: "pystr list \<Rightarrow> bool" where
  "traditional_start ls = (case ls of l # l2 # _ \<Rightarrow> startswith l ''--- a/'' \<and> startswith l2 ''+++ b/'' | _ \<Rightarrow> False)"

text \<open>The lines from the first that opens a patch.\<close>

fun from_patch_start :: "pystr list \<Rightarrow> pystr list option" where
  "from_patch_start [] = None"
| "from_patch_start (l # ls) =
     (if startswith l ''diff --git '' \<or> traditional_start (l # ls) then Some (l # ls) else from_patch_start ls)"

definition eval_patch_prefixes :: "pystr list" where
  "eval_patch_prefixes = [''diff --git '', ''index '', ''new file mode '', ''deleted file mode '', ''old mode '',
     ''new mode '', ''similarity index '', ''rename from '', ''rename to '', ''--- '', ''+++ '', ''@@'', '' '',
     ''+'', ''-'', [CHR 0x5C]]"

definition eval_trim_trailing :: "pystr list \<Rightarrow> pystr list" where
  "eval_trim_trailing ls = rev (dropWhile (\<lambda>l. \<not> startswith_any l eval_patch_prefixes) (rev ls))"

definition extract_patch_from_text :: "pystr \<Rightarrow> pystr option" where
  "extract_patch_from_text s =
     map_option (\<lambda>ls. strip (joinlines (eval_trim_trailing ls)))
       (from_patch_start (splitlines (maybe_unescape (eval_strip_fence (strip s)))))"

definition with_newline :: "pystr \<Rightarrow> pystr" where
  "with_newline s = (if strip s \<noteq> [] then rstrip s @ [nl] else [])"

text \<open>The first field whose text holds a patch.\<close>

fun patch_of_fields :: "pystr list \<Rightarrow> (pystr \<times> json) list \<Rightarrow> (pystr \<times> pystr) option" where
  "patch_of_fields [] d = None"
| "patch_of_fields (f # fs) d =
     (case dict_get d f of
        Some (JStr v) \<Rightarrow>
          (if strip v \<noteq> [] \<and> truthy (extract_patch_from_text v)
           then Some (f, the (extract_patch_from_text v)) else patch_of_fields fs d)
      | _ \<Rightarrow> patch_of_fields fs d)"

text \<open>
  The candidates in turn: the patch of a field with the warnings before it, or the warnings of
  all. \<open>decode_error\<close> is the text of the \<open>JSONDecodeError\<close>.
\<close>

fun try_candidates ::
    "(pystr \<Rightarrow> pystr) \<Rightarrow> pystr list \<Rightarrow> pystr list \<Rightarrow> pystr list \<Rightarrow> (pystr \<times> pystr) option \<times> pystr list" where
  "try_candidates decode_error seen warnings [] = (None, warnings)"
| "try_candidates decode_error seen warnings (c # cs) =
     (if c \<in> set seen then try_candidates decode_error seen warnings cs
      else (case json_loads c of
         None \<Rightarrow> try_candidates decode_error (c # seen) (warnings @ [''JSON_PARSE_ERROR: '' @ decode_error c]) cs
       | Some (JObj d) \<Rightarrow>
           (case patch_of_fields [''patch'', ''cleaned_patch'', ''raw_model_output''] d of
              Some r \<Rightarrow> (Some r, warnings)
            | None \<Rightarrow> try_candidates decode_error (c # seen) warnings cs)
       | Some _ \<Rightarrow> try_candidates decode_error (c # seen) warnings cs))"

definition parse_failure :: "pystr \<Rightarrow> pystr list \<Rightarrow> parse_result" where
  "parse_failure e ws = \<lparr>pr_cleaned_patch = None, pr_source_type = None, pr_errors = [e], pr_warnings = ws\<rparr>"

definition parse_agent_output :: "(pystr \<Rightarrow> pystr) \<Rightarrow> pystr option \<Rightarrow> parse_result" where
  "parse_agent_output decode_error raw =
     (case raw of
        None \<Rightarrow> parse_failure ''EMPTY_OUTPUT'' []
      | Some raw \<Rightarrow>
          (if strip raw = [] then parse_failure ''EMPTY_OUTPUT'' []
           else (let text = strip raw;
                     ws = (if contains text ''```'' then [''MARKDOWN_FENCE_FOUND''] else []);
                     text = eval_strip_fence text;
                     candidates = text # (case eval_first_json_object text of
                       Some j \<Rightarrow> (if j \<noteq> text then [j] else []) | None \<Rightarrow> [])
                 in case try_candidates decode_error [] ws candidates of
                   (Some (field, cleaned), ws) \<Rightarrow>
                     \<lparr>pr_cleaned_patch = Some (with_newline cleaned), pr_source_type = Some (''json:'' @ field),
                      pr_errors = [], pr_warnings = ws\<rparr>
                 | (None, ws) \<Rightarrow>
                     (if truthy (extract_patch_from_text text)
                      then \<lparr>pr_cleaned_patch = Some (with_newline (the (extract_patch_from_text text))),
                        pr_source_type = Some ''diff'', pr_errors = [], pr_warnings = ws\<rparr>
                      else parse_failure ''NO_PATCH_FOUND'' ws))))"

section \<open>The normalizer\<close>

text \<open>
  The scan: the output lines and the warnings, or the warnings before a pair that creates or
  deletes a file.
\<close>

fun scan_headers :: "pystr option \<Rightarrow> pystr list \<Rightarrow> pystr list + pystr list \<times> pystr list" where
  "scan_headers active [] = Inr ([], [])"
| "scan_headers active [l] = Inr ([l], [])"
| "scan_headers active (l # l2 # ls) =
     (if is_diff_header l then map_sum id (\<lambda>(out, ws). (l # out, ws)) (scan_headers (Some l) (l2 # ls))
      else if is_file_header_pair l l2 then
        (if old_path_of l = dev_null \<or> new_path_of l2 = dev_null then Inl []
         else (let expected = expected_header l l2; ws0 = (if active \<noteq> Some expected
                 then [''MISSING_DIFF_GIT_HEADER_NORMALIZED''] else []) in
               map_sum (\<lambda>ws. ws0 @ ws)
                 (\<lambda>(out, ws). ((if active \<noteq> Some expected then [expected] else []) @ l # l2 # out, ws0 @ ws))
                 (scan_headers (Some expected) ls)))
      else map_sum id (\<lambda>(out, ws). (l # out, ws)) (scan_headers active (l2 # ls)))"

definition eval_normalize :: "pystr option \<Rightarrow> normalize_result" where
  "eval_normalize cleaned =
     (case cleaned of
        None \<Rightarrow> \<lparr>nr_normalized_patch = None, nr_errors = [], nr_warnings = []\<rparr>
      | Some p \<Rightarrow>
          (case scan_headers None (splitlines (strip p)) of
             Inl ws \<Rightarrow> \<lparr>nr_normalized_patch = None, nr_errors = [''UNSUPPORTED_CREATE_DELETE''], nr_warnings = ws\<rparr>
           | Inr (out, ws) \<Rightarrow>
               (let n = strip (joinlines out) in
                \<lparr>nr_normalized_patch = Some (if n \<noteq> [] then n @ [nl] else []), nr_errors = [], nr_warnings = ws\<rparr>)))"

section \<open>The format check\<close>

definition eval_unsafe_path :: "pystr \<Rightarrow> bool" where
  "eval_unsafe_path p = (let p = (if startswith_any p [''a/'', ''b/''] then drop 2 p else p) in
     path_is_absolute p \<or> ''..'' \<in> set (path_parts p) \<or> ''.git'' \<in> set (path_parts p))"

definition header_errors :: "pystr \<Rightarrow> pystr list" where
  "header_errors line = (let p = strip (drop 4 line) in
     if p = ''/dev/null'' then [''UNSUPPORTED_CREATE_DELETE'']
     else if eval_unsafe_path p then [''UNSAFE_PATH''] else [])"

definition block_errors :: "pystr list \<Rightarrow> pystr list" where
  "block_errors block =
     (let parts = split_space (hd block) in
      (if length parts < 4 then [''MISSING_DIFF_GIT_HEADER'']
       else concat (map (\<lambda>p. if eval_unsafe_path p then [''UNSAFE_PATH''] else []) (take 2 (drop 2 parts))))
      @ (if \<not> list_ex (\<lambda>l. startswith l ''--- '') block \<or> \<not> list_ex (\<lambda>l. startswith l ''+++ '') block
         then [''MISSING_FILE_HEADER''] else [])
      @ concat (map header_errors (filter (\<lambda>l. startswith_any l [''--- '', ''+++ '']) block))
      @ (if \<not> list_ex (\<lambda>l. startswith l ''@@'') block then [''MISSING_HUNK_HEADER''] else []))"

text \<open>Of the two special white spaces that are looked for only the first is a Latin-1 character.\<close>

definition eval_validate :: "pystr option \<Rightarrow> format_result" where
  "eval_validate normalized =
     (let text = (case normalized of None \<Rightarrow> [] | Some t \<Rightarrow> t) in
      if strip text = [] then \<lparr>fr_ok = False, fr_errors = [''EMPTY_OUTPUT''], fr_warnings = []\<rparr>
      else (let errors = (if contains text ''```'' then [''MARKDOWN_FENCE_FOUND''] else [])
                @ (if CHR 0xA0 \<in> set text then [''SPECIAL_WHITESPACE_FOUND''] else [])
                @ (if contains text ''/dev/null'' then [''UNSUPPORTED_CREATE_DELETE''] else [])
                @ (if \<not> contains text ''diff --git '' then [''MISSING_DIFF_GIT_HEADER''] else [])
                @ concat (map block_errors (diff_blocks (splitlines text)))
            in \<lparr>fr_ok = (errors = []), fr_errors = dedupe errors, fr_warnings = []\<rparr>))"

section \<open>Git\<close>

definition classify_git_error :: "pystr \<Rightarrow> pystr" where
  "classify_git_error stderr =
     (let lowered = lower stderr in
      if contains lowered ''corrupt patch'' then ''CORRUPT_PATCH''
      else if contains lowered ''patch failed'' \<or> contains lowered ''does not apply'' \<or> contains lowered ''while searching for''
      then ''PATCH_CONTEXT_MISMATCH'' else ''GIT_APPLY_CHECK_FAILED'')"

text \<open>No timeout is given; a \<open>git\<close> that cannot be started is an \<open>OSError\<close> that passes through.\<close>

definition git_apply_check :: "'w os \<Rightarrow> pystr \<Rightarrow> pystr \<Rightarrow> ('w, git_apply_result) io" where
  "git_apply_check os repo patch = (\<lambda>w. case git os w repo [''apply'', ''--check'', ''-''] patch of
     (Completed rc out err, w') \<Rightarrow>
       (Inr \<lparr>ga_ok = (rc = 0), ga_returncode = rc, ga_stdout = out, ga_stderr = err,
          ga_error_type = (if rc = 0 then None else Some (classify_git_error err))\<rparr>, w')
   | (TimedOut m, w') \<Rightarrow> (Inl (TimeoutExpired m), w')
   | (Unstarted m, w') \<Rightarrow> (Inl (OSError m), w'))"

section \<open>The evaluation\<close>

definition rejected :: "pystr option \<Rightarrow> pystr option \<Rightarrow> pystr list \<Rightarrow> pystr list \<Rightarrow> pystr option \<Rightarrow> evaluation_result" where
  "rejected cleaned normalized errors warnings error_type =
     \<lparr>ev_ok = False, ev_cleaned_patch = cleaned, ev_normalized_patch = normalized, ev_errors = dedupe errors,
      ev_warnings = dedupe warnings, ev_error_type = error_type, ev_git_stdout = None, ev_git_stderr = None\<rparr>"

definition first_of :: "pystr list \<Rightarrow> pystr option" where
  "first_of xs = (case xs of [] \<Rightarrow> None | x # _ \<Rightarrow> Some x)"

definition evaluate_agent_output ::
    "'w os \<Rightarrow> (pystr \<Rightarrow> pystr) \<Rightarrow> pystr \<Rightarrow> pystr option \<Rightarrow> ('w, evaluation_result) io" where
  "evaluate_agent_output os decode_error repo raw =
     (let p = parse_agent_output decode_error raw; errors = pr_errors p; warnings = pr_warnings p in
      if pr_cleaned_patch p = None \<or> pr_errors p \<noteq> []
      then ret (rejected (pr_cleaned_patch p) None errors warnings (first_of errors))
      else (let n = eval_normalize (pr_cleaned_patch p);
                errors = errors @ nr_errors n; warnings = warnings @ nr_warnings n in
        if nr_normalized_patch n = None \<or> nr_errors n \<noteq> []
        then ret (rejected (pr_cleaned_patch p) (nr_normalized_patch n) errors warnings (first_of errors))
        else (let v = eval_validate (nr_normalized_patch n);
                  errors = errors @ fr_errors v; warnings = warnings @ fr_warnings v in
          if \<not> fr_ok v
          then ret (rejected (pr_cleaned_patch p) (nr_normalized_patch n) errors warnings (first_of (fr_errors v)))
          else bind_io (git_apply_check os repo (the (nr_normalized_patch n))) (\<lambda>g.
            let errors = (if ga_ok g then errors else errors @ [or_else (ga_error_type g) ''GIT_APPLY_CHECK_FAILED'']) in
            ret \<lparr>ev_ok = ga_ok g, ev_cleaned_patch = pr_cleaned_patch p, ev_normalized_patch = nr_normalized_patch n,
              ev_errors = dedupe errors, ev_warnings = dedupe warnings, ev_error_type = ga_error_type g,
              ev_git_stdout = Some (ga_stdout g), ev_git_stderr = Some (ga_stderr g)\<rparr>))))"

section \<open>The evaluator and the agent\<close>

text \<open>The parts that both packages have in a copy of their own are the same functions.\<close>

lemma eval_strip_fence_same: "eval_strip_fence = strip_outer_code_fence"
  by (simp add: eval_strip_fence_def strip_outer_code_fence_def fun_eq_iff)

lemma eval_first_json_object_same: "eval_first_json_object = extract_first_json_object"
proof
  show "eval_first_json_object s = extract_first_json_object s" for s
    by (induction s) (simp_all split: option.split)
qed

lemma scan_headers_lines:
  "scan_headers active ls = Inr (out, ws) \<Longrightarrow>
     out = normalize_lines active ls \<and> length out = length ls + length ws"
proof (induction active ls arbitrary: out ws rule: scan_headers.induct)
  case (3 active l l2 ls)
  from "3.prems" "3.IH" show ?case
    by (auto simp: Let_def map_sum_def split: if_splits sum.splits)
qed simp_all

lemma splitlines_joinlines_nl:
  "\<forall>l\<in>set ls. no_break l \<Longrightarrow> ls \<noteq> [] \<Longrightarrow> splitlines (joinlines ls @ [nl]) = ls"
proof (induction ls)
  case (Cons l ls)
  then show ?case
    by (cases ls) (auto simp: splitlines_def joinlines_def splitlines_aux_line)
qed simp

lemma contains_before_nl: "nl \<notin> set p \<Longrightarrow> p \<noteq> [] \<Longrightarrow> contains (s @ [nl]) p \<longleftrightarrow> contains s p"
proof
  assume p: "nl \<notin> set p" "p \<noteq> []" and "contains (s @ [nl]) p"
  then obtain a b where s: "s @ [nl] = a @ p @ b" by (auto simp: contains_iff)
  with p have "b \<noteq> []" by (metis append_Nil2 append_is_Nil_conv last_append last_in_set last_snoc)
  then obtain b' c where b: "b = b' @ [c]" by (cases b rule: rev_cases) auto
  with s have "s = a @ p @ b'" by simp
  then show "contains s p" by (auto simp: contains_iff)
next
  assume "contains s p"
  then obtain a b where "s = a @ p @ b" by (auto simp: contains_iff)
  then have "s @ [nl] = a @ p @ (b @ [nl])" by simp
  then show "contains (s @ [nl]) p" unfolding contains_iff by blast
qed

lemma from_patch_start_hd:
  "from_patch_start ls = Some r \<Longrightarrow> r \<noteq> [] \<and> (startswith (hd r) ''diff --git '' \<or> startswith (hd r) ''--- a/'')"
proof (induction ls)
  case (Cons l ls)
  have t: "traditional_start (l # ls) \<Longrightarrow> startswith l ''--- a/''"
    by (cases ls) (simp_all add: traditional_start_def)
  show ?case
  proof (cases "startswith l ''diff --git '' \<or> traditional_start (l # ls)")
    case True
    with Cons.prems have "r = l # ls" by simp
    with True t show ?thesis by auto
  qed (use Cons in simp)
qed simp

lemma from_patch_start_Some:
  assumes "from_patch_start ls = Some r"
  shows "r \<noteq> [] \<and> hd (hd r) \<in> {CHR ''d'', CHR ''-''} \<and> hd r \<noteq> [] \<and> startswith_any (hd r) eval_patch_prefixes"
proof -
  note h = from_patch_start_hd [OF assms]
  then have "hd (hd r) \<in> {CHR ''d'', CHR ''-''} \<and> hd r \<noteq> []"
    by (cases "hd r") auto
  moreover have "startswith (hd r) ''--- a/'' \<Longrightarrow> startswith (hd r) ''--- ''"
    by (auto simp: startswith_iff)
  then have "startswith_any (hd r) eval_patch_prefixes"
    using h by (auto simp: startswith_any_def eval_patch_prefixes_def)
  ultimately show ?thesis using h by blast
qed

lemma trim_keeps_hd:
  assumes "ls \<noteq> []" and "startswith_any (hd ls) eval_patch_prefixes"
  shows "eval_trim_trailing ls \<noteq> [] \<and> hd (eval_trim_trailing ls) = hd ls"
proof -
  obtain l rest where ls: "ls = l # rest" using assms(1) by (cases ls) auto
  have "\<exists>k. dropWhile (\<lambda>l. \<not> startswith_any l eval_patch_prefixes) (rev rest @ [l]) = k @ [l]"
    using assms(2) by (auto simp: ls dropWhile_append3)
  then obtain k where "dropWhile (\<lambda>l. \<not> startswith_any l eval_patch_prefixes) (rev (l # rest)) = k @ [l]" by auto
  then show ?thesis by (simp only: eval_trim_trailing_def ls) simp
qed

lemma strip_hd: "s \<noteq> [] \<Longrightarrow> \<not> is_space (hd s) \<Longrightarrow> strip s \<noteq> [] \<and> hd (strip s) = hd s"
  using rstrip_by_hd [of is_space s] rstrip_by_Nil_iff [of is_space s]
  by (cases s) (auto simp: strip_def strip_by_def lstrip_by_def)

text \<open>What is extracted begins with the \<open>d\<close> of \<open>diff\<close> or the dash of \<open>---\<close>.\<close>

lemma extract_patch_hd:
  assumes "extract_patch_from_text s = Some t"
  shows "t \<noteq> [] \<and> hd t \<in> {CHR ''d'', CHR ''-''} \<and> strip t = t"
proof -
  obtain r where r: "from_patch_start (splitlines (maybe_unescape (eval_strip_fence (strip s)))) = Some r"
    and t: "t = strip (joinlines (eval_trim_trailing r))"
    using assms by (auto simp: extract_patch_from_text_def)
  note h = from_patch_start_Some [OF r] and k = trim_keeps_hd [of r]
  let ?j = "joinlines (eval_trim_trailing r)"
  have "hd ?j = hd (hd r)" using h k hd_joinlines [of "eval_trim_trailing r"] by auto
  moreover have "?j \<noteq> []" using h k by (auto simp: joinlines_Nil_iff)
  moreover have "\<not> is_space (hd (hd r))" using h by (auto simp: is_space_def)
  ultimately show ?thesis using h strip_hd [of ?j] by (auto simp: t)
qed

lemma patch_of_fields_extracted: "patch_of_fields fs d = Some (f, t) \<Longrightarrow> \<exists>v. extract_patch_from_text v = Some t"
  by (induction fs) (auto simp: truthy_def split: option.splits json.splits if_splits)

declare patch_of_fields.simps [simp del]

lemma try_candidates_extracted:
  "try_candidates e seen ws cs = (Some (f, t), ws') \<Longrightarrow> \<exists>v. extract_patch_from_text v = Some t"
proof (induction cs arbitrary: seen ws)
  case (Cons c cs)
  show ?case
  proof (cases "c \<in> set seen")
    case False
    show ?thesis
    proof (cases "json_loads c")
      case None
      with False Cons show ?thesis by simp
    next
      case (Some d)
      with False Cons show ?thesis
        by (cases d) (auto split: option.splits dest: patch_of_fields_extracted)
    qed
  qed (use Cons in simp)
qed simp

lemma parsed_patch_hd:
  assumes "pr_cleaned_patch (parse_agent_output e raw) = Some c"
  shows "\<exists>t. c = t @ [nl] \<and> t \<noteq> [] \<and> hd t \<in> {CHR ''d'', CHR ''-''} \<and> strip c = t"
proof -
  have "\<exists>v t. extract_patch_from_text v = Some t \<and> c = with_newline t"
  proof (cases "raw = None \<or> strip (the raw) = []")
    case False
    then obtain x where x: "raw = Some x" "strip x \<noteq> []" by auto
    let ?t = "eval_strip_fence (strip x)"
    define cs where "cs = ?t # (case eval_first_json_object ?t of Some j \<Rightarrow> (if j \<noteq> ?t then [j] else []) | None \<Rightarrow> [])"
    obtain o1 ws where t: "try_candidates e [] (if contains (strip x) ''```'' then [''MARKDOWN_FENCE_FOUND''] else []) cs = (o1, ws)"
      by fastforce
    have p: "parse_agent_output e raw = (case (o1, ws) of
        (Some (field, cleaned), ws) \<Rightarrow>
          \<lparr>pr_cleaned_patch = Some (with_newline cleaned), pr_source_type = Some (''json:'' @ field), pr_errors = [], pr_warnings = ws\<rparr>
      | (None, ws) \<Rightarrow>
          (if truthy (extract_patch_from_text ?t)
           then \<lparr>pr_cleaned_patch = Some (with_newline (the (extract_patch_from_text ?t))),
             pr_source_type = Some ''diff'', pr_errors = [], pr_warnings = ws\<rparr>
           else parse_failure ''NO_PATCH_FOUND'' ws))"
      unfolding parse_agent_output_def x option.case Let_def cs_def [symmetric] t using x by simp
    show ?thesis
    proof (cases o1)
      case None
      with assms p show ?thesis by (auto simp: parse_failure_def truthy_def split: option.splits if_splits)
    next
      case (Some y)
      obtain f v where y: "y = (f, v)" by (cases y)
      with try_candidates_extracted [OF t [unfolded Some y]] Some assms p show ?thesis by auto
    qed
  qed (use assms in \<open>auto simp: parse_agent_output_def parse_failure_def split: option.splits\<close>)
  then obtain v t where "extract_patch_from_text v = Some t" and c: "c = with_newline t" by blast
  with extract_patch_hd have t: "t \<noteq> []" "hd t \<in> {CHR ''d'', CHR ''-''}" "strip t = t" by blast+
  then have "rstrip t = t"
    by (metis lstrip_by_def dropWhile_hd_id rstrip_def strip_by_def strip_def stripped_by_def stripped_strip_by)
  with t show ?thesis by (auto simp: c with_newline_def strip_snoc_nl)
qed

section \<open>Properties\<close>

text \<open>
  The evaluator's normalizer is the agent's: where it reports no error, its text is that of
  the patch tools with a line feed at the end, and it warns once for every header it inserts.
\<close>

lemma normalizers_agree:
  assumes "nr_errors (eval_normalize (Some p)) = []"
  shows "nr_normalized_patch (eval_normalize (Some p)) = Some (ensure_trailing_newline (normalize_git_diff_headers p))
    \<and> length (splitlines (strip p)) + length (nr_warnings (eval_normalize (Some p)))
      = length (normalize_lines None (splitlines (strip p)))"
proof (cases "scan_headers None (splitlines (strip p))")
  case (Inr r)
  then obtain out ws where r: "scan_headers None (splitlines (strip p)) = Inr (out, ws)" by (cases r) auto
  have out: "out = normalize_lines None (splitlines (strip p))" and l: "length (splitlines (strip p)) + length ws = length out"
    using scan_headers_lines [OF r] by (blast, linarith)
  from l r show ?thesis unfolding out
    by (simp add: eval_normalize_def normalize_git_diff_headers_def ensure_trailing_newline_def Let_def)
qed (use assms in \<open>simp add: eval_normalize_def\<close>)

lemma eval_unsafe_path_same: "eval_unsafe_path p \<longleftrightarrow> unsafe_relative (strip_ab p)"
  by (simp add: eval_unsafe_path_def unsafe_relative_def strip_ab_def Let_def)

text \<open>A block without errors has no objection from the agent's check either.\<close>

lemma block_errors_Nil:
  assumes "block_errors b = []" and "\<forall>p\<in>set (take 2 (drop 2 (split_space (hd b)))). p \<noteq> dev_null"
  shows "check_block b = None"
proof -
  have safe: "\<forall>p\<in>set (take 2 (drop 2 (split_space (hd b)))). safe_path_word p"
    using assms by (auto simp: block_errors_def Let_def eval_unsafe_path_same safe_path_word_def split: if_splits)
  have files: "check_file_header l = None" if "l \<in> set b" for l
  proof (cases "startswith_any l [''--- '', ''+++ '']")
    case True
    with assms(1) that have "header_errors l = []" by (auto simp: block_errors_def Let_def split: if_splits)
    then show ?thesis
      by (auto simp: header_errors_def check_file_header_None eval_unsafe_path_same safe_path_word_def dev_null_def
          Let_def split: if_splits)
  qed (simp add: check_file_header_def)
  have e: "first_error validate_diff_path (take 2 (drop 2 (split_space (hd b)))) = None"
    "first_error check_file_header b = None"
    using safe files by simp_all
  show ?thesis
    using assms(1) unfolding check_block_def Let_def e
    by (auto simp: block_errors_def Let_def split: if_splits)
qed

lemma split_space_aux_parts: "p \<in> set (split_space_aux cur s) \<Longrightarrow> \<exists>a b. rev cur @ s = a @ p @ b"
proof (induction s arbitrary: cur)
  case Nil
  then show ?case by (auto split: if_splits intro!: exI [of _ "[]"])
next
  case (Cons c s)
  show ?case
  proof (cases "is_space c")
    case True
    with Cons.prems consider "p = rev cur" | "p \<in> set (split_space_aux [] s)" by (auto split: if_splits)
    then show ?thesis
    proof cases
      case 1
      then show ?thesis by (intro exI [of _ "[]"] exI [of _ "c # s"]) simp
    next
      case 2
      from Cons.IH [OF this] obtain a b where "s = a @ p @ b" by auto
      then have "rev cur @ c # s = (rev cur @ c # a) @ p @ b" by simp
      then show ?thesis by blast
    qed
  next
    case False
    with Cons.prems Cons.IH [of "c # cur"] show ?thesis by simp
  qed
qed

lemma contains_part: "contains p q \<Longrightarrow> contains (a @ p @ b) q"
  by (auto simp: contains_iff) (metis append.assoc)

lemma join_contains: "l \<in> set ls \<Longrightarrow> \<exists>a b. join sep ls = a @ l @ b"
proof (induction sep ls rule: join.induct)
  case (3 sep x y ys)
  show ?case
  proof (cases "l = x")
    case True
    then show ?thesis by (intro exI [of _ "[]"] exI [of _ "sep @ join sep (y # ys)"]) simp
  next
    case False
    with 3 obtain a b where "join sep (y # ys) = a @ l @ b" by auto
    then have "join sep (x # y # ys) = (x @ sep @ a) @ l @ b" by simp
    then show ?thesis by blast
  qed
qed (auto intro!: exI [of _ "[]"])

lemma diff_blocks_members: "b \<in> set (diff_blocks ls) \<Longrightarrow> b \<noteq> [] \<and> set b \<subseteq> set ls"
  by (induction ls) (auto split: if_splits dest: set_takeWhileD)

text \<open>No word of a block is \<open>/dev/null\<close> when the whole text does not contain it, so the blocks pass.\<close>

lemma accepted_blocks_checked:
  assumes "\<not> contains (joinlines ls) dev_null" and "\<forall>b\<in>set (diff_blocks ls). block_errors b = []"
    and b: "b \<in> set (diff_blocks ls)"
  shows "check_block b = None"
proof (rule block_errors_Nil)
  show "block_errors b = []" using assms by blast
  show "\<forall>p\<in>set (take 2 (drop 2 (split_space (hd b)))). p \<noteq> dev_null"
  proof
    fix p assume "p \<in> set (take 2 (drop 2 (split_space (hd b))))"
    then have "p \<in> set (split_space_aux [] (hd b))" by (auto simp: split_space_def dest!: in_set_takeD in_set_dropD)
    then obtain x y where "hd b = x @ p @ y" using split_space_aux_parts [of p "[]" "hd b"] by auto
    moreover have "hd b \<in> set ls" using diff_blocks_members [OF b] by (cases b) auto
    then obtain x' y' where "joinlines ls = x' @ hd b @ y'"
      using join_contains [of "hd b" ls "[nl]"] by (auto simp: joinlines_def)
    ultimately have "joinlines ls = (x' @ x) @ p @ (y @ y')" by simp
    with assms(1) show "p \<noteq> dev_null" unfolding contains_iff by blast
  qed
qed

text \<open>The normalized lines of a patch that starts with a header do not read like prose.\<close>

lemma normalized_no_prose:
  assumes "strip t = t" and t: "t \<noteq> []" "hd t \<in> {CHR ''d'', CHR ''-''}"
    and out: "out = normalize_lines None (splitlines t)" and "joinlines out \<noteq> []"
  shows "\<not> has_natural_language_prefix (joinlines out)"
proof -
  let ?s = "joinlines out"
  have "stripped_by is_space t" by (metis assms(1) strip_def stripped_strip_by)
  note l = stripped_lines [OF this t(1)]
  have "hd out = hd (splitlines t) \<or> (\<exists>x y. hd out = expected_header x y)"
    using normalize_lines_hd [of None "hd (splitlines t)" "tl (splitlines t)"] l(1)
    by (metis list.sel(1) list.collapse out)
  then have hd_out: "hd out \<noteq> []" "hd (hd out) \<in> {CHR ''d'', CHR ''-''}"
    using l t(2) by (auto simp: expected_header_def)
  moreover have "out \<noteq> []" using l(1) by (simp add: out)
  ultimately have hd_s: "hd ?s \<in> {CHR ''d'', CHR ''-''}" by (simp add: hd_joinlines)
  then have "\<not> is_linebreak (hd ?s)" by (auto simp: is_linebreak_def)
  from hd_splitlines [OF assms(5) this]
  have h: "hd (splitlines ?s) \<noteq> []" "hd (hd (splitlines ?s)) \<in> {CHR ''d'', CHR ''-''}"
    using hd_s by simp_all
  then have "strip (hd (splitlines ?s)) \<noteq> [] \<and> hd (strip (hd (splitlines ?s))) \<in> {CHR ''d'', CHR ''-''}"
    using strip_hd [OF h(1)] by (auto simp: is_space_def)
  then show ?thesis
    unfolding has_natural_language_prefix_def
    by (cases "strip (hd (splitlines ?s))") (auto simp: lower_def lower_char_def code_def natural_prefixes_def startswith_any_def)
qed

text \<open>The agent's own check has no objection to a normalized text that the evaluator's check accepted.\<close>

lemma accepted_text_valid:
  fixes c :: pystr
  defines "out \<equiv> normalize_lines None (splitlines (strip c))"
  assumes t: "strip c \<noteq> []" "hd (strip c) \<in> {CHR ''d'', CHR ''-''}"
    and ok: "fr_ok (eval_validate (Some (joinlines out @ [nl])))"
  shows "v_success (validate_patch_format (joinlines out @ [nl]))"
proof -
  let ?s = "joinlines out"
  note n = normalized_lines [OF t(1), folded out_def]
  have breaks: "\<forall>l\<in>set out. no_break l" unfolding out_def
    by (rule normalize_lines_no_break) (simp add: splitlines_no_break)
  have lines: "splitlines (?s @ [nl]) = out"
    using splitlines_joinlines_nl [OF breaks] n(4) by (auto simp: joinlines_Nil_iff)
  have s: "strip (?s @ [nl]) = ?s" using n(3) by (simp add: strip_snoc_nl)
  have before: "contains (?s @ [nl]) p \<longleftrightarrow> contains ?s p" if "p \<in> {''```'', ''/dev/null'', ''diff --git ''}" for p
    by (rule contains_before_nl) (use that in \<open>auto simp: nl_def\<close>)
  have v: "\<not> contains ?s ''```''" "\<not> contains ?s dev_null" "contains ?s ''diff --git ''"
    "\<forall>b\<in>set (diff_blocks out). block_errors b = []"
    using ok s n(4) before by (auto simp: eval_validate_def lines Let_def dev_null_def split: if_splits)
  have "\<forall>b\<in>set (diff_blocks out). check_block b = None"
    using accepted_blocks_checked [OF v(2,4)] by blast
  then have "(case first_error check_block (diff_blocks out) of None \<Rightarrow> v_ok | Some e \<Rightarrow> e) = v_ok"
    using first_error_None [of check_block "diff_blocks out"] by (simp del: first_error_None)
  moreover have "\<not> has_natural_language_prefix ?s"
    using normalized_no_prose [OF _ t out_def [THEN meta_eq_to_obj_eq] n(4)] by simp
  moreover have "normalize_git_diff_headers ?s = ?s" by (metis n(1) normalize_git_diff_headers_idem)
  ultimately show ?thesis
    using v n(2,4) by (simp del: first_error_None add: validate_patch_format_def s Let_def v_ok_def)
qed

text \<open>
  C25 A patch that the evaluator accepts is one that the agent would admit: the normalized text
  passes the agent's own format validation, and Git was asked about this very text and had no
  objection.
\<close>

theorem evaluated_patch_is_valid:
  assumes "evaluate_agent_output os decode_error repo raw w = (Inr r, w')" and "ev_ok r"
  shows "\<exists>n out err. ev_normalized_patch r = Some n \<and> v_success (validate_patch_format n)
    \<and> git os w repo [''apply'', ''--check'', ''-''] n = (Completed 0 out err, w') \<and> ev_errors r = []"
proof -
  let ?p = "parse_agent_output decode_error raw"
  let ?n = "eval_normalize (pr_cleaned_patch ?p)" let ?v = "eval_validate (nr_normalized_patch ?n)"
  have ok: "pr_cleaned_patch ?p \<noteq> None" "pr_errors ?p = []" "nr_normalized_patch ?n \<noteq> None" "nr_errors ?n = []" "fr_ok ?v"
    using assms by (auto simp: evaluate_agent_output_def Let_def rejected_def split: if_splits)
  then obtain c where c: "pr_cleaned_patch ?p = Some c" by auto
  from parsed_patch_hd [OF c] have t: "strip c \<noteq> []" "hd (strip c) \<in> {CHR ''d'', CHR ''-''}" by auto
  let ?s = "joinlines (normalize_lines None (splitlines (strip c)))"
  have nr: "nr_normalized_patch ?n = Some (?s @ [nl])"
    using normalizers_agree [of c] ok normalized_lines [OF t(1)] by (simp add: c ensure_trailing_newline_def Let_def)
  have valid: "v_success (validate_patch_format (?s @ [nl]))"
    using accepted_text_valid [OF t] ok(5) by (simp add: nr)
  have "pr_errors ?p = [] \<and> fr_errors ?v = []" using ok by (auto simp: eval_validate_def Let_def split: if_splits)
  with assms ok c nr valid show ?thesis
    by (auto simp: evaluate_agent_output_def git_apply_check_def bind_io_def ret_def Let_def split: if_splits proc.splits prod.splits)
qed

text \<open>A world whose Git accepts everything.\<close>

definition accepting_os :: "demo_world os" where
  "accepting_os = demo_os\<lparr>git := \<lambda>w cwd args stdin. (Completed 0 [] [], w)\<rparr>"

theorem evaluated_patch_is_valid_witness:
  "\<exists>n. ev_normalized_patch (projr (fst (evaluate_agent_output accepting_os id ''/r'' (Some (joinlines demo_patch)) demo_state))) = Some n
     \<and> v_success (validate_patch_format n)"
proof -
  let ?r = "evaluate_agent_output accepting_os id ''/r'' (Some (joinlines demo_patch)) demo_state"
  have "\<not> isl (fst ?r)" and ok: "ev_ok (projr (fst ?r))" by code_simp+
  then have "?r = (Inr (projr (fst ?r)), snd ?r)" by (simp add: prod_eq_iff)
  from evaluated_patch_is_valid [OF this ok] show ?thesis by blast
qed

end
