(* ===== verification/RiskScanner.thy ===== *)
theory RiskScanner
  imports Complex_Main PyRegex Review
begin

text \<open>
  The structural risk scanner (\<open>review/risk_scanner.py\<close>): it parses the changed sources and
  looks for shapes that often hide a semantic mistake. Syntax trees have the constructors that
  the scanner tells apart; every other node is \<open>Other\<close> with its children. Parsing
  (\<open>ast.parse\<close>, \<open>None\<close> for a syntax error) is a parameter.
\<close>

section \<open>Syntax trees\<close>

text \<open>
  Literals. A numeric literal is never negative and a float literal may be too large for a
  float (\<open>1e999\<close> is infinity); Booleans are integers in Python.
\<close>

datatype literal = LStr pystr | LBool bool | LInt int | LFloat rat | LInfinity | LOther

datatype comparison = Lt | LtE | Gt | GtE | OtherComparison

datatype node =
    Function pystr "pystr list" "node list" "node list"
  | Call node "node list" "(pystr option \<times> node) list"
  | Attribute node pystr
  | Name pystr
  | Constant literal
  | JoinedStr "node list"
  | BinOp node bool node
  | IfStmt node "node list" "node list"
  | Raise "node list"
  | Compare node "comparison list" "node list"
  | ExprStmt node
  | Other "node list"

text \<open>
  \<open>Function\<close> is a plain or an asynchronous definition with its parameters (positional only,
  positional and keyword only), its body and its other children. \<open>BinOp\<close> says whether the
  operator is \<open>Add\<close>.
\<close>

fun node_children :: "node \<Rightarrow> node list" where
  "node_children (Function _ _ body others) = body @ others"
| "node_children (Call f args kws) = f # args @ map snd kws"
| "node_children (Attribute v _) = [v]"
| "node_children (Name _) = []"
| "node_children (Constant _) = []"
| "node_children (JoinedStr vs) = vs"
| "node_children (BinOp l _ r) = [l, r]"
| "node_children (IfStmt t b e) = t # b @ e"
| "node_children (Raise xs) = xs"
| "node_children (Compare l _ rs) = l # rs"
| "node_children (ExprStmt v) = [v]"
| "node_children (Other xs) = xs"

lemma sum_sizes: "(\<Sum>c\<leftarrow>cs. Suc (2 * size c)) \<le> 2 * size_list size (cs :: node list)"
  by (induction cs) auto

lemma keyword_sizes:
  "(\<Sum>k\<leftarrow>ks. Suc (2 * size (snd k))) \<le> 2 * size_list (size_prod (\<lambda>_. 0) size) (ks :: (pystr option \<times> node) list)"
  by (induction ks) auto

lemma node_children_size: "(\<Sum>c\<leftarrow>node_children n. Suc (2 * size c)) \<le> 2 * size n"
proof (cases n)
  case (Call f args kws)
  then show ?thesis using sum_sizes [of args] keyword_sizes [of kws] by (simp add: comp_def)
next
  case (Function f ps body others)
  then show ?thesis using sum_sizes [of body] sum_sizes [of others] by simp
next
  case (IfStmt t xs ys)
  then show ?thesis using sum_sizes [of xs] sum_sizes [of ys] by simp
qed (use sum_sizes in \<open>auto intro: le_SucI\<close>)

function node_walk :: "node list \<Rightarrow> node list" where
  "node_walk [] = []"
| "node_walk (n # queue) = n # node_walk (queue @ node_children n)"
  by pat_completeness auto
termination
proof (relation "measure (\<lambda>q. \<Sum>n\<leftarrow>q. Suc (2 * size n))")
  fix n queue
  show "(queue @ node_children n, n # queue) \<in> measure (\<lambda>q. \<Sum>n\<leftarrow>q. Suc (2 * size n))"
    using node_children_size [of n] by simp
qed simp

section \<open>Calls\<close>

definition method_call :: "pystr list \<Rightarrow> node \<Rightarrow> bool" where
  "method_call names n = (case n of Call (Attribute _ a) _ _ \<Rightarrow> a \<in> set names | _ \<Rightarrow> False)"

definition is_composition :: "node \<Rightarrow> bool" where
  "is_composition n = (case n of
     JoinedStr _ \<Rightarrow> True | BinOp _ add _ \<Rightarrow> add | _ \<Rightarrow> method_call [''format'', ''join''] n)"

definition implicit_quantize :: "node \<Rightarrow> bool" where
  "implicit_quantize n = (case n of
     Call (Attribute _ a) args kws \<Rightarrow>
       a = ''quantize'' \<and> length args < 2 \<and> list_all (\<lambda>k. fst k \<noteq> Some ''rounding'') kws
   | _ \<Rightarrow> False)"

definition is_round_call :: "node \<Rightarrow> bool" where
  "is_round_call n = (case n of Call (Name f) _ _ \<Rightarrow> f = ''round'' | _ \<Rightarrow> False)"

section \<open>Documentation strings\<close>

text \<open>\<open>ast.get_docstring(node, clean=True)\<close>, with \<open>inspect.cleandoc\<close>.\<close>

fun expand_tabs :: "nat \<Rightarrow> pystr \<Rightarrow> pystr" where
  "expand_tabs col [] = []"
| "expand_tabs col (c # s) =
     (if c = CHR 0x09 then replicate (8 - col mod 8) (CHR '' '') @ expand_tabs (col + (8 - col mod 8)) s
      else if c = CHR 0x0A \<or> c = CHR 0x0D then c # expand_tabs 0 s
      else c # expand_tabs (Suc col) s)"

definition line_indent :: "pystr \<Rightarrow> nat" where
  "line_indent l = length l - length (lstrip l)"

definition cleandoc :: "pystr \<Rightarrow> pystr" where
  "cleandoc doc =
     (let lines = split_char nl (expand_tabs 0 doc);
          indents = map line_indent (filter (\<lambda>l. lstrip l \<noteq> []) (tl lines));
          lines = lstrip (hd lines) # (if indents = [] then tl lines else map (drop (Min (set indents))) (tl lines));
          lines = rev (dropWhile (\<lambda>l. l = []) (rev lines))
      in joinlines (dropWhile (\<lambda>l. l = []) lines))"

definition get_docstring :: "node list \<Rightarrow> pystr option" where
  "get_docstring body = (case body of
     ExprStmt (Constant (LStr s)) # _ \<Rightarrow> Some (cleandoc s) | _ \<Rightarrow> None)"

section \<open>Declared positive inputs without a guard\<close>

definition word_of :: "rx list \<Rightarrow> rx" where
  "word_of parts = seqs ([WordBoundary] @ parts @ [WordBoundary])"

definition plural_of :: "pystr \<Rightarrow> rx" where
  "plural_of w = Seq (lit w) (rx_opt (lit ''s''))"

definition positive_inputs_re :: rx where
  "positive_inputs_re =
     (let word = Seq (rx_plus (Cls is_space)) (rx_plus (Cls (\<lambda>c. c \<in> set ''abcdefghijklmnopqrstuvwxyz_''))) in
      word_of [lit ''positive'', rx_opt (Seq word (rx_opt word)), rx_plus (Cls is_space),
        alts (map plural_of [''input'', ''argument'', ''parameter'', ''bound'', ''duration'', ''timeout'',
          ''limit'', ''count'', ''size''])])"

definition literal_value :: "literal \<Rightarrow> rat option option" where
  "literal_value v = (case v of
     LInt i \<Rightarrow> Some (Some (of_int i)) | LFloat r \<Rightarrow> Some (Some r) | LBool b \<Rightarrow> Some (Some (of_bool b))
   | LInfinity \<Rightarrow> Some None | _ \<Rightarrow> None)"

definition at_least_zero :: "rat option \<Rightarrow> bool" where
  "at_least_zero v = (case v of None \<Rightarrow> True | Some r \<Rightarrow> 0 \<le> r)"

definition above_zero :: "rat option \<Rightarrow> bool" where
  "above_zero v = (case v of None \<Rightarrow> True | Some r \<Rightarrow> 0 < r)"

text \<open>A comparison such as \<open>x <= 0\<close> or \<open>0 >= x\<close> that covers every value that is not positive.\<close>

definition guards :: "pystr \<Rightarrow> node \<Rightarrow> bool" where
  "guards parameter c = (case c of
     Compare left [op] (right # _) \<Rightarrow>
       (case (left, right) of
          (Name x, Constant v) \<Rightarrow>
            x = parameter \<and> (case literal_value v of None \<Rightarrow> False
              | Some r \<Rightarrow> op = LtE \<and> at_least_zero r \<or> op = Lt \<and> above_zero r)
        | (Constant v, Name x) \<Rightarrow>
            x = parameter \<and> (case literal_value v of None \<Rightarrow> False
              | Some r \<Rightarrow> op = GtE \<and> at_least_zero r \<or> op = Gt \<and> above_zero r)
        | _ \<Rightarrow> False)
   | _ \<Rightarrow> False)"

definition is_raise :: "node \<Rightarrow> bool" where
  "is_raise n = (case n of Raise _ \<Rightarrow> True | _ \<Rightarrow> False)"

definition guarding_branch :: "pystr \<Rightarrow> node \<Rightarrow> bool" where
  "guarding_branch parameter n = (case n of
     IfStmt test _ _ \<Rightarrow> list_ex is_raise (node_walk [n]) \<and> list_ex (guards parameter) (node_walk [test])
   | _ \<Rightarrow> False)"

definition has_non_positive_guard :: "node \<Rightarrow> pystr \<Rightarrow> bool" where
  "has_non_positive_guard f parameter \<longleftrightarrow> list_ex (guarding_branch parameter) (node_walk [f])"

definition unenforced_function :: "node \<Rightarrow> bool" where
  "unenforced_function n = (case n of
     Function name params body _ \<Rightarrow>
       \<not> startswith name ''_''
       \<and> re_search positive_inputs_re (lower (or_else (get_docstring body) [])) \<noteq> None
       \<and> list_ex (\<lambda>p. \<not> has_non_positive_guard n p) (filter (\<lambda>p. p \<notin> {''self'', ''cls''}) params)
   | _ \<Rightarrow> False)"

definition has_unenforced_positive_precondition :: "node \<Rightarrow> bool" where
  "has_unenforced_positive_precondition t \<longleftrightarrow> list_ex unenforced_function (node_walk [t])"

section \<open>Substitutions that can repeat their delimiter\<close>

definition const_str :: "node \<Rightarrow> pystr option" where
  "const_str n = (case n of Constant (LStr s) \<Rightarrow> Some s | _ \<Rightarrow> None)"

definition nth_str :: "node list \<Rightarrow> nat \<Rightarrow> pystr option" where
  "nth_str args i = (if i < length args then const_str (args ! i) else None)"

definition spaces_rx :: rx where "spaces_rx = Star (Cls is_space)"

definition negated_class_re :: rx where
  "negated_class_re = seqs [spaces_rx, lit ''[^'', Group 1 (Star (Cls (\<lambda>c. c \<noteq> CHR '']''))), lit '']'',
     spaces_rx, rx_opt (Cls (\<lambda>c. c \<in> set ''+*?'')), spaces_rx, EndOfText]"

definition negated_class_chars :: "pystr \<Rightarrow> pystr option" where
  "negated_class_chars pattern = (case re_match negated_class_re pattern of
     None \<Rightarrow> None | Some t \<Rightarrow> re_group 1 t)"

definition collapse_re :: rx where
  "collapse_re = seqs [spaces_rx,
     alts [Seq (Cls ((=) (CHR 0x5C))) (Cls (\<lambda>c. c \<noteq> nl)), lit ''.'',
       seqs [lit ''['', Star (Cls (\<lambda>c. c \<noteq> CHR '']'')), lit '']''],
       Cls (\<lambda>c. c \<noteq> CHR 0x5C \<and> \<not> is_space c)],
     Cls (\<lambda>c. c \<in> set ''+*''), rx_opt (lit ''?''), spaces_rx, EndOfText]"

definition is_collapse_pattern :: "pystr \<Rightarrow> bool" where
  "is_collapse_pattern pattern =
     (if startswith (lstrip pattern) ''[^'' then False
      else if re_match collapse_re pattern \<noteq> None then True
      else re_search (Alt (lit ''{2,}'') (lit ''{2}'')) pattern \<noteq> None)"

text \<open>\<open>str.isdigit\<close> also holds for the superscript digits.\<close>

definition str_isdigit :: "char \<Rightarrow> bool" where
  "str_isdigit c \<longleftrightarrow> is_digit c \<or> code c \<in> {178, 179, 185}"

fun char_in_excluded :: "char \<Rightarrow> pystr \<Rightarrow> bool" where
  "char_in_excluded ch [] = False"
| "char_in_excluded ch [c] = (c = ch)"
| "char_in_excluded ch [c, d] =
     (if c = CHR 0x5C
      then d = ch \<or> d = CHR ''d'' \<and> str_isdigit ch \<or> d = CHR ''s'' \<and> is_space ch
        \<or> d = CHR ''w'' \<and> (is_alnum ch \<or> ch = CHR ''_'')
      else c = ch \<or> d = ch)"
| "char_in_excluded ch (c # d # e # spec) =
     (if c = CHR 0x5C
      then d = ch \<or> d = CHR ''d'' \<and> str_isdigit ch \<or> d = CHR ''s'' \<and> is_space ch
        \<or> d = CHR ''w'' \<and> (is_alnum ch \<or> ch = CHR ''_'') \<or> char_in_excluded ch (e # spec)
      else if d = CHR ''-'' then c \<le> ch \<and> ch \<le> e \<or> char_in_excluded ch spec
      else c = ch \<or> char_in_excluded ch (d # e # spec))"

definition inserted_delimiter :: "pystr \<Rightarrow> node list \<Rightarrow> pystr option" where
  "inserted_delimiter attr args =
     (case nth_str args 0 of
        None \<Rightarrow> None
      | Some pattern \<Rightarrow>
          (case negated_class_chars pattern of
             None \<Rightarrow> None
           | Some excluded \<Rightarrow>
               (if attr \<in> {''sub'', ''subn''} \<and> length args > 1
                then (case nth_str args 1 of
                   Some [c] \<Rightarrow> (if char_in_excluded c excluded then Some [c] else None)
                 | _ \<Rightarrow> None)
                else None)))"

definition collapses :: "pystr \<Rightarrow> node list \<Rightarrow> bool" where
  "collapses attr args = (case nth_str args 0 of
     None \<Rightarrow> False
   | Some pattern \<Rightarrow> negated_class_chars pattern = None \<and> is_collapse_pattern pattern)"

definition shortens :: "node list \<Rightarrow> bool" where
  "shortens args = (case (nth_str args 0, nth_str args 1) of
     (Some old, Some new) \<Rightarrow> old \<noteq> [] \<and> new \<noteq> [] \<and> length old > length new \<and> set new \<subseteq> set old
   | _ \<Rightarrow> False)"

definition is_re_func :: "node \<Rightarrow> bool" where
  "is_re_func v = (case v of Name m \<Rightarrow> m = ''re'' | _ \<Rightarrow> False)"

definition delimiter_step :: "node \<Rightarrow> pystr list \<times> bool \<Rightarrow> pystr list \<times> bool" where
  "delimiter_step n acc = (case acc of (inserted, has_collapse) \<Rightarrow>
     (case n of
        Call (Attribute v attr) args _ \<Rightarrow>
          (if attr \<in> {''sub'', ''subn'', ''split''} \<and> is_re_func v
           then (case inserted_delimiter attr args of
               Some d \<Rightarrow> (inserted @ [d], has_collapse)
             | None \<Rightarrow> (inserted, has_collapse \<or> collapses attr args))
           else (inserted, has_collapse \<or> attr = ''replace'' \<and> length args \<ge> 2 \<and> shortens args))
      | _ \<Rightarrow> (inserted, has_collapse)))"

definition has_repeat_delimiter_risk :: "node \<Rightarrow> bool" where
  "has_repeat_delimiter_risk t =
     (case fold delimiter_step (node_walk [t]) ([], False) of
        (inserted, has_collapse) \<Rightarrow> inserted \<noteq> [] \<and> \<not> has_collapse)"

section \<open>The scan\<close>

definition delimiter_cue :: structural_cue where
  "delimiter_cue = \<lparr>cue_id = ''delimiter_composition'', cue_category = ''representation'',
     cue_description = ''The candidate splits structured text and later composes output from caller-provided ''
       @ ''fragments. Check absent, repeated, and already-present delimiters at every join boundary. ''
       @ ''In particular, a regex such as re.sub('' @ [CHR 0x22] @ ''[^a-z0-9-]+'' @ [CHR 0x22] @ '', ''
       @ [CHR 0x22] @ ''-'' @ [CHR 0x22] @ '', text) excludes the '' @ [CHR 0x22] @ ''-'' @ [CHR 0x22] @ '' ''
       @ ''replacement from the matched class, so pre-existing separators survive and can repeat ''
       @ ''('' @ [CHR 0x22] @ ''a -- b'' @ [CHR 0x22] @ '' -> '' @ [CHR 0x22] @ ''a----b'' @ [CHR 0x22]
       @ ''); confirm runs of the delimiter are collapsed to one.''\<rparr>"

definition rounding_cue :: structural_cue where
  "rounding_cue = \<lparr>cue_id = ''numeric_tie_breaking'', cue_category = ''numeric_precision'',
     cue_description = ''The candidate rounds or quantizes numeric values. Check aggregation order, rounding ''
       @ ''stage, and whether the implicit halfway rule is supported by domain evidence.''\<rparr>"

definition precondition_cue :: structural_cue where
  "precondition_cue = \<lparr>cue_id = ''declared_positive_precondition'', cue_category = ''boundary'',
     cue_description = ''A changed public function explicitly declares positive input bounds, but not every ''
       @ ''parameter has a visible non-positive-value guard. Check zero and negative values ''
       @ ''for each declared input before accepting the candidate.''\<rparr>"

definition add_cue :: "structural_cue list \<Rightarrow> structural_cue \<Rightarrow> structural_cue list" where
  "add_cue cues c = (if list_all (\<lambda>e. cue_id e \<noteq> cue_id c) cues then cues @ [c] else cues)"

definition delimiter_risk :: "node \<Rightarrow> bool" where
  "delimiter_risk t =
     (list_ex (method_call [''split'', ''rsplit'', ''partition'', ''rpartition'']) (node_walk [t])
        \<and> list_ex is_composition (node_walk [t])
        \<and> \<not> list_ex (method_call [''lstrip'', ''strip'', ''removeprefix'']) (node_walk [t])
      \<or> has_repeat_delimiter_risk t)"

definition rounding_risk :: "node \<Rightarrow> bool" where
  "rounding_risk t = (list_ex implicit_quantize (node_walk [t]) \<or> list_ex is_round_call (node_walk [t]))"

definition scan_tree :: "structural_cue list \<Rightarrow> node \<Rightarrow> structural_cue list" where
  "scan_tree cues t =
     (let cues = (if delimiter_risk t then add_cue cues delimiter_cue else cues);
          cues = (if rounding_risk t then add_cue cues rounding_cue else cues)
      in if has_unenforced_positive_precondition t then add_cue cues precondition_cue else cues)"

definition scan_risks :: "(pystr \<Rightarrow> node option) \<Rightarrow> pystr list \<Rightarrow> structural_cue list" where
  "scan_risks parse sources =
     fold (\<lambda>source cues. case parse source of None \<Rightarrow> cues | Some t \<Rightarrow> scan_tree cues t) sources []"

section \<open>What a scan reports\<close>

text \<open>The cues of one source, in their order.\<close>

definition tree_cues :: "node \<Rightarrow> structural_cue list" where
  "tree_cues t = (if delimiter_risk t then [delimiter_cue] else [])
     @ (if rounding_risk t then [rounding_cue] else [])
     @ (if has_unenforced_positive_precondition t then [precondition_cue] else [])"

definition all_cues :: "structural_cue set" where
  "all_cues = {delimiter_cue, rounding_cue, precondition_cue}"

lemma cue_ids [simp]:
  "cue_id delimiter_cue = ''delimiter_composition''" "cue_id rounding_cue = ''numeric_tie_breaking''"
  "cue_id precondition_cue = ''declared_positive_precondition''"
  by (simp_all add: delimiter_cue_def rounding_cue_def precondition_cue_def)

lemma all_cues_inj: "inj_on cue_id all_cues"
  by (auto simp: inj_on_def all_cues_def)

lemma add_cue_known:
  assumes "set cues \<subseteq> all_cues" and "distinct cues" and "c \<in> all_cues"
  shows "set (add_cue cues c) = insert c (set cues) \<and> distinct (add_cue cues c)"
proof (cases "c \<in> set cues")
  case True
  then show ?thesis using assms(2) by (auto simp: add_cue_def list_all_iff)
next
  case False
  then have "\<forall>e\<in>set cues. cue_id e \<noteq> cue_id c"
    using assms(1,3) all_cues_inj by (metis inj_on_eq_iff subsetD)
  then show ?thesis using False assms(2) by (auto simp: add_cue_def list_all_iff)
qed

lemma scan_tree_known:
  assumes "set cues \<subseteq> all_cues" and "distinct cues"
  shows "set (scan_tree cues t) = set cues \<union> set (tree_cues t) \<and> distinct (scan_tree cues t)"
proof -
  have one: "set (if b then add_cue xs c else xs) = set xs \<union> (if b then {c} else {})
      \<and> distinct (if b then add_cue xs c else xs)"
    if "set xs \<subseteq> all_cues" "distinct xs" "c \<in> all_cues" for b xs c
    using add_cue_known [OF that] that(2) by auto
  have known: "delimiter_cue \<in> all_cues" "rounding_cue \<in> all_cues" "precondition_cue \<in> all_cues"
    by (simp_all add: all_cues_def)
  let ?a = "if delimiter_risk t then add_cue cues delimiter_cue else cues"
  let ?b = "if rounding_risk t then add_cue ?a rounding_cue else ?a"
  have a: "set ?a = set cues \<union> (if delimiter_risk t then {delimiter_cue} else {})" "distinct ?a"
    using one [OF assms known(1)] by blast+
  then have "set ?a \<subseteq> all_cues" using assms(1) known by auto
  from one [OF this a(2) known(2)]
  have b: "set ?b = set ?a \<union> (if rounding_risk t then {rounding_cue} else {})" "distinct ?b" by blast+
  then have "set ?b \<subseteq> all_cues" using a assms(1) known by auto
  from one [OF this b(2) known(3), of "has_unenforced_positive_precondition t"] show ?thesis
    unfolding scan_tree_def Let_def using a b by (auto simp: tree_cues_def)
qed

lemma tree_cues_known: "set (tree_cues t) \<subseteq> all_cues"
  by (auto simp: tree_cues_def all_cues_def)

lemma scan_fold_known:
  assumes "set cues \<subseteq> all_cues" and "distinct cues"
  shows "set (fold (\<lambda>source cues. case parse source of None \<Rightarrow> cues | Some t \<Rightarrow> scan_tree cues t) sources cues)
      = set cues \<union> (\<Union>s\<in>set sources. case parse s of None \<Rightarrow> {} | Some t \<Rightarrow> set (tree_cues t))
    \<and> distinct (fold (\<lambda>source cues. case parse source of None \<Rightarrow> cues | Some t \<Rightarrow> scan_tree cues t) sources cues)"
  using assms
proof (induction sources arbitrary: cues)
  case (Cons s sources)
  show ?case
  proof (cases "parse s")
    case None
    with Cons show ?thesis by simp
  next
    case (Some t)
    note k = scan_tree_known [OF Cons.prems, of t]
    then have "set (scan_tree cues t) \<subseteq> all_cues" using Cons.prems tree_cues_known [of t] by auto
    from Cons.IH [OF this] k Some show ?thesis by auto
  qed
qed simp

section \<open>Substitution of negated classes\<close>

text \<open>
  The characters of a class without escapes, as Python reads them: a range for every
  \<open>a-b\<close>, and single characters.
\<close>

fun class_ranges :: "pystr \<Rightarrow> (char \<times> char) list" where
  "class_ranges (c # d # e # spec) =
     (if d = CHR ''-'' then (c, e) # class_ranges spec else (c, c) # class_ranges (d # e # spec))"
| "class_ranges spec = map (\<lambda>c. (c, c)) spec"

definition in_class :: "pystr \<Rightarrow> char \<Rightarrow> bool" where
  "in_class spec c \<longleftrightarrow> list_ex (\<lambda>(a, b). a \<le> c \<and> c \<le> b) (class_ranges spec)"

lemma char_in_excluded_class:
  "CHR 0x5C \<notin> set spec \<Longrightarrow> char_in_excluded c spec \<longleftrightarrow> in_class spec c"
  by (induction c spec rule: char_in_excluded.induct) (auto simp: in_class_def)

text \<open>
  \<open>re.sub\<close> for an expression that matches no empty text: every round takes a character, so
  the length of the text bounds the rounds.
\<close>

fun re_sub_from :: "nat \<Rightarrow> rx \<Rightarrow> pystr \<Rightarrow> char option \<Rightarrow> pystr \<Rightarrow> pystr" where
  "re_sub_from 0 r new prev s = s"
| "re_sub_from (Suc n) r new prev [] = []"
| "re_sub_from (Suc n) r new prev (c # s) =
     (case re_first r prev (c # s) of
        Some (prev', s', _) \<Rightarrow> new @ re_sub_from n r new prev' s'
      | None \<Rightarrow> c # re_sub_from n r new (Some c) s)"

definition re_sub :: "rx \<Rightarrow> pystr \<Rightarrow> pystr \<Rightarrow> pystr" where
  "re_sub r new s = re_sub_from (length s) r new None s"

fun replace_runs :: "nat \<Rightarrow> (char \<Rightarrow> bool) \<Rightarrow> char \<Rightarrow> pystr \<Rightarrow> pystr" where
  "replace_runs 0 P d s = s"
| "replace_runs (Suc n) P d [] = []"
| "replace_runs (Suc n) P d (c # s) =
     (if P c then d # replace_runs n P d (dropWhile P s) else c # replace_runs n P d s)"

lemma re_first_plus_class:
  "re_first (rx_plus (Cls P)) prev (c # s) =
     (if P c then Some (last_opt (Some c) (takeWhile P s), dropWhile P s, []) else None)"
  by (simp add: re_first_def rx_run_plus_class run_states_def dropWhile_eq_drop takeWhile_eq_take [symmetric])

lemma re_sub_class: "re_sub_from n (rx_plus (Cls P)) [d] prev s = replace_runs n P d s"
  by (induction n P d s arbitrary: prev rule: replace_runs.induct) (simp_all add: re_first_plus_class)

text \<open>When the delimiter is itself replaced, no two delimiters meet in the result.\<close>

lemma replace_runs_hd:
  "length s \<le> n \<Longrightarrow> P d \<Longrightarrow> replace_runs n P d s = d # t \<Longrightarrow> \<exists>c s'. s = c # s' \<and> P c"
  by (cases n; cases s) (auto split: if_splits)

lemma no_pair_Cons:
  "contains (c # s) [d, d] \<longleftrightarrow> c = d \<and> (\<exists>t. s = d # t) \<or> contains s [d, d]"
  by (cases s) (auto simp: contains_def startswith_def split: option.splits)

lemma replace_runs_no_pair:
  "length s \<le> n \<Longrightarrow> P d \<Longrightarrow> \<not> contains (replace_runs n P d s) [d, d]"
proof (induction n P d s rule: replace_runs.induct)
  case (3 n P d c s)
  show ?case
  proof (cases "P c")
    case True
    let ?r = "dropWhile P s"
    have l: "length ?r \<le> n" using 3(3) length_dropWhile_le [of P s] by simp
    have "\<not> (\<exists>t. replace_runs n P d ?r = d # t)"
    proof
      assume "\<exists>t. replace_runs n P d ?r = d # t"
      with replace_runs_hd [of ?r n P, OF l 3(4)] obtain c' s' where "?r = c' # s'" "P c'" by blast
      then show False using hd_dropWhile [of P s] by auto
    qed
    with 3 True l show ?thesis by (simp add: no_pair_Cons)
  next
    case False
    then have "c \<noteq> d" using 3(4) by auto
    with 3 False show ?thesis by (simp add: no_pair_Cons)
  qed
qed (simp_all add: contains_def startswith_def)

section \<open>The pattern of a negated class\<close>

lemma run_states_stuck:
  assumes "\<not> (s \<noteq> [] \<and> P (hd s))"
  shows "run_states P (prev, s, caps) = [(prev, s, caps)]"
  using assms by (cases s) (simp_all add: run_states_def)

lemma negated_class_chars_plus:
  assumes "CHR '']'' \<notin> set spec"
  shows "negated_class_chars (''[^'' @ spec @ '']+'') = Some spec"
proof -
  let ?P = "\<lambda>c. c \<noteq> CHR '']''" and ?s = "spec @ '']+''"
  let ?tail = "[spaces_rx, rx_opt (Cls (\<lambda>c. c \<in> set ''+*?'')), spaces_rx, EndOfText]"
  let ?capture = "\<lambda>(prev, s, caps). (prev, s, (1, take (length ?s - length s) ?s) # caps) :: rx_state"
  have tw: "takeWhile ?P ?s = spec" "dropWhile ?P ?s = '']+''"
    using assms by (simp_all add: takeWhile_append dropWhile_append split: if_splits) (metis+)?
  have plus: "rx_run (seqs ?tail) (prev, ''+'', caps) = [(Some (CHR ''+''), [], caps)]" for prev caps
    by (simp add: spaces_rx_def rx_opt_def run_states_def is_space_def rx_rest_def nl_def)
  have stuck: "rx_run (seqs (lit '']'' # ?tail)) (?capture (prev, c # t, caps)) = []" if "?P c" for prev c t caps
    using that by (simp add: rx_run_lit startswith_def)
  have "rx_run negated_class_re (None, ''[^'' @ ?s, []) =
      concat (map (rx_run (seqs (lit '']'' # ?tail)) \<circ> ?capture) (run_states ?P (Some (CHR ''^''), ?s, [])))"
    by (simp add: negated_class_re_def spaces_rx_def run_states_def is_space_def rx_run_lit startswith_def rx_rest_def
        last_opt_def comp_def)
  also have "\<dots> = (rx_run (seqs (lit '']'' # ?tail)) \<circ> ?capture) (last_opt (Some (CHR ''^'')) spec, '']+'', [])"
    using stuck concat_map_run_states [of ?P "rx_run (seqs (lit '']'' # ?tail)) \<circ> ?capture"] by (simp add: tw)
  also have "\<dots> = [(Some (CHR ''+''), [], [(1, spec)])]"
    using plus by (simp add: rx_run_lit startswith_def)
  finally show ?thesis
    by (simp add: negated_class_chars_def re_match_def re_first_def re_group_def)
qed

section \<open>Properties\<close>

text \<open>Whether a comparison with the parameter holds for a value of it.\<close>

definition compare_values :: "comparison \<Rightarrow> rat option \<Rightarrow> rat option \<Rightarrow> bool" where
  "compare_values op a b = (case (a, b) of
     (Some x, Some y) \<Rightarrow> (case op of Lt \<Rightarrow> x < y | LtE \<Rightarrow> x \<le> y | Gt \<Rightarrow> x > y | GtE \<Rightarrow> x \<ge> y | OtherComparison \<Rightarrow> False)
   | (Some x, None) \<Rightarrow> op = Lt \<or> op = LtE
   | (None, Some y) \<Rightarrow> op = Gt \<or> op = GtE
   | (None, None) \<Rightarrow> op = LtE \<or> op = GtE)"

definition comparison_holds :: "node \<Rightarrow> pystr \<Rightarrow> rat \<Rightarrow> bool" where
  "comparison_holds c parameter x = (case c of
     Compare (Name y) [op] (Constant v # _) \<Rightarrow>
       y = parameter \<and> (case literal_value v of None \<Rightarrow> False | Some r \<Rightarrow> compare_values op (Some x) r)
   | Compare (Constant v) [op] (Name y # _) \<Rightarrow>
       y = parameter \<and> (case literal_value v of None \<Rightarrow> False | Some r \<Rightarrow> compare_values op r (Some x))
   | _ \<Rightarrow> False)"

lemma guards_hold:
  assumes "guards p c" and "x \<le> 0"
  shows "comparison_holds c p x"
proof -
  obtain l op r rest where c: "c = Compare l [op] (r # rest)"
    using assms(1) by (cases c) (auto simp: guards_def split: list.splits)
  consider v where "l = Name p" "r = Constant v" | v where "l = Constant v" "r = Name p"
    using assms(1) by (cases l; cases r) (auto simp: guards_def c)
  then show ?thesis
    using assms by cases
      (auto simp: guards_def c comparison_holds_def compare_values_def at_least_zero_def above_zero_def split: option.splits)
qed

text \<open>
  A guard that the scanner accepts for a parameter is a branch that contains a \<open>raise\<close> and
  whose test contains a comparison that is true of every zero or negative value of it.
\<close>

theorem accepted_guard_covers:
  assumes "has_non_positive_guard f p" and "x \<le> 0"
  shows "\<exists>b\<in>set (node_walk [f]). list_ex is_raise (node_walk [b])
    \<and> (\<exists>t xs ys. b = IfStmt t xs ys \<and> list_ex (\<lambda>c. comparison_holds c p x) (node_walk [t]))"
proof -
  obtain b where b: "b \<in> set (node_walk [f])" "guarding_branch p b"
    using assms(1) by (auto simp: has_non_positive_guard_def list_ex_iff)
  from b(2) obtain t xs ys where i: "b = IfStmt t xs ys" by (cases b) (simp_all add: guarding_branch_def)
  with b(2) guards_hold [OF _ assms(2)] show ?thesis
    by (intro bexI [OF _ b(1)]) (auto simp: guarding_branch_def list_ex_iff simp del: node_walk.simps)
qed

text \<open>
  A scan reports every kind of cue at most once, and reports it if and only if one of the
  sources that parse shows its shape.
\<close>

theorem scan_reports_each_risk_once:
  "distinct (map cue_id (scan_risks parse sources))
   \<and> set (scan_risks parse sources) = (\<Union>s\<in>set sources. case parse s of None \<Rightarrow> {} | Some t \<Rightarrow> set (tree_cues t))"
proof -
  let ?cues = "scan_risks parse sources"
  have k: "set ?cues = (\<Union>s\<in>set sources. case parse s of None \<Rightarrow> {} | Some t \<Rightarrow> set (tree_cues t))" "distinct ?cues"
    using scan_fold_known [of "[]" parse sources] by (simp_all add: scan_risks_def)
  moreover have "set ?cues \<subseteq> all_cues"
    unfolding k(1) using tree_cues_known by (auto split: option.splits) blast
  then have "inj_on cue_id (set ?cues)" using all_cues_inj by (rule inj_on_subset [rotated])
  ultimately show ?thesis by (simp add: distinct_map)
qed


text \<open>A guarded and documented function, and its variant without the guard.\<close>

definition demo_guard :: node where
  "demo_guard = IfStmt (Compare (Name ''x'') [LtE] [Constant (LInt 0)]) [Raise []] []"

definition demo_function :: "node list \<Rightarrow> node" where
  "demo_function guard = Function ''wait'' [''self'', ''x'']
     (ExprStmt (Constant (LStr ''Needs a positive time limit.'')) # guard) []"

theorem accepted_guard_covers_witness:
  "\<exists>b\<in>set (node_walk [demo_function [demo_guard]]). list_ex is_raise (node_walk [b])
    \<and> (\<exists>t xs ys. b = IfStmt t xs ys \<and> list_ex (\<lambda>c. comparison_holds c ''x'' (-3)) (node_walk [t]))"
proof -
  have "has_non_positive_guard (demo_function [demo_guard]) ''x''" by code_simp
  from accepted_guard_covers [OF this, of "-3"] show ?thesis by simp
qed

lemma demo_functions:
  "\<not> has_unenforced_positive_precondition (demo_function [demo_guard])"
  "has_unenforced_positive_precondition (demo_function [])"
  "length (scan_risks (\<lambda>s. if s = ''f'' then Some (demo_function []) else None) [''f'', ''g'', ''f'']) = 1"
  by code_simp+


end
