(* ===== verification/ContainerSecurity.thy ===== *)
theory ContainerSecurity
  imports PyRegex PyJson RepositoryIndex
begin

text \<open>
  The vulnerability gate of the runner image (\<open>container_security.py\<close>): the report of Docker
  Scout is searched for CVE identifiers and compared with a list of reviewed exceptions that
  expire. The exit status of the command is the verdict.
\<close>

section \<open>Identifiers\<close>

definition digit_rx :: rx where "digit_rx = Cls is_digit"

definition cve_re :: rx where
  "cve_re = seqs [WordBoundary, lit ''CVE-'', digit_rx, digit_rx, digit_rx, digit_rx, lit ''-'',
     digit_rx, digit_rx, digit_rx, digit_rx, Star digit_rx, WordBoundary]"

definition cve_findall :: "pystr \<Rightarrow> pystr list" where
  "cve_findall s = map (\<lambda>t. the (re_group 0 t)) (re_findall (Group 0 cve_re) s)"

definition cve_fullmatch :: "pystr \<Rightarrow> bool" where
  "cve_fullmatch s \<longleftrightarrow> list_ex (\<lambda>t. rx_rest t = []) (rx_run cve_re (None, s, []))"

section \<open>Dates\<close>

text \<open>
  \<open>date.fromisoformat\<close>. Every supported Python reads \<open>YYYY-MM-DD\<close>; the further ISO forms
  that newer versions read are the parameter \<open>later_forms\<close>. A date is year, month and day,
  ordered in this order.
\<close>

type_synonym date = "int \<times> int \<times> int"

definition is_leap :: "int \<Rightarrow> bool" where
  "is_leap y \<longleftrightarrow> y mod 4 = 0 \<and> (y mod 100 \<noteq> 0 \<or> y mod 400 = 0)"

definition days_in_month :: "int \<Rightarrow> int \<Rightarrow> int" where
  "days_in_month y m = (if m = 2 then (if is_leap y then 29 else 28) else if m \<in> {4, 6, 9, 11} then 30 else 31)"

definition valid_date :: "date \<Rightarrow> bool" where
  "valid_date = (\<lambda>(y, m, d). 1 \<le> y \<and> 1 \<le> m \<and> m \<le> 12 \<and> 1 \<le> d \<and> d \<le> days_in_month y m)"

definition date_fromisoformat :: "(pystr \<Rightarrow> date option) \<Rightarrow> pystr \<Rightarrow> date option" where
  "date_fromisoformat later_forms s =
     (case split_char (CHR ''-'') s of
        [y, m, d] \<Rightarrow>
          (if length y = 4 \<and> length m = 2 \<and> length d = 2 \<and> list_all is_digit (y @ m @ d)
           then (let date = (int (int_of_digits y), int (int_of_digits m), int (int_of_digits d)) in
             if valid_date date then Some date else None)
           else later_forms s)
      | _ \<Rightarrow> later_forms s)"

section \<open>The report\<close>

text \<open>
  The exceptions that can end the command. \<open>main\<close> catches \<open>ValueError\<close> (also of dates and JSON),
  \<open>RuntimeError\<close> and \<open>OSError\<close>.
\<close>

datatype scan_error =
    ScanValueError pystr
  | ScanDateError pystr
  | ScanRuntimeError pystr
  | ScanOSError pystr
  | ScanTimeout pystr
  | ScanAttributeError
  | ScanTypeError

record security_report =
  sr_findings :: "pystr list"
  sr_allowed :: "pystr list"
  sr_unexpected :: "pystr list"
  sr_expired :: "pystr list"
  sr_stale_exceptions :: "pystr list"

definition stripped_field :: "pyvals \<Rightarrow> (pystr \<times> json) list \<Rightarrow> pystr \<Rightarrow> pystr" where
  "stripped_field py d key = strip (json_str py (jget_or d key (JStr [])))"

fun read_exceptions ::
    "(pystr \<Rightarrow> date option) \<Rightarrow> pyvals \<Rightarrow> date \<Rightarrow> json list \<Rightarrow> pystr list \<Rightarrow> pystr list
      \<Rightarrow> scan_error + pystr list \<times> pystr list" where
  "read_exceptions later_forms py today [] active expired = Inr (active, expired)"
| "read_exceptions later_forms py today (item # items) active expired =
     (case item of
        JObj d \<Rightarrow>
          (let cve = stripped_field py d ''id''; expires = stripped_field py d ''expires'';
               rationale = stripped_field py d ''rationale'' in
           if \<not> cve_fullmatch cve
           then Inl (ScanValueError (''invalid CVE exception id: '' @ or_text cve ''<missing>''))
           else if expires = [] \<or> rationale = []
           then Inl (ScanValueError (''CVE exception requires expires and rationale: '' @ cve))
           else (case date_fromisoformat later_forms expires of
              None \<Rightarrow> Inl (ScanDateError expires)
            | Some expiry \<Rightarrow>
                (if expiry < today
                 then read_exceptions later_forms py today items active (expired @ [cve])
                 else read_exceptions later_forms py today items (active @ [cve]) expired)))
      | _ \<Rightarrow> Inl ScanAttributeError)"

definition sorted_set :: "pystr list \<Rightarrow> pystr list" where
  "sorted_set xs = sort (remdups xs)"

definition evaluate_report ::
    "(pystr \<Rightarrow> date option) \<Rightarrow> pyvals \<Rightarrow> pystr \<Rightarrow> json \<Rightarrow> date \<Rightarrow> scan_error + security_report" where
  "evaluate_report later_forms py report allowlist today =
     (let found = cve_findall report in
      case allowlist of
        JObj data \<Rightarrow>
          (case json_items (jget_or data ''exceptions'' (JArr [])) of
             Inl e \<Rightarrow> Inl ScanTypeError
           | Inr items \<Rightarrow>
               (case read_exceptions later_forms py today items [] [] of
                  Inl e \<Rightarrow> Inl e
                | Inr (active, expired) \<Rightarrow>
                    Inr \<lparr>sr_findings = sorted_set found,
                      sr_allowed = sorted_set (filter (\<lambda>c. c \<in> set active) found),
                      sr_unexpected = sorted_set (filter (\<lambda>c. c \<notin> set active) found),
                      sr_expired = sorted_set (filter (\<lambda>c. c \<in> set expired) found),
                      sr_stale_exceptions = sorted_set (filter (\<lambda>c. c \<notin> set found) active)\<rparr>))
      | _ \<Rightarrow> Inl ScanAttributeError)"

section \<open>The command\<close>

definition scout_command :: "pystr \<Rightarrow> pystr list" where
  "scout_command img = [''docker'', ''scout'', ''cves'', img, ''--only-severity'', ''critical,high'',
     ''--format'', ''packages'']"

text \<open>Running a command under a time limit, reading a file, and the date of the day.\<close>

record 'w scout_system =
  ss_run :: "'w \<Rightarrow> pystr list \<Rightarrow> int \<Rightarrow> proc"
  ss_read :: "'w \<Rightarrow> pystr \<Rightarrow> exn + pystr"
  ss_today :: "'w \<Rightarrow> date"

definition read_error :: "exn \<Rightarrow> scan_error" where
  "read_error e = (case e of
     OSError m \<Rightarrow> ScanOSError m | UnicodeError m \<Rightarrow> ScanValueError m | ValueError m \<Rightarrow> ScanValueError m
   | RuntimeError m \<Rightarrow> ScanRuntimeError m | TimeoutExpired m \<Rightarrow> ScanTimeout m | TypeError m \<Rightarrow> ScanTypeError)"

definition verify_image ::
    "(pystr \<Rightarrow> date option) \<Rightarrow> pyvals \<Rightarrow> 'w scout_system \<Rightarrow> 'w \<Rightarrow> pystr \<Rightarrow> pystr \<Rightarrow> scan_error + security_report" where
  "verify_image later_forms py ss w img allowlist_path =
     (case ss_run ss w (scout_command img) 300 of
        TimedOut m \<Rightarrow> Inl (ScanTimeout m)
      | Unstarted m \<Rightarrow> Inl (ScanOSError m)
      | Completed rc out err \<Rightarrow>
          (if rc \<noteq> 0
           then Inl (ScanRuntimeError (''Docker Scout failed with exit code '' @ str_int rc @ '': ''
             @ or_text (strip err) (strip out)))
           else (case ss_read ss w allowlist_path of
              Inl e \<Rightarrow> Inl (read_error e)
            | Inr s \<Rightarrow>
                (case json_loads s of
                   None \<Rightarrow> Inl (ScanValueError [])
                 | Some data \<Rightarrow> evaluate_report later_forms py out data (ss_today ss w)))))"

definition caught_by_main :: "scan_error \<Rightarrow> bool" where
  "caught_by_main e = (case e of
     ScanValueError _ \<Rightarrow> True | ScanDateError _ \<Rightarrow> True | ScanRuntimeError _ \<Rightarrow> True | ScanOSError _ \<Rightarrow> True
   | _ \<Rightarrow> False)"

text \<open>The exit status, or the exception that leaves \<open>main\<close>.\<close>

definition security_main ::
    "(pystr \<Rightarrow> date option) \<Rightarrow> pyvals \<Rightarrow> 'w scout_system \<Rightarrow> 'w \<Rightarrow> pystr \<Rightarrow> pystr \<Rightarrow> scan_error + int" where
  "security_main later_forms py ss w img allowlist_path =
     (case verify_image later_forms py ss w img allowlist_path of
        Inl e \<Rightarrow> (if caught_by_main e then Inr 1 else Inl e)
      | Inr r \<Rightarrow> Inr (if sr_unexpected r \<noteq> [] \<or> sr_expired r \<noteq> [] then 1 else 0))"

section \<open>The search finds every identifier\<close>

text \<open>An identifier, and its occurrence as a word of a text.\<close>

definition cve_id :: "pystr \<Rightarrow> bool" where
  "cve_id s \<longleftrightarrow> (\<exists>y n. s = ''CVE-'' @ y @ ''-'' @ n \<and> length y = 4 \<and> 4 \<le> length n \<and> list_all is_digit (y @ n))"

definition word_ends :: "pystr \<Rightarrow> bool" where
  "word_ends s \<longleftrightarrow> s = [] \<or> \<not> is_word (hd s)"

definition word_before :: "char option \<Rightarrow> bool" where
  "word_before prev \<longleftrightarrow> (case prev of None \<Rightarrow> False | Some c \<Rightarrow> is_word c)"

definition occurs_as_word :: "pystr \<Rightarrow> pystr \<Rightarrow> bool" where
  "occurs_as_word s w \<longleftrightarrow> (\<exists>a b. s = a @ w @ b \<and> \<not> word_before (last_opt None a) \<and> word_ends b)"

text \<open>The identifier at the start of a text.\<close>

definition cve_at :: "pystr \<Rightarrow> pystr option" where
  "cve_at s = (let n = takeWhile is_digit (drop 9 s) in
     if startswith s ''CVE-'' \<and> length (take 4 (drop 4 s)) = 4 \<and> list_all is_digit (take 4 (drop 4 s))
       \<and> startswith (drop 8 s) ''-'' \<and> 4 \<le> length n \<and> word_ends (drop (length n) (drop 9 s))
     then Some (take (9 + length n) s) else None)"

lemma digit_is_word: "is_digit c \<Longrightarrow> is_word c"
  by (simp add: is_word_def is_alnum_def)

lemma cve_at_Some:
  assumes "cve_at s = Some w"
  shows "\<exists>b. s = w @ b \<and> cve_id w \<and> word_ends b"
proof -
  define y n where "y = take 4 (drop 4 s)" and "n = takeWhile is_digit (drop 9 s)"
  have a: "startswith s ''CVE-''" "length y = 4" "list_all is_digit y" "startswith (drop 8 s) ''-''" "4 \<le> length n"
    "word_ends (drop (length n) (drop 9 s))" and w: "w = take (9 + length n) s"
    using assms by (auto simp: cve_at_def Let_def y_def n_def split: if_splits)
  obtain t where t: "s = ''CVE-'' @ t" using a(1) by (auto simp: startswith_iff)
  obtain r where r: "drop 4 t = ''-'' @ r" using a(4) by (auto simp: t startswith_iff)
  have "t = y @ ''-'' @ r" unfolding r [symmetric] y_def t by simp
  moreover have "r = n @ drop (length n) r"
    using a(2) by (simp add: n_def t \<open>t = y @ ''-'' @ r\<close> dropWhile_eq_drop [symmetric])
  ultimately have s: "s = (''CVE-'' @ y @ ''-'' @ n) @ drop (length n) r" by (simp add: t)
  have nd: "list_all is_digit n" by (auto simp: n_def list_all_iff dest: set_takeWhileD)
  have "length (''CVE-'' @ y @ ''-'' @ n) = 9 + length n" using a(2) by simp
  then have "w = ''CVE-'' @ y @ ''-'' @ n" by (metis w s append_eq_conv_conj)
  moreover have "drop 9 s = r" using a(2) by (simp add: t \<open>t = y @ ''-'' @ r\<close>)
  ultimately show ?thesis using s a nd by (intro exI [of _ "drop (length n) r"]) (auto simp: cve_id_def)
qed

lemma cve_at_prefix:
  assumes "cve_id w" and "word_ends b"
  shows "cve_at (w @ b) = Some w"
proof -
  obtain y n where w: "w = ''CVE-'' @ y @ ''-'' @ n" and l: "length y = 4" "4 \<le> length n" and d: "list_all is_digit (y @ n)"
    using assms(1) by (auto simp: cve_id_def)
  have "takeWhile is_digit (n @ b) = n"
    using d assms(2) digit_is_word by (cases b) (auto simp: list_all_iff word_ends_def takeWhile_append)
  moreover have "length w = 9 + length n" using l(1) by (simp add: w)
  then have "take (9 + length n) (w @ b) = w" by simp
  ultimately show ?thesis using l d assms(2) by (simp add: cve_at_def Let_def) (simp add: w startswith_def)
qed

lemma cve_at_iff: "cve_at s = Some w \<longleftrightarrow> (\<exists>b. s = w @ b \<and> cve_id w \<and> word_ends b)"
  using cve_at_Some cve_at_prefix by blast

text \<open>After a digit, the word ends only where the run of digits does.\<close>

lemma digits_then_boundary:
  assumes "is_digit p"
  shows "concat (map (rx_run WordBoundary) (run_states is_digit (Some p, s, caps)))
    = (if word_ends (dropWhile is_digit s)
       then [(last_opt (Some p) (takeWhile is_digit s), dropWhile is_digit s, caps)] else [])"
  using assms
proof (induction s arbitrary: p)
  case Nil
  then show ?case by (simp add: run_states_def at_boundary_def word_ends_def digit_is_word)
next
  case (Cons c s)
  show ?case
  proof (cases "is_digit c")
    case True
    have up: "rev [0..<Suc (Suc m)] = map Suc (rev [0..<Suc m]) @ [0]" for m
      by (simp only: upt_conv_Cons [of 0 "Suc (Suc m)"] map_Suc_upt [symmetric]) (simp add: rev_map)
    have "run_states is_digit (Some p, c # s, caps) = run_states is_digit (Some c, s, caps) @ [(Some p, c # s, caps)]"
      using True by (simp add: run_states_def up del: upt_Suc)
    moreover have "rx_run WordBoundary (Some p, c # s, caps) = []"
      using True Cons.prems by (simp add: at_boundary_def digit_is_word)
    ultimately show ?thesis using Cons.IH [OF True] True by simp
  next
    case False
    then show ?thesis using Cons.prems
      by (simp add: run_states_def at_boundary_def word_ends_def digit_is_word)
  qed
qed

lemma boundary_step: "rx_run (seqs (WordBoundary # rs)) t = (if at_boundary t then rx_run (seqs rs) t else [])"
  by simp

lemma lit_step:
  "rx_run (seqs (lit p # rs)) (prev, s, caps) =
     (if startswith s p then rx_run (seqs rs) (last_opt prev p, drop (length p) s, caps) else [])"
  by (simp add: rx_run_lit)

lemma digits_step:
  "rx_run (seqs (replicate k digit_rx @ rs)) (prev, s, caps) =
     (if k \<le> length s \<and> list_all is_digit (take k s)
      then rx_run (seqs rs) (last_opt prev (take k s), drop k s, caps) else [])"
proof (induction k arbitrary: prev s)
  case (Suc k)
  then show ?case by (cases s) (simp_all add: digit_rx_def)
qed simp

lemma digits_split:
  assumes "list_all is_digit (take k r)"
  shows "takeWhile is_digit r = take k r @ takeWhile is_digit (drop k r)"
    and "dropWhile is_digit r = dropWhile is_digit (drop k r)"
  using assms takeWhile_append2 [of "take k r" is_digit "drop k r"] dropWhile_append2 [of "take k r" is_digit "drop k r"]
  by (auto simp: list_all_iff)

lemma four_digits: "4 \<le> length (takeWhile is_digit r) \<longleftrightarrow> 4 \<le> length r \<and> list_all is_digit (take 4 r)"
proof
  assume a: "4 \<le> length (takeWhile is_digit r)"
  then have "take 4 r = take 4 (takeWhile is_digit r)" by (metis append_eq_append_conv2 takeWhile_dropWhile_id take_append diff_is_0_eq' take0 append_Nil2)
  with a show "4 \<le> length r \<and> list_all is_digit (take 4 r)"
    by (metis (no_types, lifting) in_set_takeD le_trans length_takeWhile_le list_all_iff set_takeWhileD)
next
  assume a: "4 \<le> length r \<and> list_all is_digit (take 4 r)"
  then show "4 \<le> length (takeWhile is_digit r)" using digits_split(1) [of 4 r] by simp
qed

text \<open>The expression of an identifier, in the order of its parts.\<close>

lemma cve_re_steps:
  "rx_run cve_re (prev, s, caps) =
     (if at_boundary (prev, s, caps) \<and> startswith s ''CVE-'' \<and> 4 \<le> length (drop 4 s) \<and> list_all is_digit (take 4 (drop 4 s))
         \<and> startswith (drop 8 s) ''-'' \<and> 4 \<le> length (drop 9 s) \<and> list_all is_digit (take 4 (drop 9 s))
      then rx_run (seqs [Star digit_rx, WordBoundary]) (last_opt (Some (CHR ''-'')) (take 4 (drop 9 s)), drop 4 (drop 9 s), caps)
      else [])"
proof -
  have "cve_re = seqs (WordBoundary # lit ''CVE-'' # replicate 4 digit_rx @ lit ''-'' # replicate 4 digit_rx
     @ [Star digit_rx, WordBoundary])"
    by (simp add: cve_re_def numeral_eq_Suc)
  note parts = this
  have four: "Suc (Suc (Suc (Suc 0))) = 4" by simp
  show ?thesis
    unfolding parts by (simp del: rx_run_seqs(2) add: boundary_step lit_step digits_step four add.commute)
qed

lemma digits_end:
  assumes "4 \<le> length r" and "list_all is_digit (take 4 r)"
  shows "rx_run (seqs [Star digit_rx, WordBoundary]) (last_opt prev (take 4 r), drop 4 r, caps) =
    (if word_ends (dropWhile is_digit r)
     then [(last_opt prev (takeWhile is_digit r), dropWhile is_digit r, caps)] else [])"
proof -
  let ?p = "last (take 4 r)"
  have ne: "take 4 r \<noteq> []" using assms(1) by auto
  then have p: "last_opt prev (take 4 r) = Some ?p" "is_digit ?p"
    using assms(2) by (auto simp: last_opt_def list_all_iff)
  note k = digits_split [OF assms(2)]
  have "last_opt (Some ?p) (takeWhile is_digit (drop 4 r)) = last_opt prev (takeWhile is_digit r)"
    unfolding k(1) using ne by (auto simp: last_opt_def)
  moreover have "rx_run (seqs [WordBoundary]) = rx_run WordBoundary" by (rule ext) simp
  ultimately show ?thesis
    using digits_then_boundary [OF p(2), of "drop 4 r" caps]
    unfolding p(1) k(2) digit_rx_def rx_run_seqs(2) [of "Star (Cls is_digit)"] rx_run_Star_class by simp
qed

lemma cve_run:
  "rx_run cve_re (prev, s, caps) = (case cve_at s of
     Some w \<Rightarrow> (if word_before prev then [] else [(Some (last w), drop (length w) s, caps)])
   | None \<Rightarrow> [])"
proof -
  let ?r = "drop 9 s" let ?n = "takeWhile is_digit ?r"
  define good where "good \<longleftrightarrow> startswith s ''CVE-'' \<and> 4 \<le> length (drop 4 s) \<and> list_all is_digit (take 4 (drop 4 s))
    \<and> startswith (drop 8 s) ''-'' \<and> 4 \<le> length ?r \<and> list_all is_digit (take 4 ?r)"
  have at: "cve_at s = (if good \<and> word_ends (dropWhile is_digit ?r) then Some (take (9 + length ?n) s) else None)"
    by (simp only: cve_at_def Let_def four_digits good_def dropWhile_eq_drop length_take length_drop) (auto simp: min_def)
  have before: "at_boundary (prev, s, caps) \<longleftrightarrow> \<not> word_before prev" if good
  proof -
    have "startswith s ''CVE-''" using that good_def by blast
    then obtain t where "s = ''CVE-'' @ t" by (auto simp: startswith_iff)
    moreover have "is_word (CHR ''C'')" by code_simp
    ultimately show ?thesis by (simp add: at_boundary_def word_before_def)
  qed
  have run: "rx_run cve_re (prev, s, caps) = (if good \<and> at_boundary (prev, s, caps)
      then rx_run (seqs [Star digit_rx, WordBoundary]) (last_opt (Some (CHR ''-'')) (take 4 ?r), drop 4 ?r, caps) else [])"
    unfolding cve_re_steps good_def by (simp only: conj_ac)
  show ?thesis
  proof (cases good)
    case True
    then have g: "4 \<le> length ?r" "list_all is_digit (take 4 ?r)" by (simp_all add: good_def)
    then have n: "?n \<noteq> []" using four_digits [of ?r] by auto
    have w: "take (9 + length ?n) s = take 9 s @ ?n" by (simp add: take_add takeWhile_eq_take [symmetric])
    have l: "length (take (9 + length ?n) s) = 9 + length ?n"
      using length_takeWhile_le [of is_digit ?r] g(1) by simp
    have "last_opt (Some (CHR ''-'')) ?n = Some (last (take (9 + length ?n) s))" using n by (simp add: w last_opt_def)
    moreover have "drop (length (take (9 + length ?n) s)) s = dropWhile is_digit ?r"
      unfolding l by (simp add: dropWhile_eq_drop add.commute)
    ultimately show ?thesis
      unfolding at run using True before digits_end [OF g, of "Some (CHR ''-'')" caps] by simp
  qed (simp add: at run)
qed

text \<open>The occurrences of an identifier in a text that follows the character \<open>prev\<close>.\<close>

definition occurs :: "char option \<Rightarrow> pystr \<Rightarrow> pystr \<Rightarrow> bool" where
  "occurs prev s w \<longleftrightarrow> cve_id w \<and> (\<exists>a b. s = a @ w @ b \<and> \<not> word_before (last_opt prev a) \<and> word_ends b)"

definition cve_here :: "char option \<Rightarrow> pystr \<Rightarrow> pystr option" where
  "cve_here prev s = (if word_before prev then None else cve_at s)"

lemma occurs_Nil [simp]: "\<not> occurs prev [] w"
  by (auto simp: occurs_def cve_id_def)

lemma occurs_Cons: "occurs prev (c # s) w \<longleftrightarrow> cve_here prev (c # s) = Some w \<or> occurs (Some c) s w"
proof
  assume "occurs prev (c # s) w"
  then obtain a b where ab: "c # s = a @ w @ b" "\<not> word_before (last_opt prev a)" "word_ends b" "cve_id w"
    by (auto simp: occurs_def)
  show "cve_here prev (c # s) = Some w \<or> occurs (Some c) s w"
  proof (cases a)
    case Nil
    with ab show ?thesis by (auto simp: cve_here_def cve_at_iff)
  next
    case (Cons d a')
    with ab have "s = a' @ w @ b" "\<not> word_before (last_opt (Some c) a')" by auto
    with ab show ?thesis unfolding occurs_def by blast
  qed
next
  assume "cve_here prev (c # s) = Some w \<or> occurs (Some c) s w"
  then show "occurs prev (c # s) w"
  proof
    assume "cve_here prev (c # s) = Some w"
    then obtain b where "c # s = [] @ w @ b" "cve_id w" "word_ends b" "\<not> word_before (last_opt prev [])"
      by (auto simp: cve_here_def cve_at_iff split: if_splits)
    then show ?thesis unfolding occurs_def by blast
  next
    assume "occurs (Some c) s w"
    then obtain a b where "c # s = (c # a) @ w @ b" "\<not> word_before (last_opt prev (c # a))" "word_ends b" "cve_id w"
      by (auto simp: occurs_def)
    then show ?thesis unfolding occurs_def by blast
  qed
qed

text \<open>An identifier begins with its only letter C, so no other one begins inside it.\<close>

lemma cve_id_parts: "cve_id w \<Longrightarrow> \<exists>t. w = CHR ''C'' # t \<and> CHR ''C'' \<notin> set t"
proof -
  assume "cve_id w"
  then obtain y n where w: "w = ''CVE-'' @ y @ ''-'' @ n" and d: "list_all is_digit (y @ n)" by (auto simp: cve_id_def)
  have "\<not> is_digit (CHR ''C'')" by code_simp
  then have "CHR ''C'' \<notin> set (''VE-'' @ y @ ''-'' @ n)" using d by (auto simp: list_all_iff)
  then show ?thesis by (intro exI [of _ "''VE-'' @ y @ ''-'' @ n"]) (simp add: w)
qed

lemma occurs_skip: "CHR ''C'' \<notin> set u \<Longrightarrow> occurs p (u @ s) v \<longleftrightarrow> occurs (last_opt p u) s v"
proof (induction u arbitrary: p)
  case (Cons c u)
  have "cve_here p (c # u @ s) \<noteq> Some v"
    using Cons.prems by (auto simp: cve_here_def cve_at_iff dest!: cve_id_parts split: if_splits)
  with Cons show ?case by (simp add: occurs_Cons)
qed simp

lemma first_cve:
  "re_first (Group 0 cve_re) prev s =
     map_option (\<lambda>w. (Some (last w), drop (length w) s, [(0, w)])) (cve_here prev s)"
proof (cases "cve_at s")
  case (Some w)
  then obtain b where "s = w @ b" by (auto simp: cve_at_iff)
  with Some show ?thesis by (simp add: re_first_def cve_run cve_here_def rx_rest_def)
qed (simp add: re_first_def cve_run cve_here_def)

lemma search_cve:
  "case re_search_from (Group 0 cve_re) prev s of
     None \<Rightarrow> \<forall>v. \<not> occurs prev s v
   | Some (prev', s', caps) \<Rightarrow> length s' < length s \<and>
       (\<exists>w. caps = [(0, w)] \<and> (\<forall>v. occurs prev s v \<longleftrightarrow> v = w \<or> occurs prev' s' v))"
proof (induction s arbitrary: prev)
  case Nil
  have "cve_here prev [] = None" by (simp add: cve_here_def cve_at_def startswith_def)
  then show ?case by (simp add: first_cve)
next
  case (Cons c s)
  show ?case
  proof (cases "cve_here prev (c # s)")
    case None
    with Cons [of "Some c"] show ?thesis by (simp add: first_cve occurs_Cons split: option.splits) auto
  next
    case (Some w)
    then obtain b where b: "c # s = w @ b" "cve_id w" by (auto simp: cve_here_def cve_at_iff split: if_splits)
    then obtain t where t: "w = CHR ''C'' # t" "CHR ''C'' \<notin> set t" using cve_id_parts by blast
    then have s: "s = t @ b" "c = CHR ''C''" using b(1) by auto
    have last: "last_opt (Some c) t = Some (last w)" by (simp add: t(1) s(2) last_opt_def)
    have "occurs prev (c # s) v \<longleftrightarrow> v = w \<or> occurs (Some (last w)) b v" for v
      using Some occurs_skip [OF t(2), of "Some c" b v] by (auto simp: occurs_Cons s(1) last)
    then show ?thesis using Some b(1) t(1) by (simp add: first_cve)
  qed
qed

lemma findall_cve:
  "length s \<le> n \<Longrightarrow>
   w \<in> set (map (\<lambda>t. the (re_group 0 t)) (re_findall_from n (Group 0 cve_re) prev s)) \<longleftrightarrow> occurs prev s w"
proof (induction n arbitrary: prev s)
  case (Suc n)
  show ?case
  proof (cases "re_search_from (Group 0 cve_re) prev s")
    case None
    with search_cve [of prev s] show ?thesis by simp
  next
    case (Some r)
    obtain prev' s' caps where r: "r = (prev', s', caps)" by (cases r)
    with Some search_cve [of prev s] obtain v where l: "length s' < length s" and caps: "caps = [(0, v)]"
      and o: "\<And>x. occurs prev s x \<longleftrightarrow> x = v \<or> occurs prev' s' x" by auto
    have "length s' \<le> n" using l Suc.prems by simp
    from Suc.IH [OF this, of prev'] show ?thesis
      unfolding o by (auto simp: Some r caps re_group_def)
  qed
qed simp

lemma cve_findall_iff: "w \<in> set (cve_findall s) \<longleftrightarrow> cve_id w \<and> occurs_as_word s w"
  using findall_cve [of s "length s" w None]
  by (simp add: cve_findall_def re_findall_def occurs_def occurs_as_word_def)

lemma cve_fullmatch_iff: "cve_fullmatch s \<longleftrightarrow> cve_id s"
proof -
  have "cve_fullmatch s \<longleftrightarrow> (\<exists>w. cve_at s = Some w \<and> length s \<le> length w)"
    by (auto simp: cve_fullmatch_def cve_run word_before_def rx_rest_def split: option.splits)
  also have "\<dots> \<longleftrightarrow> cve_at s = Some s"
    by (auto simp: cve_at_iff)
  also have "\<dots> \<longleftrightarrow> cve_id s" by (auto simp: cve_at_iff word_ends_def)
  finally show ?thesis .
qed

section \<open>The verdict of the gate\<close>

text \<open>A well-formed exception, and the identifiers whose exceptions all hold on a day.\<close>

definition exception_of :: "(pystr \<Rightarrow> date option) \<Rightarrow> pyvals \<Rightarrow> json \<Rightarrow> (pystr \<times> date) option" where
  "exception_of later_forms py item = (case item of
     JObj d \<Rightarrow>
       (if cve_id (stripped_field py d ''id'') \<and> stripped_field py d ''expires'' \<noteq> [] \<and> stripped_field py d ''rationale'' \<noteq> []
        then map_option (Pair (stripped_field py d ''id'')) (date_fromisoformat later_forms (stripped_field py d ''expires''))
        else None)
   | _ \<Rightarrow> None)"

definition reviewed_on :: "date \<Rightarrow> (pystr \<times> date) list \<Rightarrow> pystr \<Rightarrow> bool" where
  "reviewed_on today xs c \<longleftrightarrow> c \<in> set (map fst xs) \<and> list_all (\<lambda>(c', d). c' \<noteq> c \<or> today \<le> d) xs"

lemma map_Some_Cons:
  "f i = Some x \<Longrightarrow> (\<exists>xs. map f (i # is) = map Some xs \<and> P xs) \<longleftrightarrow> (\<exists>ys. map f is = map Some ys \<and> P (x # ys))"
  by (auto simp: Cons_eq_map_conv)

lemma read_exceptions_iff:
  "read_exceptions later_forms py today items active expired = Inr (a, e) \<longleftrightarrow>
     (\<exists>xs. map (exception_of later_forms py) items = map Some xs
       \<and> a = active @ map fst (filter (\<lambda>(c, d). \<not> d < today) xs)
       \<and> e = expired @ map fst (filter (\<lambda>(c, d). d < today) xs))"
proof (induction items arbitrary: active expired)
  case (Cons item items)
  show ?case
  proof (cases "exception_of later_forms py item")
    case None
    then have "\<not> (\<exists>p. read_exceptions later_forms py today (item # items) active expired = Inr p)"
      by (auto simp: exception_of_def cve_fullmatch_iff Let_def split: json.splits if_splits)
    with None show ?thesis by auto
  next
    case (Some x)
    obtain c d where x: "x = (c, d)" by (cases x)
    have "read_exceptions later_forms py today (item # items) active expired =
        (if d < today then read_exceptions later_forms py today items active (expired @ [c])
         else read_exceptions later_forms py today items (active @ [c]) expired)"
      using Some by (auto simp: x exception_of_def cve_fullmatch_iff Let_def split: json.splits if_splits)
    then show ?thesis
      unfolding map_Some_Cons [of "exception_of later_forms py" item, OF Some] by (cases "d < today") (simp_all add: x Cons.IH)
  qed
qed auto

lemma set_sorted_set [simp]: "set (sorted_set xs) = set xs" and sorted_set_Nil [simp]: "sorted_set xs = [] \<longleftrightarrow> xs = []"
  by (auto simp: sorted_set_def) (metis remdups_eq_nil_iff set_sort set_empty)

lemma reviewed_verdict:
  "filter (\<lambda>c. c \<notin> set (map fst (filter (\<lambda>(c, d). \<not> d < today) xs))) found = []
    \<and> filter (\<lambda>c. c \<in> set (map fst (filter (\<lambda>(c, d). d < today) xs))) found = []
    \<longleftrightarrow> list_all (reviewed_on today xs) found"
  by (fastforce simp: filter_empty_conv list_all_iff reviewed_on_def not_less)

text \<open>
  C24 The gate is exact: it exits with 0 if and only if the scanner ran, the list of exceptions is
  well formed, and every CVE identifier that occurs as a word in the report has an exception and
  none of its exceptions has expired on that day.
\<close>

theorem security_gate_exact:
  "security_main later_forms py ss w img allowlist_path = Inr 0 \<longleftrightarrow>
    (\<exists>out err s data items xs. ss_run ss w (scout_command img) 300 = Completed 0 out err
      \<and> ss_read ss w allowlist_path = Inr s \<and> json_loads s = Some (JObj data)
      \<and> json_items (jget_or data ''exceptions'' (JArr [])) = Inr items
      \<and> map (exception_of later_forms py) items = map Some xs
      \<and> {c. cve_id c \<and> occurs_as_word out c} \<subseteq> {c. reviewed_on (ss_today ss w) xs c})"
    (is "?exit \<longleftrightarrow> ?ok")
proof -
  let ?today = "ss_today ss w"
  have report: "(\<exists>r. evaluate_report later_forms py out d ?today = Inr r \<and> sr_unexpected r = [] \<and> sr_expired r = []) \<longleftrightarrow>
      (\<exists>data items xs. d = JObj data \<and> json_items (jget_or data ''exceptions'' (JArr [])) = Inr items
        \<and> map (exception_of later_forms py) items = map Some xs \<and> list_all (reviewed_on ?today xs) (cve_findall out))"
    for out d
  proof (cases d)
    case (JObj data)
    show ?thesis
    proof (cases "json_items (jget_or data ''exceptions'' (JArr []))")
      case (Inr items)
      have "(\<exists>r. evaluate_report later_forms py out d ?today = Inr r \<and> sr_unexpected r = [] \<and> sr_expired r = []) \<longleftrightarrow>
          (\<exists>a e. read_exceptions later_forms py ?today items [] [] = Inr (a, e)
            \<and> filter (\<lambda>c. c \<notin> set a) (cve_findall out) = [] \<and> filter (\<lambda>c. c \<in> set e) (cve_findall out) = [])"
        by (auto simp: evaluate_report_def JObj Inr Let_def split: sum.splits)
      also have "\<dots> \<longleftrightarrow> (\<exists>xs. map (exception_of later_forms py) items = map Some xs
            \<and> list_all (reviewed_on ?today xs) (cve_findall out))"
        unfolding read_exceptions_iff append_Nil reviewed_verdict [symmetric] by blast
      finally show ?thesis by (simp add: JObj Inr)
    qed (simp add: evaluate_report_def JObj)
  qed (simp_all add: evaluate_report_def)
  have words: "list_all P (cve_findall out) \<longleftrightarrow> {c. cve_id c \<and> occurs_as_word out c} \<subseteq> {c. P c}" for P out
    using cve_findall_iff [of _ out] by (auto simp: list_all_iff)
  have "?exit \<longleftrightarrow> (\<exists>r. verify_image later_forms py ss w img allowlist_path = Inr r \<and> sr_unexpected r = [] \<and> sr_expired r = [])"
    by (auto simp: security_main_def split: sum.splits if_splits)
  also have "\<dots> \<longleftrightarrow> (\<exists>out err s d. ss_run ss w (scout_command img) 300 = Completed 0 out err
      \<and> ss_read ss w allowlist_path = Inr s \<and> json_loads s = Some d
      \<and> (\<exists>r. evaluate_report later_forms py out d ?today = Inr r \<and> sr_unexpected r = [] \<and> sr_expired r = []))"
    by (auto simp: verify_image_def split: proc.splits if_splits sum.splits option.splits)
  finally show ?thesis unfolding report words by blast
qed

text \<open>A report with one finding, which has a reviewed exception.\<close>

definition demo_allowlist :: pystr where
  "demo_allowlist = (let q = [CHR 0x22]; item = (\<lambda>i. ''{'' @ q @ ''id'' @ q @ '':'' @ q @ ''CVE-2024-'' @ i @ q @ '',''
     @ q @ ''expires'' @ q @ '':'' @ q @ ''0009-01-31'' @ q @ '','' @ q @ ''rationale'' @ q @ '':'' @ q @ ''r'' @ q @ ''}'') in
     ''{'' @ q @ ''exceptions'' @ q @ '':['' @ item ''1111'' @ '']}'')"

definition demo_scout :: "unit scout_system" where
  "demo_scout = \<lparr>ss_run = \<lambda>w c t. Completed 0 ''x CVE-2024-1111'' [],
     ss_read = \<lambda>w p. Inr demo_allowlist, ss_today = \<lambda>w. (9, 1, 31)\<rparr>"

theorem security_gate_exact_witness:
  "\<exists>out err s data items xs. ss_run demo_scout () (scout_command ''i'') 300 = Completed 0 out err
      \<and> ss_read demo_scout () ''a'' = Inr s \<and> json_loads s = Some (JObj data)
      \<and> json_items (jget_or data ''exceptions'' (JArr [])) = Inr items
      \<and> map (exception_of (\<lambda>s. None) demo_py) items = map Some xs
      \<and> {c. cve_id c \<and> occurs_as_word out c} \<subseteq> {c. reviewed_on (ss_today demo_scout ()) xs c}"
proof -
  have "security_main (\<lambda>s. None) demo_py demo_scout () ''i'' ''a'' = Inr 0" by code_simp
  then show ?thesis unfolding security_gate_exact .
qed

end
